(* ===== verification/Doubles.thy ===== *)
theory Doubles
  imports Complex_Main
begin

text \<open>
  Python's \<open>float\<close>: an IEEE 754 double is a rational on the grid of its binade, or one of the three
  special values; the sign of a zero is not kept, no operation of the program shows it. Every
  operation computes the exact result and rounds it to nearest, halves to even. Rounding is
  proved monotone, exact on doubles, and never to collapse two different doubles.
\<close>

section \<open>Rounding\<close>

definition round_half_even :: "rat \<Rightarrow> int" where
  "round_half_even x =
     (let f = \<lfloor>x\<rfloor>; r = x - of_int f
      in if r < 1 / 2 then f else if r > 1 / 2 then f + 1 else if even f then f else f + 1)"

definition power2 :: "int \<Rightarrow> rat" where
  "power2 e = (if 0 \<le> e then 2 ^ nat e else 1 / 2 ^ nat (- e))"

text \<open>The exponent of the last of the 53 bits, among \<open>-1074 .. 971\<close>.\<close>

definition binade :: "rat \<Rightarrow> int" where
  "binade x = (case List.find (\<lambda>e. \<bar>x\<bar> < 2 ^ 53 * power2 e) [-1074..971] of None \<Rightarrow> 971 | Some e \<Rightarrow> e)"

definition nearest :: "rat \<Rightarrow> rat" where
  "nearest x = of_int (round_half_even (x / power2 (binade x))) * power2 (binade x)"

datatype double = Finite rat | Infinite | Minus_Infinite | Not_A_Number

definition to_double :: "rat \<Rightarrow> double" where
  "to_double x =
     (if \<bar>nearest x\<bar> < 2 ^ 53 * power2 971 then Finite (nearest x)
      else if 0 < x then Infinite else Minus_Infinite)"

subsection \<open>Halves to even\<close>

lemma round_half_even_of_int [simp]: "round_half_even (of_int n) = n"
  by (simp add: round_half_even_def)

lemma round_half_even_nonneg: "0 \<le> x \<Longrightarrow> 0 \<le> round_half_even x"
  by (simp add: round_half_even_def Let_def)

lemma round_half_even_error: "\<bar>of_int (round_half_even x) - x\<bar> \<le> 1 / 2"
proof -
  define f where "f = \<lfloor>x\<rfloor>"
  have "of_int f \<le> x" "x < of_int f + 1" unfolding f_def by linarith+
  then show ?thesis
    unfolding round_half_even_def Let_def f_def [symmetric] by (auto simp: abs_if)
qed

lemma round_half_even_mono:
  assumes "x \<le> y"
  shows "round_half_even x \<le> round_half_even y"
proof (rule ccontr)
  assume "\<not> ?thesis"
  then have less: "round_half_even y + 1 \<le> round_half_even x" by simp
  have "of_int (round_half_even x) - 1 / 2 \<le> x" "y \<le> of_int (round_half_even y) + 1 / 2"
    using round_half_even_error [of x] round_half_even_error [of y] by (simp_all only: abs_le_iff) linarith+
  moreover have "of_int (round_half_even y) + 1 \<le> (of_int (round_half_even x) :: rat)"
    using less by (metis of_int_1 of_int_add of_int_le_iff)
  ultimately have "x = y" using assms by linarith
  with less show False by simp
qed

lemma round_half_even_minus: "round_half_even (- x) = - round_half_even x"
proof (cases "x = of_int \<lfloor>x\<rfloor>")
  case True
  then have "- x = of_int (- \<lfloor>x\<rfloor>)" by simp
  then show ?thesis by (metis True round_half_even_of_int)
next
  case False
  define f where "f = \<lfloor>x\<rfloor>"
  have "\<lfloor>- x\<rfloor> = - f - 1"
    using False unfolding f_def by (intro floor_unique) (simp_all, linarith+)
  then show ?thesis
    unfolding round_half_even_def f_def [symmetric] by (auto simp: Let_def)
qed

subsection \<open>Binades\<close>

lemma power2_pos [simp]: "0 < power2 e"
  by (simp add: power2_def)

lemma power2_nonzero [simp]: "power2 e \<noteq> 0"
  using power2_pos [of e] by (simp del: power2_pos)

lemma abs_power2 [simp]: "\<bar>power2 e\<bar> = power2 e"
  using power2_pos [of e] by (simp del: power2_pos)

lemma power2_add: "power2 (a + b) = power2 a * power2 b"
proof -
  have "power2 e = power_int 2 e" for e by (simp add: power2_def power_int_def divide_simps)
  then show ?thesis by (simp add: power_int_add)
qed

lemma power2_of_nat: "power2 (int n) = 2 ^ n"
  by (simp add: power2_def)

lemma power2_powi: "power2 e = 2 powi e"
  by (simp add: power2_def power_int_def divide_simps)

lemma power2_mono: "a \<le> b \<Longrightarrow> power2 a \<le> power2 b"
  by (simp add: power2_powi power_int_increasing)

lemma power2_Suc: "power2 (e + 1) = 2 * power2 e"
  using power2_add [of e 1] by (simp add: power2_def)

lemma binade_minus [simp]: "binade (- x) = binade x"
  by (simp add: binade_def)

lemma find_upto_Some:
  assumes "List.find P [a..b] = Some e"
  shows "a \<le> e \<and> e \<le> b \<and> P e \<and> (e = a \<or> \<not> P (e - 1))"
proof -
  obtain i where i: "i < length [a..b]" "P ([a..b] ! i)" "e = [a..b] ! i" "\<And>j. j < i \<Longrightarrow> \<not> P ([a..b] ! j)"
    using assms by (auto simp: find_Some_iff)
  have e: "e = a + int i" "e \<le> b" using i(1,3) by auto
  have "\<not> P (e - 1)" if "e \<noteq> a"
  proof -
    have "0 < i" using that e by simp
    moreover from this have "[a..b] ! (i - 1) = e - 1" using i(1) e by simp
    ultimately show ?thesis using i(4) [of "i - 1"] by simp
  qed
  with i(2,3) e show ?thesis by auto
qed

lemma find_upto_None: "List.find P [a..b] = None \<Longrightarrow> a \<le> e \<Longrightarrow> e \<le> b \<Longrightarrow> \<not> P e"
  by (simp add: find_None_iff)

lemma binade_spec:
  "-1074 \<le> binade x \<and> binade x \<le> 971
   \<and> (\<bar>x\<bar> < 2 ^ 53 * power2 (binade x) \<or> binade x = 971)
   \<and> (binade x = -1074 \<or> 2 ^ 52 * power2 (binade x) \<le> \<bar>x\<bar>)"
proof (cases "List.find (\<lambda>e. \<bar>x\<bar> < 2 ^ 53 * power2 e) [-1074..971]")
  case None
  then have "binade x = 971" unfolding binade_def by (simp only: option.case)
  moreover have "2 ^ 53 * power2 970 \<le> \<bar>x\<bar>" using find_upto_None [OF None, of 970] by (simp add: not_less)
  ultimately show ?thesis using power2_Suc [of 970] by simp
next
  case (Some e)
  then have "binade x = e" unfolding binade_def by (simp only: option.case)
  moreover note find_upto_Some [OF Some]
  moreover have "power2 e = 2 * power2 (e - 1)" using power2_Suc [of "e - 1"] by simp
  ultimately show ?thesis by auto
qed

subsection \<open>Rounding to nearest\<close>

lemma nearest_minus: "nearest (- x) = - nearest x"
  by (simp add: nearest_def round_half_even_minus)

lemma nearest_zero [simp]: "nearest 0 = 0"
  by (simp add: nearest_def round_half_even_of_int [of 0, simplified])

lemma nearest_nonneg: "0 \<le> x \<Longrightarrow> 0 \<le> nearest x"
  by (simp add: nearest_def round_half_even_nonneg less_imp_le)

text \<open>Within a binade the rounded values are in \<open>2 ^ 52 .. 2 ^ 53\<close> units.\<close>

lemma nearest_bounds:
  assumes "0 \<le> x"
  shows "binade x = 971 \<or> nearest x \<le> 2 ^ 53 * power2 (binade x)"
    and "binade x = -1074 \<or> 2 ^ 52 * power2 (binade x) \<le> nearest x"
proof -
  let ?p = "power2 (binade x)"
  note spec = binade_spec [of x]
  show "binade x = 971 \<or> nearest x \<le> 2 ^ 53 * ?p"
  proof (cases "binade x = 971")
    case False
    then have "x / ?p \<le> of_int (2 ^ 53)" using spec assms by (simp add: pos_divide_le_eq)
    from round_half_even_mono [OF this] have "round_half_even (x / ?p) \<le> 2 ^ 53"
      by (simp only: round_half_even_of_int)
    then have "(of_int (round_half_even (x / ?p)) :: rat) \<le> of_int (2 ^ 53)" by (simp only: of_int_le_iff)
    then have "nearest x \<le> 2 ^ 53 * ?p" unfolding nearest_def by (simp add: mult_right_mono less_imp_le)
    then show ?thesis ..
  qed simp
  show "binade x = -1074 \<or> 2 ^ 52 * ?p \<le> nearest x"
  proof (cases "binade x = -1074")
    case False
    then have "of_int (2 ^ 52) \<le> x / ?p" using spec assms by (simp add: pos_le_divide_eq)
    from round_half_even_mono [OF this] have "2 ^ 52 \<le> round_half_even (x / ?p)"
      by (simp only: round_half_even_of_int)
    then have "of_int (2 ^ 52) \<le> (of_int (round_half_even (x / ?p)) :: rat)" by (simp only: of_int_le_iff)
    then have "2 ^ 52 * ?p \<le> nearest x" unfolding nearest_def by (simp add: mult_right_mono less_imp_le)
    then show ?thesis ..
  qed simp
qed

lemma nearest_mono_nonneg:
  assumes "0 \<le> x" "x \<le> y"
  shows "nearest x \<le> nearest y"
proof (cases "binade x = binade y")
  case True
  have "x / power2 (binade x) \<le> y / power2 (binade x)"
    using assms(2) by (simp add: divide_right_mono less_imp_le)
  then show ?thesis
    using True by (simp add: nearest_def round_half_even_mono mult_right_mono less_imp_le)
next
  case False
  have "binade x \<le> binade y"
  proof (rule ccontr)
    assume less: "\<not> ?thesis"
    then have "2 ^ 52 * power2 (binade x) \<le> x" "y < 2 ^ 53 * power2 (binade y)"
      using binade_spec [of x] binade_spec [of y] assms by auto
    moreover have "2 ^ 53 * power2 (binade y) \<le> 2 ^ 52 * power2 (binade x)"
      using power2_mono [of "binade y + 1" "binade x"] less power2_Suc [of "binade y"] by simp
    ultimately show False using assms(2) by linarith
  qed
  then have less: "binade x + 1 \<le> binade y" using False by simp
  then have "binade x \<noteq> 971" "binade y \<noteq> -1074" using binade_spec [of x] binade_spec [of y] by auto
  then have "nearest x \<le> 2 ^ 53 * power2 (binade x)" "2 ^ 52 * power2 (binade y) \<le> nearest y"
    using nearest_bounds(1) [of x] nearest_bounds(2) [of y] assms by auto
  moreover have "2 ^ 53 * power2 (binade x) \<le> 2 ^ 52 * power2 (binade y)"
    using power2_mono [OF less] power2_Suc [of "binade x"] by simp
  ultimately show ?thesis by linarith
qed

lemma nearest_mono: "x \<le> y \<Longrightarrow> nearest x \<le> nearest y"
proof -
  assume "x \<le> y"
  then consider "0 \<le> x" | "x \<le> 0" "0 \<le> y" | "y \<le> 0" by linarith
  then show ?thesis
  proof cases
    case 2
    then have "nearest x \<le> 0" using nearest_nonneg [of "- x"] by (simp add: nearest_minus)
    with 2 nearest_nonneg [of y] show ?thesis by linarith
  next
    case 3
    then show ?thesis
      using nearest_mono_nonneg [of "- y" "- x"] \<open>x \<le> y\<close> by (simp add: nearest_minus)
  qed (use nearest_mono_nonneg \<open>x \<le> y\<close> in auto)
qed

subsection \<open>Doubles are exact\<close>

definition on_grid :: "rat \<Rightarrow> bool" where
  "on_grid x \<longleftrightarrow> (\<exists>m. x = of_int m * power2 (-1074))"

lemma on_grid_power2: "-1074 \<le> e \<Longrightarrow> on_grid (of_int m * power2 e)"
proof -
  assume "-1074 \<le> e"
  moreover have "power2 e = power2 (e + 1074) * power2 (-1074)" using power2_add [of "e + 1074" "-1074"] by simp
  ultimately have "of_int m * power2 e = of_int (m * 2 ^ nat (e + 1074)) * power2 (-1074)"
    by (simp add: power2_def)
  then show ?thesis unfolding on_grid_def by blast
qed

lemma on_grid_nearest [simp]: "on_grid (nearest x)"
  unfolding nearest_def using binade_spec [of x] by (blast intro: on_grid_power2)

lemma on_grid_diff: "on_grid x \<Longrightarrow> on_grid y \<Longrightarrow> on_grid (x - y)"
  unfolding on_grid_def by (metis left_diff_distrib of_int_diff)

lemma nearest_exact:
  assumes "\<bar>m\<bar> < 2 ^ 53" "-1074 \<le> e" "e \<le> 971"
  shows "nearest (of_int m * power2 e) = of_int m * power2 e"
proof -
  let ?x = "of_int m * power2 e"
  have "(of_int \<bar>m\<bar> :: rat) < of_int (2 ^ 53)" using assms(1) by (simp only: of_int_less_iff)
  then have "\<bar>?x\<bar> < 2 ^ 53 * power2 e"
    using mult_strict_right_mono [OF _ power2_pos [of e], of "\<bar>of_int m\<bar>" "2 ^ 53"] power2_pos [of e]
    by (simp add: abs_mult)
  moreover have "\<bar>?x\<bar> \<ge> 2 ^ 53 * power2 e" if "e < binade ?x"
  proof -
    have "2 ^ 52 * power2 (binade ?x) \<le> \<bar>?x\<bar>" using binade_spec [of ?x] assms(2) that by auto
    moreover have "2 ^ 53 * power2 e \<le> 2 ^ 52 * power2 (binade ?x)"
      using power2_mono [of "e + 1" "binade ?x"] that power2_Suc [of e] by simp
    ultimately show ?thesis by linarith
  qed
  ultimately have "binade ?x \<le> e" by fastforce
  moreover have "power2 e = power2 (e - binade ?x) * power2 (binade ?x)"
    using power2_add [of "e - binade ?x" "binade ?x"] by simp
  ultimately have x: "?x = of_int (m * 2 ^ nat (e - binade ?x)) * power2 (binade ?x)"
    by (simp add: power2_def [of "e - binade ?x"])
  then have "?x / power2 (binade ?x) = of_int (m * 2 ^ nat (e - binade ?x))"
    by (metis nonzero_mult_div_cancel_right power2_nonzero)
  then show ?thesis
    unfolding nearest_def by (simp only: round_half_even_of_int x [symmetric])
qed

lemma nearest_of_int: "\<bar>m\<bar> < 2 ^ 53 \<Longrightarrow> nearest (of_int m) = of_int m"
  using nearest_exact [of m 0] by (simp add: power2_def)

lemma nearest_positive:
  assumes "on_grid x" "0 < x"
  shows "0 < nearest x"
proof -
  obtain m where m: "x = of_int m * power2 (-1074)" using assms(1) by (auto simp: on_grid_def)
  have "0 < (of_int m :: rat)"
    using assms(2) zero_less_mult_pos2 [of "of_int m" "power2 (-1074)"] power2_pos [of "-1074"] unfolding m by blast
  then have "(1 :: rat) \<le> of_int m" by simp
  then have "power2 (-1074) \<le> x" unfolding m using mult_right_mono [of 1 "of_int m :: rat" "power2 (-1074)"] by simp
  from nearest_mono [OF this] have "nearest (power2 (-1074)) \<le> nearest x" .
  moreover have "nearest (power2 (-1074)) = power2 (-1074)" using nearest_exact [of 1 "-1074"] by simp
  ultimately show ?thesis using power2_pos [of "-1074"] by linarith
qed

section \<open>Operations\<close>

text \<open>A number on which no operation of the program can tell it from a double is one.\<close>

definition as_double :: "double \<Rightarrow> double" where
  "as_double d = (case d of Finite x \<Rightarrow> to_double x | _ \<Rightarrow> d)"

definition is_finite :: "double \<Rightarrow> bool" where
  "is_finite d = (case d of Finite _ \<Rightarrow> True | _ \<Rightarrow> False)"

definition double_plus :: "double \<Rightarrow> double \<Rightarrow> double" where
  "double_plus a b =
     (case (a, b) of
        (Finite x, Finite y) \<Rightarrow> to_double (x + y)
      | (Infinite, Finite _) \<Rightarrow> Infinite | (Finite _, Infinite) \<Rightarrow> Infinite | (Infinite, Infinite) \<Rightarrow> Infinite
      | (Minus_Infinite, Finite _) \<Rightarrow> Minus_Infinite | (Finite _, Minus_Infinite) \<Rightarrow> Minus_Infinite
      | (Minus_Infinite, Minus_Infinite) \<Rightarrow> Minus_Infinite
      | _ \<Rightarrow> Not_A_Number)"

definition double_uminus :: "double \<Rightarrow> double" where
  "double_uminus a =
     (case a of Finite x \<Rightarrow> Finite (- x) | Infinite \<Rightarrow> Minus_Infinite | Minus_Infinite \<Rightarrow> Infinite
      | Not_A_Number \<Rightarrow> Not_A_Number)"

definition double_minus :: "double \<Rightarrow> double \<Rightarrow> double" where
  "double_minus a b = double_plus a (double_uminus b)"

definition double_less :: "double \<Rightarrow> double \<Rightarrow> bool" where
  "double_less a b \<longleftrightarrow>
     (case (a, b) of
        (Finite x, Finite y) \<Rightarrow> x < y
      | (Minus_Infinite, Finite _) \<Rightarrow> True | (Minus_Infinite, Infinite) \<Rightarrow> True | (Finite _, Infinite) \<Rightarrow> True
      | _ \<Rightarrow> False)"

text \<open>\<open>max(a, b)\<close> keeps \<open>a\<close> unless \<open>b\<close> is greater.\<close>

definition double_max :: "double \<Rightarrow> double \<Rightarrow> double" where
  "double_max a b = (if double_less a b then b else a)"

end
