(* ===== verification/Prelude.thy ===== *)
theory Prelude
  imports Main "HOL-Library.Char_ord" "HOL-Library.List_Lexorder"
begin

text \<open>
  Shared vocabulary of the development: the exceptions the request runtime raises, the
  transaction type that every repository operation is written in, the SQL-like row
  operations (select by key, update where, count) and the lemmas about them that every
  component proof uses.

  A transaction maps a state to an exception or to a value and a new state. Running it
  (\<open>run_tx\<close>) keeps the old state on an exception, which is the rollback of the
  context manager \<open>with _connect(...) as connection\<close> in
  \<open>requests/storage.py\<close>.
\<close>

named_theorems tx_simps \<open>what a transaction step returns\<close>
named_theorems tx_wp \<open>weakest preconditions of transaction steps\<close>
named_theorems tx_ok \<open>transaction steps that are sure to commit\<close>
named_theorems tx_rel_intros \<open>steps that respect a preorder on states\<close>
named_theorems tx_frame \<open>steps that leave a part of the state alone\<close>
named_theorems row_simps \<open>row operations on tables\<close>

section \<open>Exceptions\<close>

text \<open>
  \<open>StorageError c\<close> is \<open>RuntimeStorageError\<close> with its code; \<open>ValidationError\<close> is the
  exception pydantic raises for an argument that breaks its contract; \<open>SqliteError\<close> is a
  constraint violation inside a transaction, which each operation translates to a
  \<open>StorageError\<close>; \<open>OverflowError\<close> is what \<open>datetime\<close> arithmetic raises outside its range;
  \<open>OsError\<close> and \<open>ValueError\<close> are what file operations and \<open>json.loads\<close> raise.
\<close>

datatype exn =
    StorageError string
  | ValidationError
  | SqliteError
  | OverflowError
  | OsError
  | ValueError

type_synonym ('s, 'a) tx = "'s \<Rightarrow> exn + ('a \<times> 's)"

section \<open>Transactions\<close>

definition tx_return :: "'a \<Rightarrow> ('s, 'a) tx" where
  "tx_return a = (\<lambda>s. Inr (a, s))"

definition tx_raise :: "exn \<Rightarrow> ('s, 'a) tx" where
  "tx_raise e = (\<lambda>s. Inl e)"

definition tx_bind :: "('s, 'a) tx \<Rightarrow> ('a \<Rightarrow> ('s, 'b) tx) \<Rightarrow> ('s, 'b) tx" where
  "tx_bind m f = (\<lambda>s. case m s of Inl e \<Rightarrow> Inl e | Inr (a, s') \<Rightarrow> f a s')"

definition tx_gets :: "('s \<Rightarrow> 'a) \<Rightarrow> ('s, 'a) tx" where
  "tx_gets f = (\<lambda>s. Inr (f s, s))"

definition tx_modify :: "('s \<Rightarrow> 's) \<Rightarrow> ('s, unit) tx" where
  "tx_modify f = (\<lambda>s. Inr ((), f s))"

definition tx_check :: "('s \<Rightarrow> bool) \<Rightarrow> exn \<Rightarrow> ('s, unit) tx" where
  "tx_check p e = (\<lambda>s. if p s then Inr ((), s) else Inl e)"

definition tx_lift :: "exn + 'a \<Rightarrow> ('s, 'a) tx" where
  "tx_lift r = (\<lambda>s. case r of Inl e \<Rightarrow> Inl e | Inr a \<Rightarrow> Inr (a, s))"

definition tx_when :: "bool \<Rightarrow> ('s, unit) tx \<Rightarrow> ('s, unit) tx" where
  "tx_when b m = (if b then m else tx_return ())"

text \<open>Statements one after another, and a loop over a fetched list.\<close>

primrec tx_block :: "('s, unit) tx list \<Rightarrow> ('s, unit) tx" where
  "tx_block [] = tx_return ()"
| "tx_block (m # ms) = tx_bind m (\<lambda>_. tx_block ms)"

primrec tx_for :: "'a list \<Rightarrow> ('a \<Rightarrow> ('s, unit) tx) \<Rightarrow> ('s, unit) tx" where
  "tx_for [] f = tx_return ()"
| "tx_for (x # xs) f = tx_bind (f x) (\<lambda>_. tx_for xs f)"

definition run_tx :: "exn \<Rightarrow> ('s, 'a) tx \<Rightarrow> 's \<Rightarrow> 's \<times> (exn + 'a)" where
  "run_tx wrap m s =
     (case m s of
        Inl e \<Rightarrow> (s, Inl (if e = SqliteError then wrap else e))
      | Inr (a, s') \<Rightarrow> (s', Inr a))"

lemma tx_return_apply [tx_simps]: "tx_return a s = Inr (a, s)"
  by (simp add: tx_return_def)

lemma tx_raise_apply [tx_simps]: "tx_raise e s = Inl e"
  by (simp add: tx_raise_def)

lemma tx_gets_apply [tx_simps]: "tx_gets f s = Inr (f s, s)"
  by (simp add: tx_gets_def)

lemma tx_modify_apply [tx_simps]: "tx_modify f s = Inr ((), f s)"
  by (simp add: tx_modify_def)

lemma tx_check_apply [tx_simps]: "tx_check p e s = (if p s then Inr ((), s) else Inl e)"
  by (simp add: tx_check_def)

lemma tx_bind_apply [tx_simps]:
  "tx_bind m f s = (case m s of Inl e \<Rightarrow> Inl e | Inr (a, s') \<Rightarrow> f a s')"
  by (simp add: tx_bind_def)

lemma tx_lift_apply [tx_simps]:
  "tx_lift r s = (case r of Inl e \<Rightarrow> Inl e | Inr a \<Rightarrow> Inr (a, s))"
  by (simp add: tx_lift_def)

lemma tx_when_apply [tx_simps]: "tx_when b m s = (if b then m s else Inr ((), s))"
  by (simp add: tx_when_def tx_return_def)

lemma tx_block_apply [tx_simps]:
  "tx_block [] s = Inr ((), s)"
  "tx_block (m # ms) s = (case m s of Inl e \<Rightarrow> Inl e | Inr (_, s') \<Rightarrow> tx_block ms s')"
  by (simp_all add: tx_return_def tx_bind_def)

lemma tx_for_apply [tx_simps]:
  "tx_for [] f s = Inr ((), s)"
  "tx_for (x # xs) f s = (case f x s of Inl e \<Rightarrow> Inl e | Inr (_, s') \<Rightarrow> tx_for xs f s')"
  by (simp_all add: tx_return_def tx_bind_def)

subsection \<open>Weakest preconditions\<close>

text \<open>
  \<open>tx_wp m Q s\<close>: if \<open>m\<close> commits from \<open>s\<close>, then \<open>Q\<close> holds of its value and its state. Its
  equations turn a transaction body into a plain formula about tables.
\<close>

definition tx_wp :: "('s, 'a) tx \<Rightarrow> ('a \<Rightarrow> 's \<Rightarrow> bool) \<Rightarrow> 's \<Rightarrow> bool" where
  "tx_wp m Q s \<longleftrightarrow> (case m s of Inl _ \<Rightarrow> True | Inr (a, s') \<Rightarrow> Q a s')"

lemma tx_wpI: "(\<And>a s'. m s = Inr (a, s') \<Longrightarrow> Q a s') \<Longrightarrow> tx_wp m Q s"
  by (auto simp: tx_wp_def split: sum.splits prod.splits)

lemma tx_wpD: "tx_wp m Q s \<Longrightarrow> m s = Inr (a, s') \<Longrightarrow> Q a s'"
  by (simp add: tx_wp_def)

lemma tx_wp_mono: "tx_wp m Q s \<Longrightarrow> (\<And>a s'. Q a s' \<Longrightarrow> R a s') \<Longrightarrow> tx_wp m R s"
  by (auto simp: tx_wp_def split: sum.splits prod.splits)

lemma tx_wp_conjI: "tx_wp m P s \<Longrightarrow> tx_wp m Q s \<Longrightarrow> tx_wp m (\<lambda>a s. P a s \<and> Q a s) s"
  by (auto simp: tx_wp_def split: sum.splits)

lemma tx_wp_conj: "tx_wp m (\<lambda>a s. Q a s \<and> R a s) s \<longleftrightarrow> tx_wp m Q s \<and> tx_wp m R s"
  by (auto simp: tx_wp_def split: sum.splits prod.splits)

lemma tx_wp_return [tx_wp]: "tx_wp (tx_return a) Q s \<longleftrightarrow> Q a s"
  by (simp add: tx_wp_def tx_return_def)

lemma tx_wp_raise [tx_wp]: "tx_wp (tx_raise e) Q s"
  by (simp add: tx_wp_def tx_raise_def)

lemma tx_wp_bind [tx_wp]: "tx_wp (tx_bind m f) Q s \<longleftrightarrow> tx_wp m (\<lambda>a. tx_wp (f a) Q) s"
  by (auto simp: tx_wp_def tx_bind_def split: sum.splits prod.splits)

lemma tx_wp_gets [tx_wp]: "tx_wp (tx_gets f) Q s \<longleftrightarrow> Q (f s) s"
  by (simp add: tx_wp_def tx_gets_def)

lemma tx_wp_modify [tx_wp]: "tx_wp (tx_modify f) Q s \<longleftrightarrow> Q () (f s)"
  by (simp add: tx_wp_def tx_modify_def)

lemma tx_wp_check [tx_wp]: "tx_wp (tx_check p e) Q s \<longleftrightarrow> (p s \<longrightarrow> Q () s)"
  by (simp add: tx_wp_def tx_check_def)

lemma tx_wp_lift [tx_wp]: "tx_wp (tx_lift r) Q s \<longleftrightarrow> (\<forall>a. r = Inr a \<longrightarrow> Q a s)"
  by (auto simp: tx_wp_def tx_lift_def split: sum.splits)

lemma tx_wp_when [tx_wp]:
  "tx_wp (tx_when b m) Q s \<longleftrightarrow> (b \<longrightarrow> tx_wp m Q s) \<and> (\<not> b \<longrightarrow> Q () s)"
  by (simp add: tx_when_def tx_wp_return)

lemma tx_wp_if [tx_wp]:
  "tx_wp (if b then m else n) Q s \<longleftrightarrow> (b \<longrightarrow> tx_wp m Q s) \<and> (\<not> b \<longrightarrow> tx_wp n Q s)"
  by simp

lemma tx_wp_block [tx_wp]:
  "tx_wp (tx_block []) Q s \<longleftrightarrow> Q () s"
  "tx_wp (tx_block (m # ms)) Q s \<longleftrightarrow> tx_wp m (\<lambda>_. tx_wp (tx_block ms) Q) s"
  by (simp_all add: tx_wp_return tx_wp_bind)

text \<open>A loop keeps what its body keeps.\<close>

lemma tx_wp_for:
  assumes "I s"
    and "\<And>x t. x \<in> set xs \<Longrightarrow> I t \<Longrightarrow> tx_wp (f x) (\<lambda>_. I) t"
    and "\<And>t. I t \<Longrightarrow> Q () t"
  shows "tx_wp (tx_for xs f) Q s"
  using assms
proof (induction xs arbitrary: s)
  case Nil
  then show ?case by (simp add: tx_wp_return)
next
  case (Cons x xs)
  have "tx_wp (f x) (\<lambda>_. I) s" using Cons.prems by simp
  then show ?case
    unfolding tx_for.simps tx_wp_bind
    by (rule tx_wp_mono) (use Cons in auto)
qed

subsection \<open>Steps that commit\<close>

text \<open>
  Total correctness: \<open>tx_ok m Q s\<close> says that \<open>m\<close> does commit from \<open>s\<close>, with \<open>Q\<close>. What a step
  establishes if it commits is proved once, with \<open>tx_wp\<close>; \<open>tx_ok_wp\<close> adds it to the proof
  that the step commits.
\<close>

definition tx_ok :: "('s, 'a) tx \<Rightarrow> ('a \<Rightarrow> 's \<Rightarrow> bool) \<Rightarrow> 's \<Rightarrow> bool" where
  "tx_ok m Q s \<longleftrightarrow> (case m s of Inl _ \<Rightarrow> False | Inr (a, s') \<Rightarrow> Q a s')"

lemma tx_ok_iff: "tx_ok m Q s \<longleftrightarrow> (\<exists>a s'. m s = Inr (a, s') \<and> Q a s')"
  by (auto simp: tx_ok_def split: sum.splits)

lemma tx_ok_wp: "tx_ok m (\<lambda>_ _. True) s \<Longrightarrow> tx_wp m Q s \<Longrightarrow> tx_ok m Q s"
  by (auto simp: tx_ok_def tx_wp_def split: sum.splits)

lemma tx_ok_mono: "tx_ok m Q s \<Longrightarrow> (\<And>a s'. Q a s' \<Longrightarrow> R a s') \<Longrightarrow> tx_ok m R s"
  by (auto simp: tx_ok_def split: sum.splits)

lemma tx_ok_return [tx_ok]: "tx_ok (tx_return a) Q s \<longleftrightarrow> Q a s"
  by (simp add: tx_ok_def tx_return_def)

lemma tx_ok_raise [tx_ok]: "\<not> tx_ok (tx_raise e) Q s"
  by (simp add: tx_ok_def tx_raise_def)

lemma tx_ok_bind [tx_ok]: "tx_ok (tx_bind m f) Q s \<longleftrightarrow> tx_ok m (\<lambda>a. tx_ok (f a) Q) s"
  by (auto simp: tx_ok_def tx_bind_def split: sum.splits prod.splits)

lemma tx_ok_gets [tx_ok]: "tx_ok (tx_gets f) Q s \<longleftrightarrow> Q (f s) s"
  by (simp add: tx_ok_def tx_gets_def)

lemma tx_ok_modify [tx_ok]: "tx_ok (tx_modify f) Q s \<longleftrightarrow> Q () (f s)"
  by (simp add: tx_ok_def tx_modify_def)

lemma tx_ok_check [tx_ok]: "tx_ok (tx_check p e) Q s \<longleftrightarrow> p s \<and> Q () s"
  by (simp add: tx_ok_def tx_check_def)

lemma tx_ok_lift [tx_ok]: "tx_ok (tx_lift r) Q s \<longleftrightarrow> (\<exists>a. r = Inr a \<and> Q a s)"
  by (auto simp: tx_ok_def tx_lift_def split: sum.splits)

lemma tx_ok_block [tx_ok]:
  "tx_ok (tx_block []) Q s \<longleftrightarrow> Q () s"
  "tx_ok (tx_block (m # ms)) Q s \<longleftrightarrow> tx_ok m (\<lambda>_. tx_ok (tx_block ms) Q) s"
  by (simp_all add: tx_ok_return tx_ok_bind)

text \<open>A loop commits when its body does from every state the loop visits.\<close>

lemma tx_ok_for:
  assumes "I s"
    and "\<And>x t. x \<in> set xs \<Longrightarrow> I t \<Longrightarrow> tx_ok (f x) (\<lambda>_. I) t"
    and "\<And>t. I t \<Longrightarrow> Q () t"
  shows "tx_ok (tx_for xs f) Q s"
  using assms
proof (induction xs arbitrary: s)
  case Nil
  then show ?case by (simp add: tx_ok_return)
next
  case (Cons x xs)
  have "tx_ok (f x) (\<lambda>_. I) s" using Cons.prems by simp
  then show ?case
    unfolding tx_for.simps tx_ok_bind
    by (rule tx_ok_mono) (use Cons in auto)
qed

lemma run_tx_okI: "tx_ok m Q s \<Longrightarrow> \<exists>s' a. run_tx w m s = (s', Inr a) \<and> Q a s'"
  by (auto simp: tx_ok_iff run_tx_def)

subsection \<open>Steps that respect a preorder on states\<close>

text \<open>
  \<open>tx_rel R m\<close>: whenever \<open>m\<close> commits, the new state is \<open>R\<close>-above the old one. With \<open>R\<close>
  reflexive and transitive, \<open>tx_rel R\<close> is closed under every way of composing steps, so a
  history property (what was persisted stays persisted) is proved step by step.
\<close>

definition tx_rel :: "('s \<Rightarrow> 's \<Rightarrow> bool) \<Rightarrow> ('s, 'a) tx \<Rightarrow> bool" where
  "tx_rel R m \<longleftrightarrow> (\<forall>s a s'. m s = Inr (a, s') \<longrightarrow> R s s')"

lemma tx_relI: "(\<And>s a s'. m s = Inr (a, s') \<Longrightarrow> R s s') \<Longrightarrow> tx_rel R m"
  by (auto simp: tx_rel_def)

lemma tx_relD: "tx_rel R m \<Longrightarrow> m s = Inr (a, s') \<Longrightarrow> R s s'"
  by (auto simp: tx_rel_def)

lemma tx_rel_wp: "tx_rel R m \<longleftrightarrow> (\<forall>s. tx_wp m (\<lambda>_. R s) s)"
  by (auto simp: tx_rel_def tx_wp_def split: sum.splits)

text \<open>A step known to respect \<open>R\<close>, inside a larger argument from an earlier state.\<close>

lemma tx_wp_rel:
  "tx_rel R m \<Longrightarrow> (\<And>a s'. R s s' \<Longrightarrow> Q a s') \<Longrightarrow> tx_wp m Q s"
  by (auto simp: tx_rel_def tx_wp_def split: sum.splits)

locale preorder_on_states =
  fixes R :: "'s \<Rightarrow> 's \<Rightarrow> bool"
  assumes R_refl: "R s s"
    and R_trans: "R s t \<Longrightarrow> R t u \<Longrightarrow> R s u"
begin

lemma rel_return: "tx_rel R (tx_return a)"
  by (auto simp: tx_rel_def tx_simps R_refl)

lemma rel_raise: "tx_rel R (tx_raise e)"
  by (auto simp: tx_rel_def tx_simps)

lemma rel_gets: "tx_rel R (tx_gets f)"
  by (auto simp: tx_rel_def tx_simps R_refl)

lemma rel_check: "tx_rel R (tx_check p e)"
  by (auto simp: tx_rel_def tx_simps R_refl split: if_splits)

lemma rel_lift: "tx_rel R (tx_lift r)"
  by (auto simp: tx_rel_def tx_simps R_refl split: sum.splits)

lemma rel_modify: "(\<And>s. R s (f s)) \<Longrightarrow> tx_rel R (tx_modify f)"
  by (auto simp: tx_rel_def tx_simps)

lemma rel_bind: "tx_rel R m \<Longrightarrow> (\<And>a. tx_rel R (f a)) \<Longrightarrow> tx_rel R (tx_bind m f)"
  by (fastforce simp: tx_rel_def tx_simps intro: R_trans split: sum.splits prod.splits)

lemma rel_when: "tx_rel R m \<Longrightarrow> tx_rel R (tx_when b m)"
  by (auto simp: tx_when_def rel_return)

lemma rel_if: "tx_rel R m \<Longrightarrow> tx_rel R n \<Longrightarrow> tx_rel R (if b then m else n)"
  by simp

lemma rel_block: "(\<And>m. m \<in> set ms \<Longrightarrow> tx_rel R m) \<Longrightarrow> tx_rel R (tx_block ms)"
  by (induction ms) (auto intro: rel_return rel_bind)

lemma rel_for: "(\<And>x. x \<in> set xs \<Longrightarrow> tx_rel R (f x)) \<Longrightarrow> tx_rel R (tx_for xs f)"
  by (induction xs) (auto intro: rel_return rel_bind)

lemma rel_option:
  "tx_rel R n \<Longrightarrow> (\<And>x. tx_rel R (f x)) \<Longrightarrow> tx_rel R (case v of None \<Rightarrow> n | Some x \<Rightarrow> f x)"
  by (cases v) auto

text \<open>Two steps, the first of them known to respect \<open>R\<close> only from the state at hand.\<close>

lemma wp_rel_bind:
  "tx_wp m (\<lambda>_. R s) s \<Longrightarrow> (\<And>a. tx_rel R (f a)) \<Longrightarrow> tx_wp (tx_bind m f) (\<lambda>_. R s) s"
  unfolding tx_wp_bind
  by (erule tx_wp_mono) (rule tx_wp_rel, assumption, erule R_trans)

lemma wp_rel: "tx_rel R m \<Longrightarrow> tx_wp m (\<lambda>_. R s) s"
  by (simp add: tx_rel_wp)

lemma rel_run: "tx_rel R m \<Longrightarrow> R s (fst (run_tx w m s))"
  by (auto simp: run_tx_def tx_rel_def R_refl split: sum.splits prod.splits)

lemmas rel_steps = rel_return rel_raise rel_gets rel_check rel_lift rel_bind rel_when rel_if
  rel_for rel_option

end

text \<open>
  The frame of a step: \<open>keeps f m\<close> when \<open>m\<close> leaves the part \<open>f\<close> of the state alone. It is the
  instance of the preorder at equality of that part.
\<close>

definition same_part :: "('s \<Rightarrow> 'p) \<Rightarrow> 's \<Rightarrow> 's \<Rightarrow> bool" where
  "same_part f s s' \<longleftrightarrow> f s' = f s"

definition keeps :: "('s \<Rightarrow> 'p) \<Rightarrow> ('s, 'a) tx \<Rightarrow> bool" where
  "keeps f m \<longleftrightarrow> tx_rel (same_part f) m"

interpretation part: preorder_on_states "same_part f" for f :: "'s \<Rightarrow> 'p"
  by unfold_locales (simp_all add: same_part_def)

lemmas keeps_steps [tx_frame] = part.rel_steps [folded keeps_def]

lemma keeps_block [tx_frame]:
  "keeps f (tx_block [])"
  "keeps f m \<Longrightarrow> keeps f (tx_block ms) \<Longrightarrow> keeps f (tx_block (m # ms))"
  by (auto intro: tx_frame)

lemma keeps_modify [tx_frame]: "(\<And>s. f (g s) = f s) \<Longrightarrow> keeps f (tx_modify g)"
  unfolding keeps_def by (rule part.rel_modify) (simp add: same_part_def)

lemma keepsD: "keeps f m \<Longrightarrow> m s = Inr (a, s') \<Longrightarrow> f s' = f s"
  by (auto simp: keeps_def same_part_def dest: tx_relD)

lemma keeps_wp: "keeps f m \<Longrightarrow> tx_wp m (\<lambda>_ s'. f s' = f s) s"
  by (rule tx_wpI) (rule keepsD)

lemma keeps_wp_add: "keeps f m \<Longrightarrow> tx_wp m (\<lambda>a s'. f s' = f s \<longrightarrow> Q a s') s \<Longrightarrow> tx_wp m Q s"
  by (rule tx_wpI) (auto dest: keepsD tx_wpD)

text \<open>An invariant a step preserves: the preorder of implication.\<close>

definition implies_inv :: "('s \<Rightarrow> bool) \<Rightarrow> 's \<Rightarrow> 's \<Rightarrow> bool" where
  "implies_inv I s s' \<longleftrightarrow> (I s \<longrightarrow> I s')"

definition preserves :: "('s \<Rightarrow> bool) \<Rightarrow> ('s, 'a) tx \<Rightarrow> bool" where
  "preserves I m \<longleftrightarrow> tx_rel (implies_inv I) m"

interpretation inv: preorder_on_states "implies_inv I" for I :: "'s \<Rightarrow> bool"
  by unfold_locales (simp_all add: implies_inv_def)

lemmas preserves_steps = inv.rel_steps [folded preserves_def]

lemma preserves_block:
  "preserves I (tx_block [])"
  "preserves I m \<Longrightarrow> preserves I (tx_block ms) \<Longrightarrow> preserves I (tx_block (m # ms))"
  by (auto intro: preserves_steps)

lemma preserves_wp: "preserves I m \<longleftrightarrow> (\<forall>s. I s \<longrightarrow> tx_wp m (\<lambda>_. I) s)"
  by (auto simp: preserves_def implies_inv_def tx_rel_def tx_wp_def split: sum.splits)

lemma preserves_run: "preserves I m \<Longrightarrow> I s \<Longrightarrow> I (fst (run_tx w m s))"
  using inv.rel_run by (fastforce simp: preserves_def implies_inv_def)

text \<open>An invariant of the part \<open>f\<close> is preserved by a step that keeps \<open>f\<close>.\<close>

lemma keeps_preserves: "keeps f m \<Longrightarrow> (\<And>s s'. f s' = f s \<Longrightarrow> I s \<Longrightarrow> I s') \<Longrightarrow> preserves I m"
  by (auto simp: keeps_def preserves_def same_part_def implies_inv_def tx_rel_def)

lemma run_tx_error: "run_tx w m s = (s', Inl e) \<Longrightarrow> s' = s"
  by (auto simp: run_tx_def split: sum.splits prod.splits)

lemma run_tx_ok: "run_tx w m s = (s', Inr a) \<longleftrightarrow> m s = Inr (a, s')"
  by (auto simp: run_tx_def split: sum.splits prod.splits)

lemma run_tx_wp: "tx_wp m Q s \<Longrightarrow> run_tx w m s = (s', Inr a) \<Longrightarrow> Q a s'"
  by (simp add: run_tx_ok tx_wpD)

lemma run_tx_keeps: "I s \<Longrightarrow> tx_wp m (\<lambda>_. I) s \<Longrightarrow> I (fst (run_tx w m s))"
  by (auto simp: run_tx_def tx_wp_def split: sum.splits prod.splits)

section \<open>Rows of a table\<close>

text \<open>A table is the list of its rows in insertion order.\<close>

definition select_by :: "('r \<Rightarrow> 'k) \<Rightarrow> 'k \<Rightarrow> 'r list \<Rightarrow> 'r option" where
  "select_by key k rows = find (\<lambda>r. key r = k) rows"

definition update_where :: "('r \<Rightarrow> bool) \<Rightarrow> ('r \<Rightarrow> 'r) \<Rightarrow> 'r list \<Rightarrow> 'r list" where
  "update_where p f rows = map (\<lambda>r. if p r then f r else r) rows"

definition count_where :: "('r \<Rightarrow> bool) \<Rightarrow> 'r list \<Rightarrow> nat" where
  "count_where p rows = length (filter p rows)"

lemma select_by_Nil [row_simps]: "select_by key k [] = None"
  by (simp add: select_by_def)

lemma select_by_Cons [row_simps]:
  "select_by key k (r # rs) = (if key r = k then Some r else select_by key k rs)"
  by (simp add: select_by_def)

lemma select_by_None [row_simps]: "select_by key k rows = None \<longleftrightarrow> k \<notin> key ` set rows"
  by (auto simp: select_by_def find_None_iff)

lemma select_by_SomeD: "select_by key k rows = Some r \<Longrightarrow> r \<in> set rows \<and> key r = k"
  by (auto simp: select_by_def find_Some_iff)

lemma find_SomeD: "find p xs = Some x \<Longrightarrow> x \<in> set xs \<and> p x"
  by (auto simp: find_Some_iff)

lemma select_by_in: "select_by key k rows = Some r \<Longrightarrow> r \<in> set rows"
  and select_by_key: "select_by key k rows = Some r \<Longrightarrow> key r = k"
  by (auto dest: select_by_SomeD)

lemma select_by_append [row_simps]:
  "select_by key k (rs @ ts) =
     (case select_by key k rs of None \<Rightarrow> select_by key k ts | Some r \<Rightarrow> Some r)"
  by (induction rs) (auto simp: row_simps)

lemma select_by_unique:
  "distinct (map key rows) \<Longrightarrow> r \<in> set rows \<Longrightarrow> select_by key (key r) rows = Some r"
  by (induction rows) (auto simp: row_simps)

lemma distinct_key_eq:
  "distinct (map key rows) \<Longrightarrow> r \<in> set rows \<Longrightarrow> t \<in> set rows \<Longrightarrow> key r = key t \<Longrightarrow> r = t"
  by (meson distinct_map inj_onD)

lemma update_where_Nil [row_simps]: "update_where p f [] = []"
  by (simp add: update_where_def)

lemma update_where_Cons [row_simps]:
  "update_where p f (r # rs) = (if p r then f r else r) # update_where p f rs"
  by (simp add: update_where_def)

lemma length_update_where [row_simps]: "length (update_where p f rows) = length rows"
  by (simp add: update_where_def)

lemma set_update_where:
  "set (update_where p f rows) = {r \<in> set rows. \<not> p r} \<union> f ` {r \<in> set rows. p r}"
  by (auto simp: update_where_def)

lemma map_update_where [row_simps]:
  "(\<And>r. g (f r) = g r) \<Longrightarrow> map g (update_where p f rows) = map g rows"
  by (simp add: update_where_def)

lemma image_update_where [row_simps]:
  "(\<And>r. g (f r) = g r) \<Longrightarrow> g ` set (update_where p f rows) = g ` set rows"
  by (metis list.set_map map_update_where)

lemma select_by_update_where [row_simps]:
  "(\<And>r. key (f r) = key r) \<Longrightarrow>
   select_by key k (update_where p f rows) =
     map_option (\<lambda>r. if p r then f r else r) (select_by key k rows)"
  by (induction rows) (auto simp: row_simps)

lemma update_where_noop: "(\<And>r. r \<in> set rows \<Longrightarrow> \<not> p r) \<Longrightarrow> update_where p f rows = rows"
  by (induction rows) (auto simp: row_simps)

lemma update_where_append [row_simps]:
  "update_where p f (rs @ ts) = update_where p f rs @ update_where p f ts"
  by (simp add: update_where_def)

lemma update_where_fresh [row_simps]:
  "k \<notin> key ` set rows \<Longrightarrow> update_where (\<lambda>r. key r = k) f rows = rows"
  by (rule update_where_noop) auto

lemma count_where_Nil [row_simps]: "count_where p [] = 0"
  by (simp add: count_where_def)

lemma count_where_Cons [row_simps]:
  "count_where p (r # rs) = (if p r then Suc (count_where p rs) else count_where p rs)"
  by (simp add: count_where_def)

lemma count_where_append [row_simps]:
  "count_where p (rs @ ts) = count_where p rs + count_where p ts"
  by (simp add: count_where_def)

lemma count_where_zero [row_simps]: "count_where p rs = 0 \<longleftrightarrow> (\<forall>r \<in> set rs. \<not> p r)"
  by (auto simp: count_where_def filter_empty_conv)

lemma count_where_update_where:
  "count_where q (update_where p f rows) = count_where (\<lambda>r. q (if p r then f r else r)) rows"
  by (induction rows) (auto simp: row_simps)

lemma count_where_cong:
  "(\<And>r. r \<in> set rows \<Longrightarrow> p r = q r) \<Longrightarrow> count_where p rows = count_where q rows"
  by (auto simp: count_where_def intro: arg_cong [where f = length] filter_cong)

lemma count_where_by_key:
  "distinct (map key rows) \<Longrightarrow> count_where (\<lambda>r. key r = k) rows \<le> 1"
  by (induction rows) (auto simp: row_simps image_iff)

lemma count_where_select:
  "distinct (map key rows) \<Longrightarrow>
   count_where (\<lambda>r. key r = k \<and> p r) rows =
     (case select_by key k rows of None \<Rightarrow> 0 | Some r \<Rightarrow> if p r then 1 else 0)"
  by (induction rows) (auto simp: row_simps split: option.splits dest!: select_by_SomeD)

section \<open>Identifiers\<close>

text \<open>Comparing characters by their code, in the form that evaluates quickly.\<close>

lemma char_order_code [code]:
  "c \<le> d \<longleftrightarrow> (of_char c :: int) \<le> of_char d"
  "c < d \<longleftrightarrow> (of_char c :: int) < of_char d"
proof -
  have of_char: "(of_char x :: int) = int (of_char x)" for x :: char
    by (rule of_nat_of_char [symmetric])
  show "c \<le> d \<longleftrightarrow> (of_char c :: int) \<le> of_char d" and "c < d \<longleftrightarrow> (of_char c :: int) < of_char d"
    unfolding of_char [of c] of_char [of d] less_eq_char_def less_char_def
    by (simp_all only: of_nat_le_iff of_nat_less_iff)
qed

text \<open>\<open>str.lower\<close> on the code points of one byte (Latin-1).\<close>

definition lower_char :: "char \<Rightarrow> char" where
  "lower_char c =
     (let n = of_char c :: nat
      in if (65 \<le> n \<and> n \<le> 90) \<or> (192 \<le> n \<and> n \<le> 222 \<and> n \<noteq> 215) then char_of (n + 32) else c)"

definition lower :: "string \<Rightarrow> string" where
  "lower = map lower_char"

text \<open>The parts of a text between the separators.\<close>

fun split_at :: "char \<Rightarrow> string \<Rightarrow> string list" where
  "split_at s [] = [[]]"
| "split_at s (c # cs) =
     (if c = s then [] # split_at s cs
      else (case split_at s cs of [] \<Rightarrow> [[c]] | w # ws \<Rightarrow> (c # w) # ws))"

text \<open>
  \<open>Identifier\<close> of \<open>contracts/base.py\<close>: the pattern
  \<^verbatim>\<open>^[A-Za-z0-9][A-Za-z0-9._:-]{0,127}$\<close>; \<open>Sha256Hex\<close>: \<^verbatim>\<open>^[0-9a-f]{64}$\<close>.
\<close>

definition is_alnum :: "char \<Rightarrow> bool" where
  "is_alnum c \<longleftrightarrow> (CHR ''A'' \<le> c \<and> c \<le> CHR ''Z'') \<or> (CHR ''a'' \<le> c \<and> c \<le> CHR ''z'')
     \<or> (CHR ''0'' \<le> c \<and> c \<le> CHR ''9'')"

definition is_identifier :: "string \<Rightarrow> bool" where
  "is_identifier s \<longleftrightarrow>
     (case s of [] \<Rightarrow> False
      | c # cs \<Rightarrow> is_alnum c \<and> length cs \<le> 127
          \<and> list_all (\<lambda>d. is_alnum d \<or> d \<in> set ''._:-'') cs)"

definition is_sha256_hex :: "string \<Rightarrow> bool" where
  "is_sha256_hex s \<longleftrightarrow> length s = 64
     \<and> list_all (\<lambda>c. (CHR ''0'' \<le> c \<and> c \<le> CHR ''9'') \<or> (CHR ''a'' \<le> c \<and> c \<le> CHR ''f'')) s"

lemma is_identifier_not_Nil: "is_identifier s \<Longrightarrow> s \<noteq> []"
  by (auto simp: is_identifier_def)

lemma is_identifier_length: "is_identifier s \<Longrightarrow> 1 \<le> length s \<and> length s \<le> 128"
  by (auto simp: is_identifier_def split: list.splits)

end
