(* ===== verification/Clock.thy ===== *)
theory Clock
  imports Doubles Prelude
begin

text \<open>
  The clock of the request runtime (\<open>requests/storage.py\<close>: \<open>_validate_utc\<close>, \<open>_timestamp\<close>,
  \<open>_parse_timestamp\<close>, and the \<open>datetime\<close> arithmetic the operations do).

  A UTC \<open>datetime\<close> is an instant: the number of microseconds since 0001-01-01T00:00:00. The
  timestamp columns of the database hold \<open>datetime.isoformat()\<close> texts and SQL compares those
  texts; the model keeps the instant instead. The last section justifies this: on the range
  of \<open>datetime\<close>, \<open>isoformat\<close> is strictly monotone from instants to texts in the byte order
  SQLite uses, hence injective, so a text comparison and an instant comparison agree.
\<close>

section \<open>Datetimes and durations\<close>

text \<open>
  A \<open>datetime\<close> value: its wall-clock reading and its UTC offset in microseconds, \<open>None\<close> for
  a naive value.
\<close>

record py_datetime =
  wall :: int
  utcoffset :: "int option"

definition max_instant :: int where
  "max_instant = 3652059 * 86400000000 - 1"

definition valid_instant :: "int \<Rightarrow> bool" where
  "valid_instant t \<longleftrightarrow> 0 \<le> t \<and> t \<le> max_instant"

definition utc :: "int \<Rightarrow> py_datetime" where
  "utc t = \<lparr>wall = t, utcoffset = Some 0\<rparr>"

definition validate_utc :: "py_datetime \<Rightarrow> exn + int" where
  "validate_utc v =
     (if utcoffset v = Some 0 then Inr (wall v) else Inl (StorageError ''invalid_runtime_clock''))"

text \<open>
  \<open>_parse_timestamp\<close> on a text that parses to \<open>v\<close>: the parsed value must again be UTC.
\<close>

definition parse_timestamp :: "py_datetime \<Rightarrow> exn + int" where
  "parse_timestamp v = validate_utc v"

text \<open>
  \<open>timedelta(seconds=x)\<close> multiplies the fraction of \<open>x\<close> by a million as a \<open>float\<close> and rounds
  the sum to whole microseconds, halves to even; adding it to a
  \<open>datetime\<close> raises \<open>OverflowError\<close> outside year 1 to 9999.
\<close>

definition whole :: "rat \<Rightarrow> int" where
  "whole x = (if x < 0 then - \<lfloor>- x\<rfloor> else \<lfloor>x\<rfloor>)"

definition timedelta_us :: "rat \<Rightarrow> int" where
  "timedelta_us seconds =
     (let n = whole seconds
      in round_half_even (of_int n * 1000000 + nearest (1000000 * (seconds - of_int n))))"

definition plus_us :: "int \<Rightarrow> int \<Rightarrow> exn + int" where
  "plus_us t d = (if valid_instant (t + d) then Inr (t + d) else Inl OverflowError)"

lemma utc_inject [simp]: "utc t = utc u \<longleftrightarrow> t = u"
  by (simp add: utc_def)

lemma validate_utc_utc [simp]: "validate_utc (utc t) = Inr t"
  by (simp add: validate_utc_def utc_def)

lemma parse_timestamp_utc [simp]: "parse_timestamp (utc t) = Inr t"
  by (simp add: parse_timestamp_def)

lemma validate_utc_Inr: "validate_utc v = Inr t \<longleftrightarrow> v = utc t"
  by (cases v) (auto simp: validate_utc_def utc_def)

lemma validate_utc_Inl: "validate_utc v = Inl e \<Longrightarrow> e = StorageError ''invalid_runtime_clock''"
  by (simp add: validate_utc_def split: if_splits)

lemma plus_us_Inr: "plus_us t d = Inr u \<longleftrightarrow> u = t + d \<and> valid_instant u"
  by (auto simp: plus_us_def)

lemma plus_us_Inl: "plus_us t d = Inl e \<Longrightarrow> e = OverflowError"
  by (simp add: plus_us_def split: if_splits)

lemma whole_of_int [simp]: "whole (of_int n) = n"
  by (simp add: whole_def)

lemma timedelta_us_of_int [simp]: "timedelta_us (of_int n) = n * 1000000"
proof -
  have "(of_int n * 1000000 :: rat) = of_int (n * 1000000)" by simp
  then show ?thesis unfolding timedelta_us_def by (simp only: Let_def whole_of_int) (simp del: of_int_mult)
qed

text \<open>Whole seconds need no rounding.\<close>

lemma timedelta_us_code [code]:
  "timedelta_us x = (let n = whole x in
     if of_int n = x then n * 1000000
     else round_half_even (of_int n * 1000000 + nearest (1000000 * (x - of_int n))))"
proof (cases "of_int (whole x) = x")
  case True
  then have "timedelta_us x = whole x * 1000000" by (metis timedelta_us_of_int)
  then show ?thesis using True by (simp add: Let_def)
qed (simp add: timedelta_us_def Let_def)

lemma timedelta_us_nonneg: "0 \<le> x \<Longrightarrow> 0 \<le> timedelta_us x"
  by (simp add: timedelta_us_def whole_def Let_def round_half_even_nonneg nearest_nonneg)

section \<open>isoformat\<close>

text \<open>The calendar date of day \<open>n\<close> (day 0 is 0001-01-01), as \<open>datetime\<close> computes it.\<close>

definition days_before_month :: "nat list" where
  "days_before_month = [0, 0, 31, 59, 90, 120, 151, 181, 212, 243, 273, 304, 334]"

definition days_in_month :: "nat list" where
  "days_in_month = [0, 31, 28, 31, 30, 31, 30, 31, 31, 30, 31, 30, 31]"

definition month_day :: "bool \<Rightarrow> nat \<Rightarrow> nat \<times> nat" where
  "month_day leap n =
     (let m = (n + 50) div 32;
          p = days_before_month ! m + (if 2 < m \<and> leap then 1 else 0)
      in if n < p
         then (let m' = m - 1; p' = p - (days_in_month ! m' + (if m' = 2 \<and> leap then 1 else 0))
               in (m', n - p' + 1))
         else (m, n - p + 1))"

definition ord2ymd :: "nat \<Rightarrow> nat \<times> nat \<times> nat" where
  "ord2ymd n =
     (let n400 = n div 146097; r = n mod 146097;
          n100 = r div 36524; r = r mod 36524;
          n4 = r div 1461; r = r mod 1461;
          n1 = r div 365; r = r mod 365;
          year = n400 * 400 + 1 + n100 * 100 + n4 * 4 + n1
      in if n1 = 4 \<or> n100 = 4 then (year - 1, 12, 31)
         else (year, month_day (n1 = 3 \<and> (n4 \<noteq> 24 \<or> n100 = 3)) r))"

definition digit :: "nat \<Rightarrow> char" where
  "digit d = char_of (48 + d)"

primrec pad :: "nat \<Rightarrow> nat \<Rightarrow> string" where
  "pad 0 n = []"
| "pad (Suc w) n = pad w (n div 10) @ [digit (n mod 10)]"

definition iso_fields :: "int \<Rightarrow> nat list" where
  "iso_fields t =
     (let us = t mod 86400000000; (y, m, d) = ord2ymd (nat (t div 86400000000))
      in [y, m, d, nat (us div 3600000000), nat (us mod 3600000000 div 60000000),
          nat (us mod 60000000 div 1000000), nat (us mod 1000000)])"

fun iso_text :: "nat list \<Rightarrow> string" where
  "iso_text [y, m, d, h, mi, s, us] =
     pad 4 y @ ''-'' @ pad 2 m @ ''-'' @ pad 2 d @ ''T'' @ pad 2 h @ '':'' @ pad 2 mi @ '':'' @ pad 2 s
     @ (if us = 0 then [] else ''.'' @ pad 6 us) @ ''+00:00''"
| "iso_text _ = []"

text \<open>\<open>_timestamp\<close>: the text of a UTC instant.\<close>

definition isoformat :: "int \<Rightarrow> string" where
  "isoformat t = iso_text (iso_fields t)"

text \<open>\<open>datetime.isoformat()\<close> for any offset; a naive value has no offset text.\<close>

definition offset_text :: "int \<Rightarrow> string" where
  "offset_text ofs =
     (let n = nat \<bar>ofs\<bar>; secs = n div 1000000; us = n mod 1000000
      in (if ofs < 0 then ''-'' else ''+'') @ pad 2 (secs div 3600) @ '':'' @ pad 2 (secs div 60 mod 60)
         @ (if secs mod 60 = 0 \<and> us = 0 then [] else '':'' @ pad 2 (secs mod 60))
         @ (if us = 0 then [] else ''.'' @ pad 6 us))"

definition isoformat_of :: "py_datetime \<Rightarrow> string" where
  "isoformat_of v = take (length (isoformat (wall v)) - 6) (isoformat (wall v))
     @ (case utcoffset v of None \<Rightarrow> [] | Some ofs \<Rightarrow> offset_text ofs)"

text \<open>The same computation over \<open>int\<close>, which evaluates on real dates.\<close>

definition ord2ymd_int :: "int \<Rightarrow> nat \<times> nat \<times> nat" where
  "ord2ymd_int n =
     (let n400 = n div 146097; r = n mod 146097;
          n100 = r div 36524; r = r mod 36524;
          n4 = r div 1461; r = r mod 1461;
          n1 = r div 365; r = r mod 365;
          year = n400 * 400 + 1 + n100 * 100 + n4 * 4 + n1
      in if n1 = 4 \<or> n100 = 4 then (nat (year - 1), 12, 31)
         else (nat year, month_day (n1 = 3 \<and> (n4 \<noteq> 24 \<or> n100 = 3)) (nat r)))"

lemma div_mod_of_nat: "int n div numeral k = int (n div numeral k)" "int n mod numeral k = int (n mod numeral k)"
  by (simp_all add: zdiv_int zmod_int)

lemma ord2ymd_code [code]: "ord2ymd n = ord2ymd_int (int n)"
proof -
  have eq: "int a = numeral k \<longleftrightarrow> a = numeral k" for a k by (metis nat_int nat_numeral of_nat_numeral)
  have year: "nat (int a * 400 + 1 + int b * 100 + int c * 4 + int e) = a * 400 + 1 + b * 100 + c * 4 + e"
    "nat (int a * 400 + 1 + int b * 100 + int c * 4 + int e - 1) = a * 400 + 1 + b * 100 + c * 4 + e - 1"
    for a b c e by linarith+
  show ?thesis
    unfolding ord2ymd_def ord2ymd_int_def Let_def div_mod_of_nat year eq nat_int by simp
qed

lemma iso_fields_code [code]:
  "iso_fields t =
     (let us = t mod 86400000000; (y, m, d) = ord2ymd_int (max 0 (t div 86400000000))
      in [y, m, d, nat (us div 3600000000), nat (us mod 3600000000 div 60000000),
          nat (us mod 60000000 div 1000000), nat (us mod 1000000)])"
  by (simp add: iso_fields_def ord2ymd_code nat_0_iff Let_def int_nat_eq max_def not_le)

subsection \<open>The calendar is strictly increasing\<close>

definition days_before_year :: "nat \<Rightarrow> nat" where
  "days_before_year y = 365 * y + y div 4 - y div 100 + y div 400"

definition is_leap :: "nat \<Rightarrow> bool" where
  "is_leap y \<longleftrightarrow> y mod 4 = 0 \<and> (y mod 100 \<noteq> 0 \<or> y mod 400 = 0)"

text \<open>Within a year: \<open>month_day\<close> finds the month whose days contain day \<open>n\<close>.\<close>

definition month_starts :: "bool \<Rightarrow> nat list" where
  "month_starts leap =
     (if leap then [0, 0, 31, 60, 91, 121, 152, 182, 213, 244, 274, 305, 335, 366]
      else [0, 0, 31, 59, 90, 120, 151, 181, 212, 243, 273, 304, 334, 365])"

lemma month_starts_mono:
  "i \<le> j \<Longrightarrow> j \<le> 13 \<Longrightarrow> month_starts leap ! i \<le> month_starts leap ! j"
  by (rule sorted_nth_mono) (auto simp: month_starts_def)

lemma month_day_bounds:
  assumes "n < 365" and md: "month_day leap n = (m, d)"
  shows "1 \<le> m \<and> m \<le> 12 \<and> month_starts leap ! m \<le> n \<and> n < month_starts leap ! Suc m
    \<and> d = n - month_starts leap ! m + 1"
proof -
  define k where "k = (n + 50) div 32"
  have lo: "32 * k \<le> n + 50" and hi: "n + 50 < 32 * k + 32" unfolding k_def by linarith+
  then have "1 \<le> k \<and> k \<le> 12" using assms(1) by linarith
  then have "k = 1 \<or> k = 2 \<or> k = 3 \<or> k = 4 \<or> k = 5 \<or> k = 6 \<or> k = 7 \<or> k = 8 \<or> k = 9 \<or> k = 10
      \<or> k = 11 \<or> k = 12"
    by presburger
  then show ?thesis
    using lo hi assms(1) md
    unfolding month_day_def k_def [symmetric] Let_def days_before_month_def days_in_month_def
      month_starts_def
    by (elim disjE) (simp_all split: if_splits)
qed

lemma month_day_less:
  assumes "n < n'" "n' < 365" "month_day leap n = (m, d)" "month_day leap n' = (m', d')"
  shows "m < m' \<or> m = m' \<and> d < d'"
proof -
  have n: "month_starts leap ! m \<le> n" "n < month_starts leap ! Suc m" "m \<le> 12"
      "d = n - month_starts leap ! m + 1"
    using month_day_bounds [OF _ assms(3)] assms(1,2) by auto
  have n': "month_starts leap ! m' \<le> n'" "n' < month_starts leap ! Suc m'" "m' \<le> 12"
      "d' = n' - month_starts leap ! m' + 1"
    using month_day_bounds [OF assms(2,4)] by auto
  have "\<not> m' < m"
  proof
    assume "m' < m"
    then have "month_starts leap ! Suc m' \<le> month_starts leap ! m"
      using n(3) by (intro month_starts_mono) auto
    with n(1) n'(2) assms(1) show False by linarith
  qed
  then show ?thesis using n n' assms(1) by (auto simp: not_less le_less)
qed

text \<open>
  Across years: a day number splits into its year and its day within the year.
\<close>

definition year_day :: "nat \<Rightarrow> nat \<times> nat" where
  "year_day n =
     (let n400 = n div 146097; r = n mod 146097;
          n100 = r div 36524; r = r mod 36524;
          n4 = r div 1461; r = r mod 1461;
          n1 = r div 365; r = r mod 365;
          year = n400 * 400 + n100 * 100 + n4 * 4 + n1
      in if n1 = 4 \<or> n100 = 4 then (year - 1, 365) else (year, r))"

lemma year_day_split:
  assumes "year_day n = (y, r)"
  shows "n = days_before_year y + r \<and> r \<le> (if is_leap (Suc y) then 365 else 364)"
proof -
  define a where "a = n div 146097"
  define r1 where "r1 = n mod 146097"
  define b where "b = r1 div 36524"
  define r2 where "r2 = r1 mod 36524"
  define c where "c = r2 div 1461"
  define r3 where "r3 = r2 mod 1461"
  define d where "d = r3 div 365"
  define e where "e = r3 mod 365"
  have n: "n = 146097 * a + r1" "r1 < 146097" by (auto simp: a_def r1_def)
  have r1: "r1 = 36524 * b + r2" "r2 < 36524" by (auto simp: b_def r2_def)
  have r2: "r2 = 1461 * c + r3" "r3 < 1461" by (auto simp: c_def r3_def)
  have r3: "r3 = 365 * d + e" "e < 365" by (auto simp: d_def e_def)
  have b4: "b \<le> 4" using n(2) r1(1) by linarith
  have c24: "c \<le> 24" using r1(2) r2(1) by linarith
  have d4: "d \<le> 4" using r2(2) r3(1) by linarith
  have yr: "(y, r) = (if d = 4 \<or> b = 4 then (a * 400 + b * 100 + c * 4 + d - 1, 365)
      else (a * 400 + b * 100 + c * 4 + d, e))"
    using assms unfolding year_day_def Let_def a_def b_def c_def d_def e_def r1_def r2_def r3_def
    by simp
  show ?thesis
  proof (cases "b = 4")
    case True
    then have "r2 = 0" using n(2) r1 by linarith
    then have "c = 0" "d = 0" "e = 0" using r2 r3 by auto
    with yr True n r1 r2 r3 have "y = a * 400 + 399" "r = 365" "n = 146097 * a + 146096" by auto
    then show ?thesis by (simp add: days_before_year_def is_leap_def)
  next
    case False
    then have b3: "b \<le> 3" using b4 by simp
    show ?thesis
    proof (cases "d = 4")
      case True
      then have "e = 0" using r2(2) r3 by linarith
      have c23: "c < 24 \<or> b = 4" using True r1(2) r2(1) r3(1) by linarith
      have y: "y = 400 * a + 100 * b + 4 * c + 3" "r = 365" using yr True by auto
      have "y div 4 = 100 * a + 25 * b + c" "y div 100 = 4 * a + b" "y div 400 = a"
        using y c24 b3 by (auto intro!: div_nat_eqI)
      moreover have "Suc y = (100 * a + 25 * b + c + 1) * 4" using y by simp
      then have "Suc y mod 4 = 0" by (metis mod_mult_self2_is_0)
      moreover have "Suc y mod 100 \<noteq> 0"
      proof -
        have "Suc y = (4 * a + b) * 100 + (4 * c + 4)" using y by simp
        then have "Suc y mod 100 = (4 * c + 4) mod 100" by (metis mod_mult_self3)
        then show ?thesis using c23 False by simp
      qed
      ultimately show ?thesis
        using y n r1 r2 r3 True \<open>e = 0\<close> by (simp add: days_before_year_def is_leap_def)
    next
      case d: False
      have y: "y = 400 * a + 100 * b + 4 * c + d" "r = e" using yr d False by auto
      have "y div 4 = 100 * a + 25 * b + c" "y div 100 = 4 * a + b" "y div 400 = a"
        using y c24 b3 d d4 by (auto intro!: div_nat_eqI)
      then show ?thesis
        using y n r1 r2 r3 by (simp add: days_before_year_def)
    qed
  qed
qed

lemma days_before_year_Suc:
  "days_before_year (Suc y) = days_before_year y + (if is_leap (Suc y) then 366 else 365)"
proof -
  have eqs: "Suc y div 4 = y div 4 + (if Suc y mod 4 = 0 then 1 else 0)"
    "Suc y div 100 = y div 100 + (if Suc y mod 100 = 0 then 1 else 0)"
    "Suc y div 400 = y div 400 + (if Suc y mod 400 = 0 then 1 else 0)"
    by (simp_all add: div_Suc)
  have multiples: "Suc y mod 400 = 0 \<Longrightarrow> Suc y mod 100 = 0" "Suc y mod 100 = 0 \<Longrightarrow> Suc y mod 4 = 0"
    using mod_mod_cancel [of 100 400 "Suc y"] mod_mod_cancel [of 4 100 "Suc y"] by simp_all
  have small: "y div 100 \<le> 365 * y + y div 4" by linarith
  have count: "365 * Suc y + (a + (if p then 1 else 0)) - (b + (if q then 1 else 0))
        + (c + (if r then 1 else 0))
      = 365 * y + a - b + c + (if p \<and> (\<not> q \<or> r) then 366 else 365)"
    if "b \<le> 365 * y + a" "r \<longrightarrow> q" "q \<longrightarrow> p" for a b c :: nat and p q r
    using that by (cases p; cases q; cases r; simp; linarith?)
  show ?thesis
    unfolding days_before_year_def is_leap_def eqs
    by (rule count) (use small multiples in simp_all)
qed

lemma days_before_year_mono: "y \<le> y' \<Longrightarrow> days_before_year y \<le> days_before_year y'"
  by (induction rule: dec_induct) (auto simp: days_before_year_Suc)

lemma year_day_less:
  assumes "n < n'" "year_day n = (y, r)" "year_day n' = (y', r')"
  shows "y < y' \<or> y = y' \<and> r < r'"
proof -
  note a = year_day_split [OF assms(2)] and b = year_day_split [OF assms(3)]
  have "\<not> y' < y"
  proof
    assume "y' < y"
    then have "days_before_year (Suc y') \<le> days_before_year y" by (intro days_before_year_mono) auto
    then have "n' < days_before_year y" using b by (auto simp: days_before_year_Suc split: if_splits)
    with a assms(1) show False by linarith
  qed
  then show ?thesis using a b assms(1) by (auto simp: not_less le_less)
qed

lemma leap_of_cycle:
  assumes "b \<le> 3" "c \<le> 24" "d \<le> (3::nat)"
  shows "is_leap (Suc (400 * a + 100 * b + 4 * c + d)) \<longleftrightarrow> d = 3 \<and> (c \<noteq> 24 \<or> b = 3)"
proof -
  have p: "Suc (400 * a + 100 * b + 4 * c + d) = (100 * a + 25 * b + c) * 4 + Suc d"
    and q: "Suc (400 * a + 100 * b + 4 * c + d) = (4 * a + b) * 100 + Suc (4 * c + d)"
    and r: "Suc (400 * a + 100 * b + 4 * c + d) = a * 400 + Suc (100 * b + 4 * c + d)"
    by simp_all
  have "Suc (400 * a + 100 * b + 4 * c + d) mod 4 = 0 \<longleftrightarrow> d = 3"
    unfolding p mod_mult_self3 using assms by (auto simp: mod_Suc split: if_splits)
  moreover have "Suc (400 * a + 100 * b + 4 * c + d) mod 100 = 0 \<longleftrightarrow> 4 * c + d = 99"
    unfolding q mod_mult_self3 using assms by (auto simp: mod_Suc split: if_splits)
  moreover have "Suc (400 * a + 100 * b + 4 * c + d) mod 400 = 0 \<longleftrightarrow> 100 * b + 4 * c + d = 399"
    unfolding r mod_mult_self3 using assms by (auto simp: mod_Suc split: if_splits)
  moreover have "4 * c + d = 99 \<longleftrightarrow> c = 24 \<and> d = 3" using assms by linarith
  moreover have "100 * b + 4 * c + d = 399 \<longleftrightarrow> b = 3 \<and> c = 24 \<and> d = 3" using assms by linarith
  ultimately show ?thesis unfolding is_leap_def by auto
qed

lemma ord2ymd_year_day:
  assumes "year_day n = (y, r)"
  shows "ord2ymd n = (Suc y, if r = 365 then (12, 31) else month_day (is_leap (Suc y)) r)
    \<and> (r < 365 \<or> r = 365)"
proof -
  define a where "a = n div 146097"
  define r1 where "r1 = n mod 146097"
  define b where "b = r1 div 36524"
  define r2 where "r2 = r1 mod 36524"
  define c where "c = r2 div 1461"
  define r3 where "r3 = r2 mod 1461"
  define d where "d = r3 div 365"
  define e where "e = r3 mod 365"
  have "r1 < 146097" "r2 < 36524" "r3 < 1461" "e < 365"
    by (simp_all add: r1_def r2_def r3_def e_def)
  then have b4: "b \<le> 4" and c24: "c \<le> 24" and d4: "d \<le> 4"
    by (auto simp: b_def c_def d_def less_mult_imp_div_less)
  have yr: "(y, r) = (if d = 4 \<or> b = 4 then (a * 400 + b * 100 + c * 4 + d - 1, 365)
      else (a * 400 + b * 100 + c * 4 + d, e))"
    using assms unfolding year_day_def Let_def a_def b_def c_def d_def e_def r1_def r2_def r3_def
    by simp
  have ord: "ord2ymd n = (if d = 4 \<or> b = 4 then (a * 400 + 1 + b * 100 + c * 4 + d - 1, 12, 31)
      else (a * 400 + 1 + b * 100 + c * 4 + d, month_day (d = 3 \<and> (c \<noteq> 24 \<or> b = 3)) e))"
    unfolding ord2ymd_def Let_def a_def b_def c_def d_def e_def r1_def r2_def r3_def by simp
  show ?thesis
  proof (cases "d = 4 \<or> b = 4")
    case True
    then have "0 < a * 400 + b * 100 + c * 4 + d" by auto
    with True yr ord show ?thesis by (auto simp: Suc_diff_Suc)
  next
    case False
    then have "is_leap (Suc (400 * a + 100 * b + 4 * c + d)) \<longleftrightarrow> d = 3 \<and> (c \<noteq> 24 \<or> b = 3)"
      using b4 c24 d4 by (intro leap_of_cycle) auto
    with False yr ord \<open>e < 365\<close> show ?thesis by (simp add: algebra_simps)
  qed
qed

lemma ord2ymd_less:
  assumes "n < n'" "ord2ymd n = (y, m, d)" "ord2ymd n' = (y', m', d')"
  shows "y < y' \<or> y = y' \<and> (m < m' \<or> m = m' \<and> d < d')"
proof -
  obtain z r where z: "year_day n = (z, r)" by fastforce
  obtain z' r' where z': "year_day n' = (z', r')" by fastforce
  note o = ord2ymd_year_day [OF z] and o' = ord2ymd_year_day [OF z']
  consider "z < z'" | "z = z'" "r < r'" using year_day_less [OF assms(1) z z'] by blast
  then show ?thesis
  proof cases
    case 1
    then show ?thesis using o o' assms by simp
  next
    case 2
    then have r: "r < 365" using o' by auto
    then have md: "month_day (is_leap (Suc z)) r = (m, d)" using o assms by simp
    show ?thesis
    proof (cases "r' = 365")
      case True
      have "is_leap (Suc z)"
        using year_day_split [OF z'] True 2(1) by (auto split: if_splits)
      then have "m < 12 \<or> m = 12 \<and> d < 31"
        using month_day_bounds [OF r md] r by (auto simp: month_starts_def le_less)
      then show ?thesis using 2 True o o' assms(2,3) by auto
    next
      case False
      then have "r' < 365" using o' by auto
      with month_day_less [OF 2(2)] md o' assms(2,3) 2 o False show ?thesis by auto
    qed
  qed
qed

subsection \<open>Texts compare as instants\<close>

lemma div_mod_less:
  "(t::int) < t' \<Longrightarrow> t div k < t' div k \<or> t div k = t' div k \<and> t mod k < t' mod k" if "0 < k"
proof -
  assume "t < t'"
  then have "t div k \<le> t' div k" using that by (simp add: zdiv_mono1)
  moreover have "t mod k < t' mod k" if "t div k = t' div k"
    using \<open>t < t'\<close> that by (metis add_less_cancel_left mult_div_mod_eq)
  ultimately show ?thesis by force
qed

lemma iso_fields_less:
  assumes "0 \<le> t" "t < t'"
  shows "iso_fields t < iso_fields t'"
proof -
  obtain y m d where f: "ord2ymd (nat (t div 86400000000)) = (y, m, d)" by (metis prod_cases3)
  obtain y' m' d' where f': "ord2ymd (nat (t' div 86400000000)) = (y', m', d')" by (metis prod_cases3)
  define u where "u = t mod 86400000000"
  define u' where "u' = t' mod 86400000000"
  have u: "0 \<le> u" "0 \<le> u'" by (simp_all add: u_def u'_def)
  have F: "iso_fields t = [y, m, d, nat (u div 3600000000), nat (u mod 3600000000 div 60000000),
      nat (u mod 60000000 div 1000000), nat (u mod 1000000)]"
    "iso_fields t' = [y', m', d', nat (u' div 3600000000), nat (u' mod 3600000000 div 60000000),
      nat (u' mod 60000000 div 1000000), nat (u' mod 1000000)]"
    using f f' by (simp_all add: iso_fields_def u_def u'_def Let_def)
  consider (day) "t div 86400000000 < t' div 86400000000"
    | (tod) "t div 86400000000 = t' div 86400000000" "u < u'"
    unfolding u_def u'_def using div_mod_less [of 86400000000 t t'] assms(2) by auto
  then show ?thesis
  proof cases
    case day
    then have "nat (t div 86400000000) < nat (t' div 86400000000)"
      using assms by (simp add: pos_imp_zdiv_nonneg_iff nat_less_eq_zless)
    from ord2ymd_less [OF this f f'] show ?thesis by (auto simp: F)
  next
    case tod
    then have "(y, m, d) = (y', m', d')" using f f' by simp
    moreover have "u div 3600000000 < u' div 3600000000 \<or> u div 3600000000 = u' div 3600000000
        \<and> (u mod 3600000000 div 60000000 < u' mod 3600000000 div 60000000
           \<or> u mod 3600000000 div 60000000 = u' mod 3600000000 div 60000000
             \<and> (u mod 60000000 div 1000000 < u' mod 60000000 div 1000000
                \<or> u mod 60000000 div 1000000 = u' mod 60000000 div 1000000
                  \<and> u mod 1000000 < u' mod 1000000))"
    proof -
      have cancel: "u mod 3600000000 mod 60000000 = u mod 60000000"
        "u' mod 3600000000 mod 60000000 = u' mod 60000000"
        "u mod 60000000 mod 1000000 = u mod 1000000"
        "u' mod 60000000 mod 1000000 = u' mod 1000000"
        by (simp_all add: mod_mod_cancel)
      show ?thesis
        using div_mod_less [of 3600000000 u u', OF _ tod(2)]
          div_mod_less [of 60000000 "u mod 3600000000" "u' mod 3600000000"]
          div_mod_less [of 1000000 "u mod 60000000" "u' mod 60000000"]
        unfolding cancel by (simp only: zero_less_numeral simp_thms) blast
    qed
    moreover have nn: "0 \<le> u div 3600000000" "0 \<le> u mod 3600000000 div 60000000"
        "0 \<le> u mod 60000000 div 1000000" "0 \<le> u mod 1000000"
      using u by (simp_all add: pos_imp_zdiv_nonneg_iff)
    ultimately show ?thesis
      unfolding F Cons_less_Cons prod.inject
      by (metis nat_less_eq_zless)
  qed
qed

lemma append_less_iff:
  fixes u v x y :: "'a::order list"
  shows "length u = length v \<Longrightarrow> u @ x < v @ y \<longleftrightarrow> u < v \<or> u = v \<and> x < y"
  by (induction u v rule: list_induct2) auto

lemma length_pad [simp]: "length (pad w n) = w"
  by (induction w arbitrary: n) auto

lemma of_char_digit: "d < 10 \<Longrightarrow> of_char (digit d) = (48 + d :: nat)"
  by (simp add: digit_def)

lemma pad_less: "n < m \<Longrightarrow> m < 10 ^ w \<Longrightarrow> pad w n < pad w m"
proof (induction w arbitrary: n m)
  case 0
  then show ?case by simp
next
  case (Suc w)
  have "m div 10 < 10 ^ w" using Suc.prems(2) by (simp add: less_mult_imp_div_less mult.commute)
  moreover have "n div 10 < m div 10 \<or> n div 10 = m div 10 \<and> n mod 10 < m mod 10"
    using Suc.prems(1) by (metis add_less_cancel_left div_le_mono le_neq_implies_less less_imp_le
        mult_div_mod_eq)
  ultimately show ?case
    using Suc.IH by (auto simp: append_less_iff less_char_def of_char_digit)
qed

definition iso_bounds :: "nat list \<Rightarrow> bool" where
  "iso_bounds fs \<longleftrightarrow> (case fs of
      [y, m, d, h, mi, s, us] \<Rightarrow> y < 10000 \<and> m < 100 \<and> d < 100 \<and> h < 100 \<and> mi < 100 \<and> s < 100
        \<and> us < 1000000
    | _ \<Rightarrow> False)"

lemma iso_text_less:
  assumes "iso_bounds fs" "iso_bounds gs" "fs < gs"
  shows "iso_text fs < iso_text gs"
proof -
  obtain y m d h mi s us where fs: "fs = [y, m, d, h, mi, s, us]"
    using assms(1) by (auto simp: iso_bounds_def split: list.splits)
  obtain y' m' d' h' mi' s' us' where gs: "gs = [y', m', d', h', mi', s', us']"
    using assms(2) by (auto simp: iso_bounds_def split: list.splits)
  have b: "y' < 10 ^ 4" "m' < 10 ^ 2" "d' < 10 ^ 2" "h' < 10 ^ 2" "mi' < 10 ^ 2" "s' < 10 ^ 2"
      "us' < 10 ^ 6"
    using assms(2) by (simp_all add: gs iso_bounds_def)
  have frac: "(if us = 0 then [] else ''.'' @ pad 6 us) @ ''+00:00''
      < (if us' = 0 then [] else ''.'' @ pad 6 us') @ ''+00:00''" if "us < us'"
    using that pad_less [OF that b(7)] by (auto simp: append_less_iff less_char_def)
  show ?thesis
    using assms(3) frac
    unfolding fs gs iso_text.simps
    by (auto simp: append_less_iff dest: pad_less [OF _ b(1)] pad_less [OF _ b(2)]
        pad_less [OF _ b(3)] pad_less [OF _ b(4)] pad_less [OF _ b(5)] pad_less [OF _ b(6)])
qed

lemma month_day_small:
  assumes "n < 365" "month_day leap n = (m, d)"
  shows "m < 100 \<and> d < 100"
proof -
  note b = month_day_bounds [OF assms]
  then have "m \<in> set [1..<13]" by auto
  then have "month_starts leap ! Suc m \<le> month_starts leap ! m + 31"
    by (simp add: month_starts_def upt_rec) auto
  with b show ?thesis by auto
qed

lemma int_div_bound:
  fixes a b x :: int
  assumes "0 < b" "x < a * b"
  shows "x div b < a"
proof (rule ccontr)
  assume "\<not> x div b < a"
  then have "a * b \<le> x div b * b" using assms(1) by (intro mult_right_mono) auto
  also have "x div b * b \<le> x"
    using div_mult_mod_eq [of x b] pos_mod_sign [OF assms(1), of x] by linarith
  finally show False using assms(2) by simp
qed

lemma iso_bounds_fields: "valid_instant t \<Longrightarrow> iso_bounds (iso_fields t)"
proof -
  assume v: "valid_instant t"
  obtain y m d where f: "ord2ymd (nat (t div 86400000000)) = (y, m, d)" by (metis prod_cases3)
  obtain z r where z: "year_day (nat (t div 86400000000)) = (z, r)" by fastforce
  have "t div 86400000000 \<le> 315537897599999999 div 86400000000"
    using v by (intro zdiv_mono1) (simp_all add: valid_instant_def max_instant_def)
  then have "nat (t div 86400000000) < days_before_year 9999" by (simp add: days_before_year_def)
  then have "\<not> 9999 \<le> z"
    using year_day_split [OF z] days_before_year_mono [of 9999 z] by linarith
  moreover note ord2ymd_year_day [OF z]
  ultimately have ymd: "y < 10000" "m < 100 \<and> d < 100"
    using f month_day_small [of r "is_leap (Suc z)" m d] by (auto split: if_splits)
  define u where "u = t mod 86400000000"
  have "0 \<le> u" "u < 86400000000" by (simp_all add: u_def)
  then have "u div 3600000000 < 24" by (intro int_div_bound) simp_all
  moreover have "u mod 3600000000 div 60000000 < 60" "u mod 60000000 div 1000000 < 60"
      "u mod 1000000 < 1000000"
  proof -
    have m: "u mod 3600000000 < 60 * 60000000" "u mod 60000000 < 60 * 1000000"
      using pos_mod_bound [of 3600000000 u] pos_mod_bound [of 60000000 u] by simp_all
    show "u mod 3600000000 div 60000000 < 60" by (rule int_div_bound [OF _ m(1)]) simp
    show "u mod 60000000 div 1000000 < 60" by (rule int_div_bound [OF _ m(2)]) simp
    show "u mod 1000000 < 1000000" by simp
  qed
  ultimately show ?thesis
    unfolding iso_fields_def iso_bounds_def Let_def f prod.case list.case u_def [symmetric]
    using ymd by (auto simp: nat_less_iff)
qed

text \<open>
  C1: on the range of \<open>datetime\<close>, comparing two \<open>isoformat()\<close> texts byte by byte, as SQLite
  does in \<open>started_at > ?\<close>, \<open>cooldown_until < ?\<close> and every \<open>ORDER BY\<close> on a timestamp
  column, gives the same answer as comparing the instants.
\<close>

theorem isoformat_order:
  assumes "valid_instant t" "valid_instant t'"
  shows "isoformat t < isoformat t' \<longleftrightarrow> t < t'"
proof -
  have less: "isoformat a < isoformat b" if "a < b" "valid_instant a" "valid_instant b" for a b
    using that unfolding isoformat_def
    by (intro iso_text_less iso_bounds_fields iso_fields_less) (auto simp: valid_instant_def)
  then show ?thesis using assms by (metis less_asym linorder_less_linear)
qed

theorem isoformat_order_witness:
  "isoformat 63925632000000000 < isoformat 63925632000500000"
  by (subst isoformat_order) (simp_all add: valid_instant_def max_instant_def)

end
