(* ===== verification/Production.thy ===== *)
theory Production
  imports Clock
begin

text \<open>
  The contracts of \<open>requests/production.py\<close> (and \<open>GateScope\<close> of
  \<open>contracts/detailed_analysis/v1/external_requests.py\<close>): the enums, the pydantic models as
  records, and one \<open>valid_*\<close> predicate per model for what \<open>model_validate\<close> accepts.
\<close>

section \<open>Enumerations\<close>

datatype logical_state = L_Queued | L_Cancelled | L_Succeeded | L_Failed

datatype attempt_state = A_Reserved | A_Started | A_Succeeded | A_Failed | A_Unknown

datatype result_outcome = O_Succeeded | O_Failed | O_Cancelled | O_Unknown

datatype raw_state = P_Staging | P_Committed | P_Reconciliation | P_Failed

datatype gate_scope =
    S_Global | S_Egress | S_Provider | S_Origin | S_Credential | S_Operation | S_Task | S_Role

primrec scope_value :: "gate_scope \<Rightarrow> string" where
  "scope_value S_Global = ''global''"
| "scope_value S_Egress = ''egress''"
| "scope_value S_Provider = ''provider''"
| "scope_value S_Origin = ''origin''"
| "scope_value S_Credential = ''credential''"
| "scope_value S_Operation = ''operation''"
| "scope_value S_Task = ''task''"
| "scope_value S_Role = ''role''"

definition all_scopes :: "gate_scope list" where
  "all_scopes = [S_Global, S_Egress, S_Provider, S_Origin, S_Credential, S_Operation, S_Task, S_Role]"

lemma scope_value_inject: "scope_value s = scope_value t \<longleftrightarrow> s = t"
  by (cases s; cases t) simp_all

lemma set_all_scopes [simp]: "s \<in> set all_scopes"
  by (cases s) (simp_all add: all_scopes_def)

lemma distinct_all_scopes [simp]: "distinct all_scopes"
  by (simp add: all_scopes_def)

lemma length_all_scopes [simp]: "length all_scopes = 8"
  by (simp add: all_scopes_def)

text \<open>\<open>ORDER BY scope\<close> orders the scopes by their text value.\<close>

instantiation gate_scope :: linorder
begin

definition less_eq_gate_scope :: "gate_scope \<Rightarrow> gate_scope \<Rightarrow> bool" where
  "less_eq_gate_scope s t \<longleftrightarrow> scope_value s \<le> scope_value t"

definition less_gate_scope :: "gate_scope \<Rightarrow> gate_scope \<Rightarrow> bool" where
  "less_gate_scope s t \<longleftrightarrow> scope_value s < scope_value t"

instance
  by standard (auto simp: less_eq_gate_scope_def less_gate_scope_def scope_value_inject less_le)

end

section \<open>Timestamps\<close>

text \<open>
  \<open>Timestamp\<close> of \<open>contracts/base.py\<close> together with \<open>_parse_rfc3339\<close>: the surface pattern
  \<^verbatim>\<open>YYYY-MM-DDTHH:MM:SS[.f+](Z|+hh:mm|-hh:mm)\<close> and fields that \<open>datetime.fromisoformat\<close>
  accepts.
\<close>

definition is_digit :: "char \<Rightarrow> bool" where
  "is_digit c \<longleftrightarrow> CHR ''0'' \<le> c \<and> c \<le> CHR ''9''"

definition decimal :: "string \<Rightarrow> nat" where
  "decimal s = foldl (\<lambda>n c. 10 * n + (of_char c - 48)) 0 s"

definition split_fraction :: "string \<Rightarrow> (string \<times> string) option" where
  "split_fraction s =
     (case s of
        [] \<Rightarrow> None
      | c # cs \<Rightarrow>
          if c = CHR ''.''
          then (if takeWhile is_digit cs = [] then None
                else Some (takeWhile is_digit cs, dropWhile is_digit cs))
          else Some ([], s))"

definition is_offset :: "string \<Rightarrow> bool" where
  "is_offset s \<longleftrightarrow> s = ''Z'' \<or>
     (case s of
        [sg, h1, h2, sep, m1, m2] \<Rightarrow> (sg = CHR ''+'' \<or> sg = CHR ''-'') \<and> sep = CHR '':''
          \<and> list_all is_digit [h1, h2, m1, m2] \<and> decimal [h1, h2] < 24 \<and> decimal [m1, m2] < 60
      | _ \<Rightarrow> False)"

definition month_length :: "nat \<Rightarrow> nat \<Rightarrow> nat" where
  "month_length y m = days_in_month ! m + (if m = 2 \<and> is_leap y then 1 else 0)"

definition is_timestamp :: "string \<Rightarrow> bool" where
  "is_timestamp s \<longleftrightarrow>
     (case s of
        y1 # y2 # y3 # y4 # s1 # m1 # m2 # s2 # d1 # d2 # t # h1 # h2 # s3 # n1 # n2 # s4 # c1 # c2 # rest \<Rightarrow>
          s1 = CHR ''-'' \<and> s2 = CHR ''-'' \<and> t = CHR ''T'' \<and> s3 = CHR '':'' \<and> s4 = CHR '':''
          \<and> list_all is_digit [y1, y2, y3, y4, m1, m2, d1, d2, h1, h2, n1, n2, c1, c2]
          \<and> 1 \<le> decimal [y1, y2, y3, y4]
          \<and> 1 \<le> decimal [m1, m2] \<and> decimal [m1, m2] \<le> 12
          \<and> 1 \<le> decimal [d1, d2]
          \<and> decimal [d1, d2] \<le> month_length (decimal [y1, y2, y3, y4]) (decimal [m1, m2])
          \<and> decimal [n1, n2] < 60 \<and> decimal [c1, c2] < 60
          \<and> (case split_fraction rest of
               None \<Rightarrow> False
             | Some (fr, off) \<Rightarrow> is_offset off
                 \<and> (decimal [h1, h2] < 24
                    \<or> decimal [h1, h2] = 24 \<and> decimal [n1, n2] = 0 \<and> decimal [c1, c2] = 0
                        \<and> list_all (\<lambda>c. c = CHR ''0'') (take 6 fr)
                        \<and> [y1, y2, y3, y4, m1, m2, d1, d2] \<noteq> ''99991231''))
      | _ \<Rightarrow> False)"

section \<open>Requests, attempts and results\<close>

record logical_request =
  lr_id :: string
  lr_task :: string
  lr_source :: string
  lr_operation :: string
  lr_fingerprint :: string
  lr_approval_version :: int
  lr_profile_version :: int
  lr_credential :: "string option"
  lr_egress :: string
  lr_created_at :: string
  lr_state :: logical_state

definition valid_logical_request :: "logical_request \<Rightarrow> bool" where
  "valid_logical_request r \<longleftrightarrow>
     is_identifier (lr_id r) \<and> is_identifier (lr_task r) \<and> is_identifier (lr_source r)
     \<and> is_identifier (lr_operation r) \<and> is_sha256_hex (lr_fingerprint r)
     \<and> 1 \<le> lr_approval_version r \<and> 1 \<le> lr_profile_version r
     \<and> (case lr_credential r of None \<Rightarrow> True | Some c \<Rightarrow> is_identifier c)
     \<and> is_identifier (lr_egress r) \<and> is_timestamp (lr_created_at r)"

record physical_attempt =
  pa_id :: string
  pa_logical :: string
  pa_sequence :: int
  pa_generation :: int
  pa_created_at :: string
  pa_state :: attempt_state

definition valid_physical_attempt :: "physical_attempt \<Rightarrow> bool" where
  "valid_physical_attempt a \<longleftrightarrow>
     is_identifier (pa_id a) \<and> is_identifier (pa_logical a) \<and> 1 \<le> pa_sequence a
     \<and> 1 \<le> pa_generation a \<and> is_timestamp (pa_created_at a) \<and> pa_state a = A_Reserved"

record logical_result =
  re_id :: string
  re_outcome :: result_outcome
  re_completed_at :: string
  re_error :: "string option"

definition valid_logical_result :: "logical_result \<Rightarrow> bool" where
  "valid_logical_result r \<longleftrightarrow>
     is_identifier (re_id r) \<and> is_timestamp (re_completed_at r)
     \<and> (case re_error r of None \<Rightarrow> True | Some c \<Rightarrow> is_identifier c)
     \<and> (if re_outcome r \<in> {O_Failed, O_Unknown} then re_error r \<noteq> None else re_error r = None)"

section \<open>Raw publications\<close>

record raw_intent =
  ri_id :: string
  ri_task :: string
  ri_logical :: string
  ri_attempt :: string
  ri_source :: string
  ri_operation :: string
  ri_sha256 :: string
  ri_byte_count :: int
  ri_media_type :: string
  ri_encoding :: string
  ri_schema_id :: string
  ri_schema_version :: int
  ri_generation :: int

definition valid_raw_intent :: "raw_intent \<Rightarrow> bool" where
  "valid_raw_intent i \<longleftrightarrow>
     is_identifier (ri_id i) \<and> is_identifier (ri_task i) \<and> is_identifier (ri_logical i)
     \<and> is_identifier (ri_attempt i) \<and> is_identifier (ri_source i) \<and> is_identifier (ri_operation i)
     \<and> is_sha256_hex (ri_sha256 i) \<and> 0 \<le> ri_byte_count i
     \<and> 1 \<le> length (ri_media_type i) \<and> length (ri_media_type i) \<le> 128
     \<and> 1 \<le> length (ri_encoding i) \<and> length (ri_encoding i) \<le> 64
     \<and> is_identifier (ri_schema_id i) \<and> 1 \<le> ri_schema_version i \<and> 1 \<le> ri_generation i"

record raw_reference =
  rr_id :: string
  rr_task :: string
  rr_logical :: string
  rr_attempt :: string
  rr_path :: string
  rr_sha256 :: string
  rr_byte_count :: int
  rr_schema_id :: string
  rr_schema_version :: int
  rr_generation :: int

text \<open>The pattern \<^verbatim>\<open>^acquisitions/[A-Za-z0-9_-]+/[A-Za-z0-9_-]+$\<close> of \<open>relative_path\<close>.\<close>

definition path_char :: "char \<Rightarrow> bool" where
  "path_char c \<longleftrightarrow> is_alnum c \<or> c = CHR ''_'' \<or> c = CHR ''-''"

definition is_raw_path :: "string \<Rightarrow> bool" where
  "is_raw_path s \<longleftrightarrow>
     take 13 s = ''acquisitions/''
     \<and> (let r = drop 13 s; a = takeWhile path_char r; q = dropWhile path_char r
        in a \<noteq> [] \<and> (case q of [] \<Rightarrow> False
             | c # b \<Rightarrow> c = CHR ''/'' \<and> b \<noteq> [] \<and> list_all path_char b))"

definition valid_raw_reference :: "raw_reference \<Rightarrow> bool" where
  "valid_raw_reference r \<longleftrightarrow>
     is_identifier (rr_id r) \<and> is_identifier (rr_task r) \<and> is_identifier (rr_logical r)
     \<and> is_identifier (rr_attempt r) \<and> is_raw_path (rr_path r) \<and> is_sha256_hex (rr_sha256 r)
     \<and> 0 \<le> rr_byte_count r \<and> is_identifier (rr_schema_id r) \<and> 1 \<le> rr_schema_version r
     \<and> 1 \<le> rr_generation r"

record raw_record =
  rc_intent :: raw_intent
  rc_path :: "string option"
  rc_state :: raw_state

section \<open>Leases, queues and gates\<close>

record lease_policy =
  lp_duration :: int
  lp_heartbeat :: int

definition valid_lease_policy :: "lease_policy \<Rightarrow> bool" where
  "valid_lease_policy p \<longleftrightarrow>
     3 \<le> lp_duration p \<and> 1 \<le> lp_heartbeat p \<and> lp_heartbeat p * 3 \<le> lp_duration p"

text \<open>A lease carries timestamps as text; the record holds what the texts parse to.\<close>

record runtime_lease =
  rl_owner :: string
  rl_generation :: int
  rl_acquired_at :: py_datetime
  rl_heartbeat_at :: py_datetime
  rl_expires_at :: py_datetime

definition valid_lease :: "runtime_lease \<Rightarrow> bool" where
  "valid_lease l \<longleftrightarrow> is_identifier (rl_owner l) \<and> 1 \<le> rl_generation l"

record queue_policy =
  qp_global :: int
  qp_domain :: int
  qp_task :: int

definition valid_queue_policy :: "queue_policy \<Rightarrow> bool" where
  "valid_queue_policy p \<longleftrightarrow>
     1 \<le> qp_global p \<and> 1 \<le> qp_domain p \<and> 1 \<le> qp_task p
     \<and> qp_task p \<le> qp_domain p \<and> qp_domain p \<le> qp_global p"

record queue_claim =
  qc_logical :: string
  qc_task :: string
  qc_domain :: string
  qc_enqueued_at :: string

record gate_limit =
  gl_concurrency :: int
  gl_min_interval :: rat
  gl_requests :: int
  gl_window :: rat

definition valid_gate_limit :: "gate_limit \<Rightarrow> bool" where
  "valid_gate_limit g \<longleftrightarrow>
     1 \<le> gl_concurrency g \<and> 0 \<le> gl_min_interval g \<and> 1 \<le> gl_requests g \<and> 0 < gl_window g"

type_synonym gate_policy = "gate_scope \<rightharpoonup> gate_limit"

definition valid_gate_policy :: "gate_policy \<Rightarrow> bool" where
  "valid_gate_policy p \<longleftrightarrow>
     list_all (\<lambda>s. case p s of None \<Rightarrow> False | Some g \<Rightarrow> valid_gate_limit g) all_scopes"

record gate_keys =
  gk_global :: string
  gk_egress :: string
  gk_provider :: string
  gk_origin :: string
  gk_credential :: string
  gk_operation :: string
  gk_task :: string
  gk_role :: string

definition valid_gate_keys :: "gate_keys \<Rightarrow> bool" where
  "valid_gate_keys k \<longleftrightarrow>
     is_identifier (gk_global k) \<and> is_identifier (gk_egress k) \<and> is_identifier (gk_provider k)
     \<and> is_identifier (gk_origin k) \<and> is_identifier (gk_credential k) \<and> is_identifier (gk_operation k)
     \<and> is_identifier (gk_task k) \<and> is_identifier (gk_role k)"

definition ordered :: "gate_keys \<Rightarrow> (gate_scope \<times> string) list" where
  "ordered k =
     [(S_Global, gk_global k), (S_Egress, gk_egress k), (S_Provider, gk_provider k),
      (S_Origin, gk_origin k), (S_Credential, gk_credential k), (S_Operation, gk_operation k),
      (S_Task, gk_task k), (S_Role, gk_role k)]"

record gate_reservation =
  gr_id :: string
  gr_attempt :: string
  gr_logical :: string
  gr_generation :: int
  gr_acquired_at :: string

definition valid_gate_reservation :: "gate_reservation \<Rightarrow> bool" where
  "valid_gate_reservation r \<longleftrightarrow>
     is_identifier (gr_id r) \<and> is_identifier (gr_attempt r) \<and> is_identifier (gr_logical r)
     \<and> 1 \<le> gr_generation r \<and> is_timestamp (gr_acquired_at r)"

text \<open>\<open>enabled\<close> of \<open>ProductionCachePolicy\<close> is the literal \<open>False\<close>; only \<open>applicable\<close> varies.\<close>

record cache_policy =
  cp_applicable :: bool

datatype cache_decision = Cache_Disabled | Cache_Not_Applicable

datatype flight_role = Leader | Follower

record admission_decision =
  ad_logical :: string
  ad_cache :: cache_decision
  ad_flight :: flight_role
  ad_leader :: string

lemma map_fst_ordered: "map fst (ordered k) = all_scopes"
  by (simp add: ordered_def all_scopes_def)

lemma distinct_ordered: "distinct (map fst (ordered k))"
  by (simp add: map_fst_ordered)

lemma length_ordered [simp]: "length (ordered k) = 8"
  by (simp add: ordered_def)

lemma valid_gate_policyD:
  "valid_gate_policy p \<Longrightarrow> \<exists>g. p s = Some g \<and> valid_gate_limit g"
  by (cases s) (auto simp: valid_gate_policy_def all_scopes_def split: option.splits)

end
