(* ===== verification/Store.thy ===== *)
theory Store
  imports Production "HOL-Library.Product_Lexorder"
begin

text \<open>
  The SQLite database of \<open>requests/storage.py\<close> (\<open>_create_schema\<close>): one record per table row,
  one field of \<open>db\<close> per table, and the statements the repository executes on it. A table is
  the list of its rows in insertion order. \<open>INSERT\<close> raises \<open>SqliteError\<close> on a violated
  \<open>PRIMARY KEY\<close>, \<open>UNIQUE\<close> or \<open>REFERENCES\<close> constraint; \<open>CHECK\<close> constraints on enumerated
  columns are the types of the fields.
\<close>

section \<open>Rows\<close>

record attempt_row = physical_attempt +
  pa_raw_eligible :: bool

record lease_row =
  le_owner :: string
  le_generation :: int
  le_acquired_at :: int
  le_heartbeat_at :: int
  le_expires_at :: int
  le_active :: bool

datatype queue_state = Q_Queued | Q_Dequeued | Q_Rejected | Q_Cancelled

record queue_row =
  qe_logical :: string
  qe_domain :: string
  qe_task :: string
  qe_enqueued_at :: int
  qe_state :: queue_state
  qe_dequeued_at :: "int option"

record event_row =
  ev_logical :: string
  ev_type :: string
  ev_at :: int
  ev_reason :: "string option"

record gate_row =
  gs_scope :: gate_scope
  gs_key :: string
  gs_active :: int
  gs_last_started :: "int option"
  gs_cooldown_until :: "int option"

datatype reservation_state = R_Active | R_Released | R_Recovered

record reservation_row =
  rv_id :: string
  rv_attempt :: string
  rv_logical :: string
  rv_generation :: int
  rv_acquired_at :: int
  rv_state :: reservation_state

record reserved_scope =
  rs_reservation :: string
  rs_scope :: gate_scope
  rs_key :: string

record gate_start =
  gt_reservation :: string
  gt_scope :: gate_scope
  gt_key :: string
  gt_at :: int

record gate_event =
  ge_logical :: string
  ge_reservation :: "string option"
  ge_scope :: "gate_scope option"
  ge_key :: "string option"
  ge_type :: string
  ge_at :: int
  ge_reason :: "string option"

datatype flight_state = F_Active | F_Terminal

record flight_row =
  fl_fingerprint :: string
  fl_leader :: string
  fl_state :: flight_state

datatype consumer_state = C_Active | C_Cancelled | C_Completed

record consumer_row =
  co_id :: string
  co_fingerprint :: string
  co_role :: flight_role
  co_state :: consumer_state
  co_cache :: cache_decision
  co_domain :: string
  co_joined_at :: int
  co_owner :: "string option"

record raw_row = raw_intent +
  rw_path :: "string option"
  rw_state :: raw_state
  rw_created_at :: int
  rw_committed_at :: "int option"

section \<open>The database\<close>

record db =
  user_version :: int
  schema_metadata :: "(string \<times> int) option"
  integrity :: bool
  logical_requests :: "logical_request list"
  physical_attempts :: "attempt_row list"
  logical_results :: "logical_result list"
  lease_slot :: "lease_row option"
  queue_entries :: "queue_row list"
  queue_cursors :: "(string \<times> string) list"
  queue_log :: "event_row list"
  gate_states :: "gate_row list"
  reservations :: "reservation_row list"
  reserved_scopes :: "reserved_scope list"
  gate_starts :: "gate_start list"
  gate_log :: "gate_event list"
  flights :: "flight_row list"
  consumers :: "consumer_row list"
  admission_log :: "event_row list"
  raw_publications :: "raw_row list"

definition schema_version_8 :: int where
  "schema_version_8 = 8"

definition schema_owner :: string where
  "schema_owner = ''production-request-coordinator''"

text \<open>The database \<open>_create_schema\<close> leaves: every table empty, schema version 8.\<close>

definition create_schema :: db where
  "create_schema =
     \<lparr>user_version = schema_version_8, schema_metadata = Some (schema_owner, 8), integrity = True,
      logical_requests = [], physical_attempts = [], logical_results = [], lease_slot = None,
      queue_entries = [], queue_cursors = [], queue_log = [], gate_states = [],
      reservations = [], reserved_scopes = [], gate_starts = [], gate_log = [], flights = [],
      consumers = [], admission_log = [], raw_publications = []\<rparr>"

definition verify_schema :: "(db, unit) tx" where
  "verify_schema = tx_block
     [tx_check (\<lambda>d. user_version d = schema_version_8) (StorageError ''unsupported_runtime_schema''),
      tx_check (\<lambda>d. schema_metadata d = Some (schema_owner, schema_version_8))
        (StorageError ''runtime_schema_metadata_mismatch''),
      tx_check integrity (StorageError ''runtime_database_integrity_failed'')]"

section \<open>Statements on a table\<close>

definition insert_row ::
  "('d \<Rightarrow> 'r list) \<Rightarrow> (('r list \<Rightarrow> 'r list) \<Rightarrow> 'd \<Rightarrow> 'd) \<Rightarrow> ('r \<Rightarrow> 'k) \<Rightarrow> 'r \<Rightarrow> ('d, unit) tx" where
  "insert_row rows set_rows key r = tx_block
     [tx_check (\<lambda>d. key r \<notin> key ` set (rows d)) SqliteError,
      tx_modify (set_rows (\<lambda>rs. rs @ [r]))]"

definition sql_update ::
  "(('r list \<Rightarrow> 'r list) \<Rightarrow> 'd \<Rightarrow> 'd) \<Rightarrow> ('r \<Rightarrow> bool) \<Rightarrow> ('r \<Rightarrow> 'r) \<Rightarrow> ('d, unit) tx" where
  "sql_update set_rows p f = tx_modify (set_rows (update_where p f))"

text \<open>An \<open>UPDATE\<close> whose \<open>rowcount\<close> must be 1.\<close>

definition sql_update_one ::
  "('d \<Rightarrow> 'r list) \<Rightarrow> (('r list \<Rightarrow> 'r list) \<Rightarrow> 'd \<Rightarrow> 'd) \<Rightarrow> ('r \<Rightarrow> bool) \<Rightarrow> ('r \<Rightarrow> 'r) \<Rightarrow> string
    \<Rightarrow> ('d, unit) tx" where
  "sql_update_one rows set_rows p f code = tx_block
     [tx_check (\<lambda>d. count_where p (rows d) = 1) (StorageError code),
      sql_update set_rows p f]"

text \<open>\<open>INSERT ... ON CONFLICT(key) DO UPDATE\<close>.\<close>

definition sql_upsert ::
  "('d \<Rightarrow> 'r list) \<Rightarrow> (('r list \<Rightarrow> 'r list) \<Rightarrow> 'd \<Rightarrow> 'd) \<Rightarrow> ('r \<Rightarrow> 'k) \<Rightarrow> 'r \<Rightarrow> ('r \<Rightarrow> 'r)
    \<Rightarrow> ('d, unit) tx" where
  "sql_upsert rows set_rows key r f = tx_modify (\<lambda>d.
     if key r \<in> key ` set (rows d) then set_rows (update_where (\<lambda>x. key x = key r) f) d
     else set_rows (\<lambda>rs. rs @ [r]) d)"

text \<open>\<open>ORDER BY\<close>, and the row \<open>ORDER BY ... LIMIT 1\<close> fetches.\<close>

definition order_by :: "('r \<Rightarrow> 'k::linorder) \<Rightarrow> 'r list \<Rightarrow> 'r list" where
  "order_by key rows = sort_key key rows"

definition first_row :: "('r \<Rightarrow> 'k::linorder) \<Rightarrow> 'r list \<Rightarrow> 'r option" where
  "first_row key rows = (case order_by key rows of [] \<Rightarrow> None | r # _ \<Rightarrow> Some r)"

lemma first_row_None: "first_row key rows = None \<longleftrightarrow> rows = []"
proof -
  have "order_by key rows = [] \<longleftrightarrow> rows = []"
    unfolding order_by_def by (metis length_0_conv length_sort)
  then show ?thesis by (auto simp: first_row_def split: list.splits)
qed

lemma first_row_least:
  assumes "first_row key rows = Some r"
  shows "r \<in> set rows \<and> (\<forall>s \<in> set rows. key r \<le> key s)"
proof -
  obtain rs where rs: "order_by key rows = r # rs"
    using assms by (auto simp: first_row_def split: list.splits)
  have "sorted (map key (order_by key rows))" and "set (order_by key rows) = set rows"
    by (simp_all add: order_by_def)
  with rs show ?thesis by (auto simp flip: \<open>set (order_by key rows) = set rows\<close>)
qed

lemma tx_wp_sql_upsert [tx_wp]:
  "tx_wp (sql_upsert rows set_rows key r f) Q d \<longleftrightarrow>
     (if key r \<in> key ` set (rows d) then Q () (set_rows (update_where (\<lambda>x. key x = key r) f) d)
      else Q () (set_rows (\<lambda>rs. rs @ [r]) d))"
  by (simp add: sql_upsert_def tx_wp)

lemma tx_wp_insert_row [tx_wp]:
  "tx_wp (insert_row rows set_rows key r) Q d \<longleftrightarrow>
     (key r \<notin> key ` set (rows d) \<longrightarrow> Q () (set_rows (\<lambda>rs. rs @ [r]) d))"
  by (simp add: insert_row_def tx_wp)

lemma tx_wp_sql_update [tx_wp]:
  "tx_wp (sql_update set_rows p f) Q d \<longleftrightarrow> Q () (set_rows (update_where p f) d)"
  by (simp add: sql_update_def tx_wp)

lemma tx_wp_sql_update_one [tx_wp]:
  "tx_wp (sql_update_one rows set_rows p f code) Q d \<longleftrightarrow>
     (count_where p (rows d) = 1 \<longrightarrow> Q () (set_rows (update_where p f) d))"
  by (simp add: sql_update_one_def tx_wp)

lemma tx_ok_rows [tx_ok]:
  "tx_ok (insert_row rows set_rows key r) Q d \<longleftrightarrow>
     key r \<notin> key ` set (rows d) \<and> Q () (set_rows (\<lambda>rs. rs @ [r]) d)"
  "tx_ok (sql_update set_rows p f) Q d \<longleftrightarrow> Q () (set_rows (update_where p f) d)"
  "tx_ok (sql_update_one rows set_rows p f code) Q d \<longleftrightarrow>
     count_where p (rows d) = 1 \<and> Q () (set_rows (update_where p f) d)"
  "tx_ok (sql_upsert rows set_rows key r f) Q d \<longleftrightarrow>
     (if key r \<in> key ` set (rows d) then Q () (set_rows (update_where (\<lambda>x. key x = key r) f) d)
      else Q () (set_rows (\<lambda>rs. rs @ [r]) d))"
  by (simp_all add: insert_row_def sql_update_def sql_update_one_def sql_upsert_def tx_ok)

lemma keeps_row_statements [tx_frame]:
  assumes "\<And>h d. f (set_rows h d) = f d"
  shows "keeps f (insert_row rows set_rows key r)"
    and "keeps f (sql_update set_rows p g)"
    and "keeps f (sql_update_one rows set_rows p g code)"
    and "keeps f (sql_upsert rows set_rows key r g)"
  unfolding insert_row_def sql_update_def sql_update_one_def sql_upsert_def
  using assms by (auto intro!: tx_frame)

text \<open>
  The contract of a keyed table: writing the rows field changes that field and nothing a
  client reads through another one. It is interpreted below on every table with a
  \<open>PRIMARY KEY\<close>.
\<close>

definition keys_ok :: "('d \<Rightarrow> 'r list) \<Rightarrow> ('r \<Rightarrow> 'k) \<Rightarrow> 'd \<Rightarrow> bool" where
  "keys_ok rows key d \<longleftrightarrow> distinct (map key (rows d))"

locale keyed_table =
  fixes rows :: "'d \<Rightarrow> 'r list"
    and set_rows :: "('r list \<Rightarrow> 'r list) \<Rightarrow> 'd \<Rightarrow> 'd"
    and key :: "'r \<Rightarrow> 'k"
  assumes rows_set_rows: "rows (set_rows f d) = f (rows d)"
begin

lemma insert_selected:
  assumes "insert_row rows set_rows key r d = Inr (u, d')"
  shows "select_by key (key r) (rows d') = Some r \<and> set (rows d') = insert r (set (rows d))"
proof -
  have fresh: "key r \<notin> key ` set (rows d)" and d': "rows d' = rows d @ [r]"
    using assms by (auto simp: insert_row_def tx_simps rows_set_rows split: if_splits)
  from fresh have "select_by key (key r) (rows d) = None" by (simp add: select_by_None)
  with d' show ?thesis by (simp add: select_by_append select_by_Cons)
qed

lemma insert_keys_ok:
  "keys_ok rows key d \<Longrightarrow> tx_wp (insert_row rows set_rows key r) (\<lambda>_. keys_ok rows key) d"
  by (simp add: tx_wp keys_ok_def rows_set_rows)

lemma update_keys_ok:
  "(\<And>r. key (f r) = key r) \<Longrightarrow> keys_ok rows key d \<Longrightarrow> keys_ok rows key (set_rows (update_where p f) d)"
  by (simp add: keys_ok_def rows_set_rows row_simps)

lemma upsert_keys_ok:
  "(\<And>x. key (f x) = key x) \<Longrightarrow> keys_ok rows key d \<Longrightarrow>
   tx_wp (sql_upsert rows set_rows key r f) (\<lambda>_. keys_ok rows key) d"
  by (simp add: tx_wp keys_ok_def rows_set_rows row_simps)

lemma insert_duplicate:
  "key r \<in> key ` set (rows d) \<Longrightarrow> insert_row rows set_rows key r d = Inl SqliteError"
  by (simp add: insert_row_def tx_simps)

lemma update_one_row:
  assumes "keys_ok rows key d" and "\<And>r. p r \<Longrightarrow> key r = k"
    and "sql_update_one rows set_rows p f c d = Inr (u, d')"
  shows "\<exists>r. select_by key k (rows d) = Some r \<and> p r"
proof -
  have "count_where p (rows d) = 1"
    using assms(3) by (simp add: sql_update_one_def tx_simps split: if_splits)
  then obtain r where "r \<in> set (rows d)" "p r"
    using count_where_zero [of p "rows d"] by auto
  with assms(1,2) show ?thesis
    by (auto simp: keys_ok_def intro!: exI [of _ r] dest: select_by_unique)
qed

end

interpretation lr: keyed_table logical_requests logical_requests_update lr_id
  by unfold_locales simp

interpretation pa: keyed_table physical_attempts physical_attempts_update pa_id
  by unfold_locales simp

interpretation re: keyed_table logical_results logical_results_update re_id
  by unfold_locales simp

interpretation qe: keyed_table queue_entries queue_entries_update qe_logical
  by unfold_locales simp

interpretation qc: keyed_table queue_cursors queue_cursors_update fst
  by unfold_locales simp

interpretation gs: keyed_table gate_states gate_states_update "\<lambda>g. (gs_scope g, gs_key g)"
  by unfold_locales simp

interpretation rv: keyed_table reservations reservations_update rv_id
  by unfold_locales simp

interpretation rs: keyed_table reserved_scopes reserved_scopes_update
    "\<lambda>r. (rs_reservation r, rs_scope r)"
  by unfold_locales simp

interpretation fl: keyed_table flights flights_update fl_fingerprint
  by unfold_locales simp

interpretation co: keyed_table consumers consumers_update co_id
  by unfold_locales simp

interpretation rw: keyed_table raw_publications raw_publications_update ri_id
  by unfold_locales simp

text \<open>Every \<open>PRIMARY KEY\<close> of the schema holds.\<close>

definition primary_keys :: "db \<Rightarrow> bool" where
  "primary_keys d \<longleftrightarrow>
     keys_ok logical_requests lr_id d \<and> keys_ok physical_attempts pa_id d
     \<and> keys_ok logical_results re_id d \<and> keys_ok queue_entries qe_logical d
     \<and> keys_ok queue_cursors fst d \<and> keys_ok gate_states (\<lambda>g. (gs_scope g, gs_key g)) d
     \<and> keys_ok reservations rv_id d
     \<and> keys_ok reserved_scopes (\<lambda>r. (rs_reservation r, rs_scope r)) d
     \<and> keys_ok flights fl_fingerprint d \<and> keys_ok consumers co_id d
     \<and> keys_ok raw_publications ri_id d"

section \<open>Rows the operations write\<close>

text \<open>\<open>REFERENCES logical_requests(logical_request_id)\<close>.\<close>

definition logical_exists :: "string \<Rightarrow> (db, unit) tx" where
  "logical_exists lid = tx_check (\<lambda>d. lid \<in> lr_id ` set (logical_requests d)) SqliteError"

definition insert_logical_request :: "logical_request \<Rightarrow> (db, unit) tx" where
  "insert_logical_request r = insert_row logical_requests logical_requests_update lr_id r"

definition insert_logical_result :: "logical_result \<Rightarrow> (db, unit) tx" where
  "insert_logical_result r = tx_block
     [logical_exists (re_id r), insert_row logical_results logical_results_update re_id r]"

definition append_queue_event :: "string \<Rightarrow> string \<Rightarrow> int \<Rightarrow> string option \<Rightarrow> (db, unit) tx" where
  "append_queue_event lid type now reason = tx_block
     [logical_exists lid,
      tx_modify (queue_log_update (\<lambda>es. es @
        [\<lparr>ev_logical = lid, ev_type = type, ev_at = now, ev_reason = reason\<rparr>]))]"

definition append_admission_event ::
  "string \<Rightarrow> string \<Rightarrow> int \<Rightarrow> string option \<Rightarrow> (db, unit) tx" where
  "append_admission_event lid type now reason = tx_block
     [logical_exists lid,
      tx_modify (admission_log_update (\<lambda>es. es @
        [\<lparr>ev_logical = lid, ev_type = type, ev_at = now, ev_reason = reason\<rparr>]))]"

definition append_gate_event ::
  "string \<Rightarrow> string option \<Rightarrow> gate_scope option \<Rightarrow> string option \<Rightarrow> string \<Rightarrow> int \<Rightarrow> string option
    \<Rightarrow> (db, unit) tx" where
  "append_gate_event lid rid scope key type now reason = tx_block
     [logical_exists lid,
      tx_modify (gate_log_update (\<lambda>es. es @
        [\<lparr>ge_logical = lid, ge_reservation = rid, ge_scope = scope, ge_key = key, ge_type = type,
          ge_at = now, ge_reason = reason\<rparr>]))]"

definition insert_attempt :: "attempt_row \<Rightarrow> (db, unit) tx" where
  "insert_attempt a = tx_block
     [logical_exists (pa_logical a),
      tx_check (\<lambda>d. (pa_logical a, pa_sequence a)
          \<notin> (\<lambda>b. (pa_logical b, pa_sequence b)) ` set (physical_attempts d)) SqliteError,
      insert_row physical_attempts physical_attempts_update pa_id a]"

definition insert_queue_entry :: "queue_row \<Rightarrow> (db, unit) tx" where
  "insert_queue_entry q = tx_block
     [logical_exists (qe_logical q), insert_row queue_entries queue_entries_update qe_logical q]"

text \<open>
  Every \<open>UPDATE\<close> of \<open>single_flight_consumers\<close> is subject to its table constraint: a result
  owner exactly when the consumer is completed.
\<close>

definition consumer_check :: "consumer_row \<Rightarrow> bool" where
  "consumer_check c \<longleftrightarrow> (co_state c = C_Completed \<longleftrightarrow> co_owner c \<noteq> None)"

definition update_consumer :: "string \<Rightarrow> (consumer_row \<Rightarrow> consumer_row) \<Rightarrow> (db, unit) tx" where
  "update_consumer cid f = tx_block
     [tx_check (\<lambda>d. \<forall>c \<in> set (consumers d). co_id c = cid \<longrightarrow> consumer_check (f c)) SqliteError,
      sql_update consumers_update (\<lambda>c. co_id c = cid) f]"

section \<open>The fence\<close>

text \<open>
  \<open>_assert_fence\<close>: the caller's lease is the active row of the same owner and generation,
  and \<open>now\<close> lies between its heartbeat and its expiry.
\<close>

definition fence_error :: "runtime_lease \<Rightarrow> int \<Rightarrow> db \<Rightarrow> exn option" where
  "fence_error l now d =
     (case lease_slot d of
        None \<Rightarrow> Some (StorageError ''stale_runtime_lease'')
      | Some r \<Rightarrow>
          if le_owner r \<noteq> rl_owner l \<or> le_generation r \<noteq> rl_generation l \<or> \<not> le_active r
          then Some (StorageError ''stale_runtime_lease'')
          else if now < le_heartbeat_at r then Some (StorageError ''runtime_clock_rollback'')
          else if le_expires_at r \<le> now then Some (StorageError ''runtime_lease_expired'')
          else None)"

definition assert_fence :: "runtime_lease \<Rightarrow> int \<Rightarrow> (db, unit) tx" where
  "assert_fence l now =
     (\<lambda>d. case fence_error l now d of None \<Rightarrow> Inr ((), d) | Some e \<Rightarrow> Inl e)"

text \<open>The checks every fenced operation starts with.\<close>

definition fenced :: "runtime_lease \<Rightarrow> int \<Rightarrow> (db, unit) tx" where
  "fenced l now = tx_block [verify_schema, assert_fence l now]"

definition schema_ok :: "db \<Rightarrow> bool" where
  "schema_ok d \<longleftrightarrow> user_version d = schema_version_8
     \<and> schema_metadata d = Some (schema_owner, schema_version_8) \<and> integrity d"

lemma schema_ok_create [simp]: "schema_ok create_schema"
  by (simp add: schema_ok_def create_schema_def schema_version_8_def)

lemma tx_wp_verify_schema [tx_wp]: "tx_wp verify_schema Q d \<longleftrightarrow> (schema_ok d \<longrightarrow> Q () d)"
  by (auto simp: verify_schema_def schema_ok_def tx_wp)

lemma verify_schema_ok [simp]: "schema_ok d \<Longrightarrow> verify_schema d = Inr ((), d)"
  by (simp add: verify_schema_def schema_ok_def tx_simps)

lemma verify_schema_same: "verify_schema d = Inr (u, d') \<Longrightarrow> d' = d"
  by (simp add: verify_schema_def tx_simps split: if_splits)

lemma tx_wp_fence [tx_wp]:
  "tx_wp (assert_fence l now) Q d \<longleftrightarrow> (fence_error l now d = None \<longrightarrow> Q () d)"
  by (auto simp: assert_fence_def tx_wp_def split: option.splits)

lemma tx_wp_fenced [tx_wp]:
  "tx_wp (fenced l now) Q d \<longleftrightarrow> (schema_ok d \<and> fence_error l now d = None \<longrightarrow> Q () d)"
  by (auto simp: fenced_def tx_wp)

lemma tx_ok_fenced [tx_ok]:
  "tx_ok (fenced l now) Q d \<longleftrightarrow> schema_ok d \<and> fence_error l now d = None \<and> Q () d"
  by (auto simp: fenced_def assert_fence_def tx_ok_def tx_simps verify_schema_def schema_ok_def
      split: option.splits)

lemma fenced_ok [simp]:
  "schema_ok d \<Longrightarrow> fence_error l now d = None \<Longrightarrow> fenced l now d = Inr ((), d)"
  by (simp add: fenced_def assert_fence_def tx_simps)

lemma fenced_rejects:
  "schema_ok d \<Longrightarrow> fence_error l now d = Some e \<Longrightarrow> fenced l now d = Inl e"
  by (simp add: fenced_def assert_fence_def tx_simps)

lemma fence_error_None:
  "fence_error l now d = None \<longleftrightarrow>
     (\<exists>r. lease_slot d = Some r \<and> le_owner r = rl_owner l \<and> le_generation r = rl_generation l
        \<and> le_active r \<and> le_heartbeat_at r \<le> now \<and> now < le_expires_at r)"
  by (auto simp: fence_error_def split: option.splits if_splits)

lemma fence_error_not_sqlite: "fence_error l now d = Some e \<Longrightarrow> e \<noteq> SqliteError"
  by (auto simp: fence_error_def split: option.splits if_splits)

lemmas row_writes = insert_logical_request_def insert_logical_result_def append_queue_event_def
  append_admission_event_def append_gate_event_def insert_attempt_def insert_queue_entry_def
  logical_exists_def

lemma keeps_checks [tx_frame]:
  "keeps f verify_schema" "keeps f (assert_fence l now)" "keeps f (fenced l now)"
  "keeps f (logical_exists lid)"
proof -
  show v: "keeps f verify_schema" unfolding verify_schema_def by (intro tx_frame)
  show a: "keeps f (assert_fence l now)"
    unfolding keeps_def
    by (rule tx_relI) (auto simp: assert_fence_def same_part_def split: option.splits)
  show "keeps f (fenced l now)" unfolding fenced_def by (intro tx_frame v a)
  show "keeps f (logical_exists lid)" unfolding logical_exists_def by (intro tx_frame)
qed

section \<open>The frame of an operation\<close>

text \<open>
  The arguments an operation validates before its transaction: contract checks raise
  \<open>ValidationError\<close>, \<open>_validate_utc\<close> raises for a clock that is not UTC.
\<close>

definition with_clock ::
  "bool \<Rightarrow> py_datetime \<Rightarrow> bool \<Rightarrow> (int \<Rightarrow> db \<Rightarrow> db \<times> (exn + 'a)) \<Rightarrow> db \<Rightarrow> db \<times> (exn + 'a)" where
  "with_clock before now after body d =
     (if \<not> before then (d, Inl ValidationError)
      else case validate_utc now of
          Inl e \<Rightarrow> (d, Inl e)
        | Inr t \<Rightarrow> if \<not> after then (d, Inl ValidationError) else body t d)"

text \<open>What an operation does with the value its transaction committed.\<close>

definition after_commit :: "('a \<Rightarrow> exn + 'b) \<Rightarrow> db \<times> (exn + 'a) \<Rightarrow> db \<times> (exn + 'b)" where
  "after_commit f r = (fst r, case snd r of Inl e \<Rightarrow> Inl e | Inr a \<Rightarrow> f a)"

lemma fst_after_commit [simp]: "fst (after_commit f r) = fst r"
  by (simp add: after_commit_def)

lemma after_commit_ok:
  "after_commit f r = (d', Inr b) \<longleftrightarrow> (\<exists>a. r = (d', Inr a) \<and> f a = Inr b)"
  by (cases r) (auto simp: after_commit_def split: sum.splits)

text \<open>A read: the schema check and one query.\<close>

definition read_tx :: "string \<Rightarrow> (db \<Rightarrow> 'a) \<Rightarrow> db \<Rightarrow> db \<times> (exn + 'a)" where
  "read_tx code query =
     run_tx (StorageError code) (tx_bind verify_schema (\<lambda>_. tx_gets query))"

lemma read_tx_ok [simp]: "schema_ok d \<Longrightarrow> read_tx code query d = (d, Inr (query d))"
  by (simp add: read_tx_def run_tx_def tx_simps)

lemma read_tx_keeps [simp]: "fst (read_tx code query d) = d"
  by (auto simp: read_tx_def run_tx_def tx_simps verify_schema_def split: sum.splits if_splits)

lemma with_clock_ok:
  "with_clock before now after body d = (d', Inr a) \<longleftrightarrow>
     before \<and> after \<and> (\<exists>t. now = utc t \<and> body t d = (d', Inr a))"
  by (auto simp: with_clock_def validate_utc_Inr split: sum.splits)

lemma with_clock_utc [simp]: "with_clock True (utc t) True body d = body t d"
  by (simp add: with_clock_def)

lemma with_clock_keeps:
  "I d \<Longrightarrow> (\<And>t. I (fst (body t d))) \<Longrightarrow> I (fst (with_clock before now after body d))"
  by (auto simp: with_clock_def split: sum.splits)

lemma with_clock_rel:
  "(\<And>d. R d d) \<Longrightarrow> (\<And>t. R d (fst (body t d))) \<Longrightarrow> R d (fst (with_clock before now after body d))"
  by (auto simp: with_clock_def split: sum.splits)

end
