(* ===== verification/History.thy ===== *)
theory History
  imports Store
begin

text \<open>
  What no operation of the repository ever undoes. \<open>db_extends d d'\<close> says that \<open>d'\<close> is a
  later state of \<open>d\<close>: audit logs and results only grow, a terminal logical request, attempt,
  consumer, reservation or publication is final, and the fencing generation never decreases.
  \<open>history\<close> adds the primary keys and is the preorder every operation is proved to respect.
\<close>

section \<open>Tables whose rows only move forward\<close>

text \<open>
  \<open>evolve R xs ys\<close>: the rows of \<open>xs\<close> are still there, in order, each \<open>R\<close>-below its new
  version; new rows come after them.
\<close>

definition evolve :: "('r \<Rightarrow> 'r \<Rightarrow> bool) \<Rightarrow> 'r list \<Rightarrow> 'r list \<Rightarrow> bool" where
  "evolve R xs ys \<longleftrightarrow> length xs \<le> length ys \<and> (\<forall>i < length xs. R (xs ! i) (ys ! i))"

lemma evolve_refl: "reflp R \<Longrightarrow> evolve R xs xs"
  by (simp add: evolve_def reflpD)

lemma evolve_trans: "transp R \<Longrightarrow> evolve R xs ys \<Longrightarrow> evolve R ys zs \<Longrightarrow> evolve R xs zs"
  unfolding evolve_def by (meson le_trans order.strict_trans2 transpE)

lemma evolve_append: "reflp R \<Longrightarrow> evolve R xs (xs @ ys)"
  by (simp add: evolve_def nth_append reflpD)

lemma evolve_update:
  "reflp R \<Longrightarrow> (\<And>r. r \<in> set xs \<Longrightarrow> p r \<Longrightarrow> R r (f r)) \<Longrightarrow> evolve R xs (update_where p f xs)"
  by (auto simp: evolve_def update_where_def reflpD)

lemma evolve_rowD: "evolve R xs ys \<Longrightarrow> x \<in> set xs \<Longrightarrow> \<exists>y \<in> set ys. R x y"
  unfolding evolve_def by (metis in_set_conv_nth order.strict_trans2)

lemma evolve_mono: "evolve R xs ys \<Longrightarrow> (\<And>x y. R x y \<Longrightarrow> S x y) \<Longrightarrow> evolve S xs ys"
  by (simp add: evolve_def)

lemma evolve_eq_prefix: "evolve (=) xs ys \<longleftrightarrow> (\<exists>zs. ys = xs @ zs)"
proof
  assume e: "evolve (=) xs ys"
  then have "xs = take (length xs) ys"
    by (intro nth_equalityI) (auto simp: evolve_def)
  then show "\<exists>zs. ys = xs @ zs" by (metis append_take_drop_id)
next
  assume "\<exists>zs. ys = xs @ zs"
  then show "evolve (=) xs ys" by (auto simp: evolve_def nth_append)
qed

subsection \<open>The lifecycle of each row\<close>

definition request_step :: "logical_request \<Rightarrow> logical_request \<Rightarrow> bool" where
  "request_step r s \<longleftrightarrow> s = r \<or> lr_state r = L_Queued \<and> s = r\<lparr>lr_state := lr_state s\<rparr>"

text \<open>
  A consumer never joins again, a completed one stays completed, a leader stays the leader.
\<close>

definition consumer_step :: "consumer_row \<Rightarrow> consumer_row \<Rightarrow> bool" where
  "consumer_step r s \<longleftrightarrow> s = r\<lparr>co_role := co_role s, co_state := co_state s, co_owner := co_owner s\<rparr>
     \<and> (co_role r = Leader \<longrightarrow> co_role s = Leader)
     \<and> (co_state r \<noteq> C_Active \<longrightarrow> co_state s \<noteq> C_Active)
     \<and> (consumer_check r \<longrightarrow> consumer_check s)
     \<and> (consumer_check r \<longrightarrow> co_state r = C_Completed \<longrightarrow> co_state s = C_Completed)"

definition reservation_step :: "reservation_row \<Rightarrow> reservation_row \<Rightarrow> bool" where
  "reservation_step r s \<longleftrightarrow> s = r \<or> rv_state s \<noteq> R_Active \<and> s = r\<lparr>rv_state := rv_state s\<rparr>"

definition publication_step :: "raw_row \<Rightarrow> raw_row \<Rightarrow> bool" where
  "publication_step r s \<longleftrightarrow> s = r \<or>
     rw_state r \<in> {P_Staging, P_Reconciliation} \<and> rw_state s \<noteq> P_Staging
     \<and> s = r\<lparr>rw_path := rw_path s, rw_state := rw_state s, rw_committed_at := rw_committed_at s\<rparr>"

definition attempt_step :: "attempt_row \<Rightarrow> attempt_row \<Rightarrow> bool" where
  "attempt_step a b \<longleftrightarrow> b = a \<or>
     pa_state a = A_Started \<and> pa_state b \<notin> {A_Reserved, A_Started}
     \<and> b = a\<lparr>pa_state := pa_state b, pa_raw_eligible := pa_raw_eligible b\<rparr>"

text \<open>
  An attempt that was started or finished is never forgotten; a reserved one may be discarded.
\<close>

definition attempts_extend :: "attempt_row list \<Rightarrow> attempt_row list \<Rightarrow> bool" where
  "attempts_extend xs ys \<longleftrightarrow>
     (\<forall>a \<in> set xs. pa_state a \<noteq> A_Reserved \<longrightarrow> (\<exists>b \<in> set ys. attempt_step a b))"

definition lease_extends :: "lease_row option \<Rightarrow> lease_row option \<Rightarrow> bool" where
  "lease_extends x y \<longleftrightarrow>
     (case x of None \<Rightarrow> True
      | Some r \<Rightarrow>
          (case y of None \<Rightarrow> False
           | Some s \<Rightarrow> le_generation r < le_generation s
               \<or> le_generation s = le_generation r \<and> le_owner s = le_owner r
                  \<and> le_acquired_at s = le_acquired_at r \<and> (le_active s \<longrightarrow> le_active r)))"

lemma reflp_steps [simp]:
  "reflp request_step" "reflp consumer_step" "reflp reservation_step" "reflp publication_step"
  "reflp attempt_step"
  by (auto simp: reflp_def request_step_def consumer_step_def reservation_step_def
      publication_step_def attempt_step_def)

lemma transp_request_step [simp]: "transp request_step"
  by (rule transpI) (auto simp: request_step_def)

lemma transp_consumer_step [simp]: "transp consumer_step"
proof (rule transpI)
  fix x y z assume "consumer_step x y" "consumer_step y z"
  then show "consumer_step x z"
    by (cases x; cases y; cases z) (simp add: consumer_step_def, blast)
qed

lemma transp_reservation_step [simp]: "transp reservation_step"
proof (rule transpI)
  fix x y z assume "reservation_step x y" "reservation_step y z"
  then show "reservation_step x z"
    by (cases x; cases y; cases z) (auto simp: reservation_step_def)
qed

lemma transp_publication_step [simp]: "transp publication_step"
proof (rule transpI)
  fix x y z assume "publication_step x y" "publication_step y z"
  then show "publication_step x z"
    by (cases x; cases y; cases z) (auto simp: publication_step_def)
qed

lemma transp_attempt_step [simp]: "transp attempt_step"
  by (rule transpI) (auto simp: attempt_step_def)

lemma attempts_extend_refl [simp]: "attempts_extend xs xs"
  by (auto simp: attempts_extend_def attempt_step_def)

lemma attempt_step_not_reserved:
  "attempt_step a b \<Longrightarrow> pa_state a \<noteq> A_Reserved \<Longrightarrow> pa_state b \<noteq> A_Reserved"
  by (auto simp: attempt_step_def)

lemma attempts_extend_trans:
  "attempts_extend xs ys \<Longrightarrow> attempts_extend ys zs \<Longrightarrow> attempts_extend xs zs"
  unfolding attempts_extend_def by (meson attempt_step_not_reserved transpE transp_attempt_step)

lemma attempts_extend_append [simp]: "attempts_extend xs (xs @ ys)"
  by (auto simp: attempts_extend_def attempt_step_def)

lemma attempts_extend_update:
  "(\<And>a. a \<in> set xs \<Longrightarrow> p a \<Longrightarrow> pa_state a \<noteq> A_Reserved \<Longrightarrow> attempt_step a (f a)) \<Longrightarrow>
   attempts_extend xs (update_where p f xs)"
  unfolding attempts_extend_def set_update_where
  by (metis (mono_tags, lifting) UnI1 UnI2 attempt_step_def image_eqI mem_Collect_eq)

lemma lease_extends_refl [simp]: "lease_extends x x"
  by (simp add: lease_extends_def split: option.splits)

lemma lease_extends_trans: "lease_extends x y \<Longrightarrow> lease_extends y z \<Longrightarrow> lease_extends x z"
  by (auto simp: lease_extends_def split: option.splits)

section \<open>The preorder on databases\<close>

definition db_extends :: "db \<Rightarrow> db \<Rightarrow> bool" where
  "db_extends d d' \<longleftrightarrow>
     evolve (=) (queue_log d) (queue_log d') \<and> evolve (=) (gate_log d) (gate_log d')
     \<and> evolve (=) (admission_log d) (admission_log d') \<and> evolve (=) (gate_starts d) (gate_starts d')
     \<and> evolve (=) (logical_results d) (logical_results d')
     \<and> evolve request_step (logical_requests d) (logical_requests d')
     \<and> evolve consumer_step (consumers d) (consumers d')
     \<and> evolve reservation_step (reservations d) (reservations d')
     \<and> evolve publication_step (raw_publications d) (raw_publications d')
     \<and> attempts_extend (physical_attempts d) (physical_attempts d')
     \<and> lease_extends (lease_slot d) (lease_slot d')"

lemma reflp_transp_eq [simp]: "reflp (=)" "transp (=)"
  by (auto simp: reflp_def transp_def)

lemma db_extends_refl [simp]: "db_extends d d"
  by (simp add: db_extends_def evolve_refl)

lemma db_extends_trans:
  assumes "db_extends a b" and "db_extends b c"
  shows "db_extends a c"
  using assms unfolding db_extends_def
  by (auto intro: evolve_trans attempts_extend_trans lease_extends_trans
      evolve_trans [OF reflp_transp_eq(2)])

definition history :: "db \<Rightarrow> db \<Rightarrow> bool" where
  "history d d' \<longleftrightarrow> (primary_keys d \<longrightarrow> primary_keys d' \<and> db_extends d d')"

interpretation hist: preorder_on_states history
proof unfold_locales
  show "history d d" for d by (simp add: history_def)
  show "history a b \<Longrightarrow> history b c \<Longrightarrow> history a c" for a b c
    by (auto simp: history_def intro: db_extends_trans)
qed

subsection \<open>Statements respect it\<close>

lemma hist_insert_logical_request [tx_rel_intros]: "tx_rel history (insert_logical_request r)"
  by (rule tx_relI) (auto simp: history_def db_extends_def primary_keys_def keys_ok_def
      insert_logical_request_def insert_row_def tx_simps evolve_refl evolve_append split: if_splits)

lemma hist_insert_logical_result [tx_rel_intros]: "tx_rel history (insert_logical_result r)"
  by (rule tx_relI) (auto simp: history_def db_extends_def primary_keys_def keys_ok_def row_writes
      insert_row_def tx_simps evolve_refl evolve_append split: if_splits)

lemma hist_events [tx_rel_intros]:
  "tx_rel history (append_queue_event lid ty now reason)"
  "tx_rel history (append_admission_event lid ty now reason)"
  "tx_rel history (append_gate_event lid rid sc ky ty now reason)"
  by (rule tx_relI, auto simp: history_def db_extends_def primary_keys_def keys_ok_def row_writes
      insert_row_def tx_simps evolve_refl evolve_append split: if_splits)+

lemma hist_insert_attempt [tx_rel_intros]: "tx_rel history (insert_attempt a)"
  by (rule tx_relI) (auto simp: history_def db_extends_def primary_keys_def keys_ok_def row_writes
      insert_row_def tx_simps evolve_refl evolve_append split: if_splits)

lemma hist_insert_queue_entry [tx_rel_intros]: "tx_rel history (insert_queue_entry q)"
  by (rule tx_relI) (auto simp: history_def db_extends_def primary_keys_def keys_ok_def row_writes
      insert_row_def tx_simps evolve_refl evolve_append split: if_splits)

lemma hist_verify [tx_rel_intros]: "tx_rel history verify_schema"
  unfolding verify_schema_def by (rule hist.rel_block) (auto intro: hist.rel_check)

lemma hist_fence [tx_rel_intros]: "tx_rel history (assert_fence l now)"
  by (rule tx_relI) (auto simp: assert_fence_def hist.R_refl split: option.splits)

lemma hist_fenced [tx_rel_intros]: "tx_rel history (fenced l now)"
  unfolding fenced_def by (rule hist.rel_block) (auto intro: tx_rel_intros)

lemma hist_update_queue [tx_rel_intros]:
  assumes "\<And>q. qe_logical (f q) = qe_logical q"
  shows "tx_rel history (sql_update queue_entries_update p f)"
    and "tx_rel history (sql_update_one queue_entries queue_entries_update p f code)"
  by (rule tx_relI, auto simp: history_def db_extends_def primary_keys_def keys_ok_def
      sql_update_def sql_update_one_def tx_simps evolve_refl map_update_where assms
      split: if_splits)+

lemma hist_upsert_cursor [tx_rel_intros]:
  assumes "\<And>q. fst (f q) = fst q"
  shows "tx_rel history (sql_upsert queue_cursors queue_cursors_update fst r f)"
  by (rule tx_relI) (auto simp: history_def db_extends_def primary_keys_def keys_ok_def
      sql_upsert_def tx_simps evolve_refl map_update_where assms split: if_splits)

lemma hist_update_flights [tx_rel_intros]:
  assumes "\<And>q. fl_fingerprint (f q) = fl_fingerprint q"
  shows "tx_rel history (sql_update flights_update p f)"
  by (rule tx_relI) (auto simp: history_def db_extends_def primary_keys_def keys_ok_def
      sql_update_def tx_simps evolve_refl map_update_where assms split: if_splits)

lemma hist_set_reservation [tx_rel_intros]:
  assumes "\<And>r. rv_id (f r) = rv_id r" and "\<And>r. reservation_step r (f r)"
  shows "tx_rel history (sql_update reservations_update p f)"
  by (rule tx_relI) (auto simp: history_def db_extends_def primary_keys_def keys_ok_def
      sql_update_def tx_simps evolve_refl map_update_where assms intro!: evolve_update)

lemma hist_insert_consumer [tx_rel_intros]:
  "tx_rel history (insert_row consumers consumers_update co_id r)"
  by (rule tx_relI) (auto simp: history_def db_extends_def primary_keys_def keys_ok_def
      insert_row_def tx_simps evolve_refl evolve_append split: if_splits)

lemma hist_insert_flight [tx_rel_intros]:
  assumes "\<And>q. fl_fingerprint (f q) = fl_fingerprint q"
  shows "tx_rel history (sql_upsert flights flights_update fl_fingerprint r f)"
  by (rule tx_relI) (auto simp: history_def db_extends_def primary_keys_def keys_ok_def
      sql_upsert_def tx_simps evolve_refl map_update_where assms split: if_splits)

lemma hist_update_consumer [tx_rel_intros]:
  assumes "\<And>c. co_id (f c) = co_id c"
    and "\<And>c. consumer_check (f c) \<Longrightarrow> consumer_step c (f c)"
  shows "tx_rel history (update_consumer cid f)"
  by (rule tx_relI) (auto simp: history_def db_extends_def primary_keys_def keys_ok_def
      update_consumer_def sql_update_def tx_simps evolve_refl map_update_where assms
      split: if_splits intro!: evolve_update)

lemma hist_gate_states [tx_rel_intros]:
  assumes "\<And>g. (gs_scope (f g), gs_key (f g)) = (gs_scope g, gs_key g)"
  shows "tx_rel history (sql_update gate_states_update p f)"
    and "tx_rel history (sql_update_one gate_states gate_states_update p f code)"
    and "tx_rel history (sql_upsert gate_states gate_states_update (\<lambda>g. (gs_scope g, gs_key g)) r f)"
  by (rule tx_relI, auto simp: history_def db_extends_def primary_keys_def keys_ok_def
      sql_update_def sql_update_one_def sql_upsert_def tx_simps evolve_refl
      map_update_where [where g = "\<lambda>g. (gs_scope g, gs_key g)", OF assms] split: if_splits)+

lemma hist_insert_scope [tx_rel_intros]:
  "tx_rel history (insert_row reserved_scopes reserved_scopes_update
     (\<lambda>r. (rs_reservation r, rs_scope r)) r)"
  by (rule tx_relI) (auto simp: history_def db_extends_def primary_keys_def keys_ok_def
      insert_row_def tx_simps evolve_refl evolve_append split: if_splits)

lemma hist_insert_reservation_row [tx_rel_intros]:
  "tx_rel history (insert_row reservations reservations_update rv_id r)"
  by (rule tx_relI) (auto simp: history_def db_extends_def primary_keys_def keys_ok_def
      insert_row_def tx_simps evolve_refl evolve_append split: if_splits)

lemma hist_insert_publication [tx_rel_intros]:
  "tx_rel history (insert_row raw_publications raw_publications_update ri_id r)"
  by (rule tx_relI) (auto simp: history_def db_extends_def primary_keys_def keys_ok_def
      insert_row_def tx_simps evolve_refl evolve_append split: if_splits)

lemma hist_append_start [tx_rel_intros]:
  "tx_rel history (tx_modify (gate_starts_update (\<lambda>gs. gs @ new)))"
  by (rule tx_relI) (auto simp: history_def db_extends_def primary_keys_def keys_ok_def
      tx_simps evolve_refl evolve_append)

lemma hist_logical_exists [tx_rel_intros]: "tx_rel history (logical_exists lid)"
  unfolding logical_exists_def by (rule hist.rel_check)

text \<open>An update that changes a request only out of \<open>queued\<close>, whatever its \<open>WHERE\<close> says.\<close>

lemma history_update_requests:
  assumes "\<And>r. lr_id (f r) = lr_id r"
    and "\<And>r. r \<in> set (logical_requests d) \<Longrightarrow> p r \<Longrightarrow> request_step r (f r)"
  shows "history d (logical_requests_update (update_where p f) d)"
  using assms by (auto simp: history_def db_extends_def primary_keys_def keys_ok_def evolve_refl
      map_update_where intro: evolve_update)

lemma history_update_publications:
  assumes "\<And>r. ri_id (f r) = ri_id r"
    and "\<And>r. r \<in> set (raw_publications d) \<Longrightarrow> p r \<Longrightarrow> publication_step r (f r)"
  shows "history d (raw_publications_update (update_where p f) d)"
  using assms by (auto simp: history_def db_extends_def primary_keys_def keys_ok_def evolve_refl
      map_update_where intro: evolve_update)

lemma history_update_attempts:
  assumes "\<And>r. pa_id (f r) = pa_id r"
    and "\<And>a. a \<in> set (physical_attempts d) \<Longrightarrow> p a \<Longrightarrow> pa_state a \<noteq> A_Reserved \<Longrightarrow> attempt_step a (f a)"
  shows "history d (physical_attempts_update (update_where p f) d)"
  using assms by (auto simp: history_def db_extends_def primary_keys_def keys_ok_def evolve_refl
      map_update_where intro: attempts_extend_update)

end
