(* ===== verification/Queue.thy ===== *)
theory Queue
  imports History
begin

text \<open>
  The request queue of \<open>requests/storage.py\<close>: persisting a request, the bounded queue
  (\<open>enqueue_logical_request\<close>), the scheduler (\<open>claim_next_queued\<close>: first in, first out within
  a task, round robin over the tasks of a rate domain) and the lineage check of a claimed
  request (\<open>assert_claimed_logical_request\<close>).
\<close>

section \<open>Persisting a request\<close>

definition add_logical_request :: "logical_request \<Rightarrow> db \<Rightarrow> db \<times> (exn + unit)" where
  "add_logical_request r d =
     (if \<not> valid_logical_request r then (d, Inl ValidationError)
      else run_tx (StorageError ''logical_request_persistence_failed'')
        (tx_block [verify_schema, insert_logical_request r]) d)"

definition logical_request_state :: "string \<Rightarrow> db \<Rightarrow> db \<times> (exn + logical_state option)" where
  "logical_request_state lid = read_tx ''logical_request_read_failed''
     (\<lambda>d. map_option lr_state (select_by lr_id lid (logical_requests d)))"

section \<open>Enqueue\<close>

definition queued :: "queue_row \<Rightarrow> bool" where
  "queued q \<longleftrightarrow> qe_state q = Q_Queued"

definition queued_in :: "string \<Rightarrow> queue_row \<Rightarrow> bool" where
  "queued_in rd q \<longleftrightarrow> qe_domain q = rd \<and> queued q"

definition queued_for :: "string \<Rightarrow> string \<Rightarrow> queue_row \<Rightarrow> bool" where
  "queued_for rd task q \<longleftrightarrow> qe_task q = task \<and> queued_in rd q"

definition at_limit :: "queue_policy \<Rightarrow> string \<Rightarrow> string \<Rightarrow> db \<Rightarrow> bool" where
  "at_limit p rd task d \<longleftrightarrow>
     int (count_where queued (queue_entries d)) \<ge> qp_global p
     \<or> int (count_where (queued_in rd) (queue_entries d)) \<ge> qp_domain p
     \<or> int (count_where (queued_for rd task) (queue_entries d)) \<ge> qp_task p"

definition new_entry :: "logical_request \<Rightarrow> string \<Rightarrow> int \<Rightarrow> queue_state \<Rightarrow> queue_row" where
  "new_entry r rd t st =
     \<lparr>qe_logical = lr_id r, qe_domain = rd, qe_task = lr_task r, qe_enqueued_at = t, qe_state = st,
      qe_dequeued_at = None\<rparr>"

definition set_request_state :: "string \<Rightarrow> logical_state \<Rightarrow> (db, unit) tx" where
  "set_request_state lid st =
     sql_update logical_requests_update (\<lambda>r. lr_id r = lid) (\<lambda>r. r\<lparr>lr_state := st\<rparr>)"

definition reject_enqueued :: "string \<Rightarrow> int \<Rightarrow> (db, unit) tx" where
  "reject_enqueued lid t = tx_block
     [set_request_state lid L_Failed,
      insert_logical_result
        \<lparr>re_id = lid, re_outcome = O_Failed, re_completed_at = isoformat t,
         re_error = Some ''queue_full''\<rparr>,
      append_queue_event lid ''rejected'' t (Some ''queue_full'')]"

definition enqueue_body ::
  "logical_request \<Rightarrow> string \<Rightarrow> runtime_lease \<Rightarrow> int \<Rightarrow> queue_policy \<Rightarrow> (db, bool) tx" where
  "enqueue_body r rd lease t p =
     tx_bind (tx_block
       [fenced lease t,
        insert_logical_request r,
        append_queue_event (lr_id r) ''requested'' t None]) (\<lambda>_.
     tx_bind (tx_gets (at_limit p rd (lr_task r))) (\<lambda>rejected.
     tx_bind (tx_block
       [insert_queue_entry (new_entry r rd t (if rejected then Q_Rejected else Q_Queued)),
        if rejected then reject_enqueued (lr_id r) t
        else append_queue_event (lr_id r) ''queued'' t None]) (\<lambda>_.
     tx_return rejected)))"

definition queue_full_error :: "bool \<Rightarrow> exn + unit" where
  "queue_full_error rejected = (if rejected then Inl (StorageError ''queue_full'') else Inr ())"

definition enqueue_logical_request ::
  "logical_request \<Rightarrow> string \<Rightarrow> runtime_lease \<Rightarrow> py_datetime \<Rightarrow> queue_policy
    \<Rightarrow> db \<Rightarrow> db \<times> (exn + unit)" where
  "enqueue_logical_request r rd lease now p =
     with_clock (valid_logical_request r \<and> is_identifier rd \<and> valid_lease lease) now
       (valid_queue_policy p)
       (\<lambda>t d. after_commit queue_full_error
          (run_tx (StorageError ''queue_enqueue_failed'') (enqueue_body r rd lease t p) d))"

section \<open>Claim\<close>

text \<open>\<open>GROUP BY task_id ORDER BY task_id\<close>.\<close>

definition queued_tasks :: "string \<Rightarrow> db \<Rightarrow> string list" where
  "queued_tasks rd d = sort (remdups (map qe_task (filter (queued_in rd) (queue_entries d))))"

definition last_task :: "string \<Rightarrow> db \<Rightarrow> string option" where
  "last_task rd d = map_option snd (select_by fst rd (queue_cursors d))"

definition next_task :: "string option \<Rightarrow> string list \<Rightarrow> string" where
  "next_task prev tasks =
     (case find (\<lambda>c. case prev of None \<Rightarrow> True | Some l \<Rightarrow> l < c) tasks of
        Some c \<Rightarrow> c
      | None \<Rightarrow> hd tasks)"

definition first_queued :: "string \<Rightarrow> string \<Rightarrow> db \<Rightarrow> queue_row option" where
  "first_queued rd task d =
     first_row (\<lambda>q. (qe_enqueued_at q, qe_logical q))
       (filter (queued_for rd task) (queue_entries d))"

definition dequeue :: "string \<Rightarrow> string \<Rightarrow> string \<Rightarrow> int \<Rightarrow> (db, unit) tx" where
  "dequeue rd task lid t = tx_block
     [sql_update_one queue_entries queue_entries_update
        (\<lambda>q. qe_logical q = lid \<and> queued q)
        (\<lambda>q. q\<lparr>qe_state := Q_Dequeued, qe_dequeued_at := Some t\<rparr>) ''queue_claim_race'',
      sql_upsert queue_cursors queue_cursors_update fst (rd, task) (\<lambda>c. (fst c, task)),
      append_queue_event lid ''dequeued'' t None]"

definition claim_task :: "string \<Rightarrow> string \<Rightarrow> int \<Rightarrow> (db, queue_claim option) tx" where
  "claim_task rd task t =
     tx_bind (tx_gets (first_queued rd task)) (\<lambda>row.
       case row of
         None \<Rightarrow> tx_raise (StorageError ''queue_scheduler_inconsistent'')
       | Some q \<Rightarrow> tx_bind (dequeue rd task (qe_logical q) t) (\<lambda>_. tx_return (Some
           \<lparr>qc_logical = qe_logical q, qc_task = task, qc_domain = rd,
            qc_enqueued_at = isoformat (qe_enqueued_at q)\<rparr>)))"

definition claim_body :: "string \<Rightarrow> runtime_lease \<Rightarrow> int \<Rightarrow> (db, queue_claim option) tx" where
  "claim_body rd lease t =
     tx_bind (fenced lease t) (\<lambda>_.
     tx_bind (tx_gets (queued_tasks rd)) (\<lambda>tasks.
       if tasks = [] then tx_return None
       else tx_bind (tx_gets (last_task rd)) (\<lambda>prev. claim_task rd (next_task prev tasks) t)))"

definition claim_next_queued ::
  "string \<Rightarrow> runtime_lease \<Rightarrow> py_datetime \<Rightarrow> db \<Rightarrow> db \<times> (exn + queue_claim option)" where
  "claim_next_queued rd lease now =
     with_clock (is_identifier rd \<and> valid_lease lease) now True
       (\<lambda>t. run_tx (StorageError ''queue_claim_failed'') (claim_body rd lease t))"

section \<open>The lineage of a claimed request\<close>

record lineage =
  li_task :: string
  li_source :: string
  li_operation :: string
  li_approval_version :: int
  li_profile_version :: int
  li_credential :: "string option"
  li_egress :: string
  li_domain :: string

text \<open>The checks before the transaction, in the order of the code.\<close>

primrec first_error :: "(bool \<times> exn) list \<Rightarrow> exn option" where
  "first_error [] = None"
| "first_error (c # cs) = (if fst c then first_error cs else Some (snd c))"

definition lineage_argument_error :: "string \<Rightarrow> lineage \<Rightarrow> exn option" where
  "lineage_argument_error lid l = first_error
     [(is_identifier lid, ValidationError), (is_identifier (li_task l), ValidationError),
      (is_identifier (li_source l), ValidationError), (is_identifier (li_operation l), ValidationError),
      (1 \<le> li_approval_version l, StorageError ''invalid_source_approval_version''),
      (1 \<le> li_profile_version l, StorageError ''invalid_source_profile_version''),
      (case li_credential l of None \<Rightarrow> True | Some c \<Rightarrow> is_identifier c, ValidationError),
      (is_identifier (li_egress l), ValidationError), (is_identifier (li_domain l), ValidationError)]"

definition lineage_matches :: "string \<Rightarrow> lineage \<Rightarrow> db \<Rightarrow> bool" where
  "lineage_matches lid l d \<longleftrightarrow>
     (case (select_by lr_id lid (logical_requests d), select_by qe_logical lid (queue_entries d)) of
        (Some r, Some q) \<Rightarrow>
          lr_task r = li_task l \<and> lr_source r = li_source l \<and> lr_operation r = li_operation l
          \<and> lr_approval_version r = li_approval_version l
          \<and> lr_profile_version r = li_profile_version l \<and> lr_credential r = li_credential l
          \<and> lr_egress r = li_egress l \<and> lr_state r = L_Queued
          \<and> qe_domain q = li_domain l \<and> qe_task q = li_task l \<and> qe_state q = Q_Dequeued
      | _ \<Rightarrow> False)"

definition consumer_matches :: "string \<Rightarrow> string \<Rightarrow> string \<Rightarrow> db \<Rightarrow> bool" where
  "consumer_matches lid fp rd d \<longleftrightarrow>
     (case (select_by lr_id lid (logical_requests d), select_by co_id lid (consumers d)) of
        (Some r, Some c) \<Rightarrow>
          (case select_by fl_fingerprint (co_fingerprint c) (flights d) of
             None \<Rightarrow> False
           | Some f \<Rightarrow> lr_fingerprint r = fp \<and> co_fingerprint c = fp \<and> co_role c = Leader
               \<and> co_state c = C_Active \<and> co_domain c = rd \<and> fl_leader f = lid
               \<and> fl_state f = F_Active)
      | _ \<Rightarrow> False)"

definition assert_claimed_body ::
  "string \<Rightarrow> lineage \<Rightarrow> runtime_lease \<Rightarrow> int \<Rightarrow> string option \<Rightarrow> (db, unit) tx" where
  "assert_claimed_body lid l lease t fingerprint = tx_block
     [fenced lease t,
      tx_check (lineage_matches lid l) (StorageError ''logical_request_lineage_mismatch''),
      case fingerprint of
        None \<Rightarrow> tx_return ()
      | Some fp \<Rightarrow> tx_check (consumer_matches lid fp (li_domain l))
          (StorageError ''logical_request_consumer_mismatch'')]"

definition assert_claimed_logical_request ::
  "string \<Rightarrow> lineage \<Rightarrow> runtime_lease \<Rightarrow> py_datetime \<Rightarrow> string option
    \<Rightarrow> db \<Rightarrow> db \<times> (exn + unit)" where
  "assert_claimed_logical_request lid l lease now fingerprint d =
     (case lineage_argument_error lid l of
        Some e \<Rightarrow> (d, Inl e)
      | None \<Rightarrow> with_clock (valid_lease lease) now
          (case fingerprint of None \<Rightarrow> True | Some fp \<Rightarrow> is_sha256_hex fp)
          (\<lambda>t. run_tx (StorageError ''logical_request_lineage_read_failed'')
             (assert_claimed_body lid l lease t fingerprint)) d)"

definition queue_events :: "string \<Rightarrow> db \<Rightarrow> db \<times> (exn + (string \<times> string option) list)" where
  "queue_events lid = read_tx ''queue_event_read_failed''
     (\<lambda>d. map (\<lambda>e. (ev_type e, ev_reason e)) (filter (\<lambda>e. ev_logical e = lid) (queue_log d)))"

section \<open>History\<close>

lemma hist_add_logical_request: "history d (fst (add_logical_request r d))"
  unfolding add_logical_request_def
  by (auto intro!: hist.R_refl hist.rel_run hist.rel_steps tx_rel_intros)

lemma hist_enqueue_body: "tx_rel history (enqueue_body r rd lease t p)"
  unfolding tx_rel_wp
  by (auto simp: enqueue_body_def reject_enqueued_def set_request_state_def row_writes tx_wp
      history_def primary_keys_def keys_ok_def db_extends_def row_simps evolve_refl evolve_append)

lemma hist_enqueue_logical_request: "history d (fst (enqueue_logical_request r rd lease now p d))"
  unfolding enqueue_logical_request_def
  by (rule with_clock_rel) (auto intro: hist.R_refl hist.rel_run hist_enqueue_body)

lemma hist_claim_body: "tx_rel history (claim_body rd lease t)"
  unfolding claim_body_def claim_task_def dequeue_def
  by (auto intro!: hist.rel_steps tx_rel_intros)

lemma hist_claim_next_queued: "history d (fst (claim_next_queued rd lease now d))"
  unfolding claim_next_queued_def
  by (rule with_clock_rel) (auto intro: hist.R_refl hist.rel_run hist_claim_body)

end
