(* ===== verification/Gates.thy ===== *)
theory Gates
  imports Queue
begin

text \<open>
  The hierarchical rate gates of \<open>requests/storage.py\<close>: \<open>acquire_gates\<close> takes one slot of
  every scope or none, \<open>_finish_gate_reservation\<close> gives all of them back with the attempt's
  outcome, and the two helpers that reclaim the slots of an interrupted or cancelled request
  (\<open>_recover_gate_reservations\<close>, \<open>_release_gate_occupancy\<close>).
\<close>

section \<open>Admission of one scope\<close>

datatype block_reason = B_Cooldown | B_Concurrency | B_Minimum_Interval | B_Rolling_Window

primrec reason_text :: "block_reason \<Rightarrow> string" where
  "reason_text B_Cooldown = ''cooldown''"
| "reason_text B_Concurrency = ''concurrency''"
| "reason_text B_Minimum_Interval = ''minimum_interval''"
| "reason_text B_Rolling_Window = ''rolling_window''"

definition gate_row_of :: "gate_scope \<Rightarrow> string \<Rightarrow> db \<Rightarrow> gate_row option" where
  "gate_row_of s k d = select_by (\<lambda>g. (gs_scope g, gs_key g)) (s, k) (gate_states d)"

definition active_count :: "gate_scope \<Rightarrow> string \<Rightarrow> db \<Rightarrow> int" where
  "active_count s k d = (case gate_row_of s k d of None \<Rightarrow> 0 | Some g \<Rightarrow> gs_active g)"

definition last_started :: "gate_scope \<Rightarrow> string \<Rightarrow> db \<Rightarrow> int option" where
  "last_started s k d = Option.bind (gate_row_of s k d) gs_last_started"

definition cooldown_until :: "gate_scope \<Rightarrow> string \<Rightarrow> db \<Rightarrow> int option" where
  "cooldown_until s k d = Option.bind (gate_row_of s k d) gs_cooldown_until"

definition starts_after :: "gate_scope \<Rightarrow> string \<Rightarrow> int \<Rightarrow> db \<Rightarrow> nat" where
  "starts_after s k cutoff d =
     count_where (\<lambda>g. gt_scope g = s \<and> gt_key g = k \<and> cutoff < gt_at g) (gate_starts d)"

text \<open>
  The \<open>if ... elif\<close> chain of one scope. The clock arithmetic happens where the code does it:
  the window cutoff always, the interval only when the earlier tests fail and the scope has
  been started before.
\<close>

definition scope_block ::
  "int \<Rightarrow> gate_limit \<Rightarrow> gate_scope \<Rightarrow> string \<Rightarrow> db \<Rightarrow> exn + block_reason option" where
  "scope_block now l s k d =
     (case plus_us now (- timedelta_us (gl_window l)) of
        Inl e \<Rightarrow> Inl e
      | Inr cutoff \<Rightarrow>
          if (case cooldown_until s k d of None \<Rightarrow> False | Some c \<Rightarrow> now < c)
          then Inr (Some B_Cooldown)
          else if gl_concurrency l \<le> active_count s k d then Inr (Some B_Concurrency)
          else case (case last_started s k d of
                None \<Rightarrow> Inr False
              | Some t \<Rightarrow>
                  (case plus_us t (timedelta_us (gl_min_interval l)) of
                     Inl e \<Rightarrow> Inl e
                   | Inr u \<Rightarrow> Inr (now < u))) of
              Inl e \<Rightarrow> Inl e
            | Inr True \<Rightarrow> Inr (Some B_Minimum_Interval)
            | Inr False \<Rightarrow>
                if gl_requests l \<le> int (starts_after s k cutoff d)
                then Inr (Some B_Rolling_Window)
                else Inr None)"

text \<open>The loop over \<open>keys.ordered()\<close> stops at the first blocked scope.\<close>

primrec first_block ::
  "int \<Rightarrow> gate_policy \<Rightarrow> (gate_scope \<times> string) list \<Rightarrow> db
    \<Rightarrow> exn + (gate_scope \<times> string \<times> block_reason) option" where
  "first_block now p [] d = Inr None"
| "first_block now p (x # xs) d =
     (case p (fst x) of
        None \<Rightarrow> Inl ValidationError
      | Some l \<Rightarrow>
          (case scope_block now l (fst x) (snd x) d of
             Inl e \<Rightarrow> Inl e
           | Inr (Some r) \<Rightarrow> Inr (Some (fst x, snd x, r))
           | Inr None \<Rightarrow> first_block now p xs d))"

section \<open>Acquire\<close>

definition gate_request_active :: "string \<Rightarrow> (db, unit) tx" where
  "gate_request_active lid = tx_block
     [tx_check (\<lambda>d. map_option qe_state (select_by qe_logical lid (queue_entries d)) = Some Q_Dequeued)
        (StorageError ''gate_request_not_dequeued''),
      tx_check (\<lambda>d. map_option lr_state (select_by lr_id lid (logical_requests d)) = Some L_Queued)
        (StorageError ''gate_request_not_active'')]"

definition next_sequence :: "string \<Rightarrow> db \<Rightarrow> int" where
  "next_sequence lid d =
     foldr max (map pa_sequence (filter (\<lambda>a. pa_logical a = lid) (physical_attempts d))) 0 + 1"

definition reserved_attempt :: "physical_attempt \<Rightarrow> attempt_row" where
  "reserved_attempt a =
     \<lparr>pa_id = pa_id a, pa_logical = pa_logical a, pa_sequence = pa_sequence a,
      pa_generation = pa_generation a, pa_created_at = pa_created_at a, pa_state = A_Reserved,
      pa_raw_eligible = False\<rparr>"

definition same_reservation :: "physical_attempt \<Rightarrow> attempt_row \<Rightarrow> bool" where
  "same_reservation a b \<longleftrightarrow>
     pa_logical b = pa_logical a \<and> pa_sequence b = pa_sequence a
     \<and> pa_generation b = pa_generation a \<and> pa_created_at b = pa_created_at a
     \<and> pa_state b = A_Reserved"

definition attach_attempt :: "physical_attempt \<Rightarrow> (db, unit) tx" where
  "attach_attempt a =
     tx_bind (tx_gets (\<lambda>d. select_by pa_id (pa_id a) (physical_attempts d))) (\<lambda>existing.
       case existing of
         None \<Rightarrow> tx_block
           [tx_check (\<lambda>d. pa_sequence a = next_sequence (pa_logical a) d)
              (StorageError ''physical_attempt_sequence_rejected''),
            insert_attempt (reserved_attempt a)]
       | Some b \<Rightarrow> tx_check (\<lambda>_. same_reservation a b)
           (StorageError ''physical_attempt_reservation_mismatch''))"

text \<open>\<open>physical_attempt_id\<close> is unique among reservations and references an attempt.\<close>

definition insert_reservation :: "reservation_row \<Rightarrow> (db, unit) tx" where
  "insert_reservation r = tx_block
     [logical_exists (rv_logical r),
      tx_check (\<lambda>d. rv_attempt r \<in> pa_id ` set (physical_attempts d)) SqliteError,
      tx_check (\<lambda>d. rv_attempt r \<notin> rv_attempt ` set (reservations d)) SqliteError,
      insert_row reservations reservations_update rv_id r]"

definition new_gate :: "gate_scope \<Rightarrow> string \<Rightarrow> int \<Rightarrow> gate_row" where
  "new_gate s k t =
     \<lparr>gs_scope = s, gs_key = k, gs_active = 1, gs_last_started = Some t, gs_cooldown_until = None\<rparr>"

definition occupy_scope :: "string \<Rightarrow> string \<Rightarrow> int \<Rightarrow> gate_scope \<times> string \<Rightarrow> (db, unit) tx" where
  "occupy_scope rid lid t x = tx_block
     [sql_upsert gate_states gate_states_update (\<lambda>g. (gs_scope g, gs_key g))
        (new_gate (fst x) (snd x) t)
        (\<lambda>g. g\<lparr>gs_active := gs_active g + 1, gs_last_started := Some t\<rparr>),
      insert_row reserved_scopes reserved_scopes_update (\<lambda>r. (rs_reservation r, rs_scope r))
        \<lparr>rs_reservation = rid, rs_scope = fst x, rs_key = snd x\<rparr>,
      tx_modify (gate_starts_update (\<lambda>gs. gs @
        [\<lparr>gt_reservation = rid, gt_scope = fst x, gt_key = snd x, gt_at = t\<rparr>])),
      append_gate_event lid (Some rid) (Some (fst x)) (Some (snd x)) ''acquired'' t None]"

definition take_gates ::
  "string \<Rightarrow> physical_attempt \<Rightarrow> gate_keys \<Rightarrow> runtime_lease \<Rightarrow> int \<Rightarrow> (db, unit) tx" where
  "take_gates rid a keys lease t = tx_block
     [attach_attempt a,
      insert_reservation
        \<lparr>rv_id = rid, rv_attempt = pa_id a, rv_logical = pa_logical a,
         rv_generation = rl_generation lease, rv_acquired_at = t, rv_state = R_Active\<rparr>,
      tx_for (ordered keys) (occupy_scope rid (pa_logical a) t)]"

definition record_block ::
  "string \<Rightarrow> int \<Rightarrow> gate_scope \<times> string \<times> block_reason \<Rightarrow> (db, unit) tx" where
  "record_block lid t b = (case b of (s, k, r) \<Rightarrow>
     append_gate_event lid None (Some s) (Some k)
       (if r = B_Cooldown then ''cooldown'' else ''blocked'') t (Some (reason_text r)))"

definition acquire_gates_body ::
  "string \<Rightarrow> physical_attempt \<Rightarrow> gate_keys \<Rightarrow> gate_policy \<Rightarrow> runtime_lease \<Rightarrow> int
    \<Rightarrow> (db, (gate_scope \<times> string \<times> block_reason) option) tx" where
  "acquire_gates_body rid a keys p lease t =
     tx_bind (tx_block [fenced lease t, gate_request_active (pa_logical a)]) (\<lambda>_.
     tx_bind (tx_gets (first_block t p (ordered keys))) (\<lambda>r.
     tx_bind (tx_lift r) (\<lambda>blocked.
     tx_bind (case blocked of
          None \<Rightarrow> take_gates rid a keys lease t
        | Some b \<Rightarrow> record_block (pa_logical a) t b) (\<lambda>_.
     tx_return blocked))))"

definition gate_outcome ::
  "gate_reservation \<Rightarrow> (gate_scope \<times> string \<times> block_reason) option \<Rightarrow> exn + gate_reservation" where
  "gate_outcome g blocked =
     (case blocked of
        None \<Rightarrow> Inr g
      | Some (s, k, r) \<Rightarrow>
          Inl (StorageError (''gate_blocked:'' @ scope_value s @ '':'' @ reason_text r)))"

definition acquire_gates ::
  "string \<Rightarrow> physical_attempt \<Rightarrow> gate_keys \<Rightarrow> gate_policy \<Rightarrow> runtime_lease \<Rightarrow> py_datetime
    \<Rightarrow> db \<Rightarrow> db \<times> (exn + gate_reservation)" where
  "acquire_gates rid a keys p lease now =
     with_clock
       (is_identifier rid \<and> valid_physical_attempt a \<and> valid_gate_keys keys \<and> valid_gate_policy p
        \<and> valid_lease lease) now True
       (\<lambda>t d.
          if pa_generation a \<noteq> rl_generation lease
          then (d, Inl (StorageError ''gate_attempt_generation_mismatch''))
          else after_commit
            (gate_outcome
               \<lparr>gr_id = rid, gr_attempt = pa_id a, gr_logical = pa_logical a,
                gr_generation = rl_generation lease, gr_acquired_at = isoformat t\<rparr>)
            (run_tx (StorageError ''gate_acquisition_failed'')
               (acquire_gates_body rid a keys p lease t) d))"

section \<open>Finish\<close>

definition scopes_of :: "string \<Rightarrow> db \<Rightarrow> reserved_scope list" where
  "scopes_of rid d = filter (\<lambda>r. rs_reservation r = rid) (reserved_scopes d)"

text \<open>\<open>SET active_count = active_count - 1 ... AND active_count > 0\<close>, one row exactly.\<close>

definition vacate_scope :: "string \<Rightarrow> reserved_scope \<Rightarrow> (db, unit) tx" where
  "vacate_scope code r =
     sql_update_one gate_states gate_states_update
       (\<lambda>g. (gs_scope g, gs_key g) = (rs_scope r, rs_key r) \<and> 0 < gs_active g)
       (\<lambda>g. g\<lparr>gs_active := gs_active g - 1\<rparr>) code"

definition set_reservation_state :: "string \<Rightarrow> reservation_state \<Rightarrow> (db, unit) tx" where
  "set_reservation_state rid st =
     sql_update reservations_update (\<lambda>r. rv_id r = rid) (\<lambda>r. r\<lparr>rv_state := st\<rparr>)"

definition finish_attempt :: "string \<Rightarrow> attempt_state \<Rightarrow> bool \<Rightarrow> (db, unit) tx" where
  "finish_attempt aid st eligible =
     sql_update physical_attempts_update
       (\<lambda>a. pa_id a = aid \<and> pa_state a \<in> {A_Reserved, A_Started})
       (\<lambda>a. a\<lparr>pa_state := st, pa_raw_eligible := eligible\<rparr>)"

definition later_cooldown :: "int \<Rightarrow> gate_row \<Rightarrow> gate_row" where
  "later_cooldown deadline g =
     g\<lparr>gs_cooldown_until := (case gs_cooldown_until g of
          None \<Rightarrow> Some deadline
        | Some c \<Rightarrow> if c < deadline then Some deadline else Some c)\<rparr>"

definition record_cooldown :: "gate_reservation \<Rightarrow> rat \<Rightarrow> int \<Rightarrow> reserved_scope list \<Rightarrow> (db, unit) tx" where
  "record_cooldown res retry t scopes =
     (case find (\<lambda>r. rs_scope r = S_Provider) scopes of
        None \<Rightarrow> tx_raise (StorageError ''gate_state_inconsistent'')
      | Some r \<Rightarrow>
          tx_bind (tx_lift (plus_us t (timedelta_us retry))) (\<lambda>deadline. tx_block
            [sql_update gate_states_update
               (\<lambda>g. gs_scope g = S_Provider \<and> gs_key g = rs_key r) (later_cooldown deadline),
             append_gate_event (gr_logical res) (Some (gr_id res)) (Some S_Provider) (Some (rs_key r))
               ''cooldown'' t (Some ''retry_after'')]))"

definition outcome_text :: "attempt_state \<Rightarrow> string" where
  "outcome_text st =
     (case st of A_Reserved \<Rightarrow> ''reserved'' | A_Started \<Rightarrow> ''started'' | A_Succeeded \<Rightarrow> ''succeeded''
      | A_Failed \<Rightarrow> ''failed'' | A_Unknown \<Rightarrow> ''unknown'')"

definition reservation_current ::
  "gate_reservation \<Rightarrow> runtime_lease \<Rightarrow> reserved_scope list \<Rightarrow> db \<Rightarrow> bool" where
  "reservation_current res lease scopes d \<longleftrightarrow>
     (case select_by rv_id (gr_id res) (reservations d) of
        None \<Rightarrow> False
      | Some r \<Rightarrow> rv_state r = R_Active \<and> rv_logical r = gr_logical res
          \<and> rv_attempt r = gr_attempt res \<and> rv_generation r = rl_generation lease)
     \<and> length scopes = 8"

definition finish_body ::
  "gate_reservation \<Rightarrow> attempt_state \<Rightarrow> rat option \<Rightarrow> bool \<Rightarrow> runtime_lease \<Rightarrow> int \<Rightarrow> (db, unit) tx" where
  "finish_body res st retry eligible lease t =
     tx_bind (fenced lease t) (\<lambda>_.
     tx_bind (tx_gets (\<lambda>d. order_by rs_scope (scopes_of (gr_id res) d))) (\<lambda>scopes. tx_block
       [tx_check (reservation_current res lease scopes) (StorageError ''stale_gate_reservation''),
        tx_for scopes (vacate_scope ''gate_state_inconsistent''),
        set_reservation_state (gr_id res) R_Released,
        finish_attempt (gr_attempt res) st eligible,
        case retry of None \<Rightarrow> tx_return () | Some secs \<Rightarrow> record_cooldown res secs t scopes,
        append_gate_event (gr_logical res) (Some (gr_id res)) None None ''released'' t
          (Some (outcome_text st))]))"

definition finish_gate_reservation ::
  "gate_reservation \<Rightarrow> attempt_state \<Rightarrow> rat option \<Rightarrow> bool \<Rightarrow> runtime_lease \<Rightarrow> py_datetime
    \<Rightarrow> db \<Rightarrow> db \<times> (exn + unit)" where
  "finish_gate_reservation res st retry eligible lease now =
     with_clock (valid_gate_reservation res \<and> valid_lease lease) now True
       (\<lambda>t. run_tx (StorageError ''gate_release_failed'') (finish_body res st retry eligible lease t))"

text \<open>
  \<open>release_gates\<close> takes its outcome as a text; \<open>raw_eligible\<close> defaults to success.
\<close>

definition release_gates ::
  "gate_reservation \<Rightarrow> string \<Rightarrow> runtime_lease \<Rightarrow> py_datetime \<Rightarrow> bool option
    \<Rightarrow> db \<Rightarrow> db \<times> (exn + unit)" where
  "release_gates res outcome lease now raw_eligible d =
     (if outcome \<notin> {''succeeded'', ''failed''}
      then (d, Inl (StorageError ''invalid_gate_release_outcome''))
      else let eligible = (case raw_eligible of None \<Rightarrow> outcome = ''succeeded'' | Some b \<Rightarrow> b)
        in if outcome = ''succeeded'' \<and> \<not> eligible
           then (d, Inl (StorageError ''successful_attempt_requires_raw_candidate''))
           else finish_gate_reservation res (if outcome = ''succeeded'' then A_Succeeded else A_Failed)
             None eligible lease now d)"

text \<open>A Python float: a finite number, or an infinity or NaN (\<open>None\<close>).\<close>

definition record_retry_after ::
  "gate_reservation \<Rightarrow> rat option \<Rightarrow> runtime_lease \<Rightarrow> py_datetime \<Rightarrow> db \<Rightarrow> db \<times> (exn + unit)" where
  "record_retry_after res seconds lease now d =
     (case seconds of
        None \<Rightarrow> (d, Inl (StorageError ''invalid_retry_after''))
      | Some s \<Rightarrow>
          if s < 0 then (d, Inl (StorageError ''invalid_retry_after''))
          else finish_gate_reservation res A_Failed (Some s) True lease now d)"

definition record_unknown_outcome ::
  "gate_reservation \<Rightarrow> runtime_lease \<Rightarrow> py_datetime \<Rightarrow> db \<Rightarrow> db \<times> (exn + unit)" where
  "record_unknown_outcome res lease now =
     finish_gate_reservation res A_Unknown None False lease now"

definition gate_events ::
  "string \<Rightarrow> db \<Rightarrow> db \<times> (exn + (string \<times> gate_scope option \<times> string option) list)" where
  "gate_events lid = read_tx ''gate_event_read_failed''
     (\<lambda>d. map (\<lambda>e. (ge_type e, ge_scope e, ge_reason e))
        (filter (\<lambda>e. ge_logical e = lid) (gate_log d)))"

section \<open>Reclaiming the slots of interrupted requests\<close>

text \<open>The body the two loops share: eight scopes, each vacated, then the reservation.\<close>

definition reclaim_reservation ::
  "string \<Rightarrow> string \<Rightarrow> string \<Rightarrow> int \<Rightarrow> reservation_row \<Rightarrow> (db, unit) tx" where
  "reclaim_reservation code event reason t r =
     tx_bind (tx_gets (scopes_of (rv_id r))) (\<lambda>scopes. tx_block
       [tx_check (\<lambda>_. length scopes = 8) (StorageError code),
        tx_for scopes (vacate_scope code),
        set_reservation_state (rv_id r) R_Recovered,
        append_gate_event (rv_logical r) (Some (rv_id r)) None None event t (Some reason)])"

definition release_gate_occupancy :: "string \<Rightarrow> int \<Rightarrow> string \<Rightarrow> (db, unit) tx" where
  "release_gate_occupancy lid t reason =
     tx_bind (tx_gets (\<lambda>d. filter (\<lambda>r. rv_logical r = lid \<and> rv_state r = R_Active) (reservations d)))
       (\<lambda>rs. tx_for rs (reclaim_reservation ''gate_state_inconsistent'' ''released'' reason t))"

definition recover_gate_reservations :: "int \<Rightarrow> int \<Rightarrow> (db, unit) tx" where
  "recover_gate_reservations generation t =
     tx_bind (tx_gets (\<lambda>d. filter (\<lambda>r. rv_state r = R_Active \<and> rv_generation r \<le> generation)
         (reservations d)))
       (\<lambda>rs. tx_for rs
          (reclaim_reservation ''runtime_recovery_audit_gap'' ''recovered'' ''owner_interrupted'' t))"


section \<open>History\<close>

lemma hist_finish_attempt [tx_rel_intros]:
  assumes "st \<notin> {A_Reserved, A_Started}"
  shows "tx_rel history (finish_attempt aid st eligible)"
  unfolding finish_attempt_def sql_update_def
  by (rule hist.rel_modify, rule history_update_attempts)
     (use assms in \<open>auto simp: attempt_step_def\<close>)

lemma hist_vacate_scope [tx_rel_intros]: "tx_rel history (vacate_scope code r)"
  unfolding vacate_scope_def by (auto intro!: tx_rel_intros)

lemma hist_set_reservation_state [tx_rel_intros]:
  "st \<noteq> R_Active \<Longrightarrow> tx_rel history (set_reservation_state rid st)"
  unfolding set_reservation_state_def by (auto intro!: tx_rel_intros simp: reservation_step_def)

lemma hist_record_cooldown [tx_rel_intros]: "tx_rel history (record_cooldown res retry t scopes)"
  unfolding record_cooldown_def
  by (auto intro!: hist.rel_steps tx_rel_intros simp: later_cooldown_def split: option.splits)

lemma hist_take_gates [tx_rel_intros]: "tx_rel history (take_gates rid a keys lease t)"
  unfolding take_gates_def attach_attempt_def insert_reservation_def occupy_scope_def
  by (auto intro!: hist.rel_steps tx_rel_intros simp del: tx_for.simps)

lemma hist_acquire_gates: "history d (fst (acquire_gates rid a keys p lease now d))"
  unfolding acquire_gates_def
  by (rule with_clock_rel)
     (auto intro!: hist.R_refl hist.rel_run hist.rel_steps tx_rel_intros
       simp: acquire_gates_body_def gate_request_active_def record_block_def split: prod.splits)

lemma hist_finish_body:
  assumes "st \<notin> {A_Reserved, A_Started}"
  shows "tx_rel history (finish_body res st retry eligible lease t)"
  unfolding finish_body_def
  using assms by (auto intro!: hist.rel_steps tx_rel_intros)

lemma hist_finish_gate_reservation:
  assumes "st \<notin> {A_Reserved, A_Started}"
  shows "history d (fst (finish_gate_reservation res st retry eligible lease now d))"
  unfolding finish_gate_reservation_def
  by (rule with_clock_rel) (intro hist.R_refl hist.rel_run hist_finish_body assms)+

lemma hist_release_gates: "history d (fst (release_gates res outcome lease now raw_eligible d))"
  by (auto simp: release_gates_def Let_def hist.R_refl intro!: hist_finish_gate_reservation)

lemma hist_record_retry_after: "history d (fst (record_retry_after res seconds lease now d))"
  by (auto simp: record_retry_after_def hist.R_refl intro!: hist_finish_gate_reservation
      split: option.splits)

lemma hist_record_unknown_outcome: "history d (fst (record_unknown_outcome res lease now d))"
  by (auto simp: record_unknown_outcome_def intro!: hist_finish_gate_reservation)

lemma hist_reclaim [tx_rel_intros]: "tx_rel history (reclaim_reservation code event reason t r)"
  unfolding reclaim_reservation_def by (auto intro!: hist.rel_steps tx_rel_intros)

lemma hist_release_gate_occupancy [tx_rel_intros]:
  "tx_rel history (release_gate_occupancy lid t reason)"
  unfolding release_gate_occupancy_def by (auto intro!: hist.rel_steps tx_rel_intros)

lemma hist_recover_gate_reservations [tx_rel_intros]:
  "tx_rel history (recover_gate_reservations generation t)"
  unfolding recover_gate_reservations_def by (auto intro!: hist.rel_steps tx_rel_intros)

end
