(* ===== verification/Attempts.thy ===== *)
theory Attempts
  imports Gates
begin

text \<open>
  Physical attempts of \<open>requests/storage.py\<close>: persisting one, allocating the next sequence
  number of an active request, discarding an unsent reservation, and the durable transition
  to \<open>started\<close> right before a send.
\<close>

definition add_physical_attempt :: "physical_attempt \<Rightarrow> db \<Rightarrow> db \<times> (exn + unit)" where
  "add_physical_attempt a d =
     (if \<not> valid_physical_attempt a then (d, Inl ValidationError)
      else run_tx (StorageError ''physical_attempt_persistence_failed'')
        (tx_block [verify_schema, insert_attempt (reserved_attempt a)]) d)"

definition physical_attempt_state ::
  "string \<Rightarrow> db \<Rightarrow> db \<times> (exn + (attempt_state \<times> int) option)" where
  "physical_attempt_state aid = read_tx ''physical_attempt_read_failed''
     (\<lambda>d. map_option (\<lambda>a. (pa_state a, pa_generation a)) (select_by pa_id aid (physical_attempts d)))"

definition attempts_of :: "string \<Rightarrow> db \<Rightarrow> attempt_row list" where
  "attempts_of lid d = filter (\<lambda>a. pa_logical a = lid) (physical_attempts d)"

definition has_attempt_in :: "attempt_state set \<Rightarrow> string \<Rightarrow> db \<Rightarrow> bool" where
  "has_attempt_in sts lid d \<longleftrightarrow> list_ex (\<lambda>a. pa_state a \<in> sts) (attempts_of lid d)"

definition next_attempt :: "string \<Rightarrow> string \<Rightarrow> int \<Rightarrow> int \<Rightarrow> int \<Rightarrow> physical_attempt" where
  "next_attempt aid lid sequence generation t =
     \<lparr>pa_id = aid, pa_logical = lid, pa_sequence = sequence, pa_generation = generation,
      pa_created_at = isoformat t, pa_state = A_Reserved\<rparr>"

definition reserve_body ::
  "string \<Rightarrow> string \<Rightarrow> runtime_lease \<Rightarrow> int \<Rightarrow> (db, physical_attempt) tx" where
  "reserve_body aid lid lease t =
     tx_bind (tx_block
       [fenced lease t,
        tx_check (\<lambda>d. map_option lr_state (select_by lr_id lid (logical_requests d)) = Some L_Queued)
          (StorageError ''physical_attempt_logical_not_active''),
        tx_check (\<lambda>d. \<not> has_attempt_in {A_Unknown} lid d)
          (StorageError ''physical_attempt_already_unknown''),
        tx_check (\<lambda>d. \<not> has_attempt_in {A_Reserved, A_Started} lid d)
          (StorageError ''physical_attempt_already_active'')]) (\<lambda>_.
     tx_bind (tx_gets (next_sequence lid)) (\<lambda>sequence.
     let a = next_attempt aid lid sequence (rl_generation lease) t
     in tx_bind (insert_attempt (reserved_attempt a)) (\<lambda>_. tx_return a)))"

definition reserve_next_physical_attempt ::
  "string \<Rightarrow> string \<Rightarrow> runtime_lease \<Rightarrow> py_datetime \<Rightarrow> db \<Rightarrow> db \<times> (exn + physical_attempt)" where
  "reserve_next_physical_attempt aid lid lease now =
     with_clock (is_identifier aid \<and> is_identifier lid \<and> valid_lease lease) now True
       (\<lambda>t. run_tx (StorageError ''physical_attempt_reservation_failed'')
          (reserve_body aid lid lease t))"

text \<open>
  \<open>DELETE\<close> of one unsent reservation; a publication that references the attempt would make
  the foreign key fail.
\<close>

definition discardable :: "string \<Rightarrow> int \<Rightarrow> db \<Rightarrow> attempt_row \<Rightarrow> bool" where
  "discardable aid generation d a \<longleftrightarrow>
     pa_id a = aid \<and> pa_generation a = generation \<and> pa_state a = A_Reserved
     \<and> \<not> list_ex (\<lambda>r. rv_attempt r = pa_id a) (reservations d)"

definition discard_body :: "string \<Rightarrow> runtime_lease \<Rightarrow> int \<Rightarrow> (db, unit) tx" where
  "discard_body aid lease t = tx_block
     [fenced lease t,
      tx_check (\<lambda>d. count_where (discardable aid (rl_generation lease) d) (physical_attempts d) = 1)
        (StorageError ''physical_attempt_discard_rejected''),
      tx_check (\<lambda>d. \<not> list_ex (\<lambda>r. ri_attempt r = aid) (raw_publications d)) SqliteError,
      tx_modify (\<lambda>d. d\<lparr>physical_attempts :=
        filter (\<lambda>a. \<not> discardable aid (rl_generation lease) d a) (physical_attempts d)\<rparr>)]"

definition discard_reserved_attempt ::
  "string \<Rightarrow> runtime_lease \<Rightarrow> py_datetime \<Rightarrow> db \<Rightarrow> db \<times> (exn + unit)" where
  "discard_reserved_attempt aid lease now =
     with_clock (is_identifier aid \<and> valid_lease lease) now True
       (\<lambda>t. run_tx (StorageError ''physical_attempt_discard_failed'') (discard_body aid lease t))"

definition start_body :: "string \<Rightarrow> runtime_lease \<Rightarrow> int \<Rightarrow> (db, unit) tx" where
  "start_body aid lease t = tx_block
     [fenced lease t,
      sql_update_one physical_attempts physical_attempts_update
        (\<lambda>a. pa_id a = aid \<and> pa_generation a = rl_generation lease \<and> pa_state a = A_Reserved)
        (\<lambda>a. a\<lparr>pa_state := A_Started\<rparr>) ''physical_attempt_transition_rejected'']"

definition mark_physical_attempt_started ::
  "string \<Rightarrow> runtime_lease \<Rightarrow> py_datetime \<Rightarrow> db \<Rightarrow> db \<times> (exn + unit)" where
  "mark_physical_attempt_started aid lease now =
     with_clock (is_identifier aid \<and> valid_lease lease) now True
       (\<lambda>t. run_tx (StorageError ''physical_attempt_transition_failed'') (start_body aid lease t))"

section \<open>History\<close>

lemma hist_add_physical_attempt: "history d (fst (add_physical_attempt a d))"
  unfolding add_physical_attempt_def
  by (auto intro!: hist.R_refl hist.rel_run hist.rel_steps tx_rel_intros)

lemma hist_reserve_next: "history d (fst (reserve_next_physical_attempt aid lid lease now d))"
  unfolding reserve_next_physical_attempt_def reserve_body_def Let_def
  by (rule with_clock_rel)
     (auto intro!: hist.R_refl hist.rel_run hist.rel_steps tx_rel_intros)

lemma hist_discard_body: "tx_rel history (discard_body aid lease t)"
  unfolding discard_body_def tx_rel_wp
  by (auto simp: tx_wp history_def db_extends_def primary_keys_def keys_ok_def evolve_refl
      distinct_map_filter attempts_extend_def attempt_step_def discardable_def)

lemma hist_discard: "history d (fst (discard_reserved_attempt aid lease now d))"
  unfolding discard_reserved_attempt_def
  by (rule with_clock_rel) (intro hist.R_refl hist.rel_run hist_discard_body)+

lemma hist_start_body: "tx_rel history (start_body aid lease t)"
  unfolding start_body_def tx_rel_wp
  by (auto simp: tx_wp intro!: history_update_attempts)

lemma hist_mark_started: "history d (fst (mark_physical_attempt_started aid lease now d))"
  unfolding mark_physical_attempt_started_def
  by (rule with_clock_rel) (intro hist.R_refl hist.rel_run hist_start_body)+

end
