(* ===== verification/Flights.thy ===== *)
theory Flights
  imports Attempts
begin

text \<open>
  Logical results and single flight of \<open>requests/storage.py\<close>: one active flight per request
  fingerprint, its leader is the only consumer that is queued and sent, and its terminal
  result is delivered to every active consumer in the same transaction.
\<close>

section \<open>Logical results\<close>

definition result_state :: "logical_result \<Rightarrow> logical_state" where
  "result_state r =
     (case re_outcome r of
        O_Succeeded \<Rightarrow> L_Succeeded | O_Failed \<Rightarrow> L_Failed | O_Cancelled \<Rightarrow> L_Cancelled
      | O_Unknown \<Rightarrow> L_Failed)"

text \<open>\<open>_read_logical_result\<close> builds the contract model of the row, which validates it.\<close>

definition read_logical_result :: "string \<Rightarrow> db \<Rightarrow> exn + logical_result option" where
  "read_logical_result lid d =
     (case select_by re_id lid (logical_results d) of
        None \<Rightarrow> Inr None
      | Some r \<Rightarrow> if valid_logical_result r then Inr (Some r) else Inl ValidationError)"

definition logical_result_of ::
  "string \<Rightarrow> db \<Rightarrow> db \<times> (exn + logical_result option)" where
  "logical_result_of lid d =
     (if \<not> is_identifier lid then (d, Inl ValidationError)
      else run_tx (StorageError ''logical_result_read_failed'')
        (tx_bind verify_schema (\<lambda>_.
         tx_bind (tx_gets (read_logical_result lid)) (\<lambda>r.
           case r of Inl _ \<Rightarrow> tx_raise SqliteError | Inr x \<Rightarrow> tx_return x))) d)"

text \<open>\<open>SELECT state ... ORDER BY sequence_number\<close>.\<close>

definition attempt_states :: "string \<Rightarrow> db \<Rightarrow> attempt_state list" where
  "attempt_states lid d = map pa_state (order_by pa_sequence (attempts_of lid d))"

definition validate_attempt_outcome :: "logical_result \<Rightarrow> (db, unit) tx" where
  "validate_attempt_outcome r =
     tx_bind (tx_gets (attempt_states (re_id r))) (\<lambda>states. tx_block
       [tx_check (\<lambda>_. \<not> list_ex (\<lambda>s. s \<in> {A_Reserved, A_Started}) states)
          (StorageError ''logical_request_has_active_attempt''),
        tx_check (\<lambda>_. \<not> (re_outcome r = O_Succeeded
            \<and> (states = [] \<or> last states \<noteq> A_Succeeded \<or> A_Unknown \<in> set states)))
          (StorageError ''logical_success_attempts_invalid''),
        tx_check (\<lambda>_. \<not> (re_outcome r = O_Unknown \<and> A_Unknown \<notin> set states))
          (StorageError ''logical_unknown_attempt_missing'')])"

definition leads :: "string \<Rightarrow> db \<Rightarrow> bool" where
  "leads lid d \<longleftrightarrow>
     (case select_by co_id lid (consumers d) of
        None \<Rightarrow> True
      | Some c \<Rightarrow> co_role c = Leader \<and> co_state c = C_Active)"

definition validate_finalization :: "logical_result \<Rightarrow> (db, unit) tx" where
  "validate_finalization r = tx_block
     [tx_check (\<lambda>d. map_option lr_state (select_by lr_id (re_id r) (logical_requests d)) = Some L_Queued)
        (StorageError ''logical_request_not_active''),
      tx_check (leads (re_id r)) (StorageError ''single_flight_leader_required''),
      validate_attempt_outcome r]"

text \<open>The guarded transition out of \<open>queued\<close>, shared by every way a request ends.\<close>

definition end_request :: "string \<Rightarrow> logical_state \<Rightarrow> string \<Rightarrow> (db, unit) tx" where
  "end_request lid st code =
     sql_update_one logical_requests logical_requests_update
       (\<lambda>r. lr_id r = lid \<and> lr_state r = L_Queued) (\<lambda>r. r\<lparr>lr_state := st\<rparr>) code"

definition persist_logical_result :: "logical_result \<Rightarrow> (db, unit) tx" where
  "persist_logical_result r = tx_block
     [end_request (re_id r) (result_state r) ''logical_request_not_active'', insert_logical_result r]"

definition cancel_logical :: "string \<Rightarrow> int \<Rightarrow> string \<Rightarrow> result_outcome \<Rightarrow> (db, unit) tx" where
  "cancel_logical lid t reason outcome = tx_block
     [end_request lid (if outcome = O_Cancelled then L_Cancelled else L_Failed)
        ''logical_request_not_cancellable'',
      insert_logical_result
        \<lparr>re_id = lid, re_outcome = outcome, re_completed_at = isoformat t,
         re_error = (if outcome = O_Cancelled then None else Some reason)\<rparr>]"

section \<open>Delivery\<close>

definition flight_of :: "string \<Rightarrow> db \<Rightarrow> flight_row option" where
  "flight_of fp d = select_by fl_fingerprint fp (flights d)"

definition flight_active :: "string \<Rightarrow> string \<Rightarrow> db \<Rightarrow> bool" where
  "flight_active fp lid d \<longleftrightarrow>
     (case flight_of fp d of None \<Rightarrow> False | Some f \<Rightarrow> fl_leader f = lid \<and> fl_state f = F_Active)"

definition active_in :: "string \<Rightarrow> consumer_row \<Rightarrow> bool" where
  "active_in fp c \<longleftrightarrow> co_fingerprint c = fp \<and> co_state c = C_Active"

text \<open>The consumers joined with their requests, \<open>ORDER BY consumer.logical_request_id\<close>.\<close>

definition with_request :: "db \<Rightarrow> consumer_row list \<Rightarrow> (consumer_row \<times> logical_request) list" where
  "with_request d cs =
     concat (map (\<lambda>c. case select_by lr_id (co_id c) (logical_requests d) of
         None \<Rightarrow> [] | Some r \<Rightarrow> [(c, r)]) cs)"

definition active_consumers :: "string \<Rightarrow> db \<Rightarrow> (consumer_row \<times> logical_request) list" where
  "active_consumers fp d = with_request d (order_by co_id (filter (active_in fp) (consumers d)))"

definition admission_audited :: "string \<Rightarrow> db \<Rightarrow> bool" where
  "admission_audited lid d \<longleftrightarrow>
     list_ex (\<lambda>e. ev_logical e = lid
       \<and> ev_type e \<in> {''single_flight_leader'', ''single_flight_follower'', ''leader_promoted''})
       (admission_log d)"

definition deliver_one ::
  "logical_result \<Rightarrow> string \<Rightarrow> int \<Rightarrow> consumer_row \<times> logical_request \<Rightarrow> (db, unit) tx" where
  "deliver_one r fp t x = tx_block
     [tx_check (\<lambda>d. lr_fingerprint (snd x) = fp \<and> admission_audited (co_id (fst x)) d
          \<and> (co_role (fst x) = Leader \<longleftrightarrow> co_id (fst x) = re_id r))
        (StorageError ''single_flight_audit_gap''),
      tx_when (co_id (fst x) \<noteq> re_id r) (tx_block
        [tx_check (\<lambda>d. attempts_of (co_id (fst x)) d = [])
           (StorageError ''single_flight_follower_has_attempt''),
         persist_logical_result (r\<lparr>re_id := co_id (fst x)\<rparr>)]),
      update_consumer (co_id (fst x))
        (\<lambda>c. c\<lparr>co_state := C_Completed, co_owner := Some (re_id r)\<rparr>),
      append_admission_event (co_id (fst x)) ''single_flight_completed'' t (Some (re_id r))]"

definition set_flight_terminal :: "string \<Rightarrow> (db, unit) tx" where
  "set_flight_terminal fp =
     sql_update flights_update (\<lambda>f. fl_fingerprint f = fp) (\<lambda>f. f\<lparr>fl_state := F_Terminal\<rparr>)"

definition finish_single_flight :: "logical_result \<Rightarrow> int \<Rightarrow> (db, unit) tx" where
  "finish_single_flight r t =
     tx_bind (tx_gets (\<lambda>d. select_by co_id (re_id r) (consumers d))) (\<lambda>consumer.
       case consumer of
         None \<Rightarrow> tx_return ()
       | Some c \<Rightarrow>
           tx_bind (tx_check (\<lambda>d. co_role c = Leader \<and> co_state c = C_Active
               \<and> flight_active (co_fingerprint c) (re_id r) d)
             (StorageError ''single_flight_state_inconsistent'')) (\<lambda>_.
           tx_bind (tx_gets (active_consumers (co_fingerprint c))) (\<lambda>xs. tx_block
             [tx_for xs (deliver_one r (co_fingerprint c) t),
              set_flight_terminal (co_fingerprint c),
              sql_update queue_entries_update (\<lambda>q. qe_logical q = re_id r \<and> qe_state q = Q_Queued)
                (\<lambda>q. q\<lparr>qe_state := Q_Cancelled\<rparr>)])))"

definition complete_body :: "logical_result \<Rightarrow> runtime_lease \<Rightarrow> int \<Rightarrow> (db, unit) tx" where
  "complete_body r lease t =
     tx_bind (fenced lease t) (\<lambda>_.
     tx_bind (tx_gets (\<lambda>d. select_by co_id (re_id r) (consumers d))) (\<lambda>consumer. tx_block
       [tx_when (consumer \<noteq> None) (validate_finalization r),
        persist_logical_result r,
        finish_single_flight r t]))"

definition complete_logical_request ::
  "logical_result \<Rightarrow> runtime_lease \<Rightarrow> py_datetime \<Rightarrow> db \<Rightarrow> db \<times> (exn + unit)" where
  "complete_logical_request r lease now =
     with_clock (valid_logical_result r \<and> valid_lease lease) now True
       (\<lambda>t. run_tx (StorageError ''logical_result_persistence_failed'') (complete_body r lease t))"

definition finalize_body :: "logical_result \<Rightarrow> runtime_lease \<Rightarrow> int \<Rightarrow> (db, unit) tx" where
  "finalize_body r lease t = tx_block
     [fenced lease t, validate_finalization r, persist_logical_result r, finish_single_flight r t]"

definition finalize_logical_request ::
  "logical_result \<Rightarrow> runtime_lease \<Rightarrow> py_datetime \<Rightarrow> db \<Rightarrow> db \<times> (exn + unit)" where
  "finalize_logical_request r lease now =
     with_clock (valid_logical_result r \<and> valid_lease lease) now True
       (\<lambda>t. run_tx (StorageError ''logical_result_persistence_failed'') (finalize_body r lease t))"

section \<open>Reconciliation of flights whose leader already ended\<close>

text \<open>One fetched row: the flight, its leader's state and consumer row (\<open>LEFT JOIN\<close>).\<close>

type_synonym flight_view = "string \<times> logical_state option \<times> consumer_row option"

definition active_flights :: "string option \<Rightarrow> db \<Rightarrow> flight_view list" where
  "active_flights fp d =
     map (\<lambda>f. (fl_leader f, map_option lr_state (select_by lr_id (fl_leader f) (logical_requests d)),
                select_by co_id (fl_leader f) (consumers d)))
       (filter (\<lambda>f. fl_state f = F_Active
          \<and> (case fp of None \<Rightarrow> True | Some p \<Rightarrow> fl_fingerprint f = p)) (flights d))"

definition reconcile_flight :: "int \<Rightarrow> flight_view \<Rightarrow> (db, unit) tx" where
  "reconcile_flight t v = (case v of (leader, st, consumer) \<Rightarrow>
     if st = None
        \<or> (case consumer of None \<Rightarrow> True | Some c \<Rightarrow> co_role c \<noteq> Leader \<or> co_state c \<noteq> C_Active)
     then tx_raise (StorageError ''single_flight_state_inconsistent'')
     else tx_bind (tx_gets (read_logical_result leader)) (\<lambda>result.
       case result of
         Inl _ \<Rightarrow> tx_raise (StorageError ''single_flight_audit_gap'')
       | Inr None \<Rightarrow>
           if st = Some L_Queued then tx_return ()
           else tx_raise (StorageError ''single_flight_audit_gap'')
       | Inr (Some r) \<Rightarrow>
           if st \<noteq> Some (result_state r) then tx_raise (StorageError ''single_flight_audit_gap'')
           else tx_block [validate_attempt_outcome r, finish_single_flight r t]))"

definition reconcile_terminal_flights :: "int \<Rightarrow> string option \<Rightarrow> (db, unit) tx" where
  "reconcile_terminal_flights t fp =
     tx_bind (tx_gets (active_flights fp)) (\<lambda>vs. tx_for vs (reconcile_flight t))"

section \<open>Admission\<close>

definition cache_decision_of :: "cache_policy \<Rightarrow> cache_decision" where
  "cache_decision_of p = (if cp_applicable p then Cache_Disabled else Cache_Not_Applicable)"

definition cache_event :: "cache_decision \<Rightarrow> string" where
  "cache_event c = (case c of Cache_Disabled \<Rightarrow> ''cache_disabled''
     | Cache_Not_Applicable \<Rightarrow> ''cache_not_applicable'')"

definition role_event :: "flight_role \<Rightarrow> string" where
  "role_event r = (case r of Leader \<Rightarrow> ''single_flight_leader'' | Follower \<Rightarrow> ''single_flight_follower'')"

text \<open>The active flight of a fingerprint and the rate domain of its leader's consumer row.\<close>

definition joinable :: "string \<Rightarrow> db \<Rightarrow> (string \<times> string) option" where
  "joinable fp d =
     (case flight_of fp d of
        None \<Rightarrow> None
      | Some f \<Rightarrow>
          if fl_state f \<noteq> F_Active then None
          else map_option (\<lambda>c. (fl_leader f, co_domain c)) (select_by co_id (fl_leader f) (consumers d)))"

definition lead_flight :: "logical_request \<Rightarrow> (db, unit) tx" where
  "lead_flight r = tx_block
     [tx_check (\<lambda>d. \<not> list_ex (active_in (lr_fingerprint r)) (consumers d))
        (StorageError ''single_flight_state_inconsistent''),
      sql_upsert flights flights_update fl_fingerprint
        \<lparr>fl_fingerprint = lr_fingerprint r, fl_leader = lr_id r, fl_state = F_Active\<rparr>
        (\<lambda>f. if fl_state f = F_Terminal then f\<lparr>fl_leader := lr_id r, fl_state := F_Active\<rparr> else f)]"

definition decide_flight :: "logical_request \<Rightarrow> string \<Rightarrow> (db, flight_role \<times> string) tx" where
  "decide_flight r rd =
     tx_bind (tx_gets (joinable (lr_fingerprint r))) (\<lambda>flight.
       case flight of
         None \<Rightarrow> tx_bind (lead_flight r) (\<lambda>_. tx_return (Leader, lr_id r))
       | Some (leader, d) \<Rightarrow>
           if d \<noteq> rd then tx_raise (StorageError ''single_flight_scope_mismatch'')
           else tx_return (Follower, leader))"

definition insert_consumer :: "consumer_row \<Rightarrow> (db, unit) tx" where
  "insert_consumer c = tx_block
     [logical_exists (co_id c),
      tx_check (\<lambda>d. co_fingerprint c \<in> fl_fingerprint ` set (flights d)) SqliteError,
      insert_row consumers consumers_update co_id c]"

definition cancel_consumer :: "string \<Rightarrow> (db, unit) tx" where
  "cancel_consumer lid = update_consumer lid (\<lambda>c. c\<lparr>co_state := C_Cancelled\<rparr>)"

definition queue_leader ::
  "logical_request \<Rightarrow> string \<Rightarrow> int \<Rightarrow> queue_policy \<Rightarrow> (db, bool) tx" where
  "queue_leader r rd t p =
     tx_bind (tx_gets (at_limit p rd (lr_task r))) (\<lambda>rejected.
     tx_bind (tx_block
       [insert_queue_entry (new_entry r rd t (if rejected then Q_Rejected else Q_Queued)),
        append_queue_event (lr_id r) ''requested'' t None,
        if rejected then tx_block
          [cancel_logical (lr_id r) t ''queue_full'' O_Failed,
           set_flight_terminal (lr_fingerprint r),
           cancel_consumer (lr_id r),
           append_queue_event (lr_id r) ''rejected'' t (Some ''queue_full'')]
        else append_queue_event (lr_id r) ''queued'' t None]) (\<lambda>_.
     tx_return rejected))"

definition admit_body ::
  "logical_request \<Rightarrow> string \<Rightarrow> cache_decision \<Rightarrow> runtime_lease \<Rightarrow> int \<Rightarrow> queue_policy
    \<Rightarrow> (db, flight_role \<times> string \<times> bool) tx" where
  "admit_body r rd cache lease t p =
     tx_bind (tx_block
       [fenced lease t,
        insert_logical_request r,
        append_admission_event (lr_id r) (cache_event cache) t None,
        reconcile_terminal_flights t (Some (lr_fingerprint r))]) (\<lambda>_.
     tx_bind (decide_flight r rd) (\<lambda>(role, leader).
     tx_bind (tx_block
       [insert_consumer
          \<lparr>co_id = lr_id r, co_fingerprint = lr_fingerprint r, co_role = role, co_state = C_Active,
           co_cache = cache, co_domain = rd, co_joined_at = t, co_owner = None\<rparr>,
        append_admission_event (lr_id r) (role_event role) t (Some leader)]) (\<lambda>_.
     tx_bind (if role = Leader then queue_leader r rd t p else tx_return False) (\<lambda>rejected.
     tx_return (role, leader, rejected)))))"

definition admission_outcome ::
  "string \<Rightarrow> cache_decision \<Rightarrow> flight_role \<times> string \<times> bool \<Rightarrow> exn + admission_decision" where
  "admission_outcome lid cache x = (case x of (role, leader, rejected) \<Rightarrow>
     if rejected then Inl (StorageError ''queue_full'')
     else Inr \<lparr>ad_logical = lid, ad_cache = cache, ad_flight = role, ad_leader = leader\<rparr>)"

definition admit_logical_request ::
  "logical_request \<Rightarrow> string \<Rightarrow> cache_policy \<Rightarrow> runtime_lease \<Rightarrow> py_datetime \<Rightarrow> queue_policy
    \<Rightarrow> db \<Rightarrow> db \<times> (exn + admission_decision)" where
  "admit_logical_request r rd cp lease now p =
     with_clock (valid_logical_request r \<and> is_identifier rd \<and> valid_lease lease) now
       (valid_queue_policy p)
       (\<lambda>t d. after_commit (admission_outcome (lr_id r) (cache_decision_of cp))
          (run_tx (StorageError ''request_admission_failed'')
             (admit_body r rd (cache_decision_of cp) lease t p) d))"

definition admission_events :: "string \<Rightarrow> db \<Rightarrow> db \<times> (exn + (string \<times> string option) list)" where
  "admission_events lid = read_tx ''admission_event_read_failed''
     (\<lambda>d. map (\<lambda>e. (ev_type e, ev_reason e)) (filter (\<lambda>e. ev_logical e = lid) (admission_log d)))"

section \<open>Cancellation\<close>

text \<open>\<open>_cancel_started_flight\<close>: the attempt may have been sent, so every consumer ends unknown.\<close>

definition cancel_in_flight :: "int \<Rightarrow> string \<Rightarrow> consumer_row \<Rightarrow> (db, unit) tx" where
  "cancel_in_flight t reason c = tx_block
     [cancel_logical (co_id c) t reason O_Unknown,
      cancel_consumer (co_id c),
      append_admission_event (co_id c) ''in_flight_cancelled'' t (Some reason)]"

definition cancel_started_flight :: "string \<Rightarrow> int \<Rightarrow> string \<Rightarrow> (db, unit) tx" where
  "cancel_started_flight fp t reason =
     tx_bind (tx_gets (\<lambda>d. filter (active_in fp) (consumers d))) (\<lambda>cs.
     tx_bind (tx_gets (flight_of fp)) (\<lambda>flight.
       case flight of
         None \<Rightarrow> tx_raise (StorageError ''single_flight_state_inconsistent'')
       | Some f \<Rightarrow>
           if fl_state f \<noteq> F_Active then tx_raise (StorageError ''single_flight_state_inconsistent'')
           else tx_block
             [release_gate_occupancy (fl_leader f) t ''in_flight_cancelled'',
              sql_update physical_attempts_update
                (\<lambda>a. pa_logical a = fl_leader f \<and> pa_state a = A_Started)
                (\<lambda>a. a\<lparr>pa_state := A_Unknown\<rparr>),
              tx_for cs (cancel_in_flight t reason),
              set_flight_terminal fp]))"

definition cancel_follower :: "string \<Rightarrow> int \<Rightarrow> string \<Rightarrow> (db, unit) tx" where
  "cancel_follower lid t reason = tx_block
     [cancel_logical lid t reason O_Cancelled,
      cancel_consumer lid,
      append_admission_event lid ''follower_cancelled'' t (Some reason)]"

text \<open>
  The first active follower in join order, with its request (\<open>JOIN logical_requests\<close>).
\<close>

definition next_follower :: "string \<Rightarrow> db \<Rightarrow> (consumer_row \<times> logical_request) option" where
  "next_follower fp d =
     first_row (\<lambda>x. (co_joined_at (fst x), co_id (fst x)))
       (with_request d (filter (\<lambda>c. active_in fp c \<and> co_role c = Follower) (consumers d)))"

definition promote :: "string \<Rightarrow> string \<Rightarrow> int \<Rightarrow> consumer_row \<times> logical_request \<Rightarrow> (db, unit) tx" where
  "promote fp lid t x = tx_block
     [update_consumer (co_id (fst x)) (\<lambda>c. c\<lparr>co_role := Leader\<rparr>),
      sql_update flights_update (\<lambda>f. fl_fingerprint f = fp) (\<lambda>f. f\<lparr>fl_leader := co_id (fst x)\<rparr>),
      insert_queue_entry
        \<lparr>qe_logical = co_id (fst x), qe_domain = co_domain (fst x), qe_task = lr_task (snd x),
         qe_enqueued_at = t, qe_state = Q_Queued, qe_dequeued_at = None\<rparr>,
      append_queue_event (co_id (fst x)) ''queued'' t (Some ''leader_promoted''),
      append_admission_event (co_id (fst x)) ''leader_promoted'' t (Some lid)]"

definition abandon_reserved :: "string \<Rightarrow> string \<Rightarrow> int \<Rightarrow> (db, unit) tx" where
  "abandon_reserved lid aid t = tx_block
     [release_gate_occupancy lid t ''leader_cancelled'',
      sql_update physical_attempts_update (\<lambda>a. pa_id a = aid) (\<lambda>a. a\<lparr>pa_state := A_Failed\<rparr>)]"

definition hand_over :: "string \<Rightarrow> string \<Rightarrow> int \<Rightarrow> string \<Rightarrow> (db, string option) tx" where
  "hand_over lid fp t reason =
     tx_bind (tx_gets (next_follower fp)) (\<lambda>follower.
     tx_bind (tx_block
       [cancel_logical lid t reason O_Cancelled,
        cancel_consumer lid,
        sql_update queue_entries_update (\<lambda>q. qe_logical q = lid) (\<lambda>q. q\<lparr>qe_state := Q_Cancelled\<rparr>),
        case follower of None \<Rightarrow> set_flight_terminal fp | Some x \<Rightarrow> promote fp lid t x,
        append_admission_event lid ''leader_cancelled'' t (Some reason)]) (\<lambda>_.
     tx_return (map_option (\<lambda>x. co_id (fst x)) follower)))"

definition queue_state_of :: "string \<Rightarrow> db \<Rightarrow> queue_state option" where
  "queue_state_of lid d = map_option qe_state (select_by qe_logical lid (queue_entries d))"

definition cancel_leader :: "string \<Rightarrow> string \<Rightarrow> int \<Rightarrow> string \<Rightarrow> (db, string option) tx" where
  "cancel_leader lid fp t reason =
     tx_bind (tx_gets (queue_state_of lid)) (\<lambda>queue.
     tx_bind (tx_gets (\<lambda>d. order_by pa_sequence (attempts_of lid d))) (\<lambda>attempts.
     let active = find (\<lambda>a. pa_state a \<in> {A_Started, A_Reserved}) attempts;
         sent = list_ex (\<lambda>a. pa_state a \<in> {A_Succeeded, A_Failed, A_Unknown}) attempts
     in if map_option pa_state active = Some A_Started
        then tx_bind (cancel_started_flight fp t reason) (\<lambda>_. tx_return None)
        else if queue \<noteq> Some Q_Queued \<and> queue \<noteq> Some Q_Dequeued
        then tx_raise (StorageError ''in_flight_cancellation_requires_transport_result'')
        else tx_bind (case active of
              None \<Rightarrow> tx_return ()
            | Some a \<Rightarrow> abandon_reserved lid (pa_id a) t) (\<lambda>_.
          if sent then tx_bind (cancel_started_flight fp t reason) (\<lambda>_. tx_return None)
          else hand_over lid fp t reason)))"

definition cancel_body ::
  "string \<Rightarrow> string \<Rightarrow> runtime_lease \<Rightarrow> int \<Rightarrow> (db, string option) tx" where
  "cancel_body lid reason lease t =
     tx_bind (fenced lease t) (\<lambda>_.
     tx_bind (tx_gets (\<lambda>d. select_by co_id lid (consumers d))) (\<lambda>consumer.
       case consumer of
         None \<Rightarrow> tx_raise (StorageError ''single_flight_consumer_not_active'')
       | Some c \<Rightarrow>
           if co_state c \<noteq> C_Active
           then tx_raise (StorageError ''single_flight_consumer_not_active'')
           else if co_role c = Follower
           then tx_bind (cancel_follower lid t reason) (\<lambda>_. tx_return None)
           else cancel_leader lid (co_fingerprint c) t reason))"

definition cancel_admitted_request ::
  "string \<Rightarrow> string \<Rightarrow> runtime_lease \<Rightarrow> py_datetime \<Rightarrow> db \<Rightarrow> db \<times> (exn + string option)" where
  "cancel_admitted_request lid reason lease now =
     with_clock (is_identifier lid \<and> is_identifier reason \<and> valid_lease lease) now True
       (\<lambda>t. run_tx (StorageError ''request_cancellation_failed'') (cancel_body lid reason lease t))"

section \<open>History\<close>

lemma hist_end_request [tx_rel_intros]: "tx_rel history (end_request lid st code)"
  unfolding end_request_def tx_rel_wp
  by (auto simp: tx_wp request_step_def intro!: history_update_requests)

lemma hist_persist [tx_rel_intros]: "tx_rel history (persist_logical_result r)"
  unfolding persist_logical_result_def by (auto intro!: hist.rel_steps tx_rel_intros)

lemma hist_cancel_logical [tx_rel_intros]: "tx_rel history (cancel_logical lid t reason outcome)"
  unfolding cancel_logical_def by (auto intro!: hist.rel_steps tx_rel_intros)

lemma hist_validate_attempt_outcome [tx_rel_intros]: "tx_rel history (validate_attempt_outcome r)"
  unfolding validate_attempt_outcome_def by (auto intro!: hist.rel_steps tx_rel_intros)

lemma hist_validate_finalization [tx_rel_intros]: "tx_rel history (validate_finalization r)"
  unfolding validate_finalization_def by (auto intro!: hist.rel_steps tx_rel_intros)

lemma hist_cancel_consumer [tx_rel_intros]: "tx_rel history (cancel_consumer lid)"
  unfolding cancel_consumer_def
  by (rule hist_update_consumer) (auto simp: consumer_step_def consumer_check_def)

lemma hist_set_flight_terminal [tx_rel_intros]: "tx_rel history (set_flight_terminal fp)"
  unfolding set_flight_terminal_def by (auto intro!: tx_rel_intros)

lemma hist_deliver_one [tx_rel_intros]: "tx_rel history (deliver_one r fp t x)"
  unfolding deliver_one_def
  by (auto intro!: hist.rel_steps tx_rel_intros simp: consumer_step_def consumer_check_def)

lemma hist_finish_single_flight [tx_rel_intros]: "tx_rel history (finish_single_flight r t)"
  unfolding finish_single_flight_def by (auto intro!: hist.rel_steps tx_rel_intros)

lemma hist_complete: "history d (fst (complete_logical_request r lease now d))"
  unfolding complete_logical_request_def complete_body_def
  by (rule with_clock_rel) (auto intro!: hist.R_refl hist.rel_run hist.rel_steps tx_rel_intros)

lemma hist_finalize: "history d (fst (finalize_logical_request r lease now d))"
  unfolding finalize_logical_request_def finalize_body_def
  by (rule with_clock_rel) (auto intro!: hist.R_refl hist.rel_run hist.rel_steps tx_rel_intros)

lemma hist_reconcile_flight [tx_rel_intros]: "tx_rel history (reconcile_flight t v)"
  unfolding reconcile_flight_def
  by (auto intro!: hist.rel_steps tx_rel_intros split: prod.splits sum.splits option.splits)

lemma hist_reconcile_terminal [tx_rel_intros]: "tx_rel history (reconcile_terminal_flights t fp)"
  unfolding reconcile_terminal_flights_def by (auto intro!: hist.rel_steps tx_rel_intros)

lemma hist_decide_flight [tx_rel_intros]: "tx_rel history (decide_flight r rd)"
  unfolding decide_flight_def lead_flight_def
  by (auto intro!: hist.rel_steps tx_rel_intros split: prod.splits option.splits)

lemma hist_insert_consumer_row [tx_rel_intros]: "tx_rel history (insert_consumer c)"
  unfolding insert_consumer_def by (auto intro!: hist.rel_steps tx_rel_intros)

lemma hist_queue_leader [tx_rel_intros]: "tx_rel history (queue_leader r rd t p)"
  unfolding queue_leader_def by (auto intro!: hist.rel_steps tx_rel_intros)

lemma hist_admit_body: "tx_rel history (admit_body r rd cache lease t p)"
  unfolding admit_body_def
  by (auto intro!: hist.rel_steps tx_rel_intros split: prod.splits)

lemma hist_admit: "history d (fst (admit_logical_request r rd cp lease now p d))"
  unfolding admit_logical_request_def
  by (rule with_clock_rel) (auto intro: hist.R_refl hist.rel_run hist_admit_body)

lemma hist_cancel_in_flight [tx_rel_intros]: "tx_rel history (cancel_in_flight t reason c)"
  unfolding cancel_in_flight_def by (auto intro!: hist.rel_steps tx_rel_intros)

lemma hist_started_unknown [tx_rel_intros]:
  "tx_rel history (sql_update physical_attempts_update
     (\<lambda>a. p a \<and> pa_state a = A_Started) (\<lambda>a. a\<lparr>pa_state := A_Unknown\<rparr>))"
  unfolding sql_update_def
  by (rule hist.rel_modify, rule history_update_attempts) (auto simp: attempt_step_def)

lemma hist_cancel_started_flight [tx_rel_intros]: "tx_rel history (cancel_started_flight fp t reason)"
  unfolding cancel_started_flight_def
  by (auto intro!: hist.rel_steps tx_rel_intros split: option.splits)

lemma hist_promote [tx_rel_intros]: "tx_rel history (promote fp lid t x)"
  unfolding promote_def
  by (auto intro!: hist.rel_steps tx_rel_intros simp: consumer_step_def consumer_check_def)

lemma hist_hand_over [tx_rel_intros]: "tx_rel history (hand_over lid fp t reason)"
  unfolding hand_over_def
  by (auto intro!: hist.rel_steps tx_rel_intros split: option.splits)

text \<open>Failing the reserved attempt of a cancelled leader: the row is the one just read.\<close>

lemma keeps_attempts_release [tx_frame]:
  "keeps physical_attempts (release_gate_occupancy lid t reason)"
  unfolding release_gate_occupancy_def reclaim_reservation_def vacate_scope_def
    set_reservation_state_def append_gate_event_def
  by (auto intro!: tx_frame)

lemma hist_abandon_reserved:
  assumes "a \<in> set (physical_attempts d)" "pa_state a = A_Reserved" "primary_keys d"
  shows "tx_wp (abandon_reserved lid (pa_id a) t) (\<lambda>_. history d) d"
  unfolding abandon_reserved_def tx_wp_block
proof (rule keeps_wp_add [OF keeps_attempts_release], rule tx_wp_rel [OF hist_release_gate_occupancy],
    unfold tx_wp_sql_update, intro impI)
  fix d1 assume h: "history d d1" and same: "physical_attempts d1 = physical_attempts d"
  have only: "b = a" if "b \<in> set (physical_attempts d)" "pa_id b = pa_id a" for b
    using assms(1,3) that by (auto simp: primary_keys_def keys_ok_def intro: distinct_key_eq)
  have "history d1 (physical_attempts_update
      (update_where (\<lambda>b. pa_id b = pa_id a) (\<lambda>a. a\<lparr>pa_state := A_Failed\<rparr>)) d1)"
    by (rule history_update_attempts) (use only assms(2) same in auto)
  then show "history d (physical_attempts_update
      (update_where (\<lambda>b. pa_id b = pa_id a) (\<lambda>a. a\<lparr>pa_state := A_Failed\<rparr>)) d1)"
    by (rule hist.R_trans [OF h])
qed

lemma set_order_by [simp]: "set (order_by key rows) = set rows"
  by (simp add: order_by_def)

lemma hist_cancel_leader: "tx_rel history (cancel_leader lid fp t reason)"
  unfolding tx_rel_wp
proof (intro allI)
  fix d
  define active where "active = find (\<lambda>a. pa_state a \<in> {A_Started, A_Reserved})
    (order_by pa_sequence (attempts_of lid d))"
  have abandon: "tx_wp (case active of None \<Rightarrow> tx_return ()
      | Some a \<Rightarrow> abandon_reserved lid (pa_id a) t) (\<lambda>_. history d) d"
    if "map_option pa_state active \<noteq> Some A_Started"
  proof (cases active)
    case None
    then show ?thesis by (simp add: tx_wp hist.R_refl)
  next
    case (Some a)
    then have "a \<in> set (physical_attempts d)" "pa_state a = A_Reserved"
      using that by (auto simp: active_def attempts_of_def dest!: find_SomeD)
    then show ?thesis
      using hist_abandon_reserved [of a d lid t] Some
      by (cases "primary_keys d") (auto intro: tx_wpI simp: history_def [of d d' for d'])
  qed
  have rest: "tx_rel history
      (if sent then tx_bind (cancel_started_flight fp t reason) (\<lambda>_. tx_return None)
       else hand_over lid fp t reason)" for sent :: bool
    by (auto intro!: hist.rel_steps tx_rel_intros)
  show "tx_wp (cancel_leader lid fp t reason) (\<lambda>_. history d) d"
    unfolding cancel_leader_def Let_def tx_wp_bind [of "tx_gets f" for f] tx_wp_gets
      active_def [symmetric] tx_wp_if [of _ _ "if _ then _ else _"] tx_wp_if [of _ "tx_raise _"]
      tx_wp_raise
    by (intro conjI impI TrueI hist.wp_rel_bind [OF abandon rest])
       (auto intro!: hist.wp_rel hist.rel_steps tx_rel_intros)
qed

lemma hist_cancel_body: "tx_rel history (cancel_body lid reason lease t)"
  unfolding cancel_body_def cancel_follower_def
  by (auto intro!: hist.rel_steps tx_rel_intros hist_cancel_leader split: option.splits)

lemma hist_cancel: "history d (fst (cancel_admitted_request lid reason lease now d))"
  unfolding cancel_admitted_request_def
  by (rule with_clock_rel) (intro hist.R_refl hist.rel_run hist_cancel_body)+

end
