(* ===== verification/Leases.thy ===== *)
theory Leases
  imports Flights
begin

text \<open>
  The coordinator lease of \<open>requests/storage.py\<close>: acquiring an unowned lease, extending and
  releasing the current one, and \<open>recover_expired_lease\<close>, which takes over an expired lease
  and settles everything its previous owner left behind.
\<close>

section \<open>Acquire, extend, release\<close>

definition granted :: "string \<Rightarrow> int \<Rightarrow> int \<Rightarrow> int \<Rightarrow> lease_row" where
  "granted owner generation t expires =
     \<lparr>le_owner = owner, le_generation = generation, le_acquired_at = t, le_heartbeat_at = t,
      le_expires_at = expires, le_active = True\<rparr>"

definition lease_view :: "string \<Rightarrow> int \<Rightarrow> int \<Rightarrow> int \<Rightarrow> runtime_lease" where
  "lease_view owner generation t expires =
     \<lparr>rl_owner = owner, rl_generation = generation, rl_acquired_at = utc t, rl_heartbeat_at = utc t,
      rl_expires_at = utc expires\<rparr>"

definition set_lease :: "lease_row \<Rightarrow> (db, unit) tx" where
  "set_lease r = tx_modify (lease_slot_update (\<lambda>_. Some r))"

definition acquire_body :: "string \<Rightarrow> int \<Rightarrow> int \<Rightarrow> (db, int) tx" where
  "acquire_body owner t expires =
     tx_bind verify_schema (\<lambda>_.
     tx_bind (tx_gets lease_slot) (\<lambda>slot.
     tx_bind (case slot of
          None \<Rightarrow> tx_return 1
        | Some r \<Rightarrow>
            if le_active r
            then tx_raise (StorageError
              (if t < le_heartbeat_at r then ''runtime_clock_rollback''
               else if t < le_expires_at r then ''runtime_lease_held''
               else ''lease_reconciliation_required''))
            else tx_return (le_generation r + 1)) (\<lambda>generation.
     tx_bind (tx_block
       [set_lease (granted owner generation t expires), reconcile_terminal_flights t None]) (\<lambda>_.
     tx_return generation))))"

text \<open>The expiry is computed before the transaction; \<open>datetime\<close> may overflow there.\<close>

definition with_expiry ::
  "lease_policy \<Rightarrow> (int \<Rightarrow> int \<Rightarrow> db \<Rightarrow> db \<times> (exn + 'a)) \<Rightarrow> int \<Rightarrow> db \<Rightarrow> db \<times> (exn + 'a)" where
  "with_expiry p body t d =
     (case plus_us t (lp_duration p * 1000000) of
        Inl e \<Rightarrow> (d, Inl e)
      | Inr expires \<Rightarrow> body t expires d)"

definition acquire_lease ::
  "string \<Rightarrow> py_datetime \<Rightarrow> lease_policy \<Rightarrow> db \<Rightarrow> db \<times> (exn + runtime_lease)" where
  "acquire_lease owner now p =
     with_clock (is_identifier owner) now (valid_lease_policy p)
       (with_expiry p (\<lambda>t expires d.
          after_commit (\<lambda>g. Inr (lease_view owner g t expires))
            (run_tx (StorageError ''runtime_lease_acquisition_failed'')
               (acquire_body owner t expires) d)))"

text \<open>\<open>WHERE owner_token = ? AND generation = ? AND active = 1\<close>, one row exactly.\<close>

definition current_lease :: "runtime_lease \<Rightarrow> db \<Rightarrow> bool" where
  "current_lease l d \<longleftrightarrow>
     (case lease_slot d of
        None \<Rightarrow> False
      | Some r \<Rightarrow> le_owner r = rl_owner l \<and> le_generation r = rl_generation l \<and> le_active r)"

definition update_lease :: "runtime_lease \<Rightarrow> (lease_row \<Rightarrow> lease_row) \<Rightarrow> (db, unit) tx" where
  "update_lease l f = tx_block
     [verify_schema,
      tx_check (current_lease l) (StorageError ''stale_runtime_lease''),
      tx_modify (lease_slot_update (map_option f))]"

text \<open>The checks on the caller's copy of the lease, before the transaction.\<close>

definition lease_view_error :: "runtime_lease \<Rightarrow> int \<Rightarrow> exn option" where
  "lease_view_error l t =
     (case parse_timestamp (rl_heartbeat_at l) of
        Inl e \<Rightarrow> Some e
      | Inr heartbeat \<Rightarrow>
          (case parse_timestamp (rl_expires_at l) of
             Inl e \<Rightarrow> Some e
           | Inr expiry \<Rightarrow>
               if t < heartbeat then Some (StorageError ''runtime_clock_rollback'')
               else if expiry \<le> t then Some (StorageError ''runtime_lease_expired'')
               else None))"

definition heartbeat_lease ::
  "runtime_lease \<Rightarrow> py_datetime \<Rightarrow> lease_policy \<Rightarrow> db \<Rightarrow> db \<times> (exn + runtime_lease)" where
  "heartbeat_lease l now p =
     with_clock (valid_lease l) now (valid_lease_policy p)
       (\<lambda>t d. case lease_view_error l t of
          Some e \<Rightarrow> (d, Inl e)
        | None \<Rightarrow> with_expiry p (\<lambda>t expires d.
            after_commit (\<lambda>_. Inr (l\<lparr>rl_heartbeat_at := utc t, rl_expires_at := utc expires\<rparr>))
              (run_tx (StorageError ''runtime_lease_heartbeat_failed'')
                 (update_lease l (\<lambda>r. r\<lparr>le_heartbeat_at := t, le_expires_at := expires\<rparr>)) d)) t d)"

text \<open>\<open>release_lease\<close> checks the heartbeat before it parses the expiry.\<close>

definition release_view_error :: "runtime_lease \<Rightarrow> int \<Rightarrow> exn option" where
  "release_view_error l t =
     (case parse_timestamp (rl_heartbeat_at l) of
        Inl e \<Rightarrow> Some e
      | Inr heartbeat \<Rightarrow>
          if t < heartbeat then Some (StorageError ''runtime_clock_rollback'')
          else (case parse_timestamp (rl_expires_at l) of
             Inl e \<Rightarrow> Some e
           | Inr expiry \<Rightarrow>
               if expiry \<le> t then Some (StorageError ''runtime_lease_expired'') else None))"

definition release_lease :: "runtime_lease \<Rightarrow> py_datetime \<Rightarrow> db \<Rightarrow> db \<times> (exn + unit)" where
  "release_lease l now =
     with_clock (valid_lease l) now True
       (\<lambda>t d. case release_view_error l t of
          Some e \<Rightarrow> (d, Inl e)
        | None \<Rightarrow> run_tx (StorageError ''runtime_lease_release_failed'')
            (update_lease l (\<lambda>r. r\<lparr>le_active := False\<rparr>)) d)"

definition validate_fence :: "runtime_lease \<Rightarrow> py_datetime \<Rightarrow> db \<Rightarrow> db \<times> (exn + unit)" where
  "validate_fence l now =
     with_clock (valid_lease l) now True
       (\<lambda>t. run_tx (StorageError ''runtime_fence_validation_failed'') (fenced l t))"

section \<open>Recovery\<close>

definition terminal_states :: "attempt_state set" where
  "terminal_states = {A_Succeeded, A_Failed, A_Unknown}"

definition has_result :: "string \<Rightarrow> db \<Rightarrow> bool" where
  "has_result lid d \<longleftrightarrow> list_ex (\<lambda>r. re_id r = lid) (logical_results d)"

definition request_queued :: "string \<Rightarrow> db \<Rightarrow> bool" where
  "request_queued lid d \<longleftrightarrow>
     map_option lr_state (select_by lr_id lid (logical_requests d)) = Some L_Queued"

definition audit_gap :: "db \<Rightarrow> attempt_row \<Rightarrow> bool" where
  "audit_gap d a \<longleftrightarrow>
     (case select_by lr_id (pa_logical a) (logical_requests d) of
        None \<Rightarrow> False
      | Some r \<Rightarrow>
          pa_state a = A_Started \<and> (lr_state r \<noteq> L_Queued \<or> has_result (pa_logical a) d)
          \<or> pa_state a \<in> terminal_states \<and> lr_state r \<noteq> L_Queued \<and> \<not> has_result (pa_logical a) d
          \<or> pa_state a \<in> terminal_states \<and> lr_state r = L_Queued
             \<and> \<not> list_ex (\<lambda>v. rv_attempt v = pa_id a \<and> rv_state v = R_Released) (reservations d))"

definition validate_recovery_state :: "int \<Rightarrow> (db, unit) tx" where
  "validate_recovery_state previous = tx_block
     [tx_check (\<lambda>d. \<not> list_ex (\<lambda>a. previous < pa_generation a) (physical_attempts d))
        (StorageError ''runtime_recovery_clock_or_generation_anomaly''),
      tx_check (\<lambda>d. \<not> list_ex (audit_gap d) (physical_attempts d))
        (StorageError ''runtime_recovery_audit_gap'')]"

text \<open>Claimed requests with no attempt go back to the queue.\<close>

definition requeueable :: "db \<Rightarrow> queue_row \<Rightarrow> bool" where
  "requeueable d q \<longleftrightarrow>
     qe_state q = Q_Dequeued \<and> request_queued (qe_logical q) d \<and> attempts_of (qe_logical q) d = []"

definition requeue_claimed :: "int \<Rightarrow> (db, unit) tx" where
  "requeue_claimed t =
     tx_bind (tx_gets (\<lambda>d. filter (requeueable d) (queue_entries d))) (\<lambda>qs. tx_block
       [tx_for qs (\<lambda>q. append_queue_event (qe_logical q) ''queued'' t (Some ''owner_interrupted'')),
        tx_modify (\<lambda>d. queue_entries_update
          (update_where (requeueable d) (\<lambda>q. q\<lparr>qe_state := Q_Queued, qe_dequeued_at := None\<rparr>)) d)])"

definition interrupted_result :: "string \<Rightarrow> result_outcome \<Rightarrow> int \<Rightarrow> string \<Rightarrow> logical_result" where
  "interrupted_result lid outcome t code =
     \<lparr>re_id = lid, re_outcome = outcome, re_completed_at = isoformat t, re_error = Some code\<rparr>"

text \<open>Requests with a started attempt may have been sent: they end unknown.\<close>

definition started_requests :: "int \<Rightarrow> db \<Rightarrow> string list" where
  "started_requests previous d =
     remdups (map pa_logical (filter (\<lambda>a. pa_state a = A_Started \<and> pa_generation a \<le> previous)
       (physical_attempts d)))"

definition fail_started :: "int \<Rightarrow> string \<Rightarrow> (db, unit) tx" where
  "fail_started t lid = tx_block
     [end_request lid L_Failed ''runtime_recovery_audit_gap'',
      insert_logical_result (interrupted_result lid O_Unknown t ''owner_interrupted'')]"

text \<open>Requests that were between two attempts: \<open>GROUP BY\<close> the request, unknown if any was.\<close>

definition between_attempts :: "db \<Rightarrow> string list" where
  "between_attempts d =
     sort (remdups (map pa_logical (filter (\<lambda>a. pa_state a \<in> terminal_states
         \<and> request_queued (pa_logical a) d
         \<and> \<not> has_attempt_in {A_Reserved, A_Started} (pa_logical a) d) (physical_attempts d))))"

definition fail_between :: "int \<Rightarrow> string \<times> bool \<Rightarrow> (db, unit) tx" where
  "fail_between t x = tx_block
     [set_request_state (fst x) L_Failed,
      insert_logical_result (interrupted_result (fst x) (if snd x then O_Unknown else O_Failed) t
        ''owner_interrupted_between_attempts'')]"

definition settle_attempts :: "int \<Rightarrow> (db, unit) tx" where
  "settle_attempts previous = tx_block
     [sql_update physical_attempts_update
        (\<lambda>a. pa_generation a \<le> previous \<and> pa_state a = A_Started) (\<lambda>a. a\<lparr>pa_state := A_Unknown\<rparr>),
      sql_update physical_attempts_update
        (\<lambda>a. pa_state a = A_Reserved \<and> pa_generation a \<le> previous)
        (\<lambda>a. a\<lparr>pa_generation := previous + 1\<rparr>)]"

definition settle_requests :: "int \<Rightarrow> int \<Rightarrow> (db, unit) tx" where
  "settle_requests previous t =
     tx_bind (tx_gets (started_requests previous)) (\<lambda>started.
     tx_bind (tx_for started (fail_started t)) (\<lambda>_.
     tx_bind (tx_gets (\<lambda>d. map (\<lambda>lid. (lid, has_attempt_in {A_Unknown} lid d)) (between_attempts d)))
       (\<lambda>between. tx_for between (fail_between t))))"

definition settle :: "int \<Rightarrow> int \<Rightarrow> (db, unit) tx" where
  "settle previous t = tx_block
     [validate_recovery_state previous,
      recover_gate_reservations previous t,
      requeue_claimed t,
      settle_requests previous t,
      settle_attempts previous,
      reconcile_terminal_flights t None]"

definition take_over :: "string \<Rightarrow> int \<Rightarrow> int \<Rightarrow> int \<Rightarrow> (db, unit) tx" where
  "take_over owner previous t expires = tx_block
     [tx_check (\<lambda>d. case lease_slot d of
          None \<Rightarrow> False
        | Some r \<Rightarrow> le_generation r = previous \<and> le_active r)
        (StorageError ''runtime_recovery_lease_race''),
      set_lease (granted owner (previous + 1) t expires)]"

definition recover_body :: "string \<Rightarrow> int \<Rightarrow> int \<Rightarrow> (db, int) tx" where
  "recover_body owner t expires =
     tx_bind verify_schema (\<lambda>_.
     tx_bind (tx_gets lease_slot) (\<lambda>slot.
       case slot of
         None \<Rightarrow> tx_raise (StorageError ''expired_runtime_lease_not_found'')
       | Some r \<Rightarrow>
           if \<not> le_active r then tx_raise (StorageError ''expired_runtime_lease_not_found'')
           else if t < le_heartbeat_at r then tx_raise (StorageError ''runtime_clock_rollback'')
           else if t < le_expires_at r then tx_raise (StorageError ''runtime_lease_held'')
           else tx_bind (tx_block
             [settle (le_generation r) t, take_over owner (le_generation r) t expires]) (\<lambda>_.
               tx_return (le_generation r + 1))))"

definition recover_expired_lease ::
  "string \<Rightarrow> py_datetime \<Rightarrow> lease_policy \<Rightarrow> db \<Rightarrow> db \<times> (exn + runtime_lease)" where
  "recover_expired_lease owner now p =
     with_clock (is_identifier owner) now (valid_lease_policy p)
       (with_expiry p (\<lambda>t expires d.
          after_commit (\<lambda>g. Inr (lease_view owner g t expires))
            (run_tx (StorageError ''runtime_recovery_failed'') (recover_body owner t expires) d)))"

section \<open>History\<close>

lemma with_expiry_rel:
  "(\<And>d. R d d) \<Longrightarrow> (\<And>expires. R d (fst (body t expires d))) \<Longrightarrow> R d (fst (with_expiry p body t d))"
  by (auto simp: with_expiry_def split: sum.splits)

lemma history_set_lease:
  "lease_extends (lease_slot d) v \<Longrightarrow> history d (lease_slot_update (\<lambda>_. v) d)"
  by (auto simp: history_def db_extends_def primary_keys_def keys_ok_def evolve_refl)

lemma hist_grant:
  assumes "lease_extends (lease_slot d) (Some r)"
  shows "tx_wp (tx_block [set_lease r, reconcile_terminal_flights t fp]) (\<lambda>_. history d) d"
  unfolding tx_wp_block set_lease_def tx_wp_modify
  by (rule tx_wp_rel [OF hist_reconcile_terminal], rule hist.R_trans [OF history_set_lease],
      rule assms)

lemma hist_acquire_body: "tx_rel history (acquire_body owner t expires)"
  unfolding tx_rel_wp acquire_body_def tx_wp_bind
  by (auto simp: tx_wp_verify_schema tx_wp_gets tx_wp_return tx_wp_raise split: option.splits
      intro!: tx_wp_mono [OF hist_grant] simp del: tx_block.simps
      simp: lease_extends_def granted_def)

lemma hist_acquire_lease: "history d (fst (acquire_lease owner now p d))"
  unfolding acquire_lease_def
  by (rule with_clock_rel, rule hist.R_refl, rule with_expiry_rel)
     (auto intro: hist.R_refl hist.rel_run hist_acquire_body)

lemma hist_update_lease:
  assumes "\<And>r. lease_extends (Some r) (Some (f r))"
  shows "tx_rel history (update_lease l f)"
proof -
  have "history d (lease_slot_update (map_option f) d)" for d
  proof -
    have "lease_slot_update (map_option f) d = lease_slot_update (\<lambda>_. map_option f (lease_slot d)) d"
      by (cases d) simp
    moreover have "lease_extends (lease_slot d) (map_option f (lease_slot d))"
      using assms by (cases "lease_slot d") auto
    ultimately show ?thesis by (metis history_set_lease)
  qed
  then show ?thesis
    unfolding update_lease_def by (auto intro!: hist.rel_steps tx_rel_intros hist.rel_modify)
qed

lemma hist_heartbeat: "history d (fst (heartbeat_lease l now p d))"
  unfolding heartbeat_lease_def
proof (rule with_clock_rel, rule hist.R_refl, split option.split, intro conjI impI allI)
  fix t
  have upd: "tx_rel history (update_lease l
      (\<lambda>r. r\<lparr>le_heartbeat_at := t, le_expires_at := expires\<rparr>))" for expires
    by (rule hist_update_lease) (simp add: lease_extends_def)
  show "history d (fst (with_expiry p (\<lambda>t expires d.
      after_commit (\<lambda>_. Inr (l\<lparr>rl_heartbeat_at := utc t, rl_expires_at := utc expires\<rparr>))
        (run_tx (StorageError ''runtime_lease_heartbeat_failed'')
          (update_lease l (\<lambda>r. r\<lparr>le_heartbeat_at := t, le_expires_at := expires\<rparr>)) d)) t d))"
    by (rule with_expiry_rel [where R = history, OF hist.R_refl]) (simp add: hist.rel_run upd)
qed (simp add: hist.R_refl)

lemma hist_release_lease: "history d (fst (release_lease l now d))"
  unfolding release_lease_def
proof (rule with_clock_rel, rule hist.R_refl, split option.split, intro conjI impI allI)
  have "tx_rel history (update_lease l (\<lambda>r. r\<lparr>le_active := False\<rparr>))"
    by (rule hist_update_lease) (simp add: lease_extends_def)
  then show "history d (fst (run_tx (StorageError ''runtime_lease_release_failed'')
      (update_lease l (\<lambda>r. r\<lparr>le_active := False\<rparr>)) d))"
    by (rule hist.rel_run)
qed (simp add: hist.R_refl)

lemma validate_fence_state [simp]: "fst (validate_fence l now d) = d"
proof -
  have "same_part id d (fst (validate_fence l now d))"
    unfolding validate_fence_def
    by (rule with_clock_rel)
       (auto intro!: part.R_refl part.rel_run keeps_checks [unfolded keeps_def])
  then show ?thesis by (simp add: same_part_def)
qed

lemma hist_requeue_claimed [tx_rel_intros]: "tx_rel history (requeue_claimed t)"
proof -
  have "history d (queue_entries_update (update_where p
      (\<lambda>q. q\<lparr>qe_state := Q_Queued, qe_dequeued_at := None\<rparr>)) d)" for p d
    by (auto simp: history_def db_extends_def primary_keys_def keys_ok_def evolve_refl
        map_update_where)
  then show ?thesis
    unfolding requeue_claimed_def by (auto intro!: hist.rel_steps tx_rel_intros hist.rel_modify)
qed

lemma hist_fail_started [tx_rel_intros]: "tx_rel history (fail_started t lid)"
  unfolding fail_started_def by (auto intro!: hist.rel_steps tx_rel_intros)

text \<open>The loop over the interrupted requests: each is still queued when its turn comes.\<close>

definition all_queued :: "string set \<Rightarrow> db \<Rightarrow> bool" where
  "all_queued lids d \<longleftrightarrow> (\<forall>r \<in> set (logical_requests d). lr_id r \<in> lids \<longrightarrow> lr_state r = L_Queued)"

lemma hist_fail_between:
  "all_queued {fst x} d \<Longrightarrow> tx_wp (fail_between t x) (\<lambda>_. history d) d"
  unfolding fail_between_def tx_wp_block set_request_state_def tx_wp_sql_update
  by (rule tx_wp_rel [OF hist_insert_logical_result],
      rule hist.R_trans [OF history_update_requests])
     (auto simp: all_queued_def request_step_def)

lemma fail_between_others:
  "all_queued lids d \<Longrightarrow> fst x \<notin> lids \<Longrightarrow> tx_wp (fail_between t x) (\<lambda>_. all_queued lids) d"
  by (auto simp: fail_between_def set_request_state_def row_writes tx_wp all_queued_def
      set_update_where)

lemma hist_fail_between_loop:
  "distinct (map fst xs) \<Longrightarrow> all_queued (fst ` set xs) d \<Longrightarrow>
   tx_wp (tx_for xs (fail_between t)) (\<lambda>_. history d) d"
proof (induction xs arbitrary: d)
  case Nil
  then show ?case by (simp add: tx_wp hist.R_refl)
next
  case (Cons x xs)
  have "all_queued {fst x} d" "all_queued (fst ` set xs) d"
    using Cons.prems(2) by (auto simp: all_queued_def)
  then have "tx_wp (fail_between t x) (\<lambda>_ d'. history d d' \<and> all_queued (fst ` set xs) d') d"
    unfolding tx_wp_conj using Cons.prems(1) by (auto intro: hist_fail_between fail_between_others)
  then show ?case
    unfolding tx_for.simps tx_wp_bind
    by (rule tx_wp_mono) (use Cons in \<open>auto intro: tx_wp_mono hist.R_trans\<close>)
qed

lemma map_fst_tagged: "map fst (map (\<lambda>l. (l, f l)) xs) = xs"
  by (simp add: comp_def)

lemma between_attempts_queued:
  assumes "primary_keys d"
  shows "all_queued (set (between_attempts d)) d"
  using assms
  by (auto simp: all_queued_def between_attempts_def request_queued_def primary_keys_def keys_ok_def
      dest: select_by_unique)

lemma hist_settle_between:
  "tx_rel history (tx_bind (tx_gets (\<lambda>d. map (\<lambda>lid. (lid, f lid d)) (between_attempts d)))
     (\<lambda>xs. tx_for xs (fail_between t)))"
  unfolding tx_rel_wp tx_wp
proof (intro allI)
  fix d
  show "tx_wp (tx_for (map (\<lambda>lid. (lid, f lid d)) (between_attempts d)) (fail_between t))
      (\<lambda>_. history d) d"
  proof (cases "primary_keys d")
    case True
    then show ?thesis
      using between_attempts_queued [OF True]
      by (intro hist_fail_between_loop) (simp_all add: comp_def image_image between_attempts_def)
  next
    case False
    then show ?thesis by (intro tx_wpI) (simp add: history_def)
  qed
qed

lemma hist_settle_requests [tx_rel_intros]: "tx_rel history (settle_requests previous t)"
  unfolding settle_requests_def
  by (auto intro!: hist.rel_steps tx_rel_intros hist_settle_between)

lemma hist_settle_attempts [tx_rel_intros]: "tx_rel history (settle_attempts previous)"
proof -
  have "tx_rel history (sql_update physical_attempts_update
      (\<lambda>a. pa_state a = A_Reserved \<and> pa_generation a \<le> previous)
      (\<lambda>a. a\<lparr>pa_generation := previous + 1\<rparr>))"
    unfolding sql_update_def by (rule hist.rel_modify, rule history_update_attempts) auto
  then show ?thesis
    unfolding settle_attempts_def by (auto intro!: hist.rel_steps tx_rel_intros)
qed

lemma hist_settle [tx_rel_intros]: "tx_rel history (settle previous t)"
  unfolding settle_def validate_recovery_state_def by (auto intro!: hist.rel_steps tx_rel_intros)

lemma hist_take_over [tx_rel_intros]: "tx_rel history (take_over owner previous t expires)"
  unfolding tx_rel_wp take_over_def
  by (auto simp: tx_wp set_lease_def lease_extends_def granted_def split: option.splits
      intro!: history_set_lease)

lemma hist_recover_body: "tx_rel history (recover_body owner t expires)"
  unfolding recover_body_def
  by (auto intro!: hist.rel_steps tx_rel_intros split: option.splits)

lemma hist_recover: "history d (fst (recover_expired_lease owner now p d))"
  unfolding recover_expired_lease_def
  by (rule with_clock_rel, rule hist.R_refl, rule with_expiry_rel)
     (auto intro: hist.R_refl hist.rel_run hist_recover_body)

end
