(* ===== verification/Publications.thy ===== *)
theory Publications
  imports Leases
begin

text \<open>
  The database side of raw publication in \<open>requests/storage.py\<close>: a fenced intent is persisted
  before any byte is written, the reference is committed after the atomic rename, and an
  interrupted publication waits for reconciliation.
\<close>

definition publishable :: "raw_intent \<Rightarrow> db \<Rightarrow> bool" where
  "publishable i d \<longleftrightarrow>
     (case (select_by pa_id (ri_attempt i) (physical_attempts d),
            select_by lr_id (ri_logical i) (logical_requests d)) of
        (Some a, Some r) \<Rightarrow>
          pa_logical a = ri_logical i \<and> lr_task r = ri_task i \<and> lr_source r = ri_source i
          \<and> lr_operation r = ri_operation i \<and> pa_state a \<in> {A_Succeeded, A_Failed}
          \<and> pa_raw_eligible a
      | _ \<Rightarrow> False)"

definition staged :: "raw_intent \<Rightarrow> int \<Rightarrow> raw_row" where
  "staged i t =
     \<lparr>ri_id = ri_id i, ri_task = ri_task i, ri_logical = ri_logical i, ri_attempt = ri_attempt i,
      ri_source = ri_source i, ri_operation = ri_operation i, ri_sha256 = ri_sha256 i,
      ri_byte_count = ri_byte_count i, ri_media_type = ri_media_type i, ri_encoding = ri_encoding i,
      ri_schema_id = ri_schema_id i, ri_schema_version = ri_schema_version i,
      ri_generation = ri_generation i, rw_path = None, rw_state = P_Staging, rw_created_at = t,
      rw_committed_at = None\<rparr>"

text \<open>\<open>physical_attempt_id\<close> is unique and, like the request, references its table.\<close>

definition insert_publication :: "raw_row \<Rightarrow> (db, unit) tx" where
  "insert_publication r = tx_block
     [logical_exists (ri_logical r),
      tx_check (\<lambda>d. ri_attempt r \<in> pa_id ` set (physical_attempts d)) SqliteError,
      tx_check (\<lambda>d. ri_attempt r \<notin> ri_attempt ` set (raw_publications d)) SqliteError,
      insert_row raw_publications raw_publications_update ri_id r]"

definition begin_publication_body :: "raw_intent \<Rightarrow> runtime_lease \<Rightarrow> int \<Rightarrow> (db, unit) tx" where
  "begin_publication_body i lease t = tx_block
     [fenced lease t,
      tx_check (publishable i) (StorageError ''raw_publication_attempt_mismatch''),
      insert_publication (staged i t)]"

definition begin_raw_publication ::
  "raw_intent \<Rightarrow> runtime_lease \<Rightarrow> py_datetime \<Rightarrow> db \<Rightarrow> db \<times> (exn + unit)" where
  "begin_raw_publication i lease now =
     with_clock (valid_raw_intent i \<and> valid_lease lease) now True
       (\<lambda>t. run_tx (StorageError ''raw_publication_intent_failed'')
          (begin_publication_body i lease t))"

definition commits :: "raw_reference \<Rightarrow> raw_row \<Rightarrow> bool" where
  "commits r w \<longleftrightarrow>
     ri_id w = rr_id r \<and> ri_task w = rr_task r \<and> ri_logical w = rr_logical r
     \<and> ri_attempt w = rr_attempt r \<and> ri_sha256 w = rr_sha256 r \<and> ri_byte_count w = rr_byte_count r
     \<and> ri_schema_id w = rr_schema_id r \<and> ri_schema_version w = rr_schema_version r
     \<and> ri_generation w = rr_generation r \<and> rw_state w \<in> {P_Staging, P_Reconciliation}"

definition commit_publication_body :: "raw_reference \<Rightarrow> runtime_lease \<Rightarrow> int \<Rightarrow> (db, unit) tx" where
  "commit_publication_body r lease t = tx_block
     [fenced lease t,
      sql_update_one raw_publications raw_publications_update (commits r)
        (\<lambda>w. w\<lparr>rw_path := Some (rr_path r), rw_state := P_Committed, rw_committed_at := Some t\<rparr>)
        ''raw_publication_transition_rejected'']"

definition commit_raw_publication ::
  "raw_reference \<Rightarrow> runtime_lease \<Rightarrow> py_datetime \<Rightarrow> db \<Rightarrow> db \<times> (exn + unit)" where
  "commit_raw_publication r lease now =
     with_clock (valid_raw_reference r \<and> valid_lease lease) now True
       (\<lambda>t. run_tx (StorageError ''raw_publication_commit_failed'')
          (commit_publication_body r lease t))"

definition transition_publication_body ::
  "string \<Rightarrow> raw_state \<Rightarrow> raw_state set \<Rightarrow> runtime_lease \<Rightarrow> int \<Rightarrow> (db, unit) tx" where
  "transition_publication_body pid target sources lease t = tx_block
     [fenced lease t,
      sql_update_one raw_publications raw_publications_update
        (\<lambda>w. ri_id w = pid \<and> rw_state w \<in> sources) (\<lambda>w. w\<lparr>rw_state := target\<rparr>)
        ''raw_publication_transition_rejected'']"

definition transition_raw_publication ::
  "string \<Rightarrow> raw_state \<Rightarrow> raw_state set \<Rightarrow> runtime_lease \<Rightarrow> py_datetime \<Rightarrow> db \<Rightarrow> db \<times> (exn + unit)" where
  "transition_raw_publication pid target sources lease now =
     with_clock (is_identifier pid \<and> valid_lease lease) now True
       (\<lambda>t. run_tx (StorageError ''raw_publication_transition_failed'')
          (transition_publication_body pid target sources lease t))"

definition fail_raw_publication ::
  "string \<Rightarrow> runtime_lease \<Rightarrow> py_datetime \<Rightarrow> db \<Rightarrow> db \<times> (exn + unit)" where
  "fail_raw_publication pid = transition_raw_publication pid P_Failed {P_Staging, P_Reconciliation}"

definition mark_raw_publication_reconciliation_required ::
  "string \<Rightarrow> runtime_lease \<Rightarrow> py_datetime \<Rightarrow> db \<Rightarrow> db \<times> (exn + unit)" where
  "mark_raw_publication_reconciliation_required pid =
     transition_raw_publication pid P_Reconciliation {P_Staging}"

section \<open>Reads\<close>

definition raw_publication_state ::
  "string \<Rightarrow> db \<Rightarrow> db \<times> (exn + (raw_state \<times> string option) option)" where
  "raw_publication_state pid d =
     (if \<not> is_identifier pid then (d, Inl ValidationError)
      else read_tx ''raw_publication_read_failed''
        (\<lambda>d. map_option (\<lambda>w. (rw_state w, rw_path w)) (select_by ri_id pid (raw_publications d))) d)"

definition raw_record_of :: "raw_row \<Rightarrow> raw_record" where
  "raw_record_of w = \<lparr>rc_intent = raw_intent.truncate w, rc_path = rw_path w, rc_state = rw_state w\<rparr>"

text \<open>\<open>_read_raw_publications\<close>: building the records validates them.\<close>

definition read_raw_publications :: "(db \<Rightarrow> raw_row list) \<Rightarrow> db \<Rightarrow> db \<times> (exn + raw_record list)" where
  "read_raw_publications query =
     run_tx (StorageError ''raw_publication_read_failed'')
       (tx_bind verify_schema (\<lambda>_.
        tx_bind (tx_gets (\<lambda>d. map raw_record_of (query d))) (\<lambda>rs.
          if list_all (\<lambda>r. valid_raw_intent (rc_intent r)) rs then tx_return rs
          else tx_raise SqliteError)))"

definition raw_publication_record :: "string \<Rightarrow> db \<Rightarrow> db \<times> (exn + raw_record option)" where
  "raw_publication_record pid d =
     (if \<not> is_identifier pid then (d, Inl ValidationError)
      else after_commit (\<lambda>rs. Inr (case rs of [] \<Rightarrow> None | r # _ \<Rightarrow> Some r))
        (read_raw_publications (\<lambda>d. filter (\<lambda>w. ri_id w = pid) (raw_publications d)) d))"

definition raw_publications_for_reconciliation :: "db \<Rightarrow> db \<times> (exn + raw_record list)" where
  "raw_publications_for_reconciliation =
     read_raw_publications (\<lambda>d. order_by ri_id
       (filter (\<lambda>w. rw_state w \<in> {P_Staging, P_Reconciliation}) (raw_publications d)))"

definition raw_reference_of :: "raw_record \<Rightarrow> exn + raw_reference" where
  "raw_reference_of r =
     (case rc_path r of
        None \<Rightarrow> Inl (StorageError ''raw_publication_reference_not_committed'')
      | Some path \<Rightarrow>
          if rc_state r \<noteq> P_Committed
          then Inl (StorageError ''raw_publication_reference_not_committed'')
          else let i = rc_intent r;
                   ref = \<lparr>rr_id = ri_id i, rr_task = ri_task i, rr_logical = ri_logical i,
                          rr_attempt = ri_attempt i, rr_path = path, rr_sha256 = ri_sha256 i,
                          rr_byte_count = ri_byte_count i, rr_schema_id = ri_schema_id i,
                          rr_schema_version = ri_schema_version i, rr_generation = ri_generation i\<rparr>
               in if valid_raw_reference ref then Inr ref else Inl ValidationError)"

primrec all_ok :: "(exn + 'a) list \<Rightarrow> exn + 'a list" where
  "all_ok [] = Inr []"
| "all_ok (x # xs) =
     (case x of Inl e \<Rightarrow> Inl e
      | Inr a \<Rightarrow> (case all_ok xs of Inl e \<Rightarrow> Inl e | Inr as \<Rightarrow> Inr (a # as)))"

text \<open>The request whose attempts produced a consumer's result.\<close>

definition result_owner :: "string \<Rightarrow> db \<Rightarrow> string" where
  "result_owner lid d =
     (case select_by co_id lid (consumers d) of
        None \<Rightarrow> lid
      | Some c \<Rightarrow>
          if co_state c = C_Completed
          then (case co_owner c of None \<Rightarrow> lid | Some owner \<Rightarrow> owner)
          else lid)"

definition committed_raw_references :: "string \<Rightarrow> db \<Rightarrow> db \<times> (exn + raw_reference list)" where
  "committed_raw_references lid d =
     (if \<not> is_identifier lid then (d, Inl ValidationError)
      else after_commit (\<lambda>rs. all_ok (map raw_reference_of rs))
        (read_raw_publications (\<lambda>d. order_by ri_attempt
           (filter (\<lambda>w. ri_logical w = result_owner lid d \<and> rw_state w = P_Committed)
             (raw_publications d))) d))"

definition committed_raw_records :: "db \<Rightarrow> db \<times> (exn + raw_record list)" where
  "committed_raw_records =
     read_raw_publications (\<lambda>d. order_by ri_id
       (filter (\<lambda>w. rw_state w = P_Committed) (raw_publications d)))"

section \<open>History\<close>

lemma hist_update_publication:
  assumes "\<And>w. ri_id (f w) = ri_id w" and "\<And>w. p w \<Longrightarrow> publication_step w (f w)"
  shows "tx_rel history (sql_update_one raw_publications raw_publications_update p f code)"
  unfolding tx_rel_wp tx_wp_sql_update_one
  by (intro allI impI history_update_publications) (use assms in auto)

lemma hist_begin_publication: "history d (fst (begin_raw_publication i lease now d))"
  unfolding begin_raw_publication_def begin_publication_body_def insert_publication_def
  by (rule with_clock_rel) (auto intro!: hist.R_refl hist.rel_run hist.rel_steps tx_rel_intros)

lemma hist_commit_publication: "history d (fst (commit_raw_publication r lease now d))"
  unfolding commit_raw_publication_def commit_publication_body_def
  by (rule with_clock_rel)
     (auto intro!: hist.R_refl hist.rel_run hist.rel_steps tx_rel_intros hist_update_publication
       simp: publication_step_def commits_def)

lemma hist_transition_publication:
  assumes "sources \<subseteq> {P_Staging, P_Reconciliation}" and "target \<noteq> P_Staging"
  shows "history d (fst (transition_raw_publication pid target sources lease now d))"
  unfolding transition_raw_publication_def transition_publication_body_def
  by (rule with_clock_rel)
     (use assms in \<open>auto intro!: hist.R_refl hist.rel_run hist.rel_steps tx_rel_intros
       hist_update_publication simp: publication_step_def\<close>)

lemma read_raw_publications_state [simp]: "fst (read_raw_publications query d) = d"
  by (auto simp: read_raw_publications_def run_tx_def tx_simps verify_schema_def
      split: sum.splits if_splits)

end
