(* ===== verification/Frames.thy ===== *)
theory Frames
  imports Publications
begin

text \<open>
  The footprint of every operation: the tables it may write. Each lemma says that a part of
  the database that does not depend on those tables is left alone; an invariant about one
  group of tables is then preserved by all operations outside the group at once.
\<close>

section \<open>Statements\<close>

lemma keeps_request_writes [tx_frame]:
  assumes "\<And>h d. f (logical_requests_update h d) = f d"
  shows "keeps f (insert_logical_request r)" "keeps f (set_request_state lid st)"
    "keeps f (end_request lid st code)"
  unfolding insert_logical_request_def set_request_state_def end_request_def
  using assms by (auto intro!: tx_frame)

lemma keeps_result_write [tx_frame]:
  assumes "\<And>h d. f (logical_results_update h d) = f d"
  shows "keeps f (insert_logical_result r)"
  unfolding insert_logical_result_def using assms by (auto intro!: tx_frame)

lemma keeps_queue_event [tx_frame]:
  assumes "\<And>h d. f (queue_log_update h d) = f d"
  shows "keeps f (append_queue_event lid ty now reason)"
  unfolding append_queue_event_def using assms by (auto intro!: tx_frame)

lemma keeps_admission_event [tx_frame]:
  assumes "\<And>h d. f (admission_log_update h d) = f d"
  shows "keeps f (append_admission_event lid ty now reason)"
  unfolding append_admission_event_def using assms by (auto intro!: tx_frame)

lemma keeps_gate_event [tx_frame]:
  assumes "\<And>h d. f (gate_log_update h d) = f d"
  shows "keeps f (append_gate_event lid rid sc ky ty now reason)"
  unfolding append_gate_event_def using assms by (auto intro!: tx_frame)

lemma keeps_attempt_writes [tx_frame]:
  assumes "\<And>h d. f (physical_attempts_update h d) = f d"
  shows "keeps f (insert_attempt a)" "keeps f (attach_attempt b)" "keeps f (finish_attempt aid st e)"
  unfolding insert_attempt_def attach_attempt_def finish_attempt_def
  using assms by (auto intro!: tx_frame split: option.splits)

lemma keeps_queue_entry [tx_frame]:
  assumes "\<And>h d. f (queue_entries_update h d) = f d"
  shows "keeps f (insert_queue_entry q)"
  unfolding insert_queue_entry_def using assms by (auto intro!: tx_frame)

lemma keeps_consumer_writes [tx_frame]:
  assumes "\<And>h d. f (consumers_update h d) = f d"
  shows "keeps f (update_consumer cid g)" "keeps f (insert_consumer c)" "keeps f (cancel_consumer cid)"
  unfolding update_consumer_def insert_consumer_def cancel_consumer_def
  using assms by (auto intro!: tx_frame)

lemma keeps_flight_writes [tx_frame]:
  assumes "\<And>h d. f (flights_update h d) = f d"
  shows "keeps f (set_flight_terminal fp)" "keeps f (lead_flight r)" "keeps f (decide_flight r rd)"
  unfolding set_flight_terminal_def decide_flight_def lead_flight_def
  using assms by (auto intro!: tx_frame split: option.splits prod.splits)

lemma keeps_reservation_writes [tx_frame]:
  assumes "\<And>h d. f (reservations_update h d) = f d"
  shows "keeps f (insert_reservation r)" "keeps f (set_reservation_state rid st)"
  unfolding insert_reservation_def set_reservation_state_def
  using assms by (auto intro!: tx_frame)

lemma keeps_vacate [tx_frame]:
  assumes "\<And>h d. f (gate_states_update h d) = f d"
  shows "keeps f (vacate_scope code r)"
  unfolding vacate_scope_def using assms by (auto intro!: tx_frame)

lemma keeps_queries [tx_frame]:
  "keeps f (validate_attempt_outcome r)" "keeps f (validate_finalization r)"
  "keeps f (validate_recovery_state g)" "keeps f (gate_request_active lid)"
  unfolding validate_finalization_def validate_attempt_outcome_def validate_recovery_state_def
    gate_request_active_def
  by (auto intro!: tx_frame)

section \<open>Operations\<close>

lemma keeps_ending [tx_frame]:
  assumes "\<And>h d. f (logical_requests_update h d) = f d"
    and "\<And>h d. f (logical_results_update h d) = f d"
  shows "keeps f (persist_logical_result r)" "keeps f (cancel_logical lid t reason oc)"
    "keeps f (fail_started t lid)" "keeps f (fail_between t x)" "keeps f (settle_requests g t)"
  unfolding persist_logical_result_def cancel_logical_def fail_started_def fail_between_def
    settle_requests_def
  using assms by (auto intro!: tx_frame)

lemma keeps_enqueue [tx_frame]:
  assumes "\<And>h d. f (logical_requests_update h d) = f d"
    and "\<And>h d. f (logical_results_update h d) = f d"
    and "\<And>h d. f (queue_log_update h d) = f d"
    and "\<And>h d. f (queue_entries_update h d) = f d"
  shows "keeps f (enqueue_body r rd l t p)"
  unfolding enqueue_body_def reject_enqueued_def using assms by (auto intro!: tx_frame)

lemma keeps_claim [tx_frame]:
  assumes "\<And>h d. f (queue_entries_update h d) = f d"
    and "\<And>h d. f (queue_cursors_update h d) = f d"
    and "\<And>h d. f (queue_log_update h d) = f d"
  shows "keeps f (claim_body rd l t)" "keeps f (claim_task rd task t)" "keeps f (dequeue rd task lid t)"
proof -
  show d: "keeps f (dequeue rd task lid t)" for task lid
    unfolding dequeue_def using assms by (auto intro!: tx_frame)
  show c: "keeps f (claim_task rd task t)" for task
    unfolding claim_task_def by (auto intro!: tx_frame d split: option.splits)
  show "keeps f (claim_body rd l t)" unfolding claim_body_def by (auto intro!: tx_frame c)
qed

lemma keeps_gate_release [tx_frame]:
  assumes "\<And>h d. f (gate_states_update h d) = f d"
    and "\<And>h d. f (reservations_update h d) = f d"
    and "\<And>h d. f (gate_log_update h d) = f d"
  shows "keeps f (reclaim_reservation code ev reason t r)"
    "keeps f (release_gate_occupancy lid t reason)" "keeps f (recover_gate_reservations g t)"
  unfolding release_gate_occupancy_def recover_gate_reservations_def reclaim_reservation_def
  using assms by (auto intro!: tx_frame)

lemma keeps_finish_gates [tx_frame]:
  assumes "\<And>h d. f (gate_states_update h d) = f d"
    and "\<And>h d. f (reservations_update h d) = f d"
    and "\<And>h d. f (gate_log_update h d) = f d"
    and "\<And>h d. f (physical_attempts_update h d) = f d"
  shows "keeps f (finish_body res st retry e l t)"
  unfolding finish_body_def record_cooldown_def
  using assms by (auto intro!: tx_frame split: option.splits)

lemma keeps_occupy [tx_frame]:
  assumes "\<And>h d. f (gate_states_update h d) = f d"
    and "\<And>h d. f (reserved_scopes_update h d) = f d"
    and "\<And>h d. f (gate_starts_update h d) = f d"
    and "\<And>h d. f (gate_log_update h d) = f d"
  shows "keeps f (occupy_scope rid lid t x)"
  unfolding occupy_scope_def using assms by (auto intro!: tx_frame)

lemma keeps_acquire_gates [tx_frame]:
  assumes "\<And>h d. f (gate_states_update h d) = f d"
    and "\<And>h d. f (reserved_scopes_update h d) = f d"
    and "\<And>h d. f (gate_starts_update h d) = f d"
    and "\<And>h d. f (gate_log_update h d) = f d"
    and "\<And>h d. f (reservations_update h d) = f d"
    and "\<And>h d. f (physical_attempts_update h d) = f d"
  shows "keeps f (acquire_gates_body rid a keys p l t)"
  unfolding acquire_gates_body_def take_gates_def record_block_def
  using assms by (auto intro!: tx_frame split: option.splits prod.splits)

lemma keeps_attempt_ops [tx_frame]:
  assumes "\<And>h d. f (physical_attempts_update h d) = f d"
  shows "keeps f (reserve_body aid lid l t)" "keeps f (discard_body aid l t)"
    "keeps f (start_body aid l t)" "keeps f (settle_attempts g)"
proof -
  show "keeps f (discard_body aid l t)"
    unfolding discard_body_def
    using assms by (auto intro!: tx_frame)
qed (use assms in \<open>auto intro!: tx_frame simp: reserve_body_def start_body_def settle_attempts_def Let_def\<close>)

lemma keeps_delivery [tx_frame]:
  assumes "\<And>h d. f (logical_requests_update h d) = f d"
    and "\<And>h d. f (logical_results_update h d) = f d"
    and "\<And>h d. f (consumers_update h d) = f d"
    and "\<And>h d. f (admission_log_update h d) = f d"
    and "\<And>h d. f (flights_update h d) = f d"
    and "\<And>h d. f (queue_entries_update h d) = f d"
  shows "keeps f (finish_single_flight r t)" "keeps f (reconcile_terminal_flights t fp)"
    "keeps f (complete_body r l t)" "keeps f (finalize_body r l t)"
proof -
  show fin: "keeps f (finish_single_flight r t)" for r
    unfolding finish_single_flight_def deliver_one_def
    using assms by (auto intro!: tx_frame split: option.splits)
  show "keeps f (reconcile_terminal_flights t fp)"
    unfolding reconcile_terminal_flights_def reconcile_flight_def
    by (auto intro!: tx_frame fin split: prod.splits sum.splits option.splits)
  show "keeps f (complete_body r l t)" "keeps f (finalize_body r l t)"
    unfolding complete_body_def finalize_body_def using assms by (auto intro!: tx_frame fin)
qed

lemma keeps_admit [tx_frame]:
  assumes "\<And>h d. f (logical_requests_update h d) = f d"
    and "\<And>h d. f (logical_results_update h d) = f d"
    and "\<And>h d. f (consumers_update h d) = f d"
    and "\<And>h d. f (admission_log_update h d) = f d"
    and "\<And>h d. f (flights_update h d) = f d"
    and "\<And>h d. f (queue_entries_update h d) = f d"
    and "\<And>h d. f (queue_log_update h d) = f d"
  shows "keeps f (admit_body r rd cache l t p)"
  unfolding admit_body_def queue_leader_def
  using assms by (auto intro!: tx_frame split: prod.splits)

lemma keeps_cancel [tx_frame]:
  assumes "\<And>h d. f (logical_requests_update h d) = f d"
    and "\<And>h d. f (logical_results_update h d) = f d"
    and "\<And>h d. f (consumers_update h d) = f d"
    and "\<And>h d. f (admission_log_update h d) = f d"
    and "\<And>h d. f (flights_update h d) = f d"
    and "\<And>h d. f (queue_entries_update h d) = f d"
    and "\<And>h d. f (queue_log_update h d) = f d"
    and "\<And>h d. f (gate_states_update h d) = f d"
    and "\<And>h d. f (reservations_update h d) = f d"
    and "\<And>h d. f (gate_log_update h d) = f d"
    and "\<And>h d. f (physical_attempts_update h d) = f d"
  shows "keeps f (cancel_body lid reason l t)"
proof -
  have started: "keeps f (cancel_started_flight fp t reason)" for fp
    unfolding cancel_started_flight_def cancel_in_flight_def
    using assms by (auto intro!: tx_frame split: option.splits)
  have leader: "keeps f (cancel_leader lid fp t reason)" for fp
    unfolding cancel_leader_def abandon_reserved_def hand_over_def promote_def Let_def
    using assms by (auto intro!: tx_frame started split: option.splits)
  show ?thesis
    unfolding cancel_body_def cancel_follower_def
    using assms by (auto intro!: tx_frame leader split: option.splits)
qed

lemma keeps_lease_writes [tx_frame]:
  assumes "\<And>h d. f (lease_slot_update h d) = f d"
  shows "keeps f (set_lease r)" "keeps f (update_lease l g)" "keeps f (take_over owner n t e)"
  unfolding set_lease_def update_lease_def take_over_def using assms by (auto intro!: tx_frame)

lemma keeps_acquire_lease [tx_frame]:
  assumes "\<And>h d. f (lease_slot_update h d) = f d"
    and "\<And>h d. f (logical_requests_update h d) = f d"
    and "\<And>h d. f (logical_results_update h d) = f d"
    and "\<And>h d. f (consumers_update h d) = f d"
    and "\<And>h d. f (admission_log_update h d) = f d"
    and "\<And>h d. f (flights_update h d) = f d"
    and "\<And>h d. f (queue_entries_update h d) = f d"
  shows "keeps f (acquire_body owner t e)"
  unfolding acquire_body_def using assms by (auto intro!: tx_frame split: option.splits)

lemma keeps_requeue [tx_frame]:
  assumes "\<And>h d. f (queue_entries_update h d) = f d" and "\<And>h d. f (queue_log_update h d) = f d"
  shows "keeps f (requeue_claimed t)"
  unfolding requeue_claimed_def using assms by (auto intro!: tx_frame)

lemma keeps_recover [tx_frame]:
  assumes "\<And>h d. f (lease_slot_update h d) = f d"
    and "\<And>h d. f (logical_requests_update h d) = f d"
    and "\<And>h d. f (logical_results_update h d) = f d"
    and "\<And>h d. f (consumers_update h d) = f d"
    and "\<And>h d. f (admission_log_update h d) = f d"
    and "\<And>h d. f (flights_update h d) = f d"
    and "\<And>h d. f (queue_entries_update h d) = f d"
    and "\<And>h d. f (queue_log_update h d) = f d"
    and "\<And>h d. f (gate_states_update h d) = f d"
    and "\<And>h d. f (reservations_update h d) = f d"
    and "\<And>h d. f (gate_log_update h d) = f d"
    and "\<And>h d. f (physical_attempts_update h d) = f d"
  shows "keeps f (recover_body owner t e)"
  unfolding recover_body_def settle_def using assms by (auto intro!: tx_frame split: option.splits)

lemma keeps_publication_ops [tx_frame]:
  assumes "\<And>h d. f (raw_publications_update h d) = f d"
  shows "keeps f (begin_publication_body i l t)" "keeps f (commit_publication_body ref l t)"
    "keeps f (transition_publication_body pid target sources l t)"
  unfolding begin_publication_body_def commit_publication_body_def transition_publication_body_def
    insert_publication_def
  using assms by (auto intro!: tx_frame)

end
