(* ===== verification/Runtime.thy ===== *)
theory Runtime
  imports Frames
begin

text \<open>
  The repository as a transition system: one constructor per mutating method of
  \<open>ProductionRequestRepository\<close>, its effect on the database, the states reachable from a
  fresh schema, and the three facts that hold of every operation: primary keys, history and
  fencing.
\<close>

section \<open>Operations\<close>

datatype runtime_op =
    Add_Logical logical_request
  | Enqueue logical_request string runtime_lease py_datetime queue_policy
  | Admit logical_request string cache_policy runtime_lease py_datetime queue_policy
  | Cancel string string runtime_lease py_datetime
  | Claim string runtime_lease py_datetime
  | Acquire_Gates string physical_attempt gate_keys gate_policy runtime_lease py_datetime
  | Release_Gates gate_reservation string runtime_lease py_datetime "bool option"
  | Retry_After gate_reservation "rat option" runtime_lease py_datetime
  | Unknown_Outcome gate_reservation runtime_lease py_datetime
  | Add_Attempt physical_attempt
  | Reserve_Next string string runtime_lease py_datetime
  | Discard string runtime_lease py_datetime
  | Mark_Started string runtime_lease py_datetime
  | Complete logical_result runtime_lease py_datetime
  | Finalize logical_result runtime_lease py_datetime
  | Acquire_Lease string py_datetime lease_policy
  | Recover string py_datetime lease_policy
  | Heartbeat runtime_lease py_datetime lease_policy
  | Release_Lease runtime_lease py_datetime
  | Begin_Publication raw_intent runtime_lease py_datetime
  | Commit_Publication raw_reference runtime_lease py_datetime
  | Fail_Publication string runtime_lease py_datetime
  | Mark_Publication string runtime_lease py_datetime

text \<open>The database after a call, whether it returned or raised.\<close>

primrec apply_op :: "runtime_op \<Rightarrow> db \<Rightarrow> db" where
  "apply_op (Add_Logical r) d = fst (add_logical_request r d)"
| "apply_op (Enqueue r rd l now p) d = fst (enqueue_logical_request r rd l now p d)"
| "apply_op (Admit r rd c l now p) d = fst (admit_logical_request r rd c l now p d)"
| "apply_op (Cancel lid reason l now) d = fst (cancel_admitted_request lid reason l now d)"
| "apply_op (Claim rd l now) d = fst (claim_next_queued rd l now d)"
| "apply_op (Acquire_Gates rid a ks p l now) d = fst (acquire_gates rid a ks p l now d)"
| "apply_op (Release_Gates res oc l now e) d = fst (release_gates res oc l now e d)"
| "apply_op (Retry_After res s l now) d = fst (record_retry_after res s l now d)"
| "apply_op (Unknown_Outcome res l now) d = fst (record_unknown_outcome res l now d)"
| "apply_op (Add_Attempt a) d = fst (add_physical_attempt a d)"
| "apply_op (Reserve_Next aid lid l now) d = fst (reserve_next_physical_attempt aid lid l now d)"
| "apply_op (Discard aid l now) d = fst (discard_reserved_attempt aid l now d)"
| "apply_op (Mark_Started aid l now) d = fst (mark_physical_attempt_started aid l now d)"
| "apply_op (Complete r l now) d = fst (complete_logical_request r l now d)"
| "apply_op (Finalize r l now) d = fst (finalize_logical_request r l now d)"
| "apply_op (Acquire_Lease owner now p) d = fst (acquire_lease owner now p d)"
| "apply_op (Recover owner now p) d = fst (recover_expired_lease owner now p d)"
| "apply_op (Heartbeat l now p) d = fst (heartbeat_lease l now p d)"
| "apply_op (Release_Lease l now) d = fst (release_lease l now d)"
| "apply_op (Begin_Publication i l now) d = fst (begin_raw_publication i l now d)"
| "apply_op (Commit_Publication r l now) d = fst (commit_raw_publication r l now d)"
| "apply_op (Fail_Publication pid l now) d = fst (fail_raw_publication pid l now d)"
| "apply_op (Mark_Publication pid l now) d =
     fst (mark_raw_publication_reconciliation_required pid l now d)"

text \<open>The states reachable by operations that satisfy \<open>allowed\<close>.\<close>

inductive reachable :: "(runtime_op \<Rightarrow> bool) \<Rightarrow> db \<Rightarrow> bool" for allowed where
  initial: "reachable allowed create_schema"
| step: "reachable allowed d \<Longrightarrow> allowed op \<Longrightarrow> reachable allowed (apply_op op d)"

abbreviation any_op :: "runtime_op \<Rightarrow> bool" where
  "any_op \<equiv> \<lambda>_. True"

text \<open>
  The proof rule of the development: what holds of a fresh schema and is preserved by every
  allowed operation holds of every reachable state.
\<close>

locale runtime_invariant =
  fixes allowed :: "runtime_op \<Rightarrow> bool" and I :: "db \<Rightarrow> bool"
  assumes fresh: "I create_schema"
    and preserved: "allowed op \<Longrightarrow> I d \<Longrightarrow> I (apply_op op d)"
begin

lemma always: "reachable allowed d \<Longrightarrow> I d"
  by (induction rule: reachable.induct) (simp_all add: fresh preserved)

lemma always_after: "I d \<Longrightarrow> list_all allowed ops \<Longrightarrow> I (fold apply_op ops d)"
  by (induction ops arbitrary: d) (simp_all add: preserved)

end

section \<open>History and primary keys\<close>

lemma hist_op: "history d (apply_op op d)"
  by (cases op)
     (simp_all add: hist_add_logical_request hist_enqueue_logical_request hist_admit hist_cancel
       hist_claim_next_queued hist_acquire_gates hist_release_gates hist_record_retry_after
       hist_record_unknown_outcome hist_add_physical_attempt hist_reserve_next hist_discard
       hist_mark_started hist_complete hist_finalize hist_acquire_lease hist_recover hist_heartbeat
       hist_release_lease hist_begin_publication hist_commit_publication hist_transition_publication
       fail_raw_publication_def mark_raw_publication_reconciliation_required_def)

lemma primary_keys_create: "primary_keys create_schema"
  by (simp add: primary_keys_def keys_ok_def create_schema_def)

interpretation pk: runtime_invariant any_op primary_keys
  by unfold_locales (use hist_op primary_keys_create in \<open>auto simp: history_def\<close>)

lemma db_extends_ops: "primary_keys d \<Longrightarrow> db_extends d (fold apply_op ops d)"
proof (induction ops arbitrary: d)
  case (Cons op ops)
  have "primary_keys (apply_op op d)" "db_extends d (apply_op op d)"
    using hist_op [of d op] Cons.prems by (auto simp: history_def)
  then show ?case using Cons.IH db_extends_trans by fastforce
qed simp

lemma reachable_run [simp]: "reachable any_op (fold apply_op ops create_schema)"
proof -
  have "reachable any_op d \<Longrightarrow> reachable any_op (fold apply_op ops d)" for d
    by (induction ops arbitrary: d) (auto intro: reachable.step)
  then show ?thesis using reachable.initial by blast
qed

lemma reachable_trans: "reachable allowed d \<Longrightarrow> list_all allowed ops \<Longrightarrow> reachable allowed (fold apply_op ops d)"
  by (induction ops arbitrary: d) (auto intro: reachable.step)

section \<open>Invariants, body by body\<close>

text \<open>
  The obligations of an invariant: one per transaction body, with the facts the operation has
  already checked about its arguments.
\<close>

lemma with_clock_inv:
  "I d \<Longrightarrow> (\<And>t. now = utc t \<Longrightarrow> before \<Longrightarrow> after \<Longrightarrow> I (fst (body t d))) \<Longrightarrow>
   I (fst (with_clock before now after body d))"
  by (auto simp: with_clock_def validate_utc_Inr split: sum.splits)

lemma with_expiry_inv:
  "I d \<Longrightarrow> (\<And>e. I (fst (body t e d))) \<Longrightarrow> I (fst (with_expiry p body t d))"
  by (auto simp: with_expiry_def split: sum.splits)

lemma op_preserves:
  assumes add: "\<And>r. allowed (Add_Logical r) \<Longrightarrow> preserves I (tx_block [verify_schema, insert_logical_request r])"
    and enqueue: "\<And>r rd l t p. allowed (Enqueue r rd l (utc t) p) \<Longrightarrow> preserves I (enqueue_body r rd l t p)"
    and admit: "\<And>r rd cp l t p. allowed (Admit r rd cp l (utc t) p) \<Longrightarrow>
      preserves I (admit_body r rd (cache_decision_of cp) l t p)"
    and cancel: "\<And>lid reason l t. is_identifier reason \<Longrightarrow> preserves I (cancel_body lid reason l t)"
    and claim: "\<And>rd l t. preserves I (claim_body rd l t)"
    and gates: "\<And>rid a ks p l t. allowed (Acquire_Gates rid a ks p l (utc t)) \<Longrightarrow> valid_gate_policy p \<Longrightarrow>
      preserves I (acquire_gates_body rid a ks p l t)"
    and finish: "\<And>res st retry e l t. st \<in> {A_Succeeded, A_Failed, A_Unknown} \<Longrightarrow>
      preserves I (finish_body res st retry e l t)"
    and attempt: "\<And>a. preserves I (tx_block [verify_schema, insert_attempt (reserved_attempt a)])"
    and reserve: "\<And>aid lid l t. preserves I (reserve_body aid lid l t)"
    and discard: "\<And>aid l t. preserves I (discard_body aid l t)"
    and started: "\<And>aid l t. preserves I (start_body aid l t)"
    and complete: "\<And>r l t. preserves I (complete_body r l t)"
    and finalize: "\<And>r l t. preserves I (finalize_body r l t)"
    and lease: "\<And>owner t e. preserves I (acquire_body owner t e)"
    and recover: "\<And>owner t e. preserves I (recover_body owner t e)"
    and heartbeat: "\<And>l t e. preserves I (update_lease l (\<lambda>r. r\<lparr>le_heartbeat_at := t, le_expires_at := e\<rparr>))"
    and release: "\<And>l. preserves I (update_lease l (\<lambda>r. r\<lparr>le_active := False\<rparr>))"
    and publish: "\<And>i l t. preserves I (begin_publication_body i l t)"
    and commit: "\<And>r l t. valid_raw_reference r \<Longrightarrow> preserves I (commit_publication_body r l t)"
    and transition: "\<And>pid target sources l t. sources \<subseteq> {P_Staging, P_Reconciliation} \<Longrightarrow>
      target \<in> {P_Reconciliation, P_Failed} \<Longrightarrow>
      preserves I (transition_publication_body pid target sources l t)"
    and "allowed op" and "I d"
  shows "I (apply_op op d)"
proof -
  have finished: "I (fst (finish_gate_reservation res st retry e l now d))"
    if "st \<in> {A_Succeeded, A_Failed, A_Unknown}" for res st retry e l now
    unfolding finish_gate_reservation_def
    by (rule with_clock_inv [where I = I, OF \<open>I d\<close>], rule preserves_run [OF finish [OF that] \<open>I d\<close>])
  have moved: "I (fst (transition_raw_publication pid target sources l now d))"
    if "sources \<subseteq> {P_Staging, P_Reconciliation}" "target \<in> {P_Reconciliation, P_Failed}"
    for pid target sources l now
    unfolding transition_raw_publication_def
    by (rule with_clock_inv [where I = I, OF \<open>I d\<close>], rule preserves_run [OF transition [OF that] \<open>I d\<close>])
  show ?thesis
  proof (cases op)
    case (Heartbeat l now p)
    show ?thesis
      unfolding Heartbeat apply_op.simps heartbeat_lease_def
      by (rule with_clock_inv [where I = I, OF \<open>I d\<close>])
         (auto simp: \<open>I d\<close> with_expiry_def preserves_run [OF heartbeat \<open>I d\<close>]
           split: option.split sum.split)
  next
    case (Release_Lease l now)
    show ?thesis
      unfolding Release_Lease apply_op.simps release_lease_def
      by (rule with_clock_inv [where I = I, OF \<open>I d\<close>])
         (auto simp: \<open>I d\<close> preserves_run [OF release \<open>I d\<close>] split: option.split)
  next
    case (Acquire_Lease owner now p)
    show ?thesis
      unfolding Acquire_Lease apply_op.simps acquire_lease_def
      by (rule with_clock_inv [where I = I, OF \<open>I d\<close>], rule with_expiry_inv [where I = I, OF \<open>I d\<close>])
         (simp add: preserves_run [OF lease \<open>I d\<close>])
  next
    case (Recover owner now p)
    show ?thesis
      unfolding Recover apply_op.simps recover_expired_lease_def
      by (rule with_clock_inv [where I = I, OF \<open>I d\<close>], rule with_expiry_inv [where I = I, OF \<open>I d\<close>])
         (simp add: preserves_run [OF recover \<open>I d\<close>])
  next
    case (Acquire_Gates rid a ks p l now)
    show ?thesis
      unfolding Acquire_Gates apply_op.simps acquire_gates_def
      by (rule with_clock_inv [where I = I, OF \<open>I d\<close>])
         (use \<open>allowed op\<close> Acquire_Gates in \<open>auto simp: \<open>I d\<close> preserves_run [OF gates \<open>I d\<close>]\<close>)
  next
    case (Enqueue r rd l now p)
    show ?thesis
      unfolding Enqueue apply_op.simps enqueue_logical_request_def
      by (rule with_clock_inv [where I = I, OF \<open>I d\<close>])
         (use \<open>allowed op\<close> Enqueue in \<open>auto simp: preserves_run [OF enqueue \<open>I d\<close>]\<close>)
  next
    case (Admit r rd cp l now p)
    show ?thesis
      unfolding Admit apply_op.simps admit_logical_request_def
      by (rule with_clock_inv [where I = I, OF \<open>I d\<close>])
         (use \<open>allowed op\<close> Admit in \<open>auto simp: preserves_run [OF admit \<open>I d\<close>]\<close>)
  next
    case (Add_Logical r)
    then show ?thesis
      using \<open>allowed op\<close> \<open>I d\<close>
      by (auto simp: add_logical_request_def simp del: tx_block.simps intro!: preserves_run add)
  next
    case (Add_Attempt a)
    then show ?thesis
      using \<open>I d\<close>
      by (auto simp: add_physical_attempt_def simp del: tx_block.simps intro!: preserves_run attempt)
  next
    case (Release_Gates res oc l now e)
    then show ?thesis using \<open>I d\<close> by (auto simp: release_gates_def Let_def intro!: finished)
  next
    case (Retry_After res s l now)
    then show ?thesis
      using \<open>I d\<close> by (auto simp: record_retry_after_def intro!: finished split: option.split)
  next
    case (Unknown_Outcome res l now)
    then show ?thesis by (simp add: record_unknown_outcome_def finished)
  next
    case (Fail_Publication pid l now)
    then show ?thesis by (simp add: fail_raw_publication_def moved)
  next
    case (Mark_Publication pid l now)
    then show ?thesis
      by (simp add: mark_raw_publication_reconciliation_required_def moved)
  next
    case (Cancel lid reason l now)
    show ?thesis
      unfolding Cancel apply_op.simps cancel_admitted_request_def
      by (rule with_clock_inv [where I = I, OF \<open>I d\<close>]) (simp add: preserves_run [OF cancel \<open>I d\<close>])
  next
    case (Commit_Publication r l now)
    show ?thesis
      unfolding Commit_Publication apply_op.simps commit_raw_publication_def
      by (rule with_clock_inv [where I = I, OF \<open>I d\<close>]) (simp add: preserves_run [OF commit \<open>I d\<close>])
  qed (simp_all only: apply_op.simps claim_next_queued_def reserve_next_physical_attempt_def
      discard_reserved_attempt_def mark_physical_attempt_started_def complete_logical_request_def
      finalize_logical_request_def begin_raw_publication_def,
      (rule with_clock_inv [where I = I, OF \<open>I d\<close>], simp add: \<open>I d\<close> preserves_run
        [OF claim] preserves_run [OF reserve] preserves_run [OF discard] preserves_run [OF started]
        preserves_run [OF complete] preserves_run [OF finalize] preserves_run [OF publish])+)
qed


section \<open>History, body by body\<close>

lemma hist_acquire_gates_body: "tx_rel history (acquire_gates_body rid a ks p l t)"
  unfolding acquire_gates_body_def gate_request_active_def record_block_def
  by (auto intro!: hist.rel_steps tx_rel_intros split: prod.splits)

lemma hist_attempt_bodies:
  "tx_rel history (tx_block [verify_schema, insert_attempt (reserved_attempt a)])"
  "tx_rel history (reserve_body aid lid l t)"
  unfolding reserve_body_def Let_def by (auto intro!: hist.rel_steps tx_rel_intros)

lemma hist_result_bodies:
  "tx_rel history (tx_block [verify_schema, insert_logical_request q])"
  "tx_rel history (complete_body r l t)" "tx_rel history (finalize_body r l t)"
  unfolding complete_body_def finalize_body_def by (auto intro!: hist.rel_steps tx_rel_intros)

lemma hist_lease_bodies:
  "tx_rel history (update_lease l (\<lambda>r. r\<lparr>le_heartbeat_at := t, le_expires_at := e\<rparr>))"
  "tx_rel history (update_lease l (\<lambda>r. r\<lparr>le_active := False\<rparr>))"
  by (rule hist_update_lease; simp add: lease_extends_def)+

lemma hist_publication_bodies:
  "tx_rel history (begin_publication_body i l t)"
  "valid_raw_reference r \<Longrightarrow> tx_rel history (commit_publication_body r l t)"
  "sources \<subseteq> {P_Staging, P_Reconciliation} \<Longrightarrow> target \<in> {P_Reconciliation, P_Failed} \<Longrightarrow>
   tx_rel history (transition_publication_body pid target sources l t)"
  unfolding begin_publication_body_def commit_publication_body_def transition_publication_body_def
    insert_publication_def
  by (auto intro!: hist.rel_steps tx_rel_intros hist_update_publication
      simp: publication_step_def commits_def)

text \<open>The bodies whose steps are all in the collections above, in one bundle.\<close>

lemmas hist_bodies = hist_acquire_gates_body hist_attempt_bodies hist_result_bodies hist_lease_bodies
  hist_publication_bodies hist_enqueue_body hist_admit_body hist_cancel_body hist_claim_body
  hist_discard_body hist_start_body hist_acquire_body hist_recover_body

text \<open>
  An invariant over one part of the database: a body that keeps the part, or keeps only the
  primary keys besides it, preserves it.
\<close>

lemma preserves_keyed_part:
  assumes "keeps f m" and "tx_rel history m"
    and "\<And>d d'. f d' = f d \<Longrightarrow> J d \<Longrightarrow> J d'"
  shows "preserves (\<lambda>d. primary_keys d \<and> J d) m"
  unfolding preserves_wp
proof (intro allI impI)
  fix d assume d: "primary_keys d \<and> J d"
  have "tx_wp m (\<lambda>_ d'. f d' = f d \<and> history d d') d"
    using assms(1,2) by (intro tx_wp_conjI keeps_wp hist.wp_rel)
  then show "tx_wp m (\<lambda>_ d. primary_keys d \<and> J d) d"
    by (rule tx_wp_mono) (use d assms(3) in \<open>auto simp: history_def\<close>)
qed

end
