(* ===== verification/Examples.thy ===== *)
theory Examples
  imports Runtime
begin

text \<open>
  A small concrete run of the repository: one owner, requests that share a fingerprint, the
  whole way from admission through the gates to the delivered result. The properties are
  applied to its states, each obtained by evaluating the operations.
\<close>

definition noon :: int where
  "noon = 43200000000"

definition at_second :: "int \<Rightarrow> py_datetime" where
  "at_second s = utc (noon + s * 1000000)"

definition sample_lease_policy :: lease_policy where
  "sample_lease_policy = \<lparr>lp_duration = 30, lp_heartbeat = 10\<rparr>"

definition sample_lease :: runtime_lease where
  "sample_lease = lease_view ''owner-a'' 1 noon (noon + 30000000)"

definition sample_request :: "string \<Rightarrow> string \<Rightarrow> logical_request" where
  "sample_request lid task =
     \<lparr>lr_id = lid, lr_task = task, lr_source = ''edinet'', lr_operation = ''fetch'',
      lr_fingerprint = replicate 64 (CHR ''a''), lr_approval_version = 1, lr_profile_version = 1,
      lr_credential = None, lr_egress = ''egress-1'', lr_created_at = ''2026-01-01T00:00:00Z'',
      lr_state = L_Queued\<rparr>"

definition sample_queue_policy :: queue_policy where
  "sample_queue_policy = \<lparr>qp_global = 3, qp_domain = 2, qp_task = 2\<rparr>"

definition sample_cache :: cache_policy where
  "sample_cache = \<lparr>cp_applicable = True\<rparr>"

definition sample_limit :: gate_limit where
  "sample_limit = \<lparr>gl_concurrency = 1, gl_min_interval = 2, gl_requests = 3, gl_window = 60\<rparr>"

definition sample_policy :: gate_policy where
  "sample_policy = (\<lambda>_. Some sample_limit)"

definition sample_keys :: gate_keys where
  "sample_keys =
     \<lparr>gk_global = ''g'', gk_egress = ''e'', gk_provider = ''p'', gk_origin = ''o'',
      gk_credential = ''c'', gk_operation = ''x'', gk_task = ''t'', gk_role = ''r''\<rparr>"

definition sample_attempt :: "string \<Rightarrow> string \<Rightarrow> int \<Rightarrow> physical_attempt" where
  "sample_attempt aid lid n =
     \<lparr>pa_id = aid, pa_logical = lid, pa_sequence = n, pa_generation = 1,
      pa_created_at = ''2026-01-01T00:00:00Z'', pa_state = A_Reserved\<rparr>"

definition sample_reservation :: "string \<Rightarrow> string \<Rightarrow> string \<Rightarrow> gate_reservation" where
  "sample_reservation rid aid lid =
     \<lparr>gr_id = rid, gr_attempt = aid, gr_logical = lid, gr_generation = 1,
      gr_acquired_at = isoformat noon\<rparr>"

definition sample_result :: "string \<Rightarrow> result_outcome \<Rightarrow> logical_result" where
  "sample_result lid oc =
     \<lparr>re_id = lid, re_outcome = oc, re_completed_at = ''2026-01-01T00:00:09Z'',
      re_error = (if oc = O_Succeeded then None else Some ''timeout'')\<rparr>"

definition leased_run :: "runtime_op list" where
  "leased_run = [Acquire_Lease ''owner-a'' (at_second 0) sample_lease_policy]"

definition admitted_run :: "runtime_op list" where
  "admitted_run = leased_run @
     [Admit (sample_request ''req-1'' ''task-1'') ''domain-1'' sample_cache sample_lease
        (at_second 1) sample_queue_policy,
      Admit (sample_request ''req-2'' ''task-2'') ''domain-1'' sample_cache sample_lease
        (at_second 2) sample_queue_policy]"

definition after_run :: "runtime_op list \<Rightarrow> db" where
  "after_run ops = fold apply_op ops create_schema"

lemma reachable_after_run [simp]: "reachable any_op (after_run ops)"
  by (simp add: after_run_def)

lemma primary_keys_after_run [simp]: "primary_keys (after_run ops)"
  by (rule pk.always) simp



section \<open>The states of the run\<close>

definition leased_db :: db where
  "leased_db = create_schema\<lparr>lease_slot := Some (granted ''owner-a'' 1 noon (noon + 30000000))\<rparr>"

definition sample_consumer :: "string \<Rightarrow> flight_role \<Rightarrow> int \<Rightarrow> consumer_row" where
  "sample_consumer lid role t =
     \<lparr>co_id = lid, co_fingerprint = replicate 64 (CHR ''a''), co_role = role, co_state = C_Active,
      co_cache = Cache_Disabled, co_domain = ''domain-1'', co_joined_at = t, co_owner = None\<rparr>"

definition sample_event :: "string \<Rightarrow> string \<Rightarrow> int \<Rightarrow> string option \<Rightarrow> event_row" where
  "sample_event lid ty t reason = \<lparr>ev_logical = lid, ev_type = ty, ev_at = t, ev_reason = reason\<rparr>"

definition admitted_db :: db where
  "admitted_db = leased_db\<lparr>
     logical_requests := [sample_request ''req-1'' ''task-1'', sample_request ''req-2'' ''task-2''],
     queue_entries := [new_entry (sample_request ''req-1'' ''task-1'') ''domain-1''
       (noon + 1000000) Q_Queued],
     queue_log := [sample_event ''req-1'' ''requested'' (noon + 1000000) None,
       sample_event ''req-1'' ''queued'' (noon + 1000000) None],
     flights := [\<lparr>fl_fingerprint = replicate 64 (CHR ''a''), fl_leader = ''req-1'',
       fl_state = F_Active\<rparr>],
     consumers := [sample_consumer ''req-1'' Leader (noon + 1000000),
       sample_consumer ''req-2'' Follower (noon + 2000000)],
     admission_log :=
       [sample_event ''req-1'' ''cache_disabled'' (noon + 1000000) None,
        sample_event ''req-1'' ''single_flight_leader'' (noon + 1000000) (Some ''req-1''),
        sample_event ''req-2'' ''cache_disabled'' (noon + 2000000) None,
        sample_event ''req-2'' ''single_flight_follower'' (noon + 2000000) (Some ''req-1'')]\<rparr>"

definition claimed_db :: db where
  "claimed_db = admitted_db\<lparr>
     queue_entries := [(new_entry (sample_request ''req-1'' ''task-1'') ''domain-1''
       (noon + 1000000) Q_Dequeued)\<lparr>qe_dequeued_at := Some (noon + 3000000)\<rparr>],
     queue_cursors := [(''domain-1'', ''task-1'')],
     queue_log := queue_log admitted_db @ [sample_event ''req-1'' ''dequeued'' (noon + 3000000) None]\<rparr>"

definition sent_db :: db where
  "sent_db = claimed_db\<lparr>
     physical_attempts := [(reserved_attempt (sample_attempt ''att-1'' ''req-1'' 1))
       \<lparr>pa_state := A_Started\<rparr>],
     gate_states := map (\<lambda>x. new_gate (fst x) (snd x) (noon + 4000000)) (ordered sample_keys),
     reservations := [\<lparr>rv_id = ''res-1'', rv_attempt = ''att-1'', rv_logical = ''req-1'',
       rv_generation = 1, rv_acquired_at = noon + 4000000, rv_state = R_Active\<rparr>],
     reserved_scopes := map (\<lambda>x. \<lparr>rs_reservation = ''res-1'', rs_scope = fst x, rs_key = snd x\<rparr>)
       (ordered sample_keys),
     gate_starts := map (\<lambda>x. \<lparr>gt_reservation = ''res-1'', gt_scope = fst x, gt_key = snd x,
       gt_at = noon + 4000000\<rparr>) (ordered sample_keys),
     gate_log := map (\<lambda>x. \<lparr>ge_logical = ''req-1'', ge_reservation = Some ''res-1'',
       ge_scope = Some (fst x), ge_key = Some (snd x), ge_type = ''acquired'',
       ge_at = noon + 4000000, ge_reason = None\<rparr>) (ordered sample_keys)\<rparr>"

definition answered_db :: db where
  "answered_db = sent_db\<lparr>
     physical_attempts := [(reserved_attempt (sample_attempt ''att-1'' ''req-1'' 1))
       \<lparr>pa_state := A_Succeeded, pa_raw_eligible := True\<rparr>],
     gate_states := map (\<lambda>x. (new_gate (fst x) (snd x) (noon + 4000000))\<lparr>gs_active := 0\<rparr>)
       (ordered sample_keys),
     reservations := [\<lparr>rv_id = ''res-1'', rv_attempt = ''att-1'', rv_logical = ''req-1'',
       rv_generation = 1, rv_acquired_at = noon + 4000000, rv_state = R_Released\<rparr>],
     gate_log := gate_log sent_db @ [\<lparr>ge_logical = ''req-1'', ge_reservation = Some ''res-1'',
       ge_scope = None, ge_key = None, ge_type = ''released'', ge_at = noon + 6000000,
       ge_reason = Some ''succeeded''\<rparr>]\<rparr>"

lemma after_leased_run: "after_run leased_run = leased_db"
  by code_simp

lemma after_admitted_run: "after_run admitted_run = admitted_db"
  by code_simp

lemma after_claimed_run: "apply_op (Claim ''domain-1'' sample_lease (at_second 3)) admitted_db = claimed_db"
  by code_simp

lemma after_gates: "apply_op (Mark_Started ''att-1'' sample_lease (at_second 5))
    (apply_op (Acquire_Gates ''res-1'' (sample_attempt ''att-1'' ''req-1'' 1) sample_keys sample_policy
        sample_lease (at_second 4)) claimed_db) = sent_db"
  by code_simp

lemma after_release: "apply_op (Release_Gates (sample_reservation ''res-1'' ''att-1'' ''req-1'')
    ''succeeded'' sample_lease (at_second 6) None) sent_db = answered_db"
  by code_simp

lemma reachable_examples [simp]:
  "reachable any_op leased_db" "reachable any_op admitted_db" "reachable any_op claimed_db"
  "reachable any_op sent_db" "reachable any_op answered_db"
proof -
  have step: "reachable any_op d \<Longrightarrow> reachable any_op (apply_op op d)" for d op
    by (rule reachable.step) simp_all
  show "reachable any_op leased_db"
    using reachable_after_run [of leased_run] by (simp only: after_leased_run)
  show a: "reachable any_op admitted_db"
    using reachable_after_run [of admitted_run] by (simp only: after_admitted_run)
  show c: "reachable any_op claimed_db" using step [OF a] after_claimed_run by metis
  show s: "reachable any_op sent_db" using step [OF step [OF c]] after_gates by metis
  show "reachable any_op answered_db" using step [OF s] after_release by metis
qed

end
