(* ===== verification/Occupancy.thy ===== *)
theory Occupancy
  imports Examples
begin

text \<open>
  The gate counters are exact: in every reachable state \<open>active_count\<close> of a scope and key is
  the number of active reservations that hold it, and every reservation holds its eight
  scopes. Consequences: giving gates back never fails on the counters, and recovery leaves no
  slot behind.
\<close>

section \<open>Counting the holders\<close>

definition active_res :: "db \<Rightarrow> string \<Rightarrow> bool" where
  "active_res d rid \<longleftrightarrow> list_ex (\<lambda>r. rv_id r = rid \<and> rv_state r = R_Active) (reservations d)"

definition at_gate :: "gate_scope \<Rightarrow> string \<Rightarrow> reserved_scope \<Rightarrow> bool" where
  "at_gate s k x \<longleftrightarrow> rs_scope x = s \<and> rs_key x = k"

definition holders :: "gate_scope \<Rightarrow> string \<Rightarrow> db \<Rightarrow> nat" where
  "holders s k d = count_where (\<lambda>x. at_gate s k x \<and> active_res d (rs_reservation x)) (reserved_scopes d)"

definition counters_exact :: "db \<Rightarrow> bool" where
  "counters_exact d \<longleftrightarrow> (\<forall>s k. active_count s k d = int (holders s k d))"

definition scopes_known :: "db \<Rightarrow> bool" where
  "scopes_known d \<longleftrightarrow> (\<forall>x \<in> set (reserved_scopes d). rs_reservation x \<in> rv_id ` set (reservations d))"

definition eight_scopes :: "db \<Rightarrow> string \<Rightarrow> bool" where
  "eight_scopes d rid \<longleftrightarrow> length (scopes_of rid d) = 8"

definition occupancy_ok :: "db \<Rightarrow> bool" where
  "occupancy_ok d \<longleftrightarrow> primary_keys d \<and> counters_exact d \<and> scopes_known d
     \<and> (\<forall>r \<in> set (reservations d). eight_scopes d (rv_id r))"

text \<open>The part of the database the invariant reads.\<close>

definition gate_part :: "db \<Rightarrow> gate_row list \<times> reservation_row list \<times> reserved_scope list" where
  "gate_part d = (gate_states d, reservations d, reserved_scopes d)"

lemmas gate_reads = active_res_def holders_def counters_exact_def scopes_known_def eight_scopes_def
  scopes_of_def active_count_def gate_row_of_def gate_part_def

lemma gate_part_reads:
  assumes "gate_part d' = gate_part d"
  shows "active_res d' = active_res d" "holders s k d' = holders s k d"
    "active_count s k d' = active_count s k d" "counters_exact d' = counters_exact d"
    "scopes_known d' = scopes_known d" "eight_scopes d' = eight_scopes d" "scopes_of rid d' = scopes_of rid d"
    "reservations d' = reservations d" "gate_states d' = gate_states d"
  using assms by (auto simp: gate_reads fun_eq_iff)

lemma count_at_gate_Cons:
  "count_where (at_gate s k) (x # xs) =
     (if s = rs_scope x \<and> k = rs_key x then Suc (count_where (at_gate s k) xs)
      else count_where (at_gate s k) xs)"
  by (auto simp: count_where_Cons at_gate_def)

section \<open>Giving one slot back\<close>

definition vacate_row :: "gate_scope \<Rightarrow> string \<Rightarrow> db \<Rightarrow> db" where
  "vacate_row s k = gate_states_update (update_where
     (\<lambda>g. (gs_scope g, gs_key g) = (s, k) \<and> 0 < gs_active g) (\<lambda>g. g\<lparr>gs_active := gs_active g - 1\<rparr>))"

abbreviation gate_key :: "gate_row \<Rightarrow> gate_scope \<times> string" where
  "gate_key g \<equiv> (gs_scope g, gs_key g)"

lemma count_active_row:
  assumes "keys_ok gate_states gate_key d"
  shows "count_where (\<lambda>g. gate_key g = (s, k) \<and> 0 < gs_active g) (gate_states d)
    = (if 0 < active_count s k d then 1 else 0)"
  using count_where_select [of gate_key "gate_states d" "(s, k)" "\<lambda>g. 0 < gs_active g"] assms
  by (auto simp: keys_ok_def active_count_def gate_row_of_def split: option.splits)

lemma gate_row_vacate:
  "gate_row_of s' k' (vacate_row s k d) =
     map_option (\<lambda>g. if (s', k') = (s, k) \<and> 0 < gs_active g then g\<lparr>gs_active := gs_active g - 1\<rparr> else g)
       (gate_row_of s' k' d)"
  unfolding gate_row_of_def vacate_row_def
  by (auto simp: select_by_update_where dest!: select_by_SomeD
      intro: option.map_cong split: option.splits)

lemma active_count_vacate:
  "0 < active_count s k d \<Longrightarrow>
   active_count s' k' (vacate_row s k d)
     = active_count s' k' d - (if s' = s \<and> k' = k then 1 else 0)"
  by (auto simp: active_count_def gate_row_vacate split: option.splits)

lemma vacate_scope_run:
  assumes "keys_ok gate_states gate_key d"
  shows "vacate_scope code r d =
    (if 0 < active_count (rs_scope r) (rs_key r) d
     then Inr ((), vacate_row (rs_scope r) (rs_key r) d) else Inl (StorageError code))"
  using count_active_row [OF assms, of "rs_scope r" "rs_key r"]
  by (simp add: vacate_scope_def vacate_row_def sql_update_one_def sql_update_def tx_simps)

lemma keys_ok_vacate:
  "keys_ok gate_states gate_key d \<Longrightarrow> keys_ok gate_states gate_key (vacate_row s k d)"
  unfolding vacate_row_def by (rule gs.update_keys_ok) simp

text \<open>
  The loop over the scopes of a reservation: what it commits, and that it commits whenever the
  counters cover the scopes.
\<close>

lemma vacate_loop:
  "keys_ok gate_states gate_key d \<Longrightarrow>
   tx_wp (tx_for xs (vacate_scope code))
     (\<lambda>_ d'. keys_ok gate_states gate_key d'
        \<and> (\<forall>s k. active_count s k d' = active_count s k d - int (count_where (at_gate s k) xs))
        \<and> reservations d' = reservations d \<and> reserved_scopes d' = reserved_scopes d) d"
proof (induction xs arbitrary: d)
  case Nil
  then show ?case by (simp add: tx_wp count_where_Nil)
next
  case (Cons x xs)
  have part: "reservations (vacate_row s k d) = reservations d"
    "reserved_scopes (vacate_row s k d) = reserved_scopes d" for s k
    by (simp_all add: vacate_row_def)
  have "tx_wp (vacate_scope code x) (\<lambda>_ d1. 0 < active_count (rs_scope x) (rs_key x) d
      \<and> d1 = vacate_row (rs_scope x) (rs_key x) d) d"
    by (rule tx_wpI) (simp add: vacate_scope_run [OF Cons.prems] split: if_splits)
  then show ?case
    unfolding tx_for.simps tx_wp_bind
  proof (rule tx_wp_mono)
    fix a d1 assume d1: "0 < active_count (rs_scope x) (rs_key x) d
      \<and> d1 = vacate_row (rs_scope x) (rs_key x) d"
    with Cons.prems have "keys_ok gate_states gate_key d1" by (simp add: keys_ok_vacate)
    from Cons.IH [OF this]
    show "tx_wp (tx_for xs (vacate_scope code))
     (\<lambda>_ d'. keys_ok gate_states gate_key d'
        \<and> (\<forall>s k. active_count s k d' = active_count s k d - int (count_where (at_gate s k) (x # xs)))
        \<and> reservations d' = reservations d \<and> reserved_scopes d' = reserved_scopes d) d1"
      by (rule tx_wp_mono) (use d1 in \<open>auto simp: active_count_vacate count_at_gate_Cons part\<close>)
  qed
qed

lemma vacate_loop_succeeds:
  "keys_ok gate_states gate_key d \<Longrightarrow>
   (\<And>s k. int (count_where (at_gate s k) xs) \<le> active_count s k d) \<Longrightarrow>
   \<exists>d'. tx_for xs (vacate_scope code) d = Inr ((), d')"
proof (induction xs arbitrary: d)
  case Nil
  then show ?case by (simp add: tx_simps)
next
  case (Cons x xs)
  have pos: "0 < active_count (rs_scope x) (rs_key x) d"
    using Cons.prems(2) [of "rs_scope x" "rs_key x"] by (simp add: count_at_gate_Cons)
  have "int (count_where (at_gate s k) xs) \<le> active_count s k (vacate_row (rs_scope x) (rs_key x) d)"
    for s k
    using Cons.prems(2) [of s k] by (auto simp: active_count_vacate [OF pos] count_at_gate_Cons)
  from Cons.IH [OF keys_ok_vacate [OF Cons.prems(1)] this] pos show ?case
    by (simp add: tx_bind_apply vacate_scope_run [OF Cons.prems(1)])
qed

section \<open>Ending a reservation\<close>

definition end_reservation :: "string \<Rightarrow> reservation_state \<Rightarrow> db \<Rightarrow> db" where
  "end_reservation rid st = reservations_update
     (update_where (\<lambda>r. rv_id r = rid) (\<lambda>r. r\<lparr>rv_state := st\<rparr>))"

lemma active_res_end:
  "st \<noteq> R_Active \<Longrightarrow> active_res (end_reservation rid st d) q \<longleftrightarrow> active_res d q \<and> q \<noteq> rid"
  by (auto simp: active_res_def end_reservation_def list_ex_iff set_update_where)

lemma holders_end:
  assumes "st \<noteq> R_Active" and "active_res d rid"
  shows "int (holders s k (end_reservation rid st d)) =
    int (holders s k d) - int (count_where (at_gate s k) (scopes_of rid d))"
proof -
  have "int (count_where (\<lambda>x. at_gate s k x \<and> active_res (end_reservation rid st d) (rs_reservation x)) xs)
    = int (count_where (\<lambda>x. at_gate s k x \<and> active_res d (rs_reservation x)) xs)
      - int (count_where (at_gate s k) (filter (\<lambda>r. rs_reservation r = rid) xs))" for xs
    using assms by (induction xs) (auto simp: row_simps active_res_end)
  then show ?thesis by (simp add: holders_def scopes_of_def end_reservation_def)
qed

text \<open>Vacating the scopes of an active reservation and ending it keeps the counters exact.\<close>

lemma end_keeps_occupancy:
  assumes ok: "occupancy_ok d" and act: "active_res d rid" and st: "st \<noteq> R_Active"
    and d1: "keys_ok gate_states gate_key d1"
      "\<And>s k. active_count s k d1 = active_count s k d - int (count_where (at_gate s k) xs)"
      "reservations d1 = reservations d" "reserved_scopes d1 = reserved_scopes d"
    and xs: "\<And>s k. count_where (at_gate s k) xs = count_where (at_gate s k) (scopes_of rid d)"
  shows "counters_exact (end_reservation rid st d1)" "scopes_known (end_reservation rid st d1)"
    "\<forall>r \<in> set (reservations (end_reservation rid st d1)). eight_scopes (end_reservation rid st d1) (rv_id r)"
proof -
  have same: "active_res d1 = active_res d" "holders s k d1 = holders s k d"
    "scopes_of q d1 = scopes_of q d" for s k q
    using d1 by (auto simp: active_res_def holders_def scopes_of_def fun_eq_iff)
  have "active_count s k (end_reservation rid st d1) = active_count s k d1" for s k
    by (simp add: active_count_def gate_row_of_def end_reservation_def)
  then show "counters_exact (end_reservation rid st d1)"
    using ok act st by (simp add: counters_exact_def holders_end same d1(2) xs occupancy_ok_def)
  show "scopes_known (end_reservation rid st d1)"
    using ok d1 by (auto simp: occupancy_ok_def scopes_known_def end_reservation_def image_update_where)
  show "\<forall>r \<in> set (reservations (end_reservation rid st d1)). eight_scopes (end_reservation rid st d1) (rv_id r)"
    using ok d1 by (auto simp: occupancy_ok_def eight_scopes_def scopes_of_def end_reservation_def
        set_update_where)
qed

lemma active_resI: "r \<in> set (reservations d) \<Longrightarrow> rv_state r = R_Active \<Longrightarrow> active_res d (rv_id r)"
  by (auto simp: active_res_def list_ex_iff)

lemma occupancy_keys: "occupancy_ok d \<Longrightarrow> keys_ok gate_states gate_key d"
  by (simp add: occupancy_ok_def primary_keys_def)

lemma set_reservation_state_run: "set_reservation_state rid st d = Inr ((), end_reservation rid st d)"
  by (simp add: set_reservation_state_def end_reservation_def sql_update_def tx_simps)

lemma occupancy_frame:
  assumes "gate_part d' = gate_part d" and "history d d'" and "occupancy_ok d"
  shows "occupancy_ok d'"
  using assms(2,3) unfolding occupancy_ok_def gate_part_reads [OF assms(1)] history_def by blast

lemma gate_frame_wp:
  assumes "keeps gate_part m" and "tx_rel history m"
  shows "tx_wp m (\<lambda>_ d'. gate_part d' = gate_part d \<and> history d d') d"
  using assms by (intro tx_wp_conjI keeps_wp hist.wp_rel)

text \<open>
  The two statements at the heart of every release: the scopes are vacated and the
  reservation leaves the active state.
\<close>

lemma give_back:
  assumes ok: "occupancy_ok d" and act: "active_res d rid" and st: "st \<noteq> R_Active"
    and xs: "\<And>s k. count_where (at_gate s k) xs = count_where (at_gate s k) (scopes_of rid d)"
  shows "tx_wp (tx_block [tx_for xs (vacate_scope code), set_reservation_state rid st])
    (\<lambda>_ d'. occupancy_ok d' \<and> (\<forall>q. active_res d' q \<longleftrightarrow> active_res d q \<and> q \<noteq> rid)
       \<and> (\<forall>q \<in> set (reservations d). rv_id q \<noteq> rid \<longrightarrow> q \<in> set (reservations d'))) d"
  unfolding tx_wp_block
proof (rule tx_wp_mono)
  let ?P = "\<lambda>d1. keys_ok gate_states gate_key d1
      \<and> (\<forall>s k. active_count s k d1 = active_count s k d - int (count_where (at_gate s k) xs))
      \<and> reservations d1 = reservations d \<and> reserved_scopes d1 = reserved_scopes d"
  have "tx_rel history (tx_for xs (vacate_scope code))"
    by (intro hist.rel_for hist_vacate_scope)
  then show "tx_wp (tx_for xs (vacate_scope code)) (\<lambda>_ d1. history d d1 \<and> ?P d1) d"
    by (intro tx_wp_conjI [where P = "\<lambda>_. history d"] hist.wp_rel vacate_loop occupancy_keys [OF ok])
  fix a d1 assume d1: "history d d1 \<and> ?P d1"
  have "history d1 (end_reservation rid st d1)"
    using hist_set_reservation_state [OF st, of rid] set_reservation_state_run [of rid st d1]
    by (auto simp: tx_rel_def)
  then have "primary_keys (end_reservation rid st d1)"
    using d1 ok by (auto simp: history_def occupancy_ok_def)
  moreover have "active_res d1 = active_res d"
    using d1 by (simp add: active_res_def fun_eq_iff)
  ultimately show "tx_wp (set_reservation_state rid st)
    (\<lambda>_ d'. occupancy_ok d' \<and> (\<forall>q. active_res d' q \<longleftrightarrow> active_res d q \<and> q \<noteq> rid)
       \<and> (\<forall>q \<in> set (reservations d). rv_id q \<noteq> rid \<longrightarrow> q \<in> set (reservations d'))) d1"
    using d1 end_keeps_occupancy [OF ok act st, of d1 xs] xs
    by (auto simp: tx_wp_def set_reservation_state_run occupancy_ok_def active_res_end [OF st])
       (auto simp: end_reservation_def set_update_where)
qed

lemma reclaim_occupancy:
  assumes ok: "occupancy_ok d" and r: "r \<in> set (reservations d)" "rv_state r = R_Active"
  shows "tx_wp (reclaim_reservation code ev reason t r)
    (\<lambda>_ d'. occupancy_ok d' \<and> (\<forall>q. active_res d' q \<longleftrightarrow> active_res d q \<and> q \<noteq> rv_id r)
       \<and> (\<forall>q \<in> set (reservations d). rv_id q \<noteq> rv_id r \<longrightarrow> q \<in> set (reservations d'))) d"
proof -
  let ?Q = "\<lambda>d'. occupancy_ok d' \<and> (\<forall>q. active_res d' q \<longleftrightarrow> active_res d q \<and> q \<noteq> rv_id r)
       \<and> (\<forall>q \<in> set (reservations d). rv_id q \<noteq> rv_id r \<longrightarrow> q \<in> set (reservations d'))"
  have event: "tx_wp (append_gate_event lid rid sc ky ev t rs) (\<lambda>_. ?Q) d1" if q: "?Q d1" for d1 lid rid sc ky rs
  proof (rule tx_wp_mono [OF gate_frame_wp])
    show "keeps gate_part (append_gate_event lid rid sc ky ev t rs)"
      by (intro tx_frame) (simp add: gate_part_def)
    fix a d2 assume d2: "gate_part d2 = gate_part d1 \<and> history d1 d2"
    then show "?Q d2"
      using q occupancy_frame [of d2 d1] gate_part_reads(1,8) [OF conjunct1 [OF d2]] by auto
  qed (rule hist_events)
  show ?thesis
    unfolding reclaim_reservation_def tx_wp_bind tx_wp_gets tx_wp_block tx_wp_check
  proof (intro impI)
    show "tx_wp (tx_for (scopes_of (rv_id r) d) (vacate_scope code))
      (\<lambda>_. tx_wp (set_reservation_state (rv_id r) R_Recovered)
        (\<lambda>_. tx_wp (append_gate_event (rv_logical r) (Some (rv_id r)) None None ev t (Some reason))
          (\<lambda>_. ?Q))) d"
      using give_back [OF ok active_resI [OF r], of R_Recovered "scopes_of (rv_id r) d" code]
      unfolding tx_wp_block by (simp, elim tx_wp_mono event)
  qed
qed

text \<open>A loop over distinct active reservations reclaims exactly those.\<close>

lemma reclaim_loop:
  "occupancy_ok d \<Longrightarrow> distinct (map rv_id rs) \<Longrightarrow>
   (\<And>r. r \<in> set rs \<Longrightarrow> r \<in> set (reservations d) \<and> rv_state r = R_Active) \<Longrightarrow>
   tx_wp (tx_for rs (reclaim_reservation code ev reason t))
     (\<lambda>_ d'. occupancy_ok d' \<and> (\<forall>q. active_res d' q \<longleftrightarrow> active_res d q \<and> q \<notin> rv_id ` set rs)) d"
proof (induction rs arbitrary: d)
  case Nil
  then show ?case by (simp add: tx_wp)
next
  case (Cons r rs)
  have r: "r \<in> set (reservations d)" "rv_state r = R_Active" using Cons.prems(3) by auto
  show ?case
    unfolding tx_for.simps tx_wp_bind
  proof (rule tx_wp_mono [OF reclaim_occupancy [OF Cons.prems(1) r]], elim conjE)
    fix a d1
    assume d1: "occupancy_ok d1" "\<forall>q. active_res d1 q \<longleftrightarrow> active_res d q \<and> q \<noteq> rv_id r"
      "\<forall>q \<in> set (reservations d). rv_id q \<noteq> rv_id r \<longrightarrow> q \<in> set (reservations d1)"
    have "q \<in> set (reservations d1) \<and> rv_state q = R_Active" if q: "q \<in> set rs" for q
    proof -
      have "rv_id q \<noteq> rv_id r" using q Cons.prems(2) by (auto simp: image_iff)
      then show ?thesis using q Cons.prems(3) [of q] d1(3) by auto
    qed
    from Cons.IH [OF d1(1) _ this] Cons.prems(2)
    show "tx_wp (tx_for rs (reclaim_reservation code ev reason t))
      (\<lambda>_ d'. occupancy_ok d' \<and> (\<forall>q. active_res d' q \<longleftrightarrow> active_res d q \<and> q \<notin> rv_id ` set (r # rs))) d1"
      using d1(2) by (auto elim!: tx_wp_mono)
  qed
qed

lemma reclaim_selected:
  assumes "occupancy_ok d"
  shows "tx_wp (tx_for (filter (\<lambda>r. p r \<and> rv_state r = R_Active) (reservations d))
      (reclaim_reservation code ev reason t))
    (\<lambda>_ d'. occupancy_ok d' \<and> (\<forall>q. active_res d' q \<longrightarrow> active_res d q)
       \<and> (\<forall>r \<in> set (reservations d). p r \<longrightarrow> \<not> active_res d' (rv_id r))) d"
proof -
  have "distinct (map rv_id (reservations d))"
    using assms by (simp add: occupancy_ok_def primary_keys_def keys_ok_def)
  then have dist: "distinct (map rv_id (filter (\<lambda>r. p r \<and> rv_state r = R_Active) (reservations d)))"
    by (rule distinct_map_filter)
  show ?thesis
  proof (rule tx_wp_mono [OF reclaim_loop [OF assms dist]])
    fix a d' assume d': "occupancy_ok d' \<and> (\<forall>q. active_res d' q \<longleftrightarrow> active_res d q \<and>
        q \<notin> rv_id ` set (filter (\<lambda>r. p r \<and> rv_state r = R_Active) (reservations d)))"
    have "\<not> active_res d' (rv_id r)" if "r \<in> set (reservations d)" "p r" for r
    proof (cases "rv_state r = R_Active")
      case True
      then show ?thesis using that d' by auto
    next
      case False
      then have "\<not> active_res d (rv_id r)"
        using \<open>distinct (map rv_id (reservations d))\<close> that(1)
        by (auto simp: active_res_def list_ex_iff dest: distinct_key_eq)
      then show ?thesis using d' by blast
    qed
    then show "occupancy_ok d' \<and> (\<forall>q. active_res d' q \<longrightarrow> active_res d q)
       \<and> (\<forall>r \<in> set (reservations d). p r \<longrightarrow> \<not> active_res d' (rv_id r))"
      using d' by blast
  qed auto
qed

section \<open>Every operation keeps the counters exact\<close>

lemma preserves_gate_frame: "keeps gate_part m \<Longrightarrow> tx_rel history m \<Longrightarrow> preserves occupancy_ok m"
  unfolding preserves_wp
  by (auto intro: tx_wp_mono [OF gate_frame_wp] occupancy_frame)


lemma count_where_order_by: "count_where p (order_by key xs) = count_where p xs"
  by (simp add: count_where_def order_by_def filter_sort)

lemma cooldown_occupancy: "preserves occupancy_ok
    (sql_update gate_states_update p (later_cooldown deadline))"
proof -
  have row: "gate_row_of s k (gate_states_update (update_where p (later_cooldown deadline)) d)
      = map_option (\<lambda>g. if p g then later_cooldown deadline g else g) (gate_row_of s k d)" for s k d
    unfolding gate_row_of_def by (simp add: select_by_update_where later_cooldown_def)
  have act: "active_count s k (gate_states_update (update_where p (later_cooldown deadline)) d)
      = active_count s k d" for s k d
    unfolding active_count_def row by (auto simp: later_cooldown_def split: option.splits)
  have "history d (gate_states_update (update_where p (later_cooldown deadline)) d)" for d
    using hist_gate_states(1) [of "later_cooldown deadline" p]
    by (simp add: later_cooldown_def tx_rel_wp tx_wp)
  then show ?thesis
    unfolding preserves_wp
    by (auto simp: tx_wp occupancy_ok_def counters_exact_def act history_def)
       (auto simp: holders_def active_res_def scopes_known_def eight_scopes_def scopes_of_def)
qed

lemma finish_occupancy:
  assumes st: "st \<in> {A_Succeeded, A_Failed, A_Unknown}"
  shows "preserves occupancy_ok (finish_body res st retry e l t)"
proof -
  have st': "st \<notin> {A_Reserved, A_Started}" using st by auto
  have event: "preserves occupancy_ok (append_gate_event lid rid sc ky ev t rs)" for lid rid sc ky ev rs
    by (rule preserves_gate_frame) (auto intro!: tx_frame tx_rel_intros simp: gate_part_def)
  have attempt: "preserves occupancy_ok (finish_attempt aid st e)" for aid
    by (rule preserves_gate_frame [OF _ hist_finish_attempt [OF st']])
       (auto intro!: tx_frame simp: gate_part_def)
  have cool: "preserves occupancy_ok (record_cooldown res secs t xs)" for secs xs
    unfolding record_cooldown_def
    by (auto intro!: preserves_steps cooldown_occupancy event split: option.split)
  have rest: "preserves occupancy_ok (tx_block
      [finish_attempt (gr_attempt res) st e,
       case retry of None \<Rightarrow> tx_return () | Some secs \<Rightarrow> record_cooldown res secs t xs,
       append_gate_event (gr_logical res) (Some (gr_id res)) None None ev t rs])" for xs ev rs
    by (intro preserves_block attempt event) (auto intro: preserves_steps cool split: option.split)
  show ?thesis
    unfolding preserves_wp
  proof (intro allI impI)
    fix d assume ok: "occupancy_ok d"
    let ?xs = "order_by rs_scope (scopes_of (gr_id res) d)"
    have "active_res d (gr_id res)" if "reservation_current res l ?xs d"
      using that by (auto simp: reservation_current_def active_res_def list_ex_iff
          split: option.splits dest!: select_by_SomeD)
    then have main: "tx_wp (tx_for ?xs (vacate_scope code))
        (\<lambda>_. tx_wp (set_reservation_state (gr_id res) R_Released) (\<lambda>_. occupancy_ok)) d"
      if "reservation_current res l ?xs d" for code
      using give_back [OF ok, of "gr_id res" R_Released ?xs code] that
      unfolding tx_wp_block by (auto simp: count_where_order_by elim!: tx_wp_mono)
    show "tx_wp (finish_body res st retry e l t) (\<lambda>_. occupancy_ok) d"
      unfolding finish_body_def tx_wp_bind tx_wp_gets tx_wp_fenced tx_wp_block(2) [of _ "_ # _ # _ # _"]
        tx_wp_check
    proof (intro impI)
      assume "reservation_current res l ?xs d"
      note main = main [OF this]
      show "tx_wp (tx_for ?xs (vacate_scope ''gate_state_inconsistent''))
        (\<lambda>_. tx_wp (set_reservation_state (gr_id res) R_Released)
          (\<lambda>_. tx_wp (tx_block [finish_attempt (gr_attempt res) st e,
            case retry of None \<Rightarrow> tx_return () | Some secs \<Rightarrow> record_cooldown res secs t ?xs,
            append_gate_event (gr_logical res) (Some (gr_id res)) None None ''released'' t
              (Some (outcome_text st))]) (\<lambda>_. occupancy_ok))) d"
        by (rule tx_wp_mono [OF main], erule tx_wp_mono)
           (use rest in \<open>auto simp: preserves_wp simp del: tx_block.simps\<close>)
    qed
  qed
qed

lemma filter_active_comm:
  "filter (\<lambda>r. rv_state r = R_Active \<and> p r) rs = filter (\<lambda>r. p r \<and> rv_state r = R_Active) rs"
  by (rule filter_cong) auto

lemma reclaims_occupancy:
  "preserves occupancy_ok (release_gate_occupancy lid t reason)"
  "preserves occupancy_ok (recover_gate_reservations g t)"
  unfolding preserves_wp release_gate_occupancy_def recover_gate_reservations_def tx_wp_bind tx_wp_gets
    filter_active_comm
  by (intro allI impI; rule tx_wp_mono [OF reclaim_selected]; blast)+

text \<open>Taking a slot: the upsert of the counter.\<close>

definition occupied :: "gate_scope \<Rightarrow> string \<Rightarrow> int \<Rightarrow> db \<Rightarrow> db" where
  "occupied s k t d =
     (if (s, k) \<in> gate_key ` set (gate_states d)
      then gate_states_update (update_where (\<lambda>g. gate_key g = (s, k))
        (\<lambda>g. g\<lparr>gs_active := gs_active g + 1, gs_last_started := Some t\<rparr>)) d
      else gate_states_update (\<lambda>rs. rs @ [new_gate s k t]) d)"

lemma gate_row_updated:
  assumes "\<And>g. gate_key (f g) = gate_key g"
  shows "gate_row_of s' k' (gate_states_update (update_where (\<lambda>g. gate_key g = (s, k)) f) d)
    = (if (s', k') = (s, k) then map_option f (gate_row_of s' k' d) else gate_row_of s' k' d)"
proof (cases "gate_row_of s' k' d")
  case None
  then show ?thesis
    by (cases "s' = s \<and> k' = k")
       (auto simp: gate_row_of_def select_by_update_where [where key = gate_key, OF assms])
next
  case (Some g)
  then have "gate_key g = (s', k')" by (auto simp: gate_row_of_def dest!: select_by_SomeD)
  with Some show ?thesis
    by (auto simp: gate_row_of_def select_by_update_where [where key = gate_key, OF assms])
qed

lemma gate_row_occupied:
  "gate_row_of s' k' (occupied s k t d)
   = (if (s', k') = (s, k)
      then Some (case gate_row_of s k d of None \<Rightarrow> new_gate s k t
        | Some g \<Rightarrow> g\<lparr>gs_active := gs_active g + 1, gs_last_started := Some t\<rparr>)
      else gate_row_of s' k' d)"
proof (cases "(s, k) \<in> gate_key ` set (gate_states d)")
  case True
  then have "gate_row_of s k d \<noteq> None" by (simp add: gate_row_of_def select_by_None)
  then show ?thesis
    unfolding occupied_def if_P [OF True] by (subst gate_row_updated) auto
next
  case False
  then have "gate_row_of s k d = None" by (simp add: gate_row_of_def select_by_None)
  with False show ?thesis
    by (auto simp: occupied_def gate_row_of_def select_by_append select_by_Cons select_by_Nil new_gate_def
        split: option.splits)
qed

lemma occupied_reads:
  "active_count s' k' (occupied s k t d) = active_count s' k' d + (if s' = s \<and> k' = k then 1 else 0)"
  "last_started s' k' (occupied s k t d) = (if s' = s \<and> k' = k then Some t else last_started s' k' d)"
  "cooldown_until s' k' (occupied s k t d) = cooldown_until s' k' d"
  "reservations (occupied s k t d) = reservations d"
  "reserved_scopes (occupied s k t d) = reserved_scopes d"
  "gate_starts (occupied s k t d) = gate_starts d"
  by (auto simp: active_count_def last_started_def cooldown_until_def gate_row_occupied new_gate_def
      split: option.splits) (auto simp: occupied_def)

definition started_scope :: "string \<Rightarrow> int \<Rightarrow> gate_scope \<times> string \<Rightarrow> gate_start" where
  "started_scope rid t x =
     \<lparr>gt_reservation = rid, gt_scope = fst x, gt_key = snd x, gt_at = t\<rparr>"

definition scope_row :: "string \<Rightarrow> gate_scope \<times> string \<Rightarrow> reserved_scope" where
  "scope_row rid x = \<lparr>rs_reservation = rid, rs_scope = fst x, rs_key = snd x\<rparr>"

text \<open>What one round of the loop leaves, as seen by the gate queries.\<close>

lemma occupy_scope_wp:
  "tx_wp (occupy_scope rid lid t x) (\<lambda>_ d'.
     (\<forall>s k. active_count s k d' = active_count s k d + (if (s, k) = x then 1 else 0)
        \<and> last_started s k d' = (if (s, k) = x then Some t else last_started s k d))
     \<and> reservations d' = reservations d
     \<and> reserved_scopes d' = reserved_scopes d @ [scope_row rid x]
     \<and> gate_starts d' = gate_starts d @ [started_scope rid t x]) d"
proof -
  have *: "occupy_scope rid lid t x d = tx_bind (tx_modify (occupied (fst x) (snd x) t))
      (\<lambda>_. tx_block
        [insert_row reserved_scopes reserved_scopes_update (\<lambda>r. (rs_reservation r, rs_scope r)) (scope_row rid x),
         tx_modify (gate_starts_update (\<lambda>gs. gs @ [started_scope rid t x])),
         append_gate_event lid (Some rid) (Some (fst x)) (Some (snd x)) ''acquired'' t None]) d"
    by (simp add: occupy_scope_def occupied_def sql_upsert_def new_gate_def tx_simps scope_row_def
        started_scope_def cong: sum.case_cong)
  have reads: "active_count s k (reserved_scopes_update f d) = active_count s k d"
    "last_started s k (reserved_scopes_update f d) = last_started s k d"
    "active_count s k (gate_starts_update g d) = active_count s k d"
    "last_started s k (gate_starts_update g d) = last_started s k d"
    "active_count s k (gate_log_update h d) = active_count s k d"
    "last_started s k (gate_log_update h d) = last_started s k d" for s k f g h d
    by (simp_all add: active_count_def last_started_def gate_row_of_def)
  show ?thesis
    unfolding tx_wp_def *
    unfolding tx_wp_def [symmetric]
    by (cases x) (auto simp: tx_wp_bind tx_wp_block tx_wp_insert_row
        tx_wp_modify append_gate_event_def logical_exists_def tx_wp_check reads occupied_reads
        simp del: tx_block.simps)
qed

lemma occupy_loop_wp:
  "distinct (map fst xs) \<Longrightarrow>
   tx_wp (tx_for xs (occupy_scope rid lid t)) (\<lambda>_ d'.
     (\<forall>s k. active_count s k d' = active_count s k d + (if (s, k) \<in> set xs then 1 else 0)
        \<and> last_started s k d' = (if (s, k) \<in> set xs then Some t else last_started s k d))
     \<and> reservations d' = reservations d
     \<and> reserved_scopes d' = reserved_scopes d @ map (scope_row rid) xs
     \<and> gate_starts d' = gate_starts d @ map (started_scope rid t) xs) d"
proof (induction xs arbitrary: d)
  case Nil
  then show ?case by (simp add: tx_wp)
next
  case (Cons x xs)
  have x: "x \<notin> set xs" using Cons.prems by (auto simp: image_iff)
  have "distinct (map fst xs)" using Cons.prems by simp
  note ih = Cons.IH [OF this]
  show ?case
    unfolding tx_for.simps tx_wp_bind
  proof (rule tx_wp_mono [OF occupy_scope_wp], goal_cases)
    case (1 u d1)
    then show ?case
      by (intro tx_wp_mono [OF ih]) (use x in \<open>cases x; auto\<close>)
  qed
qed

text \<open>Everything the gate queries can see of a successful acquisition.\<close>

definition gates_taken ::
  "string \<Rightarrow> physical_attempt \<Rightarrow> gate_keys \<Rightarrow> runtime_lease \<Rightarrow> int \<Rightarrow> db \<Rightarrow> db \<Rightarrow> bool" where
  "gates_taken rid a ks l t d d' \<longleftrightarrow>
     (\<forall>s k. active_count s k d' = active_count s k d + (if (s, k) \<in> set (ordered ks) then 1 else 0)
        \<and> last_started s k d' = (if (s, k) \<in> set (ordered ks) then Some t else last_started s k d))
     \<and> rid \<notin> rv_id ` set (reservations d)
     \<and> reservations d' = reservations d @
         [\<lparr>rv_id = rid, rv_attempt = pa_id a, rv_logical = pa_logical a,
           rv_generation = rl_generation l, rv_acquired_at = t, rv_state = R_Active\<rparr>]
     \<and> reserved_scopes d' = reserved_scopes d @ map (scope_row rid) (ordered ks)
     \<and> gate_starts d' = gate_starts d @ map (started_scope rid t) (ordered ks)"

lemma take_gates_wp: "tx_wp (take_gates rid a ks l t) (\<lambda>_. gates_taken rid a ks l t d) d"
  unfolding take_gates_def tx_wp_block
proof (rule tx_wp_mono [OF keeps_wp [where f = "\<lambda>d. (gate_part d, gate_starts d)"]])
  show "keeps (\<lambda>d. (gate_part d, gate_starts d)) (attach_attempt a)"
    by (auto intro!: tx_frame simp: gate_part_def)
  fix u d1 assume d1: "(gate_part d1, gate_starts d1) = (gate_part d, gate_starts d)"
  have reads: "active_count s k (reservations_update f d0) = active_count s k d0"
    "last_started s k (reservations_update f d0) = last_started s k d0" for s k f d0
    by (simp_all add: active_count_def last_started_def gate_row_of_def)
  have same: "active_count s k d1 = active_count s k d" "last_started s k d1 = last_started s k d"
    "reservations d1 = reservations d" "reserved_scopes d1 = reserved_scopes d"
    "gate_starts d1 = gate_starts d" for s k
    using d1 by (auto simp: gate_part_def active_count_def last_started_def gate_row_of_def)
  show "tx_wp (insert_reservation \<lparr>rv_id = rid, rv_attempt = pa_id a, rv_logical = pa_logical a,
      rv_generation = rl_generation l, rv_acquired_at = t, rv_state = R_Active\<rparr>)
    (\<lambda>_. tx_wp (tx_for (ordered ks) (occupy_scope rid (pa_logical a) t))
      (\<lambda>_. gates_taken rid a ks l t d)) d1"
    unfolding insert_reservation_def tx_wp_block logical_exists_def tx_wp_check tx_wp_insert_row
    by (intro impI tx_wp_mono [OF occupy_loop_wp [OF distinct_ordered]])
       (auto simp: gates_taken_def reads same)
qed

lemma gates_taken_occupancy:
  assumes ok: "occupancy_ok d" and taken: "gates_taken rid a ks l t d d'" and "primary_keys d'"
  shows "occupancy_ok d'"
proof -
  let ?rows = "map (scope_row rid) (ordered ks)"
  have res: "reservations d' = reservations d @
      [\<lparr>rv_id = rid, rv_attempt = pa_id a, rv_logical = pa_logical a, rv_generation = rl_generation l,
        rv_acquired_at = t, rv_state = R_Active\<rparr>]"
    and sco: "reserved_scopes d' = reserved_scopes d @ ?rows"
    and fresh: "rid \<notin> rv_id ` set (reservations d)"
    using taken by (simp_all add: gates_taken_def)
  have unused: "rs_reservation x \<noteq> rid" if "x \<in> set (reserved_scopes d)" for x
    using ok fresh that by (force simp: occupancy_ok_def scopes_known_def)
  have act: "active_res d' q \<longleftrightarrow> active_res d q \<or> q = rid" for q
    by (auto simp: active_res_def res)
  have "distinct (ordered ks)" using distinct_ordered [of ks] by (simp add: distinct_map)
  have new: "count_where (\<lambda>x. at_gate s k x \<and> active_res d' (rs_reservation x)) ?rows
      = (if (s, k) \<in> set (ordered ks) then 1 else 0)" for s k
  proof -
    have "count_where (\<lambda>x. at_gate s k x \<and> active_res d' (rs_reservation x)) (map (scope_row rid) xs)
        = count_where (\<lambda>x. x = (s, k)) xs" for xs
      by (induction xs) (auto simp: row_simps at_gate_def scope_row_def act)
    moreover have "distinct xs \<Longrightarrow> count_where (\<lambda>x. x = (s, k)) xs = (if (s, k) \<in> set xs then 1 else 0)" for xs
      by (induction xs) (auto simp: row_simps)
    ultimately show ?thesis using \<open>distinct (ordered ks)\<close> by simp
  qed
  have old: "count_where (\<lambda>x. at_gate s k x \<and> active_res d' (rs_reservation x)) (reserved_scopes d)
      = holders s k d" for s k
    unfolding holders_def by (rule count_where_cong) (auto simp: act dest: unused)
  have "counters_exact d'"
    using ok taken by (simp add: counters_exact_def occupancy_ok_def gates_taken_def holders_def
        [of _ _ d'] sco count_where_append old new)
  moreover have "scopes_known d'"
    using ok by (auto simp: scopes_known_def occupancy_ok_def sco res scope_row_def)
  moreover have "eight_scopes d' (rv_id r)" if "r \<in> set (reservations d')" for r
  proof (cases "rv_id r = rid")
    case True
    have "scopes_of rid d = []" using unused by (auto simp: scopes_of_def filter_empty_conv)
    moreover have "filter (\<lambda>r. rs_reservation r = rid) ?rows = ?rows"
      by (auto simp: filter_id_conv scope_row_def)
    ultimately show ?thesis by (simp add: True eight_scopes_def scopes_of_def sco)
  next
    case False
    moreover have "filter (\<lambda>x. rs_reservation x = rv_id r) ?rows = []"
      using False by (auto simp: filter_empty_conv scope_row_def)
    ultimately show ?thesis
      using ok that by (auto simp: occupancy_ok_def eight_scopes_def scopes_of_def sco res)
  qed
  ultimately show ?thesis using assms(3) by (simp add: occupancy_ok_def)
qed

lemma acquire_occupancy: "preserves occupancy_ok (acquire_gates_body rid a ks p l t)"
proof -
  have "preserves occupancy_ok (take_gates rid a ks l t)"
    unfolding preserves_wp
  proof (intro allI impI)
    fix d assume ok: "occupancy_ok d"
    have "tx_wp (take_gates rid a ks l t) (\<lambda>_ d'. history d d' \<and> gates_taken rid a ks l t d d') d"
      by (intro tx_wp_conjI hist.wp_rel hist_take_gates take_gates_wp)
    then show "tx_wp (take_gates rid a ks l t) (\<lambda>_. occupancy_ok) d"
    proof (rule tx_wp_mono, elim conjE)
      fix d' assume "history d d'" and taken: "gates_taken rid a ks l t d d'"
      moreover have "primary_keys d" using ok by (simp add: occupancy_ok_def)
      ultimately have "primary_keys d'" by (simp add: history_def)
      with ok taken show "occupancy_ok d'" by (rule gates_taken_occupancy)
    qed
  qed
  moreover have "preserves occupancy_ok (record_block lid t b)" for lid b
    by (rule preserves_gate_frame)
       (auto intro!: tx_frame tx_rel_intros simp: record_block_def gate_part_def split: prod.split)
  moreover have "preserves occupancy_ok (tx_block [fenced l t, gate_request_active lid])" for lid
    by (rule preserves_gate_frame)
       (auto intro!: tx_frame hist.rel_steps tx_rel_intros simp: gate_part_def gate_request_active_def)
  ultimately show ?thesis
    unfolding acquire_gates_body_def by (intro preserves_steps) (auto split: option.split intro: preserves_steps)
qed


lemma preserves_keys_frame:
  "keeps gate_part m \<Longrightarrow> preserves primary_keys m \<Longrightarrow> preserves occupancy_ok m"
  unfolding preserves_wp
proof (intro allI impI)
  fix d assume m: "keeps gate_part m" "\<forall>d. primary_keys d \<longrightarrow> tx_wp m (\<lambda>_. primary_keys) d"
    and ok: "occupancy_ok d"
  have "tx_wp m (\<lambda>_ d'. gate_part d' = gate_part d \<and> primary_keys d') d"
    using m ok by (intro tx_wp_conjI keeps_wp) (auto simp: occupancy_ok_def)
  then show "tx_wp m (\<lambda>_. occupancy_ok) d"
  proof (rule tx_wp_mono, elim conjE)
    fix d' assume same: "gate_part d' = gate_part d" and "primary_keys d'"
    with ok show "occupancy_ok d'" unfolding occupancy_ok_def gate_part_reads [OF same] by simp
  qed
qed

lemma attempt_state_occupancy:
  "preserves occupancy_ok (sql_update physical_attempts_update p (\<lambda>a. a\<lparr>pa_state := st\<rparr>))"
proof (rule preserves_keys_frame)
  show "keeps gate_part (sql_update physical_attempts_update p (\<lambda>a. a\<lparr>pa_state := st\<rparr>))"
    by (auto intro!: tx_frame simp: gate_part_def)
  show "preserves primary_keys (sql_update physical_attempts_update p (\<lambda>a. a\<lparr>pa_state := st\<rparr>))"
    by (auto simp: preserves_wp tx_wp primary_keys_def keys_ok_def row_simps)
qed


lemma gate_frame_writes:
  "preserves occupancy_ok (cancel_logical q t reason oc)"
  "preserves occupancy_ok (cancel_consumer q)"
  "preserves occupancy_ok (append_admission_event q ev t rs)"
  "preserves occupancy_ok (set_flight_terminal fp)"
  "preserves occupancy_ok (fenced l t)"
  "preserves occupancy_ok verify_schema"
  by (rule preserves_gate_frame; intro tx_frame tx_rel_intros hist.rel_steps; simp add: gate_part_def)+

lemma cancel_started_occupancy: "preserves occupancy_ok (cancel_started_flight fp t reason)"
proof -
  have each: "preserves occupancy_ok (cancel_in_flight t reason c)" for c
    unfolding cancel_in_flight_def by (intro preserves_block gate_frame_writes)
  show ?thesis
    unfolding cancel_started_flight_def
    by (intro preserves_steps preserves_block each reclaims_occupancy attempt_state_occupancy
        gate_frame_writes)
qed


lemma cancel_occupancy: "preserves occupancy_ok (cancel_body lid reason l t)"
proof -
  have abandon: "preserves occupancy_ok (abandon_reserved lid aid t)" for aid
    unfolding abandon_reserved_def
    by (intro preserves_block reclaims_occupancy attempt_state_occupancy)
  have hand: "preserves occupancy_ok (hand_over lid fp t reason)" for fp
    by (rule preserves_gate_frame [OF _ hist_hand_over], unfold hand_over_def promote_def)
       (intro tx_frame; simp add: gate_part_def)
  have leader: "preserves occupancy_ok (cancel_leader lid fp t reason)" for fp
    unfolding cancel_leader_def Let_def
    by (intro preserves_steps cancel_started_occupancy abandon hand)
  show ?thesis
    unfolding cancel_body_def cancel_follower_def
    by (intro preserves_steps preserves_block gate_frame_writes leader)
qed

lemma settle_occupancy:
  "preserves occupancy_ok (settle g t)" "preserves occupancy_ok (take_over owner g t e)"
proof -
  have "preserves occupancy_ok (validate_recovery_state g)"
    by (rule preserves_gate_frame; unfold validate_recovery_state_def; intro tx_frame hist.rel_block)
       (auto intro: hist.rel_check)
  moreover have "preserves occupancy_ok (requeue_claimed t)"
    "preserves occupancy_ok (settle_requests g t)"
    "preserves occupancy_ok (reconcile_terminal_flights t None)"
    by (rule preserves_gate_frame; intro tx_frame tx_rel_intros; simp add: gate_part_def)+
  moreover have "preserves occupancy_ok (settle_attempts g)"
    by (rule preserves_gate_frame [OF _ hist_settle_attempts]) (intro tx_frame, simp add: gate_part_def)
  ultimately show "preserves occupancy_ok (settle g t)"
    unfolding settle_def by (intro preserves_block reclaims_occupancy)
  show "preserves occupancy_ok (take_over owner g t e)"
    by (rule preserves_gate_frame [OF _ hist_take_over]) (intro tx_frame, simp add: gate_part_def)
qed

lemma recover_occupancy: "preserves occupancy_ok (recover_body owner t e)"
  unfolding recover_body_def
  by (intro preserves_steps preserves_block gate_frame_writes settle_occupancy)

interpretation occ: runtime_invariant any_op occupancy_ok
proof unfold_locales
  show "occupancy_ok create_schema"
    using primary_keys_create
    by (simp add: occupancy_ok_def counters_exact_def scopes_known_def create_schema_def
        active_count_def gate_row_of_def holders_def row_simps)
  have frame: "keeps gate_part m \<Longrightarrow> tx_rel history m \<Longrightarrow> preserves occupancy_ok m" for m :: "(db, unit) tx"
    by (rule preserves_gate_frame)
  show "occupancy_ok (apply_op op d)" if "occupancy_ok d" for op d
    by (rule op_preserves [where I = occupancy_ok and allowed = any_op];
        ((rule cancel_occupancy acquire_occupancy recover_occupancy finish_occupancy that TrueI; assumption?)
         | (rule preserves_gate_frame; (rule hist_bodies; assumption?)?; intro tx_frame; simp add: gate_part_def)))
qed

end
