(* ===== verification/Fencing.thy ===== *)
theory Fencing
  imports Examples
begin

text \<open>
  Fencing: an operation called with a lease that is not the current one changes nothing and
  raises, and once a later generation exists the earlier lease stays inert for ever, whatever
  happens in between.
\<close>

section \<open>The lease and the error of a call\<close>

definition error_of :: "'s \<times> (exn + 'a) \<Rightarrow> exn option" where
  "error_of r = (case snd r of Inl e \<Rightarrow> Some e | Inr _ \<Rightarrow> None)"

primrec op_error :: "runtime_op \<Rightarrow> db \<Rightarrow> exn option" where
  "op_error (Add_Logical r) d = error_of (add_logical_request r d)"
| "op_error (Enqueue r rd l now p) d = error_of (enqueue_logical_request r rd l now p d)"
| "op_error (Admit r rd c l now p) d = error_of (admit_logical_request r rd c l now p d)"
| "op_error (Cancel lid reason l now) d = error_of (cancel_admitted_request lid reason l now d)"
| "op_error (Claim rd l now) d = error_of (claim_next_queued rd l now d)"
| "op_error (Acquire_Gates rid a ks p l now) d = error_of (acquire_gates rid a ks p l now d)"
| "op_error (Release_Gates res oc l now e) d = error_of (release_gates res oc l now e d)"
| "op_error (Retry_After res s l now) d = error_of (record_retry_after res s l now d)"
| "op_error (Unknown_Outcome res l now) d = error_of (record_unknown_outcome res l now d)"
| "op_error (Add_Attempt a) d = error_of (add_physical_attempt a d)"
| "op_error (Reserve_Next aid lid l now) d = error_of (reserve_next_physical_attempt aid lid l now d)"
| "op_error (Discard aid l now) d = error_of (discard_reserved_attempt aid l now d)"
| "op_error (Mark_Started aid l now) d = error_of (mark_physical_attempt_started aid l now d)"
| "op_error (Complete r l now) d = error_of (complete_logical_request r l now d)"
| "op_error (Finalize r l now) d = error_of (finalize_logical_request r l now d)"
| "op_error (Acquire_Lease owner now p) d = error_of (acquire_lease owner now p d)"
| "op_error (Recover owner now p) d = error_of (recover_expired_lease owner now p d)"
| "op_error (Heartbeat l now p) d = error_of (heartbeat_lease l now p d)"
| "op_error (Release_Lease l now) d = error_of (release_lease l now d)"
| "op_error (Begin_Publication i l now) d = error_of (begin_raw_publication i l now d)"
| "op_error (Commit_Publication r l now) d = error_of (commit_raw_publication r l now d)"
| "op_error (Fail_Publication pid l now) d = error_of (fail_raw_publication pid l now d)"
| "op_error (Mark_Publication pid l now) d =
     error_of (mark_raw_publication_reconciliation_required pid l now d)"

text \<open>The lease and clock of the operations that run under the fence.\<close>

primrec op_fence :: "runtime_op \<Rightarrow> (runtime_lease \<times> py_datetime) option" where
  "op_fence (Add_Logical r) = None"
| "op_fence (Enqueue r rd l now p) = Some (l, now)"
| "op_fence (Admit r rd c l now p) = Some (l, now)"
| "op_fence (Cancel lid reason l now) = Some (l, now)"
| "op_fence (Claim rd l now) = Some (l, now)"
| "op_fence (Acquire_Gates rid a ks p l now) = Some (l, now)"
| "op_fence (Release_Gates res oc l now e) = Some (l, now)"
| "op_fence (Retry_After res s l now) = Some (l, now)"
| "op_fence (Unknown_Outcome res l now) = Some (l, now)"
| "op_fence (Add_Attempt a) = None"
| "op_fence (Reserve_Next aid lid l now) = Some (l, now)"
| "op_fence (Discard aid l now) = Some (l, now)"
| "op_fence (Mark_Started aid l now) = Some (l, now)"
| "op_fence (Complete r l now) = Some (l, now)"
| "op_fence (Finalize r l now) = Some (l, now)"
| "op_fence (Acquire_Lease owner now p) = None"
| "op_fence (Recover owner now p) = None"
| "op_fence (Heartbeat l now p) = None"
| "op_fence (Release_Lease l now) = None"
| "op_fence (Begin_Publication i l now) = Some (l, now)"
| "op_fence (Commit_Publication r l now) = Some (l, now)"
| "op_fence (Fail_Publication pid l now) = Some (l, now)"
| "op_fence (Mark_Publication pid l now) = Some (l, now)"

text \<open>Every operation that presents a lease: the fenced ones, heartbeat and release.\<close>

definition op_lease :: "runtime_op \<Rightarrow> runtime_lease option" where
  "op_lease op =
     (case op of Heartbeat l now p \<Rightarrow> Some l | Release_Lease l now \<Rightarrow> Some l
      | _ \<Rightarrow> map_option fst (op_fence op))"

section \<open>A failed fence stops the operation\<close>

definition refused :: "db \<Rightarrow> db \<times> (exn + 'a) \<Rightarrow> bool" where
  "refused d r \<longleftrightarrow> fst r = d \<and> error_of r \<noteq> None"

text \<open>The contract of a fenced transaction body, interpreted below on all of them.\<close>

locale fenced_body =
  fixes body :: "runtime_lease \<Rightarrow> int \<Rightarrow> (db, 'a) tx"
  assumes stops: "fenced l t d = Inl e \<Longrightarrow> body l t d = Inl e"
begin

lemma refused_run:
  assumes "fence_error l t d \<noteq> None"
  shows "refused d (run_tx w (body l t) d)"
proof -
  obtain e where "fenced l t d = Inl e"
    using assms by (cases "fenced l t d")
      (auto simp: fenced_def assert_fence_def tx_simps split: sum.splits option.splits
        dest: verify_schema_same)
  then show ?thesis by (simp add: refused_def error_of_def run_tx_def stops)
qed

lemma refused_call:
  "(\<And>t. now = utc t \<Longrightarrow> fence_error l t d \<noteq> None) \<Longrightarrow>
   refused d (with_clock before now after (\<lambda>t. run_tx w (body l t)) d)"
  by (auto simp: with_clock_def refused_run validate_utc_Inr split: sum.splits)
     (simp_all add: refused_def error_of_def)

lemma refused_call_after:
  "(\<And>t. now = utc t \<Longrightarrow> fence_error l t d \<noteq> None) \<Longrightarrow>
   refused d (with_clock before now after (\<lambda>t d. after_commit (f t) (run_tx w (body l t) d)) d)"
  using refused_run
  by (fastforce simp: with_clock_def validate_utc_Inr refused_def error_of_def after_commit_def
      split: sum.splits)

end

interpretation enqueue: fenced_body "\<lambda>l t. enqueue_body r rd l t p" for r rd p
  by unfold_locales (simp add: enqueue_body_def tx_simps del: tx_block.simps)

interpretation claim: fenced_body "\<lambda>l t. claim_body rd l t" for rd
  by unfold_locales (simp add: claim_body_def tx_simps)

interpretation admit: fenced_body "\<lambda>l t. admit_body r rd c l t p" for r rd c p
  by unfold_locales (simp add: admit_body_def tx_simps del: tx_block.simps)

interpretation cancel: fenced_body "\<lambda>l t. cancel_body lid reason l t" for lid reason
  by unfold_locales (simp add: cancel_body_def tx_simps)

interpretation acquire: fenced_body "\<lambda>l t. acquire_gates_body rid a ks p l t" for rid a ks p
  by unfold_locales (simp add: acquire_gates_body_def tx_simps del: tx_block.simps)

interpretation finish: fenced_body "\<lambda>l t. finish_body res st retry e l t" for res st retry e
  by unfold_locales (simp add: finish_body_def tx_simps)

interpretation reserve: fenced_body "\<lambda>l t. reserve_body aid lid l t" for aid lid
  by unfold_locales (simp add: reserve_body_def tx_simps del: tx_block.simps)

interpretation discard: fenced_body "\<lambda>l t. discard_body aid l t" for aid
  by unfold_locales (simp add: discard_body_def tx_simps del: tx_block.simps)

interpretation start: fenced_body "\<lambda>l t. start_body aid l t" for aid
  by unfold_locales (simp add: start_body_def tx_simps del: tx_block.simps)

interpretation complete: fenced_body "\<lambda>l t. complete_body r l t" for r
  by unfold_locales (simp add: complete_body_def tx_simps)

interpretation finalize: fenced_body "\<lambda>l t. finalize_body r l t" for r
  by unfold_locales (simp add: finalize_body_def tx_simps del: tx_block.simps)

interpretation publish: fenced_body "\<lambda>l t. begin_publication_body i l t" for i
  by unfold_locales (simp add: begin_publication_body_def tx_simps del: tx_block.simps)

interpretation commit: fenced_body "\<lambda>l t. commit_publication_body r l t" for r
  by unfold_locales (simp add: commit_publication_body_def tx_simps del: tx_block.simps)

interpretation transition: fenced_body "\<lambda>l t. transition_publication_body pid target sources l t"
  for pid target sources
  by unfold_locales (simp add: transition_publication_body_def tx_simps del: tx_block.simps)

lemma refused_raise [simp]: "refused d (d, Inl e)"
  by (simp add: refused_def error_of_def)

lemma refused_acquire_gates:
  assumes "\<And>t. now = utc t \<Longrightarrow> fence_error l t d \<noteq> None"
  shows "refused d (acquire_gates rid a ks p l now d)"
  using acquire.refused_run [of l _ d] assms
  by (fastforce simp: acquire_gates_def with_clock_def validate_utc_Inr refused_def error_of_def
      after_commit_def split: sum.splits)

lemma refused_calls:
  assumes "\<And>t. now = utc t \<Longrightarrow> fence_error l t d \<noteq> None"
  shows "refused d (enqueue_logical_request r rd l now p d)"
    and "refused d (admit_logical_request r rd cp l now p d)"
    and "refused d (cancel_admitted_request lid reason l now d)"
    and "refused d (claim_next_queued rd l now d)"
    and "refused d (finish_gate_reservation res st retry e l now d)"
    and "refused d (reserve_next_physical_attempt aid lid l now d)"
    and "refused d (discard_reserved_attempt aid l now d)"
    and "refused d (mark_physical_attempt_started aid l now d)"
    and "refused d (complete_logical_request res' l now d)"
    and "refused d (finalize_logical_request res' l now d)"
    and "refused d (begin_raw_publication i l now d)"
    and "refused d (commit_raw_publication ref l now d)"
    and "refused d (transition_raw_publication pid target sources l now d)"
  unfolding enqueue_logical_request_def admit_logical_request_def cancel_admitted_request_def
    claim_next_queued_def finish_gate_reservation_def reserve_next_physical_attempt_def
    discard_reserved_attempt_def mark_physical_attempt_started_def complete_logical_request_def
    finalize_logical_request_def begin_raw_publication_def commit_raw_publication_def
    transition_raw_publication_def
  using assms
  by (intro enqueue.refused_call_after admit.refused_call_after cancel.refused_call
      claim.refused_call finish.refused_call reserve.refused_call discard.refused_call
      start.refused_call complete.refused_call finalize.refused_call publish.refused_call
      commit.refused_call transition.refused_call; assumption)+

lemma refused_gate_calls:
  assumes "\<And>t. now = utc t \<Longrightarrow> fence_error l t d \<noteq> None"
  shows "refused d (release_gates res oc l now eligible d)"
    and "refused d (record_retry_after res s l now d)"
    and "refused d (record_unknown_outcome res l now d)"
  using refused_calls(5) [OF assms]
  by (auto simp: release_gates_def record_retry_after_def record_unknown_outcome_def Let_def
      split: option.split)

lemma refused_op:
  assumes "op_fence op = Some (l, now)"
    and "\<And>t. now = utc t \<Longrightarrow> fence_error l t d \<noteq> None"
  shows "apply_op op d = d \<and> op_error op d \<noteq> None"
proof -
  note calls = refused_calls [OF assms(2)] refused_gate_calls [OF assms(2)]
    refused_acquire_gates [OF assms(2)]
  show ?thesis
    using assms(1) calls [unfolded refused_def]
    by (cases op) (simp_all add: fail_raw_publication_def
        mark_raw_publication_reconciliation_required_def)
qed

section \<open>Stale leases\<close>

lemma not_current_fence: "\<not> current_lease l d \<Longrightarrow> fence_error l t d \<noteq> None"
  by (auto simp: current_lease_def fence_error_None split: option.splits)

lemma refused_update_lease:
  "\<not> current_lease l d \<Longrightarrow> refused d (run_tx w (update_lease l f) d)"
  by (auto simp: refused_def error_of_def run_tx_def update_lease_def tx_simps
      dest: verify_schema_same split: sum.splits if_splits)

lemma stale_update_lease:
  assumes "\<not> current_lease l d"
  shows "fst (run_tx w (update_lease l f) d) = d" and "snd (run_tx w (update_lease l f) d) \<noteq> Inr u"
  using refused_update_lease [OF assms, of w f]
  by (auto simp: refused_def error_of_def split: sum.splits)

lemma refused_heartbeat: "\<not> current_lease l d \<Longrightarrow> refused d (heartbeat_lease l now p d)"
  by (auto simp: heartbeat_lease_def with_clock_def with_expiry_def refused_def error_of_def
      after_commit_def stale_update_lease split: sum.splits option.splits)

lemma refused_release: "\<not> current_lease l d \<Longrightarrow> refused d (release_lease l now d)"
  by (auto simp: release_lease_def with_clock_def refused_def error_of_def stale_update_lease
      split: sum.splits option.splits)

lemma stale_call:
  assumes "op_lease op = Some l" and "\<not> current_lease l d"
  shows "apply_op op d = d \<and> op_error op d \<noteq> None"
proof -
  consider now p where "op = Heartbeat l now p" | now where "op = Release_Lease l now"
    | now where "op_fence op = Some (l, now)"
    using assms(1) by (cases op) (auto simp: op_lease_def)
  then show ?thesis
  proof cases
    case 3
    then show ?thesis by (rule refused_op) (rule not_current_fence [OF assms(2)])
  qed (use refused_heartbeat [OF assms(2)] refused_release [OF assms(2)] in \<open>auto simp: refused_def\<close>)
qed

text \<open>C2: an operation presented with a lease that is not the current one (wrong owner,
  wrong generation, released, or no lease at all) raises and leaves every table unchanged.\<close>

theorem stale_lease_is_inert:
  "op_lease op = Some l \<Longrightarrow> \<not> current_lease l d \<Longrightarrow> apply_op op d = d \<and> op_error op d \<noteq> None"
  by (rule stale_call)

theorem stale_lease_is_inert_witness:
  "apply_op (Mark_Started ''att-1'' (lease_view ''owner-b'' 2 noon (noon + 1)) (at_second 5)) sent_db
     = sent_db"
  by (rule stale_lease_is_inert
        [where l = "lease_view ''owner-b'' 2 noon (noon + 1)", THEN conjunct1])
     (simp_all add: op_lease_def current_lease_def sent_db_def claimed_db_def admitted_db_def
       leased_db_def granted_def lease_view_def)

text \<open>C3: outside the interval from the last heartbeat to the expiry, even the current lease
  opens no fenced operation.\<close>

theorem expired_lease_is_inert:
  assumes "op_fence op = Some (l, utc t)" and "lease_slot d = Some r"
    and "t < le_heartbeat_at r \<or> le_expires_at r \<le> t"
  shows "apply_op op d = d \<and> op_error op d \<noteq> None"
  by (rule refused_op [OF assms(1)]) (use assms(2,3) in \<open>auto simp: fence_error_None\<close>)

theorem expired_lease_is_inert_witness:
  "apply_op (Mark_Started ''att-1'' sample_lease (at_second 30)) sent_db = sent_db"
  by (rule expired_lease_is_inert [where t = "noon + 30000000"
        and r = "granted ''owner-a'' 1 noon (noon + 30000000)", THEN conjunct1])
     (simp_all add: at_second_def sent_db_def claimed_db_def admitted_db_def leased_db_def granted_def)

section \<open>Generations\<close>

text \<open>The lease an operation hands out, if it hands one out.\<close>

definition granted_by :: "runtime_op \<Rightarrow> db \<Rightarrow> runtime_lease option" where
  "granted_by op d =
     (case op of
        Acquire_Lease owner now p \<Rightarrow>
          (case snd (acquire_lease owner now p d) of Inl _ \<Rightarrow> None | Inr l \<Rightarrow> Some l)
      | Recover owner now p \<Rightarrow>
          (case snd (recover_expired_lease owner now p d) of Inl _ \<Rightarrow> None | Inr l \<Rightarrow> Some l)
      | _ \<Rightarrow> None)"

text \<open>The highest generation ever persisted; 0 before the first lease.\<close>

definition generation_of :: "db \<Rightarrow> int" where
  "generation_of d = (case lease_slot d of None \<Rightarrow> 0 | Some r \<Rightarrow> le_generation r)"

definition positive_generation :: "db \<Rightarrow> bool" where
  "positive_generation d \<longleftrightarrow> (case lease_slot d of None \<Rightarrow> True | Some r \<Rightarrow> 1 \<le> le_generation r)"

lemma acquire_body_grants:
  assumes "acquire_body owner t e d = Inr (g, d')"
  shows "lease_slot d' = Some (granted owner g t e)
    \<and> (case lease_slot d of None \<Rightarrow> g = 1 | Some r \<Rightarrow> \<not> le_active r \<and> g = le_generation r + 1)"
proof -
  have reconciled: "tx_wp (reconcile_terminal_flights t None)
      (\<lambda>_ s. lease_slot s = lease_slot d0) d0" for d0
    by (rule keeps_wp) (auto intro!: tx_frame)
  have "tx_wp (acquire_body owner t e) (\<lambda>g d'. lease_slot d' = Some (granted owner g t e)
      \<and> (case lease_slot d of None \<Rightarrow> g = 1 | Some r \<Rightarrow> \<not> le_active r \<and> g = le_generation r + 1)) d"
    unfolding acquire_body_def
    by (auto simp: tx_wp set_lease_def intro!: tx_wp_mono [OF reconciled] split: option.splits)
  then show ?thesis using assms by (rule tx_wpD)
qed

lemma recover_body_grants:
  assumes "recover_body owner t e d = Inr (g, d')"
  shows "\<exists>r. lease_slot d = Some r \<and> le_active r \<and> le_heartbeat_at r \<le> t \<and> le_expires_at r \<le> t
    \<and> g = le_generation r + 1 \<and> lease_slot d' = Some (granted owner g t e)"
proof -
  have "tx_wp (recover_body owner t e) (\<lambda>g d'.
      \<exists>r. lease_slot d = Some r \<and> le_active r \<and> le_heartbeat_at r \<le> t \<and> le_expires_at r \<le> t
      \<and> g = le_generation r + 1 \<and> lease_slot d' = Some (granted owner g t e)) d"
    unfolding recover_body_def take_over_def set_lease_def
    by (auto simp: tx_wp split: option.splits intro: tx_wpI)
  then show ?thesis using assms by (rule tx_wpD)
qed

lemma grant_facts:
  assumes "granted_by op d = Some l"
  shows "lease_slot (apply_op op d) =
      Some \<lparr>le_owner = rl_owner l, le_generation = rl_generation l,
        le_acquired_at = wall (rl_acquired_at l), le_heartbeat_at = wall (rl_acquired_at l),
        le_expires_at = wall (rl_expires_at l), le_active = True\<rparr>
    \<and> rl_generation l = generation_of d + 1
    \<and> (\<forall>r. lease_slot d = Some r \<longrightarrow> le_active r \<longrightarrow> le_expires_at r \<le> wall (rl_acquired_at l))"
proof -
  consider owner t p e d' where "op = Acquire_Lease owner (utc t) p"
      "acquire_body owner t e d = Inr (rl_generation l, d')" "apply_op op d = d'"
      "l = lease_view owner (rl_generation l) t e"
    | owner t p e d' where "op = Recover owner (utc t) p"
      "recover_body owner t e d = Inr (rl_generation l, d')" "apply_op op d = d'"
      "l = lease_view owner (rl_generation l) t e"
    using assms
    by (cases op) (auto simp: granted_by_def acquire_lease_def recover_expired_lease_def
        with_clock_def with_expiry_def after_commit_def run_tx_def validate_utc_Inr lease_view_def
        split: sum.splits if_splits prod.splits)
  then show ?thesis
  proof cases
    case 1
    then show ?thesis
      using acquire_body_grants [OF 1(2)]
      by (cases l) (auto simp: granted_def lease_view_def utc_def generation_of_def split: option.splits)
  next
    case 2
    then show ?thesis
      using recover_body_grants [OF 2(2)]
      by (cases l) (auto simp: granted_def lease_view_def utc_def generation_of_def split: option.splits)
  qed
qed

lemma generation_grows: "db_extends d d' \<Longrightarrow> lease_slot d \<noteq> None \<Longrightarrow> generation_of d \<le> generation_of d'"
  by (auto simp: db_extends_def lease_extends_def generation_of_def split: option.splits)

lemma granted_generation:
  "granted_by op d = Some l \<Longrightarrow>
   generation_of (apply_op op d) = rl_generation l \<and> lease_slot (apply_op op d) \<noteq> None"
  by (drule grant_facts) (simp add: generation_of_def)

text \<open>C4: fencing tokens strictly increase: of two leases handed out in the life of a
  database, the later one has the larger generation, whatever was done in between.\<close>

theorem fencing_tokens_increase:
  assumes "reachable any_op d" and "granted_by op d = Some l"
    and "granted_by op' (fold apply_op ops (apply_op op d)) = Some l'"
  shows "rl_generation l < rl_generation l'"
proof -
  have "primary_keys (apply_op op d)"
    using pk.always [OF assms(1)] pk.preserved by blast
  then have "rl_generation l \<le> generation_of (fold apply_op ops (apply_op op d))"
    using granted_generation [OF assms(2)] generation_grows db_extends_ops by metis
  then show ?thesis using grant_facts [OF assms(3)] by simp
qed

text \<open>C5: a superseded owner is fenced out for good: once a larger generation exists, no
  operation presented with the old lease ever changes the database again, at any clock and
  after any further operations, and each such call raises.\<close>

theorem superseded_lease_stays_inert:
  assumes "reachable any_op d" and "lease_slot d \<noteq> None" and "rl_generation l < generation_of d"
    and "op_lease op = Some l"
  shows "apply_op op (fold apply_op ops d) = fold apply_op ops d
    \<and> op_error op (fold apply_op ops d) \<noteq> None"
proof (rule stale_call [OF assms(4)])
  have "generation_of d \<le> generation_of (fold apply_op ops d)"
    using pk.always [OF assms(1)] db_extends_ops generation_grows assms(2) by blast
  with assms(3) show "\<not> current_lease l (fold apply_op ops d)"
    by (auto simp: current_lease_def generation_of_def split: option.splits)
qed

text \<open>C6: no lease is handed out while another owner's lease is active and unexpired.\<close>

theorem no_grant_before_expiry:
  assumes "granted_by op d = Some l" and "lease_slot d = Some r" and "le_active r"
  shows "le_expires_at r \<le> wall (rl_acquired_at l) \<and> rl_generation l = le_generation r + 1"
  using grant_facts [OF assms(1)] assms(2,3) by (auto simp: generation_of_def)

text \<open>The sample database after another owner recovered the expired lease.\<close>

definition recovered_op :: runtime_op where
  "recovered_op = Recover ''owner-b'' (at_second 40) sample_lease_policy"

lemma granted_recovered:
  "granted_by recovered_op leased_db =
     Some (lease_view ''owner-b'' 2 (noon + 40000000) (noon + 70000000))"
  by code_simp

lemma granted_first:
  "granted_by (Acquire_Lease ''owner-a'' (at_second 0) sample_lease_policy) create_schema
     = Some sample_lease"
  by code_simp

lemma leased_from_fresh:
  "apply_op (Acquire_Lease ''owner-a'' (at_second 0) sample_lease_policy) create_schema = leased_db"
  using after_leased_run by (simp add: after_run_def leased_run_def)

theorem fencing_tokens_increase_witness:
  "rl_generation sample_lease
     < rl_generation (lease_view ''owner-b'' 2 (noon + 40000000) (noon + 70000000))"
  by (rule fencing_tokens_increase [OF reachable.initial granted_first,
        where ops = "[]" and op' = recovered_op])
     (simp only: leased_from_fresh granted_recovered fold_simps id_apply)

theorem superseded_lease_stays_inert_witness:
  "apply_op (Heartbeat sample_lease (at_second 41) sample_lease_policy)
     (fold apply_op [Release_Lease (lease_view ''owner-b'' 2 (noon + 40000000) (noon + 70000000))
        (at_second 42)] (apply_op recovered_op leased_db))
   = fold apply_op [Release_Lease (lease_view ''owner-b'' 2 (noon + 40000000) (noon + 70000000))
        (at_second 42)] (apply_op recovered_op leased_db)"
  by (rule superseded_lease_stays_inert [where l = sample_lease, THEN conjunct1])
     (use granted_generation [OF granted_recovered] in
       \<open>auto simp: op_lease_def sample_lease_def lease_view_def intro: reachable.step\<close>)

theorem no_grant_before_expiry_witness:
  "le_expires_at (granted ''owner-a'' 1 noon (noon + 30000000))
     \<le> wall (rl_acquired_at (lease_view ''owner-b'' 2 (noon + 40000000) (noon + 70000000)))"
  by (rule no_grant_before_expiry [OF granted_recovered, THEN conjunct1])
     (simp_all add: leased_db_def granted_def)

end
