(* ===== verification/GateSafety.thy ===== *)
theory GateSafety
  imports Occupancy Fencing
begin

text \<open>
  What the exact counters buy: a caller that holds a reservation can always give it back, and
  recovery after an owner died leaves every gate empty. Both rest on two more invariants of
  the reachable states: the schema is the one \<open>_create_schema\<close> wrote, and a reservation refers
  to a persisted request and carries a generation no larger than the current one.
\<close>

section \<open>The schema never changes\<close>

definition schema_part :: "db \<Rightarrow> int \<times> (string \<times> int) option \<times> bool" where
  "schema_part d = (user_version d, schema_metadata d, integrity d)"

lemma schema_part_ok: "schema_part d' = schema_part d \<Longrightarrow> schema_ok d \<Longrightarrow> schema_ok d'"
  by (simp add: schema_part_def schema_ok_def)

lemma preserves_schema: "keeps schema_part m \<Longrightarrow> preserves schema_ok m"
  by (erule keeps_preserves) (rule schema_part_ok)

interpretation schema: runtime_invariant any_op schema_ok
proof unfold_locales
  show "schema_ok (apply_op op d)" if "schema_ok d" for op d
    by (rule op_preserves [where I = schema_ok and allowed = any_op];
        (rule that TrueI | (rule preserves_schema; intro tx_frame; simp add: schema_part_def)))
qed simp

section \<open>What a reservation refers to\<close>

definition res_links :: "db \<Rightarrow> (string \<times> int) list" where
  "res_links d = map (\<lambda>r. (rv_logical r, rv_generation r)) (reservations d)"

definition reservations_linked :: "db \<Rightarrow> bool" where
  "reservations_linked d \<longleftrightarrow> (\<forall>(lid, g) \<in> set (res_links d).
     lid \<in> lr_id ` set (logical_requests d) \<and> lease_slot d \<noteq> None \<and> g \<le> generation_of d)"

lemma keeps_links:
  "keeps res_links (finish_body res st retry e l t)"
  "keeps res_links (cancel_body lid reason l t)"
  "keeps res_links (recover_body owner t ex)"
proof -
  have state: "keeps res_links (set_reservation_state rid st)" for rid st
    unfolding set_reservation_state_def sql_update_def
    by (intro tx_frame) (simp add: res_links_def row_simps)
  have reclaim: "keeps res_links (reclaim_reservation code ev rs t r)" for code ev rs r
    unfolding reclaim_reservation_def
    by (intro tx_frame state; simp add: res_links_def)
  have release: "keeps res_links (release_gate_occupancy lid t rs)"
    "keeps res_links (recover_gate_reservations g t)" for lid rs g
    unfolding release_gate_occupancy_def recover_gate_reservations_def by (intro tx_frame reclaim)+
  show "keeps res_links (finish_body res st retry e l t)"
    unfolding finish_body_def record_cooldown_def by (intro tx_frame state; simp add: res_links_def)
  have started: "keeps res_links (cancel_started_flight fp t reason)" for fp
    unfolding cancel_started_flight_def cancel_in_flight_def
    by (intro tx_frame release; simp add: res_links_def)
  show "keeps res_links (cancel_body lid reason l t)"
    unfolding cancel_body_def cancel_follower_def cancel_leader_def Let_def hand_over_def promote_def
      abandon_reserved_def
    by (intro tx_frame release started; simp add: res_links_def)
  show "keeps res_links (recover_body owner t ex)"
    unfolding recover_body_def settle_def by (intro tx_frame release; simp add: res_links_def)
qed

lemma request_step_id: "request_step r s \<Longrightarrow> lr_id s = lr_id r"
  by (auto simp: request_step_def) (metis logical_request.select_convs(1)
      logical_request.surjective logical_request.update_convs(11))

lemma history_ids:
  assumes "db_extends d d'"
  shows "lr_id ` set (logical_requests d) \<subseteq> lr_id ` set (logical_requests d')"
proof
  fix lid assume "lid \<in> lr_id ` set (logical_requests d)"
  then obtain r where r: "r \<in> set (logical_requests d)" "lr_id r = lid" by blast
  with assms obtain s where s: "s \<in> set (logical_requests d')" "request_step r s"
    by (auto simp: db_extends_def dest: evolve_rowD)
  with r request_step_id [OF s(2)] show "lid \<in> lr_id ` set (logical_requests d')"
    by (auto intro: image_eqI [of _ _ s])
qed

lemma linked_later:
  assumes "res_links d' = res_links d" and "db_extends d d'" and "reservations_linked d"
  shows "reservations_linked d'"
proof -
  have "lease_slot d' \<noteq> None \<and> generation_of d \<le> generation_of d'" if "lease_slot d \<noteq> None"
    using assms(2) that generation_grows
    by (auto simp: db_extends_def lease_extends_def split: option.splits)
  with assms history_ids [OF assms(2)] show ?thesis
    by (fastforce simp: reservations_linked_def)
qed

definition linked_ok :: "db \<Rightarrow> bool" where
  "linked_ok d \<longleftrightarrow> primary_keys d \<and> reservations_linked d"

lemma preserves_linked:
  assumes "keeps res_links m" and "tx_rel history m"
  shows "preserves linked_ok m"
  unfolding preserves_wp
proof (intro allI impI)
  fix d assume ok: "linked_ok d"
  have "tx_wp m (\<lambda>_ d'. res_links d' = res_links d \<and> history d d') d"
    using assms by (intro tx_wp_conjI keeps_wp hist.wp_rel)
  then show "tx_wp m (\<lambda>_. linked_ok) d"
    by (rule tx_wp_mono) (use ok linked_later in \<open>auto simp: history_def linked_ok_def\<close>)
qed

lemma taken_linked:
  assumes ok: "linked_ok d" and h: "history d d'" and taken: "gates_taken rid a ks l t d d'"
    and lease: "lease_slot d = Some row" "le_generation row = rl_generation l"
    and req: "pa_logical a \<in> lr_id ` set (logical_requests d)"
  shows "linked_ok d'"
proof -
  have ext: "db_extends d d'" "primary_keys d'" using ok h by (auto simp: history_def linked_ok_def)
  have links: "res_links d' = res_links d @ [(pa_logical a, rl_generation l)]"
    using taken by (simp add: gates_taken_def res_links_def)
  obtain row' where row': "lease_slot d' = Some row'" "le_generation row \<le> le_generation row'"
    using ext(1) lease by (auto simp: db_extends_def lease_extends_def split: option.splits)
  with ok lease req links history_ids [OF ext(1)] ext(2) show ?thesis
    by (fastforce simp: linked_ok_def reservations_linked_def generation_of_def)
qed

lemma acquire_linked: "preserves linked_ok (acquire_gates_body rid a ks p l t)"
  unfolding preserves_wp
proof (intro allI impI)
  fix d assume ok: "linked_ok d"
  have event: "preserves linked_ok (record_block lid t b)" for lid b
    unfolding record_block_def
    by (cases b, simp only: prod.case, rule preserves_linked; intro tx_frame tx_rel_intros;
        simp add: res_links_def)
  have take: "tx_wp (take_gates rid a ks l t) (\<lambda>_. linked_ok) d"
    if "lease_slot d = Some row" "le_generation row = rl_generation l"
      "pa_logical a \<in> lr_id ` set (logical_requests d)" for row
    by (rule tx_wp_mono [OF tx_wp_conjI [OF hist.wp_rel [OF hist_take_gates] take_gates_wp]])
       (use taken_linked [OF ok _ _ that] in blast)
  have req: "pa_logical a \<in> lr_id ` set (logical_requests d)"
    if "map_option lr_state (select_by lr_id (pa_logical a) (logical_requests d)) = Some L_Queued"
    using that by (auto dest!: select_by_SomeD intro: image_eqI [OF sym])
  show "tx_wp (acquire_gates_body rid a ks p l t) (\<lambda>_. linked_ok) d"
    unfolding acquire_gates_body_def gate_request_active_def tx_wp_bind tx_wp_block tx_wp_fenced
      tx_wp_check tx_wp_gets tx_wp_lift tx_wp_return fence_error_None
    using ok take req event
    by (auto simp: preserves_wp split: option.split)
qed

lemma finish_linked:
  "st \<in> {A_Succeeded, A_Failed, A_Unknown} \<Longrightarrow> preserves linked_ok (finish_body res st retry e l t)"
  by (rule preserves_linked [OF keeps_links(1) hist_finish_body]) auto

interpretation linked: runtime_invariant any_op linked_ok
proof unfold_locales
  show "linked_ok create_schema"
    using primary_keys_create
    by (simp add: linked_ok_def reservations_linked_def res_links_def create_schema_def)
  show "linked_ok (apply_op op d)" if "linked_ok d" for op d
    by (rule op_preserves [where I = linked_ok and allowed = any_op];
        ((rule acquire_linked finish_linked that TrueI; assumption?)
         | (rule preserves_linked; (rule hist_bodies keeps_links; assumption?)?;
            intro tx_frame; simp add: res_links_def)))
qed


section \<open>Counters, release, recovery\<close>

lemma counters_reachable:
  "reachable any_op d \<Longrightarrow> active_count s k d = int (holders s k d)"
  by (drule occ.always) (simp add: occupancy_ok_def counters_exact_def)

text \<open>C7: the gate counters are exact: in every reachable state \<open>active_count\<close> of a scope and
  key is the number of slots held there by active reservations.\<close>

theorem gate_counters_are_exact:
  assumes "reachable any_op d"
  shows "active_count s k d = int (holders s k d)"
  using assms by (rule counters_reachable)

theorem gate_counters_are_exact_witness:
  "active_count S_Provider ''p'' sent_db = int (holders S_Provider ''p'' sent_db)"
  by (rule gate_counters_are_exact) simp

text \<open>What a finished reservation leaves at the gates.\<close>

definition slots_at :: "gate_scope \<Rightarrow> string \<Rightarrow> string \<Rightarrow> db \<Rightarrow> int" where
  "slots_at s k rid d = int (count_where (at_gate s k) (scopes_of rid d))"

text \<open>The reservation the caller holds is the active one of its generation.\<close>

definition holds_reservation :: "gate_reservation \<Rightarrow> runtime_lease \<Rightarrow> db \<Rightarrow> bool" where
  "holds_reservation res l d \<longleftrightarrow>
     (case select_by rv_id (gr_id res) (reservations d) of
        None \<Rightarrow> False
      | Some r \<Rightarrow> rv_state r = R_Active \<and> rv_logical r = gr_logical res
          \<and> rv_attempt r = gr_attempt res \<and> rv_generation r = rl_generation l)"

lemma holds_reservation_current:
  assumes "occupancy_ok d" and "holds_reservation res l d"
  shows "reservation_current res l (order_by rs_scope (scopes_of (gr_id res) d)) d"
    and "active_res d (gr_id res)"
proof -
  obtain r where r: "select_by rv_id (gr_id res) (reservations d) = Some r" "rv_state r = R_Active"
    "rv_logical r = gr_logical res" "rv_attempt r = gr_attempt res" "rv_generation r = rl_generation l"
    using assms(2) by (auto simp: holds_reservation_def split: option.splits)
  then have "r \<in> set (reservations d)" "rv_id r = gr_id res" by (auto dest: select_by_SomeD)
  with assms(1) have "length (scopes_of (gr_id res) d) = 8"
    by (auto simp: occupancy_ok_def eight_scopes_def)
  with r show "reservation_current res l (order_by rs_scope (scopes_of (gr_id res) d)) d"
    by (simp add: reservation_current_def order_by_def)
  show "active_res d (gr_id res)"
    using active_resI [OF \<open>r \<in> set (reservations d)\<close> r(2)] \<open>rv_id r = gr_id res\<close> by simp
qed

lemma holders_cover:
  assumes "active_res d rid"
  shows "int (count_where (at_gate s k) (scopes_of rid d)) \<le> int (holders s k d)"
proof -
  have "count_where (at_gate s k) (filter (\<lambda>r. rs_reservation r = rid) xs)
    \<le> count_where (\<lambda>x. at_gate s k x \<and> active_res d (rs_reservation x)) xs" for xs
    using assms by (induction xs) (auto simp: row_simps)
  then show ?thesis by (simp add: holders_def scopes_of_def)
qed

text \<open>All eight scopes are among the scopes of a reservation: they are distinct and eight.\<close>

lemma all_scopes_reserved:
  assumes ok: "occupancy_ok d" and r: "r \<in> set (reservations d)"
  shows "\<exists>x \<in> set (scopes_of (rv_id r) d). rs_scope x = sc"
proof -
  let ?xs = "scopes_of (rv_id r) d"
  have "distinct (map (\<lambda>x. (rs_reservation x, rs_scope x)) (reserved_scopes d))"
    using ok by (simp add: occupancy_ok_def primary_keys_def keys_ok_def)
  then have "distinct (map (\<lambda>x. (rs_reservation x, rs_scope x)) ?xs)"
    unfolding scopes_of_def by (rule distinct_map_filter)
  moreover have "map (\<lambda>x. (rs_reservation x, rs_scope x)) ?xs = map (Pair (rv_id r)) (map rs_scope ?xs)"
    by (auto simp: scopes_of_def)
  ultimately have "distinct (map rs_scope ?xs)" by (metis distinct_map)
  moreover have "length ?xs = 8" using ok r by (simp add: occupancy_ok_def eight_scopes_def)
  ultimately have "card (rs_scope ` set ?xs) = 8" by (metis distinct_card length_map set_map)
  moreover have "rs_scope ` set ?xs \<subseteq> set all_scopes" and "card (set all_scopes) = 8"
    by (auto simp: all_scopes_def) (metis gate_scope.exhaust)+
  ultimately have "rs_scope ` set ?xs = set all_scopes" by (metis card_subset_eq List.finite_set)
  moreover have "sc \<in> set all_scopes" by (cases sc) (simp_all add: all_scopes_def)
  ultimately show ?thesis by (metis imageE)
qed

text \<open>The state of an attempt, and what finishing makes of it.\<close>

definition attempt_phase :: "string \<Rightarrow> db \<Rightarrow> attempt_state option" where
  "attempt_phase aid d = map_option pa_state (select_by pa_id aid (physical_attempts d))"

definition ended :: "attempt_state \<Rightarrow> attempt_state \<Rightarrow> attempt_state" where
  "ended st x = (if x \<in> {A_Reserved, A_Started} then st else x)"

lemma phase_finish_attempt:
  "tx_ok (finish_attempt aid st e) (\<lambda>_ d'. attempt_phase aid d' = map_option (ended st) (attempt_phase aid d)
     \<and> logical_requests d' = logical_requests d \<and> gate_part d' = gate_part d) d"
  unfolding finish_attempt_def tx_ok_rows
  by (auto simp: attempt_phase_def ended_def gate_part_def select_by_update_where option.map_comp comp_def
      intro!: option.map_cong split: option.splits dest: select_by_SomeD)

definition after_finish ::
  "gate_reservation \<Rightarrow> attempt_state \<Rightarrow> db \<Rightarrow> db \<Rightarrow> bool" where
  "after_finish res st d d' \<longleftrightarrow>
     (\<forall>s k. active_count s k d' = active_count s k d - slots_at s k (gr_id res) d)
     \<and> attempt_phase (gr_attempt res) d' = map_option (ended st) (attempt_phase (gr_attempt res) d)"

lemma cooldown_commits:
  assumes find: "find (\<lambda>r. rs_scope r = S_Provider) xs = Some x"
    and "valid_instant (t + timedelta_us secs)" and "gr_logical res \<in> lr_id ` set (logical_requests d)"
  shows "tx_ok (record_cooldown res secs t xs) (\<lambda>_ d'. (\<forall>s k. active_count s k d' = active_count s k d)
    \<and> attempt_phase aid d' = attempt_phase aid d \<and> logical_requests d' = logical_requests d) d"
proof -
  have row: "gate_row_of s k (gate_states_update (update_where p (later_cooldown c)) d1)
      = map_option (\<lambda>g. if p g then later_cooldown c g else g) (gate_row_of s k d1)" for s k p c d1
    unfolding gate_row_of_def by (simp add: select_by_update_where later_cooldown_def)
  have count: "active_count s k (gate_states_update (update_where p (later_cooldown c)) d1)
      = active_count s k d1" "active_count s k (gate_log_update h d1) = active_count s k d1" for s k p c h d1
    unfolding active_count_def row
    by (auto simp: later_cooldown_def gate_row_of_def split: option.splits)
  show ?thesis
    unfolding record_cooldown_def find option.case append_gate_event_def logical_exists_def tx_ok
    using assms(2,3) by (auto simp: plus_us_def count attempt_phase_def)
qed

lemma finish_commits:
  assumes ok: "occupancy_ok d" "linked_ok d" "schema_ok d" and fence: "fence_error l t d = None"
    and holds: "holds_reservation res l d"
    and delay: "\<And>secs. retry = Some secs \<Longrightarrow> valid_instant (t + timedelta_us secs)"
  shows "tx_ok (finish_body res st retry e l t) (\<lambda>_. after_finish res st d) d"
proof -
  let ?xs = "order_by rs_scope (scopes_of (gr_id res) d)"
  note cur = holds_reservation_current [OF ok(1) holds]
  have cover: "int (count_where (at_gate s k) ?xs) \<le> active_count s k d" for s k
    using holders_cover [OF cur(2), of s k] ok(1)
    by (simp add: occupancy_ok_def counters_exact_def count_where_order_by)
  obtain rv where rv: "rv \<in> set (reservations d)" "rv_id rv = gr_id res"
    using cur(2) by (auto simp: active_res_def list_ex_iff)
  have req: "gr_logical res \<in> lr_id ` set (logical_requests d)"
    using ok(2) holds
    by (force simp: linked_ok_def reservations_linked_def res_links_def holds_reservation_def
        split: option.splits dest!: select_by_SomeD)
  obtain x where find: "find (\<lambda>r. rs_scope r = S_Provider) ?xs = Some x"
    using all_scopes_reserved [OF ok(1) rv(1), of S_Provider] rv(2)
    by (cases "find (\<lambda>r. rs_scope r = S_Provider) ?xs") (auto simp: find_None_iff)
  note keys = occupancy_keys [OF ok(1)]
  let ?given = "\<lambda>d1. (\<forall>s k. active_count s k d1 = active_count s k d - slots_at s k (gr_id res) d)
      \<and> logical_requests d1 = logical_requests d"
  have frame: "keeps (\<lambda>d. (logical_requests d, physical_attempts d)) (tx_for ?xs (vacate_scope c))" for c
    by (intro tx_frame) simp
  have "tx_wp (tx_for ?xs (vacate_scope c)) (\<lambda>_ d1. (logical_requests d1, physical_attempts d1)
        = (logical_requests d, physical_attempts d)
      \<and> (\<forall>s k. active_count s k d1 = active_count s k d - slots_at s k (gr_id res) d)) d" for c
    by (rule tx_wp_conjI [OF keeps_wp [OF frame]], rule tx_wp_mono [OF vacate_loop [OF keys]])
       (simp add: slots_at_def count_where_order_by)
  then have "tx_wp (tx_for ?xs (vacate_scope c)) (\<lambda>_ d1. ?given d1
      \<and> attempt_phase (gr_attempt res) d1 = attempt_phase (gr_attempt res) d) d" for c
    by (rule tx_wp_mono) (simp add: attempt_phase_def)
  moreover have "tx_ok (tx_for ?xs (vacate_scope c)) (\<lambda>_ _. True) d" for c
    using vacate_loop_succeeds [OF keys cover, of c] by (auto simp: tx_ok_iff)
  ultimately have loop: "tx_ok (tx_for ?xs (vacate_scope c)) (\<lambda>_ d1. ?given d1
      \<and> attempt_phase (gr_attempt res) d1 = attempt_phase (gr_attempt res) d) d" for c
    by (rule tx_ok_wp [rotated])
  have state: "tx_ok (set_reservation_state (gr_id res) R_Released) (\<lambda>_ d1. ?given d1
      \<and> attempt_phase (gr_attempt res) d1 = attempt_phase (gr_attempt res) d) d1"
    if "?given d1 \<and> attempt_phase (gr_attempt res) d1 = attempt_phase (gr_attempt res) d" for d1
    using that by (simp add: set_reservation_state_def tx_ok active_count_def gate_row_of_def attempt_phase_def)
  have attempt: "tx_ok (finish_attempt (gr_attempt res) st e) (\<lambda>_ d2. after_finish res st d d2
      \<and> logical_requests d2 = logical_requests d) d1"
    if "?given d1 \<and> attempt_phase (gr_attempt res) d1 = attempt_phase (gr_attempt res) d" for d1
    by (rule tx_ok_mono [OF phase_finish_attempt])
       (use that in \<open>auto simp: after_finish_def dest: gate_part_reads(3)\<close>)
  have cool: "tx_ok (case retry of None \<Rightarrow> tx_return () | Some secs \<Rightarrow> record_cooldown res secs t ?xs)
      (\<lambda>_ d2. after_finish res st d d2 \<and> logical_requests d2 = logical_requests d) d1"
    if "after_finish res st d d1 \<and> logical_requests d1 = logical_requests d" for d1
  proof (cases retry)
    case None
    then show ?thesis using that by (simp add: tx_ok)
  next
    case (Some secs)
    have "gr_logical res \<in> lr_id ` set (logical_requests d1)" using req that by simp
    then show ?thesis
      unfolding Some option.case
      by (rule tx_ok_mono [OF cooldown_commits [OF find delay [OF Some], where aid = "gr_attempt res"]])
         (use that in \<open>auto simp: after_finish_def\<close>)
  qed
  have event: "tx_ok (append_gate_event (gr_logical res) rid sc ky ev t rs) (\<lambda>_. after_finish res st d) d1"
    if "after_finish res st d d1 \<and> logical_requests d1 = logical_requests d" for d1 rid sc ky ev rs
    using that req by (simp add: append_gate_event_def logical_exists_def tx_ok after_finish_def
        active_count_def gate_row_of_def attempt_phase_def del: tx_block.simps)
  have "tx_ok (tx_for ?xs (vacate_scope c)) (\<lambda>_. tx_ok (set_reservation_state (gr_id res) R_Released)
      (\<lambda>_. tx_ok (finish_attempt (gr_attempt res) st e) (\<lambda>_. tx_ok
        (case retry of None \<Rightarrow> tx_return () | Some secs \<Rightarrow> record_cooldown res secs t ?xs)
        (\<lambda>_. tx_ok (append_gate_event (gr_logical res) rid sc ky ev t rs) (\<lambda>_. after_finish res st d))))) d"
    for c rid sc ky ev rs
    by (rule tx_ok_mono [OF loop], rule tx_ok_mono [OF state], assumption,
        rule tx_ok_mono [OF attempt], assumption, rule tx_ok_mono [OF cool], assumption, rule event)
  then show ?thesis
    unfolding finish_body_def tx_ok_bind tx_ok_gets tx_ok_fenced tx_ok_block tx_ok_check
    using ok(3) fence cur(1) by blast
qed

lemma finish_settles:
  assumes "reachable any_op d" and "fence_error l t d = None" and "holds_reservation res l d"
    and "valid_gate_reservation res" and "valid_lease l"
    and "\<And>secs. retry = Some secs \<Longrightarrow> valid_instant (t + timedelta_us secs)"
  shows "\<exists>d'. finish_gate_reservation res st retry e l (utc t) d = (d', Inr ()) \<and> after_finish res st d d'"
proof -
  have "tx_ok (finish_body res st retry e l t) (\<lambda>_. after_finish res st d) d"
    by (rule finish_commits) (use occ.always linked.always schema.always assms in auto)
  from run_tx_okI [OF this, of "StorageError ''gate_release_failed''"]
  show ?thesis by (auto simp: finish_gate_reservation_def assms(4,5))
qed

text \<open>C8: a reservation the caller holds can always be given back: under a valid fence the
  release of an active reservation of the caller's generation commits, with any outcome, every
  gate counter drops by exactly the slots the reservation held there, and its attempt, if still
  open, ends with the outcome. The only way to fail is a retry delay beyond the range of
  \<open>datetime\<close>.\<close>

theorem release_always_succeeds:
  assumes "reachable any_op d" and "fence_error l t d = None" and "holds_reservation res l d"
    and "valid_gate_reservation res" and "valid_lease l"
    and "\<And>secs. retry = Some secs \<Longrightarrow> valid_instant (t + timedelta_us secs)"
  shows "\<exists>d'. finish_gate_reservation res st retry e l (utc t) d = (d', Inr ()) \<and> after_finish res st d d'"
  by (rule finish_settles [OF assms])

text \<open>The reservation of the sample run.\<close>

definition held :: gate_reservation where
  "held = sample_reservation ''res-1'' ''att-1'' ''req-1''"

theorem release_always_succeeds_witness:
  "\<exists>d'. finish_gate_reservation held A_Failed (Some 30) False sample_lease (utc (noon + 6000000)) sent_db
      = (d', Inr ()) \<and> after_finish held A_Failed sent_db d'"
proof (rule release_always_succeeds)
  show "reachable any_op sent_db" by simp
  show "fence_error sample_lease (noon + 6000000) sent_db = None" by code_simp
  show "holds_reservation held sample_lease sent_db" "valid_gate_reservation held" "valid_lease sample_lease"
    by code_simp+
  show "valid_instant (noon + 6000000 + timedelta_us secs)" if "Some 30 = Some secs" for secs
    using that timedelta_us_of_int [of 30] by (auto simp: valid_instant_def max_instant_def noon_def)
qed

lemma recover_gates_post:
  assumes ok: "occupancy_ok d" and linked: "linked_ok d"
  shows "tx_wp (recover_gate_reservations (generation_of d) t) (\<lambda>_ d1. \<forall>q. \<not> active_res d1 q) d"
  unfolding recover_gate_reservations_def tx_wp_bind tx_wp_gets filter_active_comm
proof (rule tx_wp_mono [OF reclaim_selected [OF ok]], elim conjE, intro allI notI)
  fix d1 q
  assume none: "\<forall>r \<in> set (reservations d). rv_generation r \<le> generation_of d \<longrightarrow> \<not> active_res d1 (rv_id r)"
    and only_old: "\<forall>q. active_res d1 q \<longrightarrow> active_res d q" and "active_res d1 q"
  then obtain r where r: "r \<in> set (reservations d)" "rv_id r = q"
    by (auto simp: active_res_def list_ex_iff)
  then have "rv_generation r \<le> generation_of d"
    using linked by (auto simp: linked_ok_def reservations_linked_def res_links_def)
  with none r \<open>active_res d1 q\<close> show False by blast
qed

lemma settle_frees:
  assumes "occupancy_ok d" and "linked_ok d" and "lease_slot d = Some r"
  shows "tx_wp (settle (le_generation r) t) (\<lambda>_ d1. \<forall>q. \<not> active_res d1 q) d"
proof -
  let ?none = "\<lambda>d1. \<forall>q. \<not> active_res d1 q"
  have keep: "tx_wp m (\<lambda>_. ?none) d1" if "keeps gate_part m" "?none d1" for m :: "(db, unit) tx" and d1
    by (rule tx_wp_mono [OF keeps_wp [OF that(1)]]) (drule gate_part_reads(1), simp add: that(2))
  have gen: "le_generation r = generation_of d" using assms(3) by (simp add: generation_of_def)
  have rest: "tx_wp (tx_block [requeue_claimed t, settle_requests g t, settle_attempts g,
      reconcile_terminal_flights t None]) (\<lambda>_. ?none) d1" if "?none d1" for d1 g
    using that by (rule keep [rotated]) (intro tx_frame; simp add: gate_part_def)
  show ?thesis
    unfolding settle_def tx_wp_block(2) [of "validate_recovery_state _"] validate_recovery_state_def
      tx_wp_block tx_wp_check tx_wp_block(2) [of "recover_gate_reservations _ _"] gen
    by (intro impI tx_wp_mono [OF recover_gates_post [OF assms(1,2)]])
       (rule rest [unfolded tx_wp_block])
qed

text \<open>C9: recovery frees every gate: after the takeover of an expired lease no gate counts a
  slot, whatever the previous owners were doing when they stopped.\<close>

theorem recovery_frees_every_gate:
  assumes "reachable any_op d" and "recover_expired_lease owner now p d = (d', Inr l')"
  shows "active_count s k d' = 0"
proof -
  have "reachable any_op (apply_op (Recover owner now p) d)" by (rule reachable.step [OF assms(1)]) simp
  then have exact: "active_count s k d' = int (holders s k d')"
    using counters_reachable [of d' s k] assms(2) by simp
  have inv: "occupancy_ok d" "linked_ok d" using occ.always linked.always assms(1) by auto
  obtain t e g where body: "recover_body owner t e d = Inr (g, d')"
    using assms(2) by (auto simp: recover_expired_lease_def with_clock_ok with_expiry_def
        after_commit_ok run_tx_ok split: sum.splits) (metis obj_sumE)
  have "tx_wp (recover_body owner t e) (\<lambda>_ d1. \<forall>q. \<not> active_res d1 q) d"
    unfolding recover_body_def take_over_def set_lease_def
    by (auto simp: tx_wp active_res_def split: option.split simp del: tx_block.simps
        intro!: tx_wp_mono [OF settle_frees [OF inv, unfolded active_res_def]])
  then have "\<forall>q. \<not> active_res d' q" using body by (rule tx_wpD)
  then show ?thesis using exact by (simp add: holders_def row_simps count_where_def)
qed

lemma recovered_sent:
  "snd (recover_expired_lease ''owner-b'' (at_second 40) sample_lease_policy sent_db)
     = Inr (lease_view ''owner-b'' 2 (noon + 40000000) (noon + 70000000))"
  by code_simp

theorem recovery_frees_every_gate_witness:
  "active_count S_Provider ''p''
     (fst (recover_expired_lease ''owner-b'' (at_second 40) sample_lease_policy sent_db)) = 0"
  by (rule recovery_frees_every_gate [where d = sent_db and owner = "''owner-b''" and now = "at_second 40"
        and p = sample_lease_policy and l' = "lease_view ''owner-b'' 2 (noon + 40000000) (noon + 70000000)"])
     (simp, simp add: recovered_sent prod_eq_iff)

end
