(* ===== verification/RateLimits.thy ===== *)
theory RateLimits
  imports GateSafety
begin

text \<open>
  The rate limits hold of every history. Runs in which every \<open>acquire_gates\<close> uses the policy
  \<open>p\<close> never exceed its concurrency, never start more than its requests in a rolling window of
  its length, and keep its minimum interval between two starts, for every scope and key, with
  no assumption on the order of the clock readings.
\<close>

section \<open>Operations that take no slot\<close>

text \<open>
  \<open>relaxes d d'\<close>: from \<open>d\<close> to \<open>d'\<close> slots were given back at most, and nothing was started.
\<close>

definition relaxes :: "db \<Rightarrow> db \<Rightarrow> bool" where
  "relaxes d d' \<longleftrightarrow> (keys_ok gate_states gate_key d \<longrightarrow>
     keys_ok gate_states gate_key d' \<and> gate_starts d' = gate_starts d
     \<and> (\<forall>s k. active_count s k d' \<le> active_count s k d \<and> last_started s k d' = last_started s k d))"

interpretation relax: preorder_on_states relaxes
proof unfold_locales
  show "relaxes d d" for d by (simp add: relaxes_def)
  show "relaxes a b \<Longrightarrow> relaxes b c \<Longrightarrow> relaxes a c" for a b c
    unfolding relaxes_def by (metis (no_types, lifting) order_trans)
qed

lemma keeps_relax: "keeps (\<lambda>d. (gate_states d, gate_starts d)) m \<Longrightarrow> tx_rel relaxes m"
  by (auto simp: keeps_def tx_rel_def same_part_def relaxes_def keys_ok_def active_count_def
      last_started_def gate_row_of_def)

lemma relax_vacate: "tx_rel relaxes (vacate_scope code r)"
proof (rule tx_relI)
  fix d u d' assume run: "vacate_scope code r d = Inr (u, d')"
  show "relaxes d d'"
    unfolding relaxes_def
  proof (intro impI)
    assume keys: "keys_ok gate_states gate_key d"
    let ?v = "vacate_row (rs_scope r) (rs_key r)"
    have pos: "0 < active_count (rs_scope r) (rs_key r) d" and d': "d' = ?v d"
      using run by (simp_all add: vacate_scope_run [OF keys] split: if_splits)
    have "last_started s k (?v d) = last_started s k d" for s k
      by (cases "gate_row_of s k d") (auto simp: last_started_def gate_row_vacate)
    moreover have "gate_starts (?v d) = gate_starts d" by (simp add: vacate_row_def)
    ultimately show "keys_ok gate_states gate_key d' \<and> gate_starts d' = gate_starts d
      \<and> (\<forall>s k. active_count s k d' \<le> active_count s k d \<and> last_started s k d' = last_started s k d)"
      using keys_ok_vacate [OF keys] by (simp add: d' active_count_vacate [OF pos])
  qed
qed

lemma relax_cooldown: "tx_rel relaxes (sql_update gate_states_update p (later_cooldown c))"
proof -
  let ?u = "gate_states_update (update_where p (later_cooldown c))"
  have row: "gate_row_of s k (?u d) = map_option (\<lambda>g. if p g then later_cooldown c g else g)
      (gate_row_of s k d)" for s k d
    unfolding gate_row_of_def by (simp add: select_by_update_where later_cooldown_def)
  have "active_count s k (?u d) = active_count s k d" "last_started s k (?u d) = last_started s k d" for s k d
    by (cases "gate_row_of s k d"; simp add: active_count_def last_started_def row later_cooldown_def)+
  moreover have "keys_ok gate_states gate_key d \<Longrightarrow> keys_ok gate_states gate_key (?u d)" for d
    by (rule gs.update_keys_ok) (simp_all add: later_cooldown_def)
  ultimately show ?thesis
    by (auto simp: tx_rel_wp tx_wp relaxes_def)
qed

lemma relax_block:
  "tx_rel relaxes (tx_block [])"
  "tx_rel relaxes m \<Longrightarrow> tx_rel relaxes (tx_block ms) \<Longrightarrow> tx_rel relaxes (tx_block (m # ms))"
  by (auto intro: relax.rel_steps)

lemma relax_reclaim:
  "tx_rel relaxes (reclaim_reservation code ev reason t r)"
  "tx_rel relaxes (release_gate_occupancy lid t reason)"
  "tx_rel relaxes (recover_gate_reservations g t)"
proof -
  show each: "tx_rel relaxes (reclaim_reservation code ev reason t r)" for code ev reason r
    unfolding reclaim_reservation_def
    by (intro relax.rel_steps relax_block relax_vacate; rule keeps_relax; intro tx_frame; simp)
  show "tx_rel relaxes (release_gate_occupancy lid t reason)"
    "tx_rel relaxes (recover_gate_reservations g t)"
    unfolding release_gate_occupancy_def recover_gate_reservations_def
    by (intro relax.rel_steps each)+
qed

lemma relax_finish: "tx_rel relaxes (finish_body res st retry e l t)"
  unfolding finish_body_def record_cooldown_def
  by (intro relax.rel_steps relax_block relax_vacate relax_cooldown;
      rule keeps_relax; intro tx_frame; simp)

lemma relax_cancel: "tx_rel relaxes (cancel_body lid reason l t)"
proof -
  have flight: "tx_rel relaxes (cancel_started_flight fp t reason)" for fp
    unfolding cancel_started_flight_def cancel_in_flight_def
    by (intro relax.rel_steps relax_block relax_reclaim; rule keeps_relax; intro tx_frame; simp)
  have abandon: "tx_rel relaxes (abandon_reserved lid aid t)" for aid
    unfolding abandon_reserved_def
    by (intro relax_block relax_reclaim; rule keeps_relax; intro tx_frame; simp)
  have hand: "tx_rel relaxes (hand_over lid fp t reason)" for fp
    by (rule keeps_relax; unfold hand_over_def promote_def; intro tx_frame; simp)
  show ?thesis
    unfolding cancel_body_def cancel_follower_def cancel_leader_def Let_def
    by (intro relax.rel_steps relax_block flight abandon hand; rule keeps_relax; intro tx_frame; simp)
qed

lemma relax_recover: "tx_rel relaxes (recover_body owner t e)"
  unfolding recover_body_def settle_def
  by (intro relax.rel_steps relax_block relax_reclaim; rule keeps_relax; intro tx_frame; simp)


section \<open>The limits of one scope and key\<close>

definition starts_at :: "gate_scope \<Rightarrow> string \<Rightarrow> db \<Rightarrow> int list" where
  "starts_at s k d = map gt_at (filter (\<lambda>g. gt_scope g = s \<and> gt_key g = k) (gate_starts d))"

text \<open>The starts in the window of length \<open>w\<close> that ends at \<open>t\<close>.\<close>

definition in_window :: "int \<Rightarrow> int \<Rightarrow> int list \<Rightarrow> nat" where
  "in_window w t ts = count_where (\<lambda>x. t - w < x \<and> x \<le> t) ts"

definition spaced :: "int \<Rightarrow> int list \<Rightarrow> bool" where
  "spaced gap ts \<longleftrightarrow> sorted_wrt (\<lambda>a b. a + gap \<le> b) ts"

definition within_limits :: "gate_limit \<Rightarrow> gate_scope \<Rightarrow> string \<Rightarrow> db \<Rightarrow> bool" where
  "within_limits l s k d \<longleftrightarrow>
     active_count s k d \<le> gl_concurrency l
     \<and> (\<forall>t. int (in_window (timedelta_us (gl_window l)) t (starts_at s k d)) \<le> gl_requests l)
     \<and> spaced (timedelta_us (gl_min_interval l)) (starts_at s k d)"

definition last_recorded :: "db \<Rightarrow> bool" where
  "last_recorded d \<longleftrightarrow> (\<forall>s k. last_started s k d =
     (if starts_at s k d = [] then None else Some (last (starts_at s k d))))"

definition rates_ok :: "gate_policy \<Rightarrow> db \<Rightarrow> bool" where
  "rates_ok p d \<longleftrightarrow> keys_ok gate_states gate_key d \<and> last_recorded d
     \<and> (\<forall>s k l. p s = Some l \<longrightarrow> within_limits l s k d)"

lemma relax_rates: "tx_rel relaxes m \<Longrightarrow> preserves (rates_ok p) m"
  by (fastforce simp: tx_rel_def preserves_def implies_inv_def relaxes_def rates_ok_def last_recorded_def
      within_limits_def starts_at_def intro: order_trans)

text \<open>What an unblocked scope guarantees.\<close>

lemma first_block_free:
  assumes "first_block t p xs d = Inr None" and "(s, k) \<in> set xs"
  obtains l where "p s = Some l" "scope_block t l s k d = Inr None"
  using assms
  by (induction xs) (auto split: option.splits sum.splits)

lemma scope_block_free:
  assumes "scope_block t l s k d = Inr None"
  shows "active_count s k d < gl_concurrency l"
    and "int (starts_after s k (t - timedelta_us (gl_window l)) d) < gl_requests l"
    and "last_started s k d = Some u \<Longrightarrow> u + timedelta_us (gl_min_interval l) \<le> t"
    and "cooldown_until s k d = Some c \<Longrightarrow> c \<le> t"
  using assms
  by (auto simp: scope_block_def plus_us_Inr split: sum.splits option.splits if_splits bool.splits)

lemma starts_after_count: "starts_after s k c d = count_where (\<lambda>x. c < x) (starts_at s k d)"
  by (simp add: starts_after_def starts_at_def count_where_def filter_map comp_def
      conj_commute conj_left_commute flip: filter_filter)

lemma spaced_snoc:
  assumes "0 \<le> gap" and "spaced gap ts" and "ts \<noteq> [] \<Longrightarrow> last ts + gap \<le> t"
  shows "spaced gap (ts @ [t])"
proof -
  have "x + gap \<le> t" if "x \<in> set ts" for x
  proof -
    have ne: "ts \<noteq> []" using that by auto
    then obtain us where us: "ts = us @ [last ts]" by (metis append_butlast_last_id)
    with assms(2) have "\<forall>y \<in> set us. y + gap \<le> last ts"
      by (metis (no_types, lifting) list.set_intros(1) sorted_wrt_append spaced_def)
    with us that assms(1,3) ne have "x \<le> last ts"
      by (metis Un_iff append_is_Nil_conv dual_order.trans empty_iff empty_set le_add_same_cancel1
          order_refl set_ConsD set_append)
    with assms(3) ne show ?thesis by fastforce
  qed
  then show ?thesis using assms(2) by (simp add: spaced_def sorted_wrt_append)
qed

lemma count_where_mono: "(\<And>x. p x \<Longrightarrow> q x) \<Longrightarrow> count_where p xs \<le> count_where q xs"
  by (induction xs) (auto simp: row_simps)

lemma window_snoc:
  assumes "0 < w" and "int (count_where (\<lambda>x. t - w < x) ts) < n" and "\<And>u. int (in_window w u ts) \<le> n"
  shows "int (in_window w u (ts @ [t])) \<le> n"
proof (cases "u - w < t \<and> t \<le> u")
  case True
  then have "in_window w u ts \<le> count_where (\<lambda>x. t - w < x) ts"
    unfolding in_window_def by (intro count_where_mono) auto
  with assms(2) True show ?thesis by (simp add: in_window_def row_simps)
next
  case False
  then show ?thesis using assms(3) [of u] by (auto simp: in_window_def row_simps)
qed


section \<open>Acquisition keeps the limits\<close>

lemma new_starts:
  assumes "gates_taken rid a ks l t d d'"
  shows "starts_at s k d' = starts_at s k d @ (if (s, k) \<in> set (ordered ks) then [t] else [])"
proof -
  have "map gt_at (filter (\<lambda>g. gt_scope g = s \<and> gt_key g = k) (map (started_scope rid t) xs))
      = (if (s, k) \<in> set xs then [t] else [])" if "distinct (map fst xs)" for xs
    using that by (induction xs) (auto simp: started_scope_def image_iff filter_empty_conv)
  then show ?thesis
    using assms distinct_ordered by (simp add: gates_taken_def starts_at_def)
qed

lemma taken_limits:
  assumes lim: "within_limits l s k d" and last: "last_recorded d" and vl: "valid_gate_limit l"
    and taken: "gates_taken rid a ks ls t d d'"
    and free: "(s, k) \<in> set (ordered ks) \<Longrightarrow> scope_block t l s k d = Inr None"
  shows "within_limits l s k d'"
proof (cases "(s, k) \<in> set (ordered ks)")
  case False
  then have "active_count s k d' = active_count s k d" "starts_at s k d' = starts_at s k d"
    using taken new_starts [OF taken, of s k] by (simp_all add: gates_taken_def)
  then show ?thesis using lim by (simp add: within_limits_def)
next
  case True
  note block = scope_block_free [OF free [OF True]]
  have starts: "starts_at s k d' = starts_at s k d @ [t]" using True new_starts [OF taken] by simp
  have "active_count s k d' \<le> gl_concurrency l"
    using True taken block(1) by (simp add: gates_taken_def)
  moreover have "int (in_window (timedelta_us (gl_window l)) u (starts_at s k d')) \<le> gl_requests l" for u
  proof (cases "0 < timedelta_us (gl_window l)")
    case w: True
    show ?thesis
      unfolding starts
      by (rule window_snoc [OF w]) (use block(2) lim in \<open>simp_all add: starts_after_count within_limits_def\<close>)
  next
    case False
    then have "in_window (timedelta_us (gl_window l)) u ts = 0" for ts
      by (auto simp: in_window_def row_simps)
    then show ?thesis using vl by (simp add: valid_gate_limit_def)
  qed
  moreover have "spaced (timedelta_us (gl_min_interval l)) (starts_at s k d')"
    unfolding starts
  proof (rule spaced_snoc)
    show "0 \<le> timedelta_us (gl_min_interval l)"
      using vl by (simp add: valid_gate_limit_def timedelta_us_nonneg)
    show "spaced (timedelta_us (gl_min_interval l)) (starts_at s k d)"
      using lim by (simp add: within_limits_def)
    show "last (starts_at s k d) + timedelta_us (gl_min_interval l) \<le> t" if "starts_at s k d \<noteq> []"
      using block(3) last that by (simp add: last_recorded_def)
  qed
  ultimately show ?thesis by (simp add: within_limits_def)
qed

lemma taken_last:
  assumes "last_recorded d" and taken: "gates_taken rid a ks ls t d d'"
  shows "last_recorded d'"
  using assms(1) taken
  by (auto simp: last_recorded_def new_starts [OF taken]) (auto simp: gates_taken_def)

definition rates_inv :: "gate_policy \<Rightarrow> db \<Rightarrow> bool" where
  "rates_inv p d \<longleftrightarrow> primary_keys d \<and> rates_ok p d"

lemma preserves_rates:
  assumes "tx_rel history m" and "tx_rel relaxes m"
  shows "preserves (rates_inv p) m"
proof -
  have "preserves (rates_ok p) m" using assms(2) by (rule relax_rates)
  then show ?thesis
    using assms(1)
    by (auto simp: preserves_def tx_rel_def implies_inv_def history_def rates_inv_def)
qed

lemma taken_rates:
  assumes policy: "valid_gate_policy p" and ok: "rates_inv p d"
    and free: "first_block t p (ordered ks) d = Inr None"
    and "history d d'" and taken: "gates_taken rid a ks l t d d'"
  shows "rates_inv p d'"
proof -
  have keys: "primary_keys d'" using ok \<open>history d d'\<close> by (simp add: history_def rates_inv_def)
  moreover have "within_limits lim s k d'" if lim: "p s = Some lim" for s k lim
  proof (rule taken_limits [OF _ _ _ taken])
    show "within_limits lim s k d" "last_recorded d" using ok lim by (auto simp: rates_inv_def rates_ok_def)
    show "valid_gate_limit lim" using valid_gate_policyD [OF policy, of s] lim by simp
    show "scope_block t lim s k d = Inr None" if "(s, k) \<in> set (ordered ks)"
      using first_block_free [OF free that] lim by (metis option.inject)
  qed
  moreover have "last_recorded d'" using ok taken_last [OF _ taken] by (simp add: rates_inv_def rates_ok_def)
  ultimately show ?thesis by (simp add: rates_inv_def rates_ok_def primary_keys_def)
qed

lemma acquire_rates:
  assumes policy: "valid_gate_policy p"
  shows "preserves (rates_inv p) (acquire_gates_body rid a ks p l t)"
  unfolding preserves_wp
proof (intro allI impI)
  fix d assume ok: "rates_inv p d"
  have take: "tx_wp (take_gates rid a ks l t) (\<lambda>_. rates_inv p) d"
    if "first_block t p (ordered ks) d = Inr None"
    by (rule tx_wp_mono [OF tx_wp_conjI [OF hist.wp_rel [OF hist_take_gates] take_gates_wp]])
       (use taken_rates [OF policy ok that] in blast)
  have block: "tx_wp (record_block (pa_logical a) t b) (\<lambda>_. rates_inv p) d" for b
  proof -
    have "preserves (rates_inv p) (record_block (pa_logical a) t b)"
      unfolding record_block_def
      by (cases b, simp only: prod.case, rule preserves_rates, rule hist_events, rule keeps_relax,
          intro tx_frame, simp)
    then show ?thesis using ok by (simp add: preserves_wp)
  qed
  show "tx_wp (acquire_gates_body rid a ks p l t) (\<lambda>_. rates_inv p) d"
    unfolding acquire_gates_body_def gate_request_active_def tx_wp_bind tx_wp_block tx_wp_fenced
      tx_wp_check tx_wp_gets tx_wp_lift tx_wp_return
    by (intro impI allI) (use take block in \<open>auto split: option.split\<close>)
qed

text \<open>Runs whose acquisitions all use the policy \<open>p\<close>.\<close>

definition uses_policy :: "gate_policy \<Rightarrow> runtime_op \<Rightarrow> bool" where
  "uses_policy p op = (case op of Acquire_Gates rid a ks q l now \<Rightarrow> q = p | _ \<Rightarrow> True)"

interpretation rate: runtime_invariant "uses_policy p" "\<lambda>d. valid_gate_policy p \<longrightarrow> rates_inv p d" for p
proof unfold_locales
  have "rates_inv p create_schema" if policy: "valid_gate_policy p"
  proof -
    have "within_limits l s k create_schema" if "p s = Some l" for s k l
      using valid_gate_policyD [OF policy, of s] that
      by (auto simp: within_limits_def valid_gate_limit_def create_schema_def active_count_def
          gate_row_of_def starts_at_def in_window_def spaced_def row_simps)
    moreover have "last_recorded create_schema"
      by (simp add: last_recorded_def last_started_def gate_row_of_def starts_at_def create_schema_def row_simps)
    ultimately show ?thesis
      using primary_keys_create by (simp add: rates_inv_def rates_ok_def primary_keys_def)
  qed
  then show "valid_gate_policy p \<longrightarrow> rates_inv p create_schema" by blast
  have "rates_inv p (apply_op op d)" if policy: "valid_gate_policy p" and op: "uses_policy p op"
    and ok: "rates_inv p d" for op d
  proof (rule op_preserves [where I = "rates_inv p" and allowed = "uses_policy p", OF _ _ _ _ _ _ _ _ _ _ _ _ _ _ _ _ _ _ _ _ op ok])
    show "preserves (rates_inv p) (acquire_gates_body rid a ks q l t)"
      if "uses_policy p (Acquire_Gates rid a ks q l (utc t))" for rid a ks q l t
      using that acquire_rates [OF policy] by (simp add: uses_policy_def)
    show "preserves (rates_inv p) (finish_body res st retry e l t)"
      if "st \<in> {A_Succeeded, A_Failed, A_Unknown}" for res st retry e l t
      by (rule preserves_rates [OF hist_finish_body relax_finish]) (use that in auto)
  qed (rule preserves_rates, (rule hist_bodies; assumption?),
      (rule relax_cancel relax_recover | (rule keeps_relax; intro tx_frame; simp)))+
  then show "uses_policy p op \<Longrightarrow> valid_gate_policy p \<longrightarrow> rates_inv p d \<Longrightarrow>
      valid_gate_policy p \<longrightarrow> rates_inv p (apply_op op d)" for op d
    by blast
qed


section \<open>Cooldowns are never shortened\<close>

text \<open>From \<open>d\<close> to \<open>d'\<close> no gate row disappears and no cooldown ends earlier.\<close>

definition cooler :: "db \<Rightarrow> db \<Rightarrow> bool" where
  "cooler d d' \<longleftrightarrow> (keys_ok gate_states gate_key d \<longrightarrow> keys_ok gate_states gate_key d'
     \<and> (\<forall>s k g. gate_row_of s k d = Some g \<longrightarrow> (\<exists>g'. gate_row_of s k d' = Some g'
          \<and> (\<forall>c. gs_cooldown_until g = Some c \<longrightarrow> (\<exists>c' \<ge> c. gs_cooldown_until g' = Some c')))))"

lemma cooler_refl: "cooler d d"
  by (auto simp: cooler_def)

lemma cooler_trans:
  assumes "cooler a b" and "cooler b c"
  shows "cooler a c"
  unfolding cooler_def
proof (intro impI conjI allI)
  assume keys: "keys_ok gate_states gate_key a"
  with assms show "keys_ok gate_states gate_key c" by (auto simp: cooler_def)
  fix s k g assume g: "gate_row_of s k a = Some g"
  then obtain g1 where g1: "gate_row_of s k b = Some g1"
    "\<forall>c. gs_cooldown_until g = Some c \<longrightarrow> (\<exists>c' \<ge> c. gs_cooldown_until g1 = Some c')"
    using assms(1) keys unfolding cooler_def by blast
  moreover obtain g2 where "gate_row_of s k c = Some g2"
    "\<forall>c. gs_cooldown_until g1 = Some c \<longrightarrow> (\<exists>c' \<ge> c. gs_cooldown_until g2 = Some c')"
    using assms keys g1(1) unfolding cooler_def by blast
  ultimately show "\<exists>g'. gate_row_of s k c = Some g'
      \<and> (\<forall>c. gs_cooldown_until g = Some c \<longrightarrow> (\<exists>c' \<ge> c. gs_cooldown_until g' = Some c'))"
    by (meson order_trans)
qed

interpretation cool: preorder_on_states cooler
  by unfold_locales (rule cooler_refl, erule cooler_trans)

lemma keeps_cool: "keeps gate_states m \<Longrightarrow> tx_rel cooler m"
  by (auto simp: keeps_def tx_rel_def same_part_def cooler_def keys_ok_def gate_row_of_def)

lemma cool_update:
  assumes "\<And>g. gate_key (f g) = gate_key g"
    and "\<And>g c. gs_cooldown_until g = Some c \<Longrightarrow> \<exists>c' \<ge> c. gs_cooldown_until (f g) = Some c'"
  shows "cooler d (gate_states_update (update_where q f) d)"
proof -
  have "gate_row_of s k (gate_states_update (update_where q f) d)
      = map_option (\<lambda>g. if q g then f g else g) (gate_row_of s k d)" for s k
    unfolding gate_row_of_def by (simp add: select_by_update_where [where key = gate_key, OF assms(1)])
  then show ?thesis
    using assms(2) gs.update_keys_ok [of f d q] assms(1) by (auto simp: cooler_def)
qed

lemma later_cooldown_later:
  "gs_cooldown_until g = Some c \<Longrightarrow> \<exists>c' \<ge> c. gs_cooldown_until (later_cooldown e g) = Some c'"
  "\<exists>c' \<ge> e. gs_cooldown_until (later_cooldown e g) = Some c'"
  "gate_key (later_cooldown e g) = gate_key g"
  by (auto simp: later_cooldown_def split: option.splits)

lemma cool_writes:
  "tx_rel cooler (vacate_scope code r)"
  "tx_rel cooler (sql_update gate_states_update q (later_cooldown c))"
  "tx_rel cooler (sql_upsert gate_states gate_states_update gate_key (new_gate s k t)
     (\<lambda>g. g\<lparr>gs_active := gs_active g + 1, gs_last_started := Some t\<rparr>))"
proof -
  show "tx_rel cooler (vacate_scope code r)"
    unfolding vacate_scope_def tx_rel_wp tx_wp by (intro allI impI cool_update) auto
  show "tx_rel cooler (sql_update gate_states_update q (later_cooldown c))"
    unfolding tx_rel_wp tx_wp by (intro allI impI cool_update later_cooldown_later)
  have "cooler d (gate_states_update (\<lambda>rs. rs @ [new_gate s k t]) d)" if "(s, k) \<notin> gate_key ` set (gate_states d)" for d
    using that by (auto simp: cooler_def keys_ok_def gate_row_of_def select_by_append new_gate_def)
  then show "tx_rel cooler (sql_upsert gate_states gate_states_update gate_key (new_gate s k t)
     (\<lambda>g. g\<lparr>gs_active := gs_active g + 1, gs_last_started := Some t\<rparr>))"
    unfolding tx_rel_wp tx_wp by (auto intro!: cool_update simp: new_gate_def)
qed


lemma cool_block:
  "tx_rel cooler (tx_block [])"
  "tx_rel cooler m \<Longrightarrow> tx_rel cooler (tx_block ms) \<Longrightarrow> tx_rel cooler (tx_block (m # ms))"
  by (auto intro: cool.rel_steps)

lemma cool_bodies:
  "tx_rel cooler (finish_body res st retry e l t)"
  "tx_rel cooler (cancel_body lid reason l t)"
  "tx_rel cooler (recover_body owner t ex)"
  "tx_rel cooler (acquire_gates_body rid a ks p l t)"
proof -
  have reclaim: "tx_rel cooler (reclaim_reservation code ev rs t r)" for code ev rs r
    unfolding reclaim_reservation_def
    by (intro cool.rel_steps cool_block cool_writes; rule keeps_cool; intro tx_frame; simp)
  have release: "tx_rel cooler (release_gate_occupancy lid t rs)"
    "tx_rel cooler (recover_gate_reservations g t)" for lid rs g
    unfolding release_gate_occupancy_def recover_gate_reservations_def
    by (intro cool.rel_steps reclaim)+
  show "tx_rel cooler (finish_body res st retry e l t)"
    unfolding finish_body_def record_cooldown_def
    by (intro cool.rel_steps cool_block cool_writes; rule keeps_cool; intro tx_frame; simp)
  have flight: "tx_rel cooler (cancel_started_flight fp t reason)" for fp
    unfolding cancel_started_flight_def cancel_in_flight_def
    by (intro cool.rel_steps cool_block release; rule keeps_cool; intro tx_frame; simp)
  have abandon: "tx_rel cooler (abandon_reserved lid aid t)" for aid
    unfolding abandon_reserved_def
    by (intro cool_block release; rule keeps_cool; intro tx_frame; simp)
  have hand: "tx_rel cooler (hand_over lid fp t reason)" for fp
    by (rule keeps_cool; unfold hand_over_def promote_def; intro tx_frame; simp)
  show "tx_rel cooler (cancel_body lid reason l t)"
    unfolding cancel_body_def cancel_follower_def cancel_leader_def Let_def
    by (intro cool.rel_steps cool_block flight abandon hand; rule keeps_cool; intro tx_frame; simp)
  show "tx_rel cooler (recover_body owner t ex)"
    unfolding recover_body_def settle_def
    by (intro cool.rel_steps cool_block release; rule keeps_cool; intro tx_frame; simp)
  have occupy: "tx_rel cooler (occupy_scope rid lid t x)" for lid x
    unfolding occupy_scope_def
    by (intro cool_block cool_writes; rule keeps_cool; intro tx_frame; simp)
  have event: "tx_rel cooler (record_block lid t b)" for lid b
    unfolding record_block_def
    by (cases b, simp only: prod.case, rule keeps_cool, intro tx_frame, simp)
  show "tx_rel cooler (acquire_gates_body rid a ks p l t)"
    unfolding acquire_gates_body_def take_gates_def
    by (intro cool.rel_steps cool_block occupy event; rule keeps_cool; intro tx_frame; simp)
qed

lemma cool_op: "cooler d (apply_op op d)"
proof -
  have "preserves (cooler d) m" if "tx_rel cooler m" for m :: "(db, 'a) tx"
    using that cooler_trans by (fastforce simp: preserves_def tx_rel_def implies_inv_def)
  note step = this
  show ?thesis
    by (rule op_preserves [where I = "cooler d" and allowed = any_op];
        (rule TrueI cooler_refl | (rule step, (rule cool_bodies | (rule keeps_cool; intro tx_frame; simp)))))
qed

lemma cool_ops: "cooler d (fold apply_op ops d)"
  by (induction ops arbitrary: d) (auto intro: cooler_refl cooler_trans cool_op)


section \<open>What an acquisition does\<close>

definition block_event :: "string \<Rightarrow> int \<Rightarrow> gate_event \<Rightarrow> bool" where
  "block_event lid t ev \<longleftrightarrow> ge_logical ev = lid \<and> ge_at ev = t \<and> ge_reservation ev = None
     \<and> ge_type ev \<in> {''blocked'', ''cooldown''}"

lemma acquire_body_wp:
  "tx_wp (acquire_gates_body rid a ks p l t) (\<lambda>blocked d'.
     first_block t p (ordered ks) d = Inr blocked
     \<and> (case blocked of
          None \<Rightarrow> gates_taken rid a ks l t d d'
        | Some b \<Rightarrow> (\<exists>ev. block_event (pa_logical a) t ev \<and> d' = gate_log_update (\<lambda>es. es @ [ev]) d))) d"
proof -
  have take: "tx_wp (take_gates rid a ks l t) (\<lambda>_ d'. first_block t p (ordered ks) d = Inr None
      \<and> gates_taken rid a ks l t d d') d" if "first_block t p (ordered ks) d = Inr None"
    by (rule tx_wp_mono [OF take_gates_wp]) (simp add: that)
  have block: "tx_wp (record_block lid t b) (\<lambda>_ d'. \<exists>ev. block_event lid t ev
      \<and> d' = gate_log_update (\<lambda>es. es @ [ev]) d) d" for lid b
    by (cases b, simp only: record_block_def append_gate_event_def logical_exists_def tx_wp prod.case)
       (intro impI, rule exI, rule conjI [rotated], rule refl, simp add: block_event_def)
  show ?thesis
    unfolding acquire_gates_body_def gate_request_active_def tx_wp_bind tx_wp_block tx_wp_fenced
      tx_wp_check tx_wp_gets tx_wp_lift tx_wp_return
    by (intro impI allI) (use take block in \<open>auto split: option.split\<close>)
qed

lemma acquire_gates_cases:
  assumes "acquire_gates rid a ks p l now d = (d', r)"
  shows "case r of
      Inr g \<Rightarrow> (\<exists>t. now = utc t \<and> first_block t p (ordered ks) d = Inr None
        \<and> gates_taken rid a ks l t d d')
    | Inl e \<Rightarrow> d' = d \<or> (\<exists>ev t. now = utc t \<and> block_event (pa_logical a) t ev
        \<and> d' = gate_log_update (\<lambda>es. es @ [ev]) d)"
proof (cases "\<exists>t b d1. now = utc t \<and> acquire_gates_body rid a ks p l t d = Inr (b, d1) \<and> d' = d1
    \<and> r = gate_outcome \<lparr>gr_id = rid, gr_attempt = pa_id a, gr_logical = pa_logical a,
         gr_generation = rl_generation l, gr_acquired_at = isoformat t\<rparr> b")
  case True
  then obtain t b where t: "now = utc t" "acquire_gates_body rid a ks p l t d = Inr (b, d')"
    and r: "r = gate_outcome \<lparr>gr_id = rid, gr_attempt = pa_id a, gr_logical = pa_logical a,
         gr_generation = rl_generation l, gr_acquired_at = isoformat t\<rparr> b"
    by blast
  from tx_wpD [OF acquire_body_wp t(2)] show ?thesis
    by (cases b) (auto simp: r gate_outcome_def t(1))
next
  case False
  then have "d' = d \<and> (\<exists>e. r = Inl e)"
    using assms
    by (auto simp: acquire_gates_def with_clock_def validate_utc_Inr run_tx_def after_commit_def
        split: sum.splits if_splits prod.splits)
  then show ?thesis by auto
qed

text \<open>C10: an acquisition is all or nothing: it takes one slot of each of the eight scopes, or it
  raises and changes no table at all except for at most one audit event of the gate that blocked it.\<close>

theorem acquisition_is_all_or_nothing:
  "case acquire_gates rid a ks p l (utc t) d of
      (d', Inr g) \<Rightarrow> (\<forall>s k. active_count s k d' =
          active_count s k d + (if (s, k) \<in> set (ordered ks) then 1 else 0))
        \<and> length (scopes_of rid d') = length (scopes_of rid d) + 8
    | (d', Inl e) \<Rightarrow> d' = d \<or> (\<exists>ev. block_event (pa_logical a) t ev
        \<and> d' = gate_log_update (\<lambda>es. es @ [ev]) d)"
proof -
  obtain d' r where run: "acquire_gates rid a ks p l (utc t) d = (d', r)" by fastforce
  have "length (scopes_of rid d') = length (scopes_of rid d) + 8"
    if "gates_taken rid a ks l t d d'"
  proof -
    have "filter (\<lambda>r. rs_reservation r = rid) (map (scope_row rid) xs) = map (scope_row rid) xs" for xs
      by (induction xs) (auto simp: scope_row_def)
    then show ?thesis using that by (simp add: gates_taken_def scopes_of_def)
  qed
  then show ?thesis
    using acquire_gates_cases [OF run]
    by (cases r) (auto simp: run gates_taken_def)
qed


section \<open>The limits, as the operator configured them\<close>

lemma reachable_weaken: "reachable allowed d \<Longrightarrow> reachable any_op d"
  by (induction rule: reachable.induct) (auto intro: reachable.initial reachable.step)

lemma limits_always:
  assumes "reachable (uses_policy p) d" and "valid_gate_policy p" and "p s = Some l"
  shows "within_limits l s k d"
  using rate.always [OF assms(1)] assms(2,3) by (simp add: rates_inv_def rates_ok_def)

text \<open>C11: the concurrency limit: with one valid policy in force, the active reservations that
  hold a slot of a scope and key are never more than the limit of the scope.\<close>

theorem concurrency_never_exceeded:
  assumes "reachable (uses_policy p) d" and "valid_gate_policy p" and "p s = Some l"
  shows "int (holders s k d) \<le> gl_concurrency l"
  using limits_always [OF assms, of k] counters_reachable [OF reachable_weaken [OF assms(1)], of s k]
  by (simp add: within_limits_def)

text \<open>C12: the rolling window: with one valid policy in force, every interval of the window's
  length contains at most the configured number of starts of a scope and key, also when clock
  readings go back and forth.\<close>

theorem rolling_window_never_exceeded:
  assumes "reachable (uses_policy p) d" and "valid_gate_policy p" and "p s = Some l"
  shows "int (in_window (timedelta_us (gl_window l)) t (starts_at s k d)) \<le> gl_requests l"
  using limits_always [OF assms] by (simp add: within_limits_def)

text \<open>C13: the minimum interval: with one valid policy in force, the starts of a scope and key
  are in order of time and any two of them are at least the configured interval apart.\<close>

theorem starts_keep_their_distance:
  assumes "reachable (uses_policy p) d" and "valid_gate_policy p" and "p s = Some l"
    and "i < j" and "j < length (starts_at s k d)"
  shows "starts_at s k d ! i + timedelta_us (gl_min_interval l) \<le> starts_at s k d ! j"
  using limits_always [OF assms(1-3)] assms(4,5)
  by (simp add: within_limits_def spaced_def sorted_wrt_iff_nth_less)

lemma cooled_blocks:
  assumes "gate_row_of s k d = Some g" and "gs_cooldown_until g = Some c" and "now < c"
    and "(s, k) \<in> set (ordered ks)"
  shows "first_block now p (ordered ks) d \<noteq> Inr None"
proof
  assume "first_block now p (ordered ks) d = Inr None"
  from first_block_free [OF this assms(4)] obtain l where "scope_block now l s k d = Inr None" .
  from scope_block_free(4) [OF this, of c] show False
    using assms by (simp add: cooldown_until_def)
qed

lemma record_cooldown_wp:
  assumes "keys_ok gate_states gate_key d" and "gate_row_of S_Provider k d = Some g"
    and "find (\<lambda>r. rs_scope r = S_Provider) xs = Some r" and "rs_key r = k"
  shows "tx_wp (record_cooldown res secs t xs) (\<lambda>_ d'. keys_ok gate_states gate_key d' \<and>
    (\<exists>g' c. gate_row_of S_Provider k d' = Some g' \<and> gs_cooldown_until g' = Some c
       \<and> t + timedelta_us secs \<le> c)) d"
proof -
  have row: "gate_row_of S_Provider k (gate_states_update (update_where
      (\<lambda>g. gs_scope g = S_Provider \<and> gs_key g = k) (later_cooldown e)) d) = Some (later_cooldown e g)" for e
    using gate_row_updated [of "later_cooldown e" S_Provider k S_Provider k d] assms(2)
    by (simp add: later_cooldown_later)
  have keys: "keys_ok gate_states gate_key (gate_states_update (update_where q (later_cooldown e)) d)" for q e
    by (rule gs.update_keys_ok) (use assms(1) in \<open>simp_all add: later_cooldown_def\<close>)
  have log: "gate_row_of S_Provider k (gate_log_update h d1) = gate_row_of S_Provider k d1"
    "keys_ok gate_states gate_key (gate_log_update h d1) = keys_ok gate_states gate_key d1" for h d1
    by (simp_all add: gate_row_of_def keys_ok_def)
  show ?thesis
    unfolding record_cooldown_def assms(3) option.case tx_wp_bind tx_wp_lift append_gate_event_def
      tx_wp_block tx_wp_sql_update logical_exists_def tx_wp_check tx_wp_modify assms(4) log row
    using keys later_cooldown_later(2) [of "t + timedelta_us secs" g]
    by (auto simp: plus_us_Inr)
qed


lemma provider_scope_found:
  assumes ok: "occupancy_ok d" and x: "x \<in> set (scopes_of rid d)" "rs_scope x = S_Provider"
  shows "find (\<lambda>r. rs_scope r = S_Provider) (order_by rs_scope (scopes_of rid d)) = Some x"
proof -
  have "\<exists>y \<in> set (order_by rs_scope (scopes_of rid d)). rs_scope y = S_Provider" using x by auto
  then obtain y where y: "find (\<lambda>r. rs_scope r = S_Provider) (order_by rs_scope (scopes_of rid d)) = Some y"
    by (cases "find (\<lambda>r. rs_scope r = S_Provider) (order_by rs_scope (scopes_of rid d))")
       (auto simp: find_None_iff)
  then have "y \<in> set (scopes_of rid d)" "rs_scope y = S_Provider" by (auto dest!: find_SomeD)
  moreover have "distinct (map (\<lambda>r. (rs_reservation r, rs_scope r)) (reserved_scopes d))"
    using ok by (simp add: occupancy_ok_def primary_keys_def keys_ok_def)
  ultimately have "y = x"
    using x by (auto simp: scopes_of_def intro: distinct_key_eq)
  with y show ?thesis by simp
qed

lemma held_gate_row:
  assumes ok: "occupancy_ok d" and act: "active_res d rid" and x: "x \<in> set (scopes_of rid d)"
  shows "gate_row_of (rs_scope x) (rs_key x) d \<noteq> None"
proof
  assume none: "gate_row_of (rs_scope x) (rs_key x) d = None"
  have "0 < count_where (at_gate (rs_scope x) (rs_key x)) (scopes_of rid d)"
    using x by (auto simp: at_gate_def neq0_conv [symmetric] count_where_zero simp del: neq0_conv)
  then have "0 < active_count (rs_scope x) (rs_key x) d"
    using holders_cover [OF act, of "rs_scope x" "rs_key x"] ok
    by (simp add: occupancy_ok_def counters_exact_def)
  then show False using none by (simp add: active_count_def)
qed

lemma retry_cools:
  assumes ok: "occupancy_ok d" and x: "x \<in> set (scopes_of (gr_id res) d)" "rs_scope x = S_Provider"
  shows "tx_wp (finish_body res st (Some secs) e l t) (\<lambda>_ d'. keys_ok gate_states gate_key d' \<and>
    (\<exists>g c. gate_row_of S_Provider (rs_key x) d' = Some g \<and> gs_cooldown_until g = Some c
       \<and> t + timedelta_us secs \<le> c)) d" (is "tx_wp _ (\<lambda>_. ?cooled) d")
proof -
  let ?xs = "order_by rs_scope (scopes_of (gr_id res) d)"
  note find = provider_scope_found [OF ok x]
  have act: "active_res d (gr_id res)" if "reservation_current res l ?xs d"
    using that by (auto simp: reservation_current_def active_res_def list_ex_iff
        split: option.splits dest!: select_by_SomeD)
  have cooled: "tx_wp m (\<lambda>_. ?cooled) d1" if "tx_rel cooler m" "?cooled d1" for m :: "(db, unit) tx" and d1
    by (rule tx_wp_rel [OF that(1)]) (use that(2) in \<open>fastforce simp: cooler_def intro: order_trans\<close>)
  have last: "tx_wp (tx_block [record_cooldown res secs t ?xs, append_gate_event lid rid sc ky ev t rs])
      (\<lambda>_. ?cooled) d1"
    if cool: "cooler d d1" and cur: "reservation_current res l ?xs d" for d1 lid rid sc ky ev rs
  proof -
    obtain g0 where "gate_row_of S_Provider (rs_key x) d = Some g0"
      using held_gate_row [OF ok act [OF cur] x(1)] x(2) by auto
    then obtain g where "keys_ok gate_states gate_key d1" "gate_row_of S_Provider (rs_key x) d1 = Some g"
      using cool occupancy_keys [OF ok] unfolding cooler_def by blast
    from record_cooldown_wp [OF this find refl] show ?thesis
      unfolding tx_wp_block
      by (rule tx_wp_mono) (rule cooled [rotated], assumption, rule keeps_cool, intro tx_frame, simp)
  qed
  have steps: "tx_rel cooler (tx_for ?xs (vacate_scope c))" "tx_rel cooler (set_reservation_state rid rst)"
    "tx_rel cooler (finish_attempt aid st e)" for c rid rst aid
    by (intro cool.rel_steps cool_writes | (rule keeps_cool, intro tx_frame, simp))+
  show ?thesis
    unfolding finish_body_def tx_wp_bind tx_wp_gets tx_wp_fenced option.case
      tx_wp_block(2) [of "tx_check _ _"] tx_wp_block(2) [of "tx_for _ _"]
      tx_wp_block(2) [of "set_reservation_state _ _"] tx_wp_block(2) [of "finish_attempt _ _ _"] tx_wp_check
    by (intro impI tx_wp_rel [OF steps(1)] tx_wp_rel [OF steps(2)] tx_wp_rel [OF steps(3)])
       (rule last, blast intro: cooler_trans)
qed

text \<open>C23: a provider's \<open>Retry-After\<close> is honoured: after it was recorded with \<open>secs\<close> seconds at
  time \<open>t\<close>, no acquisition that names the provider's key succeeds at any clock reading before
  \<open>t + secs\<close>, whatever operations run in between.\<close>

theorem retry_after_is_honoured:
  assumes "reachable any_op d" and "record_retry_after res (Some secs) l (utc t) d = (d1, Inr ())"
    and "x \<in> set (scopes_of (gr_id res) d)" and "rs_scope x = S_Provider"
    and "gk_provider ks = rs_key x" and "now < t + timedelta_us secs"
  shows "error_of (acquire_gates rid a ks p l' (utc now) (fold apply_op ops d1)) \<noteq> None"
proof
  let ?d = "fold apply_op ops d1"
  assume "error_of (acquire_gates rid a ks p l' (utc now) ?d) = None"
  then obtain d' g where run: "acquire_gates rid a ks p l' (utc now) ?d = (d', Inr g)"
    by (cases "acquire_gates rid a ks p l' (utc now) ?d") (auto simp: error_of_def split: sum.splits)
  have free: "first_block now p (ordered ks) ?d = Inr None"
    using acquire_gates_cases [OF run] by simp
  have "finish_body res A_Failed (Some secs) True l t d = Inr ((), d1)"
    using assms(2) by (auto simp: record_retry_after_def finish_gate_reservation_def with_clock_ok run_tx_ok
        split: if_splits)
  from tx_wpD [OF retry_cools [OF occ.always [OF assms(1)] assms(3,4)] this]
  obtain g c where g: "keys_ok gate_states gate_key d1" "gate_row_of S_Provider (rs_key x) d1 = Some g"
    "gs_cooldown_until g = Some c" "t + timedelta_us secs \<le> c"
    by blast
  obtain g' c' where "gate_row_of S_Provider (rs_key x) ?d = Some g'" "gs_cooldown_until g' = Some c'" "c \<le> c'"
    using cool_ops [of d1 ops] g by (fastforce simp: cooler_def)
  moreover have "(S_Provider, rs_key x) \<in> set (ordered ks)"
    using assms(5) by (simp add: ordered_def)
  ultimately show False
    using cooled_blocks [of S_Provider "rs_key x" ?d g' c' now ks p] free g(4) assms(6) by simp
qed


section \<open>Witnesses\<close>

lemma limited_sent: "reachable (uses_policy sample_policy) sent_db"
proof -
  have "reachable (uses_policy sample_policy) (fold apply_op (admitted_run @
      [Claim ''domain-1'' sample_lease (at_second 3),
       Acquire_Gates ''res-1'' (sample_attempt ''att-1'' ''req-1'' 1) sample_keys sample_policy
         sample_lease (at_second 4),
       Mark_Started ''att-1'' sample_lease (at_second 5)]) create_schema)"
    by (rule reachable_trans [OF reachable.initial])
       (simp add: uses_policy_def admitted_run_def leased_run_def)
  then show ?thesis
    by (simp only: fold_append comp_apply fold_simps id_apply after_admitted_run [unfolded after_run_def]
        after_claimed_run after_gates)
qed

lemma sample_policy_valid: "valid_gate_policy sample_policy"
  by code_simp

theorem concurrency_never_exceeded_witness:
  "int (holders S_Provider ''p'' sent_db) \<le> gl_concurrency sample_limit"
  by (rule concurrency_never_exceeded [OF limited_sent sample_policy_valid]) (simp add: sample_policy_def)

theorem rolling_window_never_exceeded_witness:
  "int (in_window (timedelta_us (gl_window sample_limit)) (noon + 5000000) (starts_at S_Provider ''p'' sent_db))
     \<le> gl_requests sample_limit"
  by (rule rolling_window_never_exceeded [OF limited_sent sample_policy_valid]) (simp add: sample_policy_def)


text \<open>The sample run with a second attempt.\<close>

definition second_run :: "runtime_op list" where
  "second_run =
     [Release_Gates held ''failed'' sample_lease (at_second 6) None,
      Acquire_Gates ''res-2'' (sample_attempt ''att-2'' ''req-1'' 2) sample_keys sample_policy
        sample_lease (at_second 10)]"

lemma two_starts: "starts_at S_Provider ''p'' (fold apply_op second_run sent_db) = [noon + 4000000, noon + 10000000]"
  by code_simp

theorem starts_keep_their_distance_witness:
  "noon + 4000000 + timedelta_us (gl_min_interval sample_limit) \<le> noon + 10000000"
proof -
  have "reachable (uses_policy sample_policy) (fold apply_op second_run sent_db)"
    by (rule reachable_trans [OF limited_sent]) (simp add: second_run_def uses_policy_def)
  from starts_keep_their_distance [OF this sample_policy_valid, of S_Provider sample_limit 0 1 "''p''"]
  show ?thesis by (simp add: two_starts sample_policy_def)
qed

lemma cooled_sent:
  "snd (record_retry_after held (Some 30) sample_lease (utc (noon + 6000000)) sent_db) = Inr ()"
  by code_simp

theorem retry_after_is_honoured_witness:
  "error_of (acquire_gates ''res-2'' (sample_attempt ''att-2'' ''req-1'' 2) sample_keys sample_policy sample_lease
      (utc (noon + 20000000)) (fst (record_retry_after held (Some 30) sample_lease (utc (noon + 6000000)) sent_db)))
     \<noteq> None"
  by (rule retry_after_is_honoured [where d = sent_db and res = held and secs = 30 and l = sample_lease
        and t = "noon + 6000000" and x = "scope_row ''res-1'' (S_Provider, ''p'')" and ops = "[]",
        simplified fold_simps id_apply])
     (simp_all add: cooled_sent prod_eq_iff, simp_all add: scopes_of_def sent_db_def held_def
       sample_reservation_def scope_row_def ordered_def all_scopes_def sample_keys_def timedelta_us_of_int
       [of 30, simplified])

end
