(* ===== verification/Sha256.thy ===== *)
theory Sha256
  imports Production "HOL-Library.Word"
begin

text \<open>
  \<open>hashlib.sha256(data).hexdigest()\<close> (FIPS 180-4), which \<open>requests/transport.py\<close> and
  \<open>requests/raw_artifacts.py\<close> use to identify the exact bytes of a response, and the two facts
  about it the code relies on: its value is a text the \<open>Sha256Hex\<close> contract accepts, and it
  depends on nothing but the bytes.
\<close>

unbundle bit_operations_syntax

type_synonym bytes = "8 word list"

section \<open>The compression function\<close>

text \<open>
  The constants as FIPS 180-4 derives them: the first 32 bits of the fractional parts of the cube
  roots of the first 64 primes, and of the square roots of the first eight. \<open>integer_root\<close> fixes
  the bits of the root from the most significant one; 38 bits hold every root needed
  (\<open>sqrt 19 < 2 ^ 6\<close>, \<open>cbrt 311 < 2 ^ 6\<close>, both scaled by \<open>2 ^ 32\<close>).
\<close>

definition small_primes :: "int list" where
  "small_primes =
     [2, 3, 5, 7, 11, 13, 17, 19, 23, 29, 31, 37, 41, 43, 47, 53,
      59, 61, 67, 71, 73, 79, 83, 89, 97, 101, 103, 107, 109, 113, 127, 131,
      137, 139, 149, 151, 157, 163, 167, 173, 179, 181, 191, 193, 197, 199, 211, 223,
      227, 229, 233, 239, 241, 251, 257, 263, 269, 271, 277, 281, 283, 293, 307, 311]"

definition integer_root :: "nat \<Rightarrow> int \<Rightarrow> int" where
  "integer_root k n = foldl (\<lambda>r i. if (r + 2 ^ i) ^ k \<le> n then r + 2 ^ i else r) 0 (rev [0..<38])"

definition fraction_bits :: "nat \<Rightarrow> int \<Rightarrow> 32 word" where
  "fraction_bits k p = word_of_int (integer_root k (p * 2 ^ (32 * k)))"

definition round_constants :: "32 word list" where
  "round_constants = map (fraction_bits 3) small_primes"

definition initial_hash :: "32 word list" where
  "initial_hash = map (fraction_bits 2) (take 8 small_primes)"

lemma enough_primes: "length small_primes = 64"
  by (simp add: small_primes_def)

definition xor_rotated :: "nat \<Rightarrow> nat \<Rightarrow> 32 word \<Rightarrow> 32 word" where
  "xor_rotated i j x = word_rotr i x XOR word_rotr j x"

definition small_sigma0 :: "32 word \<Rightarrow> 32 word" where
  "small_sigma0 x = xor_rotated 7 18 x XOR drop_bit 3 x"

definition small_sigma1 :: "32 word \<Rightarrow> 32 word" where
  "small_sigma1 x = xor_rotated 17 19 x XOR drop_bit 10 x"

text \<open>The message schedule: \<open>n\<close> more words after the ones at hand.\<close>

fun schedule :: "nat \<Rightarrow> 32 word list \<Rightarrow> 32 word list" where
  "schedule 0 w = w"
| "schedule (Suc n) w = (let k = length w in
     schedule n (w @ [small_sigma1 (w ! (k - 2)) + w ! (k - 7) + small_sigma0 (w ! (k - 15)) + w ! (k - 16)]))"

fun sha_round :: "32 word list \<Rightarrow> 32 word \<times> 32 word \<Rightarrow> 32 word list" where
  "sha_round [a, b, c, d, e, f, g, h] (k, w) =
     (let t1 = h + (xor_rotated 6 11 e XOR word_rotr 25 e) + ((e AND f) XOR (NOT e AND g)) + k + w;
          t2 = (xor_rotated 2 13 a XOR word_rotr 22 a) + ((a AND b) XOR (a AND c) XOR (b AND c))
      in [t1 + t2, a, b, c, d + t1, e, f, g])"
| "sha_round s kw = s"

definition compress :: "32 word list \<Rightarrow> 32 word list \<Rightarrow> 32 word list" where
  "compress hs block =
     map2 (+) hs (foldl sha_round hs (zip round_constants (schedule 48 block)))"

section \<open>Padding and digest\<close>

definition word_of_bytes :: "bytes \<Rightarrow> 32 word" where
  "word_of_bytes bs = foldl (\<lambda>w b. push_bit 8 w OR ucast b) 0 bs"

text \<open>The length in bits, as eight bytes, most significant first.\<close>

definition length_bytes :: "64 word \<Rightarrow> bytes" where
  "length_bytes n = map (\<lambda>i. ucast (drop_bit (8 * i) n)) [7, 6, 5, 4, 3, 2, 1, 0]"

definition padded :: "bytes \<Rightarrow> bytes" where
  "padded bs = bs @ [0x80] @ replicate ((119 - length bs mod 64) mod 64) 0 @ length_bytes (8 * word_of_nat (length bs))"

function chunks :: "nat \<Rightarrow> 'a list \<Rightarrow> 'a list list" where
  "chunks k xs = (if k = 0 \<or> xs = [] then [] else take k xs # chunks k (drop k xs))"
  by auto

termination chunks
  by (relation "measure (\<lambda>(k, xs). length xs)") auto

declare chunks.simps [simp del]

definition sha256 :: "bytes \<Rightarrow> 32 word list" where
  "sha256 bs = foldl (\<lambda>h block. compress h (map word_of_bytes (chunks 4 block)))
     initial_hash (chunks 64 (padded bs))"

definition hex_digit :: "nat \<Rightarrow> char" where
  "hex_digit n = char_of (if n < 10 then 48 + n else 87 + n)"

definition hex_of :: "32 word \<Rightarrow> string" where
  "hex_of w = map (\<lambda>i. hex_digit (unat (ucast (drop_bit (4 * i) w) :: 4 word))) [7, 6, 5, 4, 3, 2, 1, 0]"

definition sha256_hex :: "bytes \<Rightarrow> string" where
  "sha256_hex bs = concat (map hex_of (sha256 bs))"


section \<open>The digest is a valid \<open>Sha256Hex\<close>\<close>

lemma length_sha_round: "length s = 8 \<Longrightarrow> length (sha_round s kw) = 8"
  by (induction s kw rule: sha_round.induct) (auto simp: Let_def)

lemma length_compress: "length hs = 8 \<Longrightarrow> length (compress hs block) = 8"
proof -
  have "length s = 8 \<Longrightarrow> length (foldl sha_round s kws) = 8" for s kws
    by (induction kws arbitrary: s) (simp_all add: length_sha_round)
  then show "length hs = 8 \<Longrightarrow> length (compress hs block) = 8"
    by (simp add: compress_def)
qed

lemma length_sha256: "length (sha256 bs) = 8"
proof -
  have "length hs = 8 \<Longrightarrow> length (foldl (\<lambda>h block. compress h (f block)) hs blocks) = 8" for hs f and blocks :: "bytes list"
    by (induction blocks arbitrary: hs) (simp_all add: length_compress)
  then show ?thesis by (simp add: sha256_def initial_hash_def enough_primes)
qed

lemma length_hex_words: "length (concat (map hex_of ws)) = 8 * length ws"
  by (induction ws) (simp_all add: hex_of_def)

lemma length_sha256_hex: "length (sha256_hex bs) = 64"
  by (simp add: sha256_hex_def length_hex_words length_sha256)


lemma hex_digit_valid:
  assumes "n < 16"
  shows "(CHR ''0'' \<le> hex_digit n \<and> hex_digit n \<le> CHR ''9'')
    \<or> (CHR ''a'' \<le> hex_digit n \<and> hex_digit n \<le> CHR ''f'')"
proof -
  have "\<forall>n \<in> set [0..<16]. (CHR ''0'' \<le> hex_digit n \<and> hex_digit n \<le> CHR ''9'')
    \<or> (CHR ''a'' \<le> hex_digit n \<and> hex_digit n \<le> CHR ''f'')"
    by code_simp
  with assms show ?thesis by auto
qed

lemma sha256_hex_valid: "is_sha256_hex (sha256_hex bs)"
proof -
  have small: "unat (w :: 4 word) < 16" for w
    using unsigned_less [of w] by simp
  have "list_all (\<lambda>c. (CHR ''0'' \<le> c \<and> c \<le> CHR ''9'') \<or> (CHR ''a'' \<le> c \<and> c \<le> CHR ''f'')) (hex_of w)" for w
    unfolding hex_of_def by (auto simp: list_all_iff intro!: hex_digit_valid small)
  then have "list_all (\<lambda>c. (CHR ''0'' \<le> c \<and> c \<le> CHR ''9'') \<or> (CHR ''a'' \<le> c \<and> c \<le> CHR ''f'')) (sha256_hex bs)"
    by (auto simp: sha256_hex_def list_all_iff)
  then show ?thesis by (simp add: is_sha256_hex_def length_sha256_hex)
qed

end
