(* ===== verification/Effects.thy ===== *)
theory Effects
  imports Prelude
begin

text \<open>
  Python code that is not a transaction: a step returns a value or raises, and either way keeps
  what it did before. \<open>prog_bind\<close> is sequencing, \<open>prog_try\<close> is \<open>try ... except Exception\<close>, and
  \<open>on_part\<close> runs a step on one part of a larger state.
\<close>

named_theorems prog_simps \<open>what a step of a program does\<close>

type_synonym ('s, 'a) prog = "'s \<Rightarrow> 's \<times> (exn + 'a)"

definition prog_return :: "'a \<Rightarrow> ('s, 'a) prog" where
  "prog_return a = (\<lambda>s. (s, Inr a))"

definition prog_raise :: "exn \<Rightarrow> ('s, 'a) prog" where
  "prog_raise e = (\<lambda>s. (s, Inl e))"

definition prog_bind :: "('s, 'a) prog \<Rightarrow> ('a \<Rightarrow> ('s, 'b) prog) \<Rightarrow> ('s, 'b) prog" where
  "prog_bind m f = (\<lambda>s. case m s of (s', Inl e) \<Rightarrow> (s', Inl e) | (s', Inr a) \<Rightarrow> f a s')"

definition prog_then :: "('s, unit) prog \<Rightarrow> ('s, 'b) prog \<Rightarrow> ('s, 'b) prog" where
  "prog_then m n = prog_bind m (\<lambda>_. n)"

definition prog_gets :: "('s \<Rightarrow> 'a) \<Rightarrow> ('s, 'a) prog" where
  "prog_gets f = (\<lambda>s. (s, Inr (f s)))"

definition prog_check :: "('s \<Rightarrow> bool) \<Rightarrow> exn \<Rightarrow> ('s, unit) prog" where
  "prog_check p e = (\<lambda>s. if p s then (s, Inr ()) else (s, Inl e))"

definition prog_try :: "('s, 'a) prog \<Rightarrow> (exn \<Rightarrow> ('s, 'a) prog) \<Rightarrow> ('s, 'a) prog" where
  "prog_try m h = (\<lambda>s. case m s of (s', Inl e) \<Rightarrow> h e s' | (s', Inr a) \<Rightarrow> (s', Inr a))"

definition on_part :: "('s \<Rightarrow> 'p) \<Rightarrow> (('p \<Rightarrow> 'p) \<Rightarrow> 's \<Rightarrow> 's) \<Rightarrow> ('p, 'a) prog \<Rightarrow> ('s, 'a) prog" where
  "on_part get put m = (\<lambda>s. case m (get s) of (p, r) \<Rightarrow> (put (\<lambda>_. p) s, r))"

primrec prog_for :: "'a list \<Rightarrow> ('a \<Rightarrow> ('s, unit) prog) \<Rightarrow> ('s, unit) prog" where
  "prog_for [] f = prog_return ()"
| "prog_for (x # xs) f = prog_bind (f x) (\<lambda>_. prog_for xs f)"

primrec prog_block :: "('s, unit) prog list \<Rightarrow> ('s, unit) prog" where
  "prog_block [] = prog_return ()"
| "prog_block (m # ms) = prog_then m (prog_block ms)"

lemma prog_run [prog_simps, code]:
  "prog_return a s = (s, Inr a)"
  "prog_raise e s = (s, Inl e)"
  "prog_gets g s = (s, Inr (g s))"
  "prog_check q e s = (if q s then (s, Inr ()) else (s, Inl e))"
  "prog_bind m f s = (case m s of (s', Inl e) \<Rightarrow> (s', Inl e) | (s', Inr a) \<Rightarrow> f a s')"
  "prog_then m1 n s = (case m1 s of (s', Inl e) \<Rightarrow> (s', Inl e) | (s', Inr a) \<Rightarrow> n s')"
  "prog_try m2 h s = (case m2 s of (s', Inl e) \<Rightarrow> h e s' | (s', Inr a) \<Rightarrow> (s', Inr a))"
  "on_part get put m3 s = (case m3 (get s) of (p, r) \<Rightarrow> (put (\<lambda>_. p) s, r))"
  by (simp_all add: prog_return_def prog_raise_def prog_gets_def prog_check_def prog_bind_def
      prog_then_def prog_try_def on_part_def)

text \<open>A program keeps what each of its steps keeps, whether it raises or not.\<close>

definition prog_rel :: "('s \<Rightarrow> 's \<Rightarrow> bool) \<Rightarrow> ('s, 'a) prog \<Rightarrow> bool" where
  "prog_rel R m \<longleftrightarrow> (\<forall>s. R s (fst (m s)))"

lemma prog_relI: "(\<And>s. R s (fst (m s))) \<Longrightarrow> prog_rel R m"
  by (simp add: prog_rel_def)

lemma prog_relD: "prog_rel R m \<Longrightarrow> m s = (s', r) \<Longrightarrow> R s s'"
  by (metis fst_conv prog_rel_def)

locale program_preorder = preorder_on_states R for R :: "'s \<Rightarrow> 's \<Rightarrow> bool"
begin

lemma prog_return: "prog_rel R (prog_return a)"
  and prog_raise: "prog_rel R (prog_raise e)"
  and prog_gets: "prog_rel R (prog_gets f)"
  and prog_check: "prog_rel R (prog_check p e)"
  by (simp_all add: prog_rel_def prog_simps R_refl)

lemma prog_bind:
  assumes "prog_rel R m" and "\<And>a. prog_rel R (f a)"
  shows "prog_rel R (prog_bind m f)"
proof (rule prog_relI)
  fix s obtain s' r where m: "m s = (s', r)" by fastforce
  then have "R s s'" using assms(1) prog_relD by metis
  moreover have "R s' (fst (f a s'))" for a using assms(2) by (simp add: prog_rel_def)
  ultimately show "R s (fst (prog_bind m f s))"
    using m by (auto simp: prog_simps split: sum.split intro: R_trans)
qed

lemma prog_try:
  assumes "prog_rel R m" and "\<And>e. prog_rel R (h e)"
  shows "prog_rel R (prog_try m h)"
proof (rule prog_relI)
  fix s obtain s' r where m: "m s = (s', r)" by fastforce
  then have "R s s'" using assms(1) prog_relD by metis
  moreover have "R s' (fst (h e s'))" for e using assms(2) by (simp add: prog_rel_def)
  ultimately show "R s (fst (prog_try m h s))"
    using m by (auto simp: prog_simps split: sum.split intro: R_trans)
qed

lemma prog_then: "prog_rel R m \<Longrightarrow> prog_rel R n \<Longrightarrow> prog_rel R (prog_then m n)"
  unfolding prog_then_def by (rule prog_bind)

lemma prog_for: "(\<And>x. x \<in> set xs \<Longrightarrow> prog_rel R (f x)) \<Longrightarrow> prog_rel R (prog_for xs f)"
  by (induction xs) (auto intro: prog_return prog_bind)

lemma prog_case_option:
  "prog_rel R n \<Longrightarrow> (\<And>x. prog_rel R (f x)) \<Longrightarrow> prog_rel R (case v of None \<Rightarrow> n | Some x \<Rightarrow> f x)"
  by (cases v) auto

lemma prog_if: "prog_rel R m \<Longrightarrow> prog_rel R n \<Longrightarrow> prog_rel R (if b then m else n)"
  by simp

lemmas prog_steps = prog_return prog_raise prog_gets prog_check prog_bind prog_try prog_then
  prog_for prog_case_option prog_if

end

end
