(* ===== verification/Transport.thy ===== *)
theory Transport
  imports RateLimits Sha256 Effects
begin

text \<open>
  The permit-only transport boundary of \<open>requests/transport.py\<close>: the one-shot permits
  (\<open>_PermitAuthority\<close>), the controlled callback (\<open>_ControlledTransport\<close>) and the exchange
  that ties them to the repository (\<open>ProductionTransportCoordinator\<close>).

  The callback, the permit id factory and the completion clock are code of the caller: they are
  parameters, functions on the caller's own state \<open>'w\<close>. A permit object's identity is the
  number \<open>pm_object\<close>, the identity of the authority's token the number \<open>ts_token\<close>. The field
  \<open>ts_sent\<close> records, for the properties only, each request handed to a callback with the
  database at that moment.
\<close>

section \<open>Requests, responses and policies\<close>

record transport_request =
  tq_logical :: string
  tq_attempt :: string
  tq_origin :: string
  tq_operation :: string
  tq_resource :: string

definition valid_transport_request :: "transport_request \<Rightarrow> bool" where
  "valid_transport_request q \<longleftrightarrow>
     is_identifier (tq_logical q) \<and> is_identifier (tq_attempt q) \<and> is_identifier (tq_origin q)
     \<and> is_identifier (tq_operation q) \<and> is_identifier (tq_resource q)"

text \<open>
  The retry delay is absent, or a float: \<open>Some None\<close> is an infinity or NaN.
\<close>

record transport_response =
  tr_status :: int
  tr_body :: bytes
  tr_media_type :: string
  tr_encoding :: string
  tr_origin :: string
  tr_redirected :: bool
  tr_retry_after :: "rat option option"

definition valid_transport_response :: "transport_response \<Rightarrow> bool" where
  "valid_transport_response r \<longleftrightarrow>
     100 \<le> tr_status r \<and> tr_status r \<le> 599
     \<and> 1 \<le> length (tr_media_type r) \<and> length (tr_media_type r) \<le> 128
     \<and> 1 \<le> length (tr_encoding r) \<and> length (tr_encoding r) \<le> 64
     \<and> is_identifier (tr_origin r)
     \<and> (case tr_retry_after r of
          None \<Rightarrow> True
        | Some None \<Rightarrow> False
        | Some (Some x) \<Rightarrow> 0 \<le> x)"

record transport_policy =
  tp_media_types :: "string list"
  tp_encodings :: "string list"
  tp_redirects :: "string list"

record raw_candidate =
  rc_attempt :: string
  rc_body :: bytes
  rc_sha256 :: string
  rc_media_type :: string
  rc_encoding :: string

datatype exchange_status = X_Succeeded | X_Failed | X_Unknown

record exchange_result =
  xr_status :: exchange_status
  xr_reason :: string
  xr_candidate :: "raw_candidate option"

record 'p callback_result =
  cr_execution :: exchange_result
  cr_status_code :: "int option"
  cr_provider :: "'p option"

section \<open>Permits\<close>

record permit =
  pm_id :: string
  pm_attempt :: string
  pm_logical :: string
  pm_generation :: int
  pm_token :: nat
  pm_object :: nat

record 'w transport_state =
  ts_db :: db
  ts_token :: nat
  ts_next :: nat
  ts_active :: "string \<rightharpoonup> permit"
  ts_world :: 'w
  ts_sent :: "(transport_request \<times> db) list"

type_synonym 'w permit_ids = "'w \<Rightarrow> 'w \<times> (exn + string)"

definition call_world :: "('w \<Rightarrow> 'w \<times> 'a) \<Rightarrow> 'w transport_state \<Rightarrow> 'w transport_state \<times> 'a" where
  "call_world f s = (case f (ts_world s) of (w, a) \<Rightarrow> (s\<lparr>ts_world := w\<rparr>, a))"

definition on_db :: "(db, 'a) prog \<Rightarrow> ('w transport_state, 'a) prog" where
  "on_db = on_part ts_db ts_db_update"

definition issue_permit ::
  "'w permit_ids \<Rightarrow> gate_reservation \<Rightarrow> ('w transport_state, permit) prog" where
  "issue_permit ids res =
     prog_bind (call_world ids) (\<lambda>pid.
     prog_bind (prog_check (\<lambda>s. ts_active s pid = None) (StorageError ''duplicate_transport_permit'')) (\<lambda>_ s.
       let p = \<lparr>pm_id = pid, pm_attempt = gr_attempt res, pm_logical = gr_logical res,
                pm_generation = gr_generation res, pm_token = ts_token s, pm_object = ts_next s\<rparr>
       in (s\<lparr>ts_active := (ts_active s)(pid \<mapsto> p), ts_next := Suc (ts_next s)\<rparr>, Inr p)))"

definition permit_matches ::
  "nat \<Rightarrow> permit option \<Rightarrow> permit \<Rightarrow> transport_request \<Rightarrow> bool" where
  "permit_matches token active p q \<longleftrightarrow>
     pm_token p = token \<and> map_option pm_object active = Some (pm_object p)
     \<and> pm_attempt p = tq_attempt q \<and> pm_logical p = tq_logical q"

definition consume_permit :: "permit \<Rightarrow> transport_request \<Rightarrow> ('w transport_state, unit) prog" where
  "consume_permit p q s =
     (s\<lparr>ts_active := (ts_active s)(pm_id p := None)\<rparr>,
      if permit_matches (ts_token s) (ts_active s (pm_id p)) p q then Inr ()
      else Inl (StorageError ''invalid_transport_permit''))"

section \<open>Validation of a response\<close>

definition response_error ::
  "transport_request \<Rightarrow> transport_response \<Rightarrow> transport_policy \<Rightarrow> exn option" where
  "response_error q r p = first_error
     [(lower (tr_media_type r) \<in> lower ` set (tp_media_types p),
        StorageError ''response_media_type_rejected''),
      (lower (tr_encoding r) \<in> lower ` set (tp_encodings p), StorageError ''response_encoding_rejected''),
      (tr_origin r = tq_origin q \<or> tr_origin r \<in> set (tp_redirects p),
        StorageError ''response_origin_rejected''),
      (\<not> (tr_redirected r \<and> tr_origin r = tq_origin q),
        StorageError ''response_redirect_inconsistent''),
      (\<not> (\<not> tr_redirected r \<and> tr_origin r \<noteq> tq_origin q),
        StorageError ''response_origin_inconsistent'')]"

text \<open>
  What a callback does: it raises, or returns an object. Returned objects are validated again
  (\<open>model_validate(raw_response.model_dump())\<close>).
\<close>

datatype callback_outcome = Callback_Raised | Callback_Returned transport_response

datatype 'p ephemeral_outcome =
    Ephemeral_Raised
  | Ephemeral_Invalid
  | Ephemeral_Returned transport_response 'p

datatype send_error = Outcome_Unknown | Response_Invalid | Send_Rejected exn

type_synonym 'w callback = "transport_request \<Rightarrow> 'w \<Rightarrow> 'w \<times> callback_outcome"
type_synonym ('w, 'e, 'p) ephemeral = "transport_request \<Rightarrow> 'e \<Rightarrow> 'w \<Rightarrow> 'w \<times> 'p ephemeral_outcome"

definition checked_response ::
  "transport_request \<Rightarrow> transport_policy \<Rightarrow> transport_response \<Rightarrow> send_error + transport_response" where
  "checked_response q p r =
     (if \<not> valid_transport_response r then Inl (Send_Rejected ValidationError)
      else case response_error q r p of Some e \<Rightarrow> Inl (Send_Rejected e) | None \<Rightarrow> Inr r)"

definition note_sent :: "transport_request \<Rightarrow> 'w transport_state \<Rightarrow> 'w transport_state" where
  "note_sent q s = s\<lparr>ts_sent := ts_sent s @ [(q, ts_db s)]\<rparr>"

definition send ::
  "'w callback \<Rightarrow> transport_request \<Rightarrow> permit \<Rightarrow> transport_policy \<Rightarrow> 'w transport_state
    \<Rightarrow> 'w transport_state \<times> (send_error + transport_response)" where
  "send cb q p policy s =
     (case consume_permit p q s of
        (s', Inl e) \<Rightarrow> (s', Inl (Send_Rejected e))
      | (s', Inr _) \<Rightarrow>
          (case call_world (cb q) (note_sent q s') of
             (s'', Callback_Raised) \<Rightarrow> (s'', Inl Outcome_Unknown)
           | (s'', Callback_Returned r) \<Rightarrow> (s'', checked_response q policy r)))"

definition send_ephemeral ::
  "('w, 'e, 'p) ephemeral \<Rightarrow> transport_request \<Rightarrow> permit \<Rightarrow> transport_policy \<Rightarrow> 'e
    \<Rightarrow> 'w transport_state \<Rightarrow> 'w transport_state \<times> (send_error + transport_response \<times> 'p)" where
  "send_ephemeral cb q p policy envelope s =
     (case consume_permit p q s of
        (s', Inl e) \<Rightarrow> (s', Inl (Send_Rejected e))
      | (s', Inr _) \<Rightarrow>
          (case call_world (cb q envelope) (note_sent q s') of
             (s'', Ephemeral_Raised) \<Rightarrow> (s'', Inl Outcome_Unknown)
           | (s'', Ephemeral_Invalid) \<Rightarrow> (s'', Inl Response_Invalid)
           | (s'', Ephemeral_Returned r x) \<Rightarrow>
               (s'', case checked_response q policy r of Inl e \<Rightarrow> Inl e | Inr r' \<Rightarrow> Inr (r', x))))"

section \<open>Exchanges\<close>

definition candidate :: "transport_request \<Rightarrow> transport_response \<Rightarrow> raw_candidate" where
  "candidate q r =
     \<lparr>rc_attempt = tq_attempt q, rc_body = tr_body r, rc_sha256 = sha256_hex (tr_body r),
      rc_media_type = tr_media_type r, rc_encoding = tr_encoding r\<rparr>"

definition result_of :: "exchange_status \<Rightarrow> string \<Rightarrow> raw_candidate option \<Rightarrow> exchange_result" where
  "result_of st reason c = \<lparr>xr_status = st, xr_reason = reason, xr_candidate = c\<rparr>"

text \<open>The checks of an exchange before the repository is touched.\<close>

definition check_exchange :: "transport_request \<Rightarrow> physical_attempt \<Rightarrow> ('w transport_state, unit) prog" where
  "check_exchange q a =
     prog_then (prog_check (\<lambda>_. valid_transport_request q) ValidationError)
       (prog_check (\<lambda>_. tq_logical q = pa_logical a \<and> tq_attempt q = pa_id a)
          (StorageError ''transport_attempt_mismatch''))"

text \<open>Gates taken, the attempt marked started.\<close>

definition start_exchange ::
  "physical_attempt \<Rightarrow> string \<Rightarrow> gate_keys \<Rightarrow> gate_policy \<Rightarrow> runtime_lease \<Rightarrow> py_datetime
    \<Rightarrow> ('w transport_state, gate_reservation) prog" where
  "start_exchange a rid ks gp l started =
     prog_bind (on_db (acquire_gates rid a ks gp l started)) (\<lambda>res.
     prog_then (on_db (mark_physical_attempt_started (pa_id a) l started)) (prog_return res))"

definition finish_failed ::
  "gate_reservation \<Rightarrow> runtime_lease \<Rightarrow> py_datetime \<Rightarrow> string \<Rightarrow> ('w transport_state, exchange_result) prog" where
  "finish_failed res l completed reason =
     prog_then (on_db (release_gates res ''failed'' l completed None))
       (prog_return (result_of X_Failed reason None))"

definition finish_unknown ::
  "gate_reservation \<Rightarrow> runtime_lease \<Rightarrow> py_datetime \<Rightarrow> ('w transport_state, exchange_result) prog" where
  "finish_unknown res l completed =
     prog_then (on_db (record_unknown_outcome res l completed))
       (prog_return (result_of X_Unknown ''transport_outcome_unknown'' None))"

text \<open>A validated response: \<open>429\<close> with a delay, another status outside 200 to 299, or success.\<close>

definition conclude ::
  "transport_request \<Rightarrow> transport_response \<Rightarrow> gate_reservation \<Rightarrow> runtime_lease \<Rightarrow> py_datetime
    \<Rightarrow> ('w transport_state, exchange_result) prog" where
  "conclude q r res l completed =
     (case (if tr_status r = 429 then tr_retry_after r else None) of
        Some delay \<Rightarrow> prog_then (on_db (record_retry_after res delay l completed))
          (prog_return (result_of X_Failed ''rate_limited'' (Some (candidate q r))))
      | None \<Rightarrow>
          if \<not> (200 \<le> tr_status r \<and> tr_status r < 300)
          then prog_then (on_db (release_gates res ''failed'' l completed (Some True)))
            (prog_return (result_of X_Failed ''provider_error'' (Some (candidate q r))))
          else prog_then (on_db (release_gates res ''succeeded'' l completed None))
            (prog_return (result_of X_Succeeded ''ok'' (Some (candidate q r)))))"

definition execute_exchange ::
  "'w permit_ids \<Rightarrow> 'w callback \<Rightarrow> transport_request \<Rightarrow> physical_attempt \<Rightarrow> string \<Rightarrow> gate_keys
    \<Rightarrow> gate_policy \<Rightarrow> transport_policy \<Rightarrow> runtime_lease \<Rightarrow> py_datetime \<Rightarrow> py_datetime
    \<Rightarrow> ('w transport_state, exchange_result) prog" where
  "execute_exchange ids cb q a rid ks gp tp l started completed =
     prog_then (check_exchange q a)
     (prog_bind (start_exchange a rid ks gp l started) (\<lambda>res s.
       case issue_permit ids res s of
         (s', Inl e) \<Rightarrow> finish_failed res l completed ''permit_issuance_failed'' s'
       | (s', Inr p) \<Rightarrow>
           (case send cb q p tp s' of
              (s'', Inl Outcome_Unknown) \<Rightarrow> finish_unknown res l completed s''
            | (s'', Inl _) \<Rightarrow> finish_failed res l completed ''invalid_transport_response'' s''
            | (s'', Inr r) \<Rightarrow> conclude q r res l completed s'')))"

type_synonym 'w clock = "'w \<Rightarrow> 'w \<times> (exn + py_datetime)"

text \<open>An exchange that ends without a response: the clock is read, then the gates are given back.\<close>

definition end_without_response ::
  "'w clock \<Rightarrow> (py_datetime \<Rightarrow> ('w transport_state, exchange_result) prog)
    \<Rightarrow> ('w transport_state, 'p callback_result) prog" where
  "end_without_response clock finish =
     prog_bind (call_world clock) (\<lambda>completed.
     prog_bind (finish completed) (\<lambda>x.
     prog_return \<lparr>cr_execution = x, cr_status_code = None, cr_provider = None\<rparr>))"

definition execute_exchange_with_callback ::
  "'w permit_ids \<Rightarrow> transport_request \<Rightarrow> physical_attempt \<Rightarrow> string \<Rightarrow> gate_keys
    \<Rightarrow> gate_policy \<Rightarrow> transport_policy \<Rightarrow> runtime_lease \<Rightarrow> py_datetime \<Rightarrow> 'w clock \<Rightarrow> 'e
    \<Rightarrow> ('w, 'e, 'p) ephemeral \<Rightarrow> ('w transport_state, 'p callback_result) prog" where
  "execute_exchange_with_callback ids q a rid ks gp tp l started clock envelope cb =
     prog_then (check_exchange q a)
     (prog_bind (start_exchange a rid ks gp l started) (\<lambda>res s.
       case issue_permit ids res s of
         (s', Inl e) \<Rightarrow>
           end_without_response clock
             (\<lambda>completed. finish_failed res l completed ''permit_issuance_failed'') s'
       | (s', Inr p) \<Rightarrow>
           (case send_ephemeral cb q p tp envelope s' of
              (s'', Inl Outcome_Unknown) \<Rightarrow> end_without_response clock (finish_unknown res l) s''
            | (s'', Inl _) \<Rightarrow>
                end_without_response clock
                  (\<lambda>completed. finish_failed res l completed ''invalid_transport_response'') s''
            | (s'', Inr (r, x)) \<Rightarrow>
                prog_bind (call_world clock) (\<lambda>completed.
                prog_bind (conclude q r res l completed) (\<lambda>y. prog_return
                  \<lparr>cr_execution = y, cr_status_code = Some (tr_status r), cr_provider = Some x\<rparr>)) s'')))"

section \<open>The logical result\<close>

definition finalize_exchange ::
  "string \<Rightarrow> result_outcome \<Rightarrow> runtime_lease \<Rightarrow> py_datetime \<Rightarrow> string option \<Rightarrow> ('w transport_state, unit) prog" where
  "finalize_exchange lid outcome l completed code =
     (let r = \<lparr>re_id = lid, re_outcome = outcome, re_completed_at = isoformat_of completed, re_error = code\<rparr>
      in prog_then (prog_check (\<lambda>_. valid_logical_result r) ValidationError)
           (on_db (finalize_logical_request r l completed)))"

primrec outcome_of :: "exchange_status \<Rightarrow> result_outcome" where
  "outcome_of X_Succeeded = O_Succeeded"
| "outcome_of X_Failed = O_Failed"
| "outcome_of X_Unknown = O_Unknown"

definition execute ::
  "'w permit_ids \<Rightarrow> 'w callback \<Rightarrow> transport_request \<Rightarrow> physical_attempt \<Rightarrow> string \<Rightarrow> gate_keys
    \<Rightarrow> gate_policy \<Rightarrow> transport_policy \<Rightarrow> runtime_lease \<Rightarrow> py_datetime \<Rightarrow> py_datetime
    \<Rightarrow> ('w transport_state, exchange_result) prog" where
  "execute ids cb q a rid ks gp tp l started completed =
     prog_bind (execute_exchange ids cb q a rid ks gp tp l started completed) (\<lambda>x.
     prog_then (finalize_exchange (tq_logical q) (outcome_of (xr_status x)) l completed
         (if xr_status x = X_Succeeded then None else Some (xr_reason x)))
       (prog_return (if xr_status x = X_Failed \<and> xr_candidate x \<noteq> None
         then result_of (xr_status x) (xr_reason x) None else x)))"

end
