(* ===== verification/Timestamps.thy ===== *)
theory Timestamps
  imports Production
begin

text \<open>
  Reading a timestamp back (\<open>_parse_timestamp\<close> of \<open>requests/storage.py\<close>, which is
  \<open>datetime.fromisoformat\<close> and the UTC check): every text \<open>isoformat\<close> writes is a valid
  \<open>Timestamp\<close>, and reading it gives the same instant.
\<close>

section \<open>Reading a timestamp\<close>

text \<open>The day number of a date, \<open>date.toordinal() - 1\<close>.\<close>

definition day_number :: "nat \<Rightarrow> nat \<Rightarrow> nat \<Rightarrow> nat" where
  "day_number y m d = days_before_year (y - 1) + month_starts (is_leap y) ! m + d - 1"

text \<open>The microseconds of a fraction: six digits, the rest is dropped.\<close>

definition fraction_us :: "string \<Rightarrow> nat" where
  "fraction_us fr = decimal (take 6 (fr @ ''000000''))"

text \<open>The offset of a \<open>Timestamp\<close>, in microseconds.\<close>

definition offset_us :: "string \<Rightarrow> int" where
  "offset_us ofs =
     (case ofs of
        [sg, h1, h2, sep, m1, m2] \<Rightarrow>
          (if sg = CHR ''-'' then -1 else 1) * int (decimal [h1, h2] * 60 + decimal [m1, m2]) * 60000000
      | _ \<Rightarrow> 0)"

text \<open>\<open>datetime.fromisoformat\<close> on a text that \<open>is_timestamp\<close> accepts.\<close>

definition fromisoformat :: "string \<Rightarrow> py_datetime" where
  "fromisoformat s =
     (case s of
        y1 # y2 # y3 # y4 # _ # m1 # m2 # _ # d1 # d2 # _ # h1 # h2 # _ # n1 # n2 # _ # c1 # c2 # rest \<Rightarrow>
          (case split_fraction rest of
             None \<Rightarrow> \<lparr>wall = 0, utcoffset = None\<rparr>
           | Some (fr, ofs) \<Rightarrow>
               \<lparr>wall = int (day_number (decimal [y1, y2, y3, y4]) (decimal [m1, m2]) (decimal [d1, d2]))
                    * 86400000000
                  + int (decimal [h1, h2]) * 3600000000 + int (decimal [n1, n2]) * 60000000
                  + int (decimal [c1, c2]) * 1000000 + int (fraction_us fr),
                utcoffset = Some (offset_us ofs)\<rparr>)
      | _ \<Rightarrow> \<lparr>wall = 0, utcoffset = None\<rparr>)"

section \<open>Fields of an instant\<close>

lemma decimal_append: "decimal (xs @ [c]) = 10 * decimal xs + (of_char c - 48)"
  by (simp add: decimal_def)

lemma decimal_pad: "n < 10 ^ w \<Longrightarrow> decimal (pad w n) = n"
proof (induction w arbitrary: n)
  case (Suc w)
  have "n div 10 < 10 ^ w" using Suc.prems by (simp add: less_mult_imp_div_less mult.commute)
  then show ?case using Suc.IH by (simp add: decimal_append of_char_digit)
qed (simp add: decimal_def)

lemma pad_digits: "list_all is_digit (pad w n)"
  by (induction w arbitrary: n) (auto simp: is_digit_def less_eq_char_def of_char_digit)

definition date_ok :: "nat \<Rightarrow> nat \<Rightarrow> nat \<Rightarrow> bool" where
  "date_ok y m d \<longleftrightarrow> 1 \<le> y \<and> y \<le> 9999 \<and> 1 \<le> m \<and> m \<le> 12 \<and> 1 \<le> d \<and> d \<le> month_length y m"

lemma month_starts_length:
  "1 \<le> m \<Longrightarrow> m \<le> 12 \<Longrightarrow> month_starts (is_leap y) ! Suc m = month_starts (is_leap y) ! m + month_length y m"
proof -
  assume "1 \<le> m" "m \<le> 12"
  then have "m \<in> set [1..<13]" by auto
  then show ?thesis
    by (simp add: month_starts_def month_length_def days_in_month_def upt_rec) auto
qed

lemma ord2ymd_spec:
  assumes "n < days_before_year 9999"
  shows "\<exists>y m d. ord2ymd n = (y, m, d) \<and> date_ok y m d \<and> day_number y m d = n"
proof -
  obtain z r where z: "year_day n = (z, r)" by fastforce
  note split = year_day_split [OF z] and ymd = ord2ymd_year_day [OF z]
  have "\<not> 9999 \<le> z" using split days_before_year_mono [of 9999 z] assms by linarith
  then have y: "1 \<le> Suc z" "Suc z \<le> 9999" by auto
  show ?thesis
  proof (cases "r = 365")
    case True
    then have leap: "is_leap (Suc z)" using split by (auto split: if_splits)
    then have "day_number (Suc z) 12 31 = n"
      using split True by (simp add: day_number_def month_starts_def)
    moreover have "date_ok (Suc z) 12 31"
      using y by (simp add: date_ok_def month_length_def days_in_month_def)
    ultimately show ?thesis using ymd True by auto
  next
    case False
    then have r: "r < 365" using ymd by auto
    obtain m d where md: "month_day (is_leap (Suc z)) r = (m, d)" by fastforce
    note b = month_day_bounds [OF r md]
    then have "d \<le> month_length (Suc z) m" using month_starts_length [of m "Suc z"] by auto
    then have "date_ok (Suc z) m d" using y b by (simp add: date_ok_def)
    moreover have "day_number (Suc z) m d = n" using split b by (simp add: day_number_def)
    ultimately show ?thesis using ymd False md by auto
  qed
qed

lemma time_split:
  assumes "0 \<le> u" and "u < (86400000000 :: int)"
  shows "u div 3600000000 < 24" "u mod 3600000000 div 60000000 < 60" "u mod 60000000 div 1000000 < 60"
    "u = u div 3600000000 * 3600000000 + u mod 3600000000 div 60000000 * 60000000
       + u mod 60000000 div 1000000 * 1000000 + u mod 1000000"
proof -
  have m: "u mod 3600000000 < 60 * 60000000" "u mod 60000000 < 60 * 1000000"
    using pos_mod_bound [of 3600000000 u] pos_mod_bound [of 60000000 u] by simp_all
  show "u div 3600000000 < 24" using assms by (intro int_div_bound) simp_all
  show "u mod 3600000000 div 60000000 < 60" by (rule int_div_bound [OF _ m(1)]) simp
  show "u mod 60000000 div 1000000 < 60" by (rule int_div_bound [OF _ m(2)]) simp
  have "u mod 3600000000 mod 60000000 = u mod 60000000" "u mod 60000000 mod 1000000 = u mod 1000000"
    by (rule mod_mod_cancel, simp)+
  then show "u = u div 3600000000 * 3600000000 + u mod 3600000000 div 60000000 * 60000000
       + u mod 60000000 div 1000000 * 1000000 + u mod 1000000"
    using div_mult_mod_eq [of u 3600000000] div_mult_mod_eq [of "u mod 3600000000" 60000000]
      div_mult_mod_eq [of "u mod 60000000" 1000000] by linarith
qed

lemma iso_fields_spec:
  assumes "valid_instant t"
  obtains y m d h mi s us where "iso_fields t = [y, m, d, h, mi, s, us]" "date_ok y m d"
    "h < 24" "mi < 60" "s < 60" "us < 1000000"
    "t = int (day_number y m d) * 86400000000 + int h * 3600000000 + int mi * 60000000
       + int s * 1000000 + int us"
proof -
  define u where "u = t mod 86400000000"
  have u: "0 \<le> u" "u < 86400000000" by (simp_all add: u_def)
  have "t div 86400000000 \<le> 315537897599999999 div 86400000000"
    using assms by (intro zdiv_mono1) (simp_all add: valid_instant_def max_instant_def)
  then have "nat (t div 86400000000) < days_before_year 9999" by (simp add: days_before_year_def)
  from ord2ymd_spec [OF this] obtain y m d where ymd: "ord2ymd (nat (t div 86400000000)) = (y, m, d)"
    "date_ok y m d" "day_number y m d = nat (t div 86400000000)" by blast
  have "0 \<le> t div 86400000000" using assms by (simp add: valid_instant_def pos_imp_zdiv_nonneg_iff)
  then have day: "int (day_number y m d) = t div 86400000000" using ymd(3) by simp
  define h mi s us where "h = nat (u div 3600000000)" and "mi = nat (u mod 3600000000 div 60000000)"
    and "s = nat (u mod 60000000 div 1000000)" and "us = nat (u mod 1000000)"
  note fields = h_def mi_def s_def us_def
  have ints: "int h = u div 3600000000" "int mi = u mod 3600000000 div 60000000"
    "int s = u mod 60000000 div 1000000" "int us = u mod 1000000"
    unfolding fields using u by (auto intro!: int_nat_eq [THEN trans] simp: pos_imp_zdiv_nonneg_iff)
  note split = time_split [OF u]
  show thesis
  proof (rule that)
    show "iso_fields t = [y, m, d, h, mi, s, us]"
      unfolding iso_fields_def Let_def u_def [symmetric] ymd(1) prod.case fields by (rule refl)
    show "date_ok y m d" by (rule ymd(2))
    show "h < 24" "mi < 60" "s < 60" using split(1-3) ints by linarith+
    show "us < 1000000" using ints(4) pos_mod_bound [of 1000000 u] by linarith
    have "t = t div 86400000000 * 86400000000 + u" by (simp add: u_def)
    then show "t = int (day_number y m d) * 86400000000 + int h * 3600000000 + int mi * 60000000
       + int s * 1000000 + int us"
      using split(4) day ints by linarith
  qed
qed


section \<open>Round trip\<close>

lemma pad2: obtains a b where "pad 2 n = [a, b]" "is_digit a" "is_digit b"
proof -
  obtain a b where ab: "pad 2 n = [a, b]"
    using length_pad [of 2 n] by (auto simp: length_Suc_conv numeral_2_eq_2)
  with pad_digits [of 2 n] show thesis by (auto intro: that)
qed

lemma pad4: obtains a b c d where "pad 4 n = [a, b, c, d]" "list_all is_digit [a, b, c, d]"
proof -
  have "pad 4 n = [digit (n div 10 div 10 div 10 mod 10), digit (n div 10 div 10 mod 10),
      digit (n div 10 mod 10), digit (n mod 10)]"
  proof -
    have four: "(4 :: nat) = Suc (Suc (Suc (Suc 0)))" by simp
    show ?thesis unfolding four pad.simps append.simps by (rule refl)
  qed
  with pad_digits [of 4 n] show thesis by (intro that) simp_all
qed

lemma iso_texts:
  assumes "valid_instant t"
  obtains y1 y2 y3 y4 m1 m2 d1 d2 h1 h2 n1 n2 c1 c2 fr where
    "isoformat t = [y1, y2, y3, y4, CHR ''-'', m1, m2, CHR ''-'', d1, d2, CHR ''T'', h1, h2, CHR '':'',
       n1, n2, CHR '':'', c1, c2] @ (if fr = [] then [] else CHR ''.'' # fr) @ ''+00:00''"
    "list_all is_digit [y1, y2, y3, y4, m1, m2, d1, d2, h1, h2, n1, n2, c1, c2]" "list_all is_digit fr"
    "date_ok (decimal [y1, y2, y3, y4]) (decimal [m1, m2]) (decimal [d1, d2])"
    "decimal [h1, h2] < 24" "decimal [n1, n2] < 60" "decimal [c1, c2] < 60"
    "t = int (day_number (decimal [y1, y2, y3, y4]) (decimal [m1, m2]) (decimal [d1, d2])) * 86400000000
       + int (decimal [h1, h2]) * 3600000000 + int (decimal [n1, n2]) * 60000000
       + int (decimal [c1, c2]) * 1000000 + int (fraction_us fr)"
proof -
  from iso_fields_spec [OF assms] obtain y m d h mi s us where f:
    "iso_fields t = [y, m, d, h, mi, s, us]" "date_ok y m d" "h < 24" "mi < 60" "s < 60" "us < 1000000"
    "t = int (day_number y m d) * 86400000000 + int h * 3600000000 + int mi * 60000000
       + int s * 1000000 + int us" .
  obtain y1 y2 y3 y4 where Y: "pad 4 y = [y1, y2, y3, y4]" "list_all is_digit [y1, y2, y3, y4]" by (rule pad4)
  obtain m1 m2 where M: "pad 2 m = [m1, m2]" "is_digit m1" "is_digit m2" by (rule pad2)
  obtain d1 d2 where D: "pad 2 d = [d1, d2]" "is_digit d1" "is_digit d2" by (rule pad2)
  obtain h1 h2 where H: "pad 2 h = [h1, h2]" "is_digit h1" "is_digit h2" by (rule pad2)
  obtain n1 n2 where N: "pad 2 mi = [n1, n2]" "is_digit n1" "is_digit n2" by (rule pad2)
  obtain c1 c2 where C: "pad 2 s = [c1, c2]" "is_digit c1" "is_digit c2" by (rule pad2)
  have small: "y < 10 ^ 4" "m < 10 ^ 2" "d < 10 ^ 2" "h < 10 ^ 2" "mi < 10 ^ 2" "s < 10 ^ 2"
  proof -
    have "month_length y m \<le> 32"
    proof -
      have "m \<in> set [1..<13]" using f(2) by (auto simp: date_ok_def)
      then show ?thesis by (simp add: month_length_def days_in_month_def upt_rec) auto
    qed
    then show "y < 10 ^ 4" "m < 10 ^ 2" "d < 10 ^ 2" "h < 10 ^ 2" "mi < 10 ^ 2" "s < 10 ^ 2"
      using f(2-5) by (auto simp: date_ok_def)
  qed
  have dec: "decimal [y1, y2, y3, y4] = y" "decimal [m1, m2] = m" "decimal [d1, d2] = d"
    "decimal [h1, h2] = h" "decimal [n1, n2] = mi" "decimal [c1, c2] = s"
    using decimal_pad [OF small(1)] decimal_pad [OF small(2)] decimal_pad [OF small(3)]
      decimal_pad [OF small(4)] decimal_pad [OF small(5)] decimal_pad [OF small(6)]
    by (simp_all add: Y M D H N C)
  define fr where "fr = (if us = 0 then [] else pad 6 us)"
  have ne: "fr = [] \<longleftrightarrow> us = 0" using length_pad [of 6 us] by (auto simp: fr_def simp del: length_pad)
  have zeros: "decimal ''000000'' = 0" by code_simp
  have us: "fraction_us fr = us"
    using decimal_pad [of us 6] f(6) zeros by (simp add: fraction_us_def fr_def)
  show thesis
  proof (rule that [of y1 y2 y3 y4 m1 m2 d1 d2 h1 h2 n1 n2 c1 c2 fr])
    show "isoformat t = [y1, y2, y3, y4, CHR ''-'', m1, m2, CHR ''-'', d1, d2, CHR ''T'', h1, h2,
        CHR '':'', n1, n2, CHR '':'', c1, c2] @ (if fr = [] then [] else CHR ''.'' # fr) @ ''+00:00''"
      unfolding isoformat_def f(1) iso_text.simps Y M D H N C ne by (simp add: fr_def)
    show "list_all is_digit [y1, y2, y3, y4, m1, m2, d1, d2, h1, h2, n1, n2, c1, c2]"
      using Y(2) M(2,3) D(2,3) H(2,3) N(2,3) C(2,3) by simp
    show "list_all is_digit fr" using pad_digits by (simp add: fr_def)
  qed (simp_all only: dec us f)
qed

lemma split_fraction_iso:
  assumes "list_all is_digit fr"
  shows "split_fraction ((if fr = [] then [] else CHR ''.'' # fr) @ ''+00:00'') = Some (fr, ''+00:00'')"
proof -
  have plus: "\<not> is_digit (CHR ''+'')" by code_simp
  have "takeWhile is_digit (fr @ ''+00:00'') = fr" "dropWhile is_digit (fr @ ''+00:00'') = ''+00:00''"
    using assms plus by (induction fr) auto
  then show ?thesis by (auto simp: split_fraction_def)
qed

lemma isoformat_timestamp: "valid_instant t \<Longrightarrow> is_timestamp (isoformat t)"
proof -
  assume "valid_instant t"
  then obtain y1 y2 y3 y4 m1 m2 d1 d2 h1 h2 n1 n2 c1 c2 fr where t:
    "isoformat t = [y1, y2, y3, y4, CHR ''-'', m1, m2, CHR ''-'', d1, d2, CHR ''T'', h1, h2, CHR '':'',
       n1, n2, CHR '':'', c1, c2] @ (if fr = [] then [] else CHR ''.'' # fr) @ ''+00:00''"
    and dig: "list_all is_digit [y1, y2, y3, y4, m1, m2, d1, d2, h1, h2, n1, n2, c1, c2]" "list_all is_digit fr"
    and ok: "date_ok (decimal [y1, y2, y3, y4]) (decimal [m1, m2]) (decimal [d1, d2])"
    "decimal [h1, h2] < 24" "decimal [n1, n2] < 60" "decimal [c1, c2] < 60"
    by (rule iso_texts)
  have ofs: "is_offset ''+00:00''" by code_simp
  show ?thesis
    unfolding is_timestamp_def t append.simps list.case split_fraction_iso [OF dig(2)] option.case prod.case
    using dig(1) ok ofs by (simp add: date_ok_def)
qed

lemma fromisoformat_isoformat: "valid_instant t \<Longrightarrow> fromisoformat (isoformat t) = utc t"
proof -
  assume "valid_instant t"
  then obtain y1 y2 y3 y4 m1 m2 d1 d2 h1 h2 n1 n2 c1 c2 fr where t:
    "isoformat t = [y1, y2, y3, y4, CHR ''-'', m1, m2, CHR ''-'', d1, d2, CHR ''T'', h1, h2, CHR '':'',
       n1, n2, CHR '':'', c1, c2] @ (if fr = [] then [] else CHR ''.'' # fr) @ ''+00:00''"
    and dig: "list_all is_digit fr"
    and val: "t = int (day_number (decimal [y1, y2, y3, y4]) (decimal [m1, m2]) (decimal [d1, d2])) * 86400000000
       + int (decimal [h1, h2]) * 3600000000 + int (decimal [n1, n2]) * 60000000
       + int (decimal [c1, c2]) * 1000000 + int (fraction_us fr)"
    by (rule iso_texts)
  have ofs: "offset_us ''+00:00'' = 0" by code_simp
  show ?thesis
    unfolding fromisoformat_def t append.simps list.case split_fraction_iso [OF dig] option.case prod.case
    using val by (simp add: ofs utc_def)
qed

text \<open>C22: a timestamp survives the database: the text \<open>_timestamp\<close> writes is a valid
  \<open>Timestamp\<close>, and \<open>_parse_timestamp\<close> reads back the same instant, to the microsecond.\<close>

theorem timestamps_round_trip:
  assumes "valid_instant t"
  shows "is_timestamp (isoformat t) \<and> parse_timestamp (fromisoformat (isoformat t)) = Inr t"
  using isoformat_timestamp [OF assms] fromisoformat_isoformat [OF assms] by simp

theorem timestamps_round_trip_witness:
  "is_timestamp (isoformat 63925632000500000)
     \<and> parse_timestamp (fromisoformat (isoformat 63925632000500000)) = Inr 63925632000500000"
  by (rule timestamps_round_trip) (simp add: valid_instant_def max_instant_def)

end
