(* ===== verification/Exchange.thy ===== *)
theory Exchange
  imports Transport Timestamps
begin

text \<open>
  What the transport boundary guarantees: an exchange gives back every slot it takes and ends its
  physical attempt, sends at most once and only after the start is durable, a permit is accepted
  at most once, and the envelope-aware exchange acts like the plain one.
\<close>

section \<open>From acquisition to a started attempt\<close>

definition open_attempt :: "physical_attempt \<Rightarrow> attempt_state \<Rightarrow> db \<Rightarrow> bool" where
  "open_attempt a st d \<longleftrightarrow> (\<exists>b. select_by pa_id (pa_id a) (physical_attempts d) = Some b
     \<and> pa_state b = st \<and> pa_generation b = pa_generation a)"

lemma attach_wp: "tx_wp (attach_attempt a) (\<lambda>_. open_attempt a A_Reserved) d"
  unfolding attach_attempt_def tx_wp_bind tx_wp_gets
  by (cases "select_by pa_id (pa_id a) (physical_attempts d)")
     (auto simp: tx_wp insert_attempt_def logical_exists_def open_attempt_def same_reservation_def
       reserved_attempt_def select_by_append select_by_Cons simp del: tx_block.simps)

lemma take_gates_open: "tx_wp (take_gates rid a ks l t) (\<lambda>_. open_attempt a A_Reserved) d"
proof -
  have keep: "tx_wp m (\<lambda>_. open_attempt a A_Reserved) d1"
    if "keeps physical_attempts m" "open_attempt a A_Reserved d1" for m :: "(db, unit) tx" and d1
    by (rule tx_wp_mono [OF keeps_wp [OF that(1)]]) (use that(2) in \<open>simp add: open_attempt_def\<close>)
  show ?thesis
    unfolding take_gates_def tx_wp_block(2) [of "attach_attempt _"]
    by (rule tx_wp_mono [OF attach_wp], rule keep) (intro tx_frame; simp)
qed

lemma tx_wp_True: "tx_wp m (\<lambda>_ _. True) d"
  by (rule tx_wpI) simp

lemma acquire_body_opens:
  "tx_wp (acquire_gates_body rid a ks p l t) (\<lambda>b d'. b = None \<longrightarrow>
     fence_error l t d = None \<and> lease_slot d' = lease_slot d \<and> open_attempt a A_Reserved d') d"
proof -
  have take: "tx_wp (take_gates rid a ks l t) (\<lambda>_ d'. lease_slot d' = lease_slot d
      \<and> open_attempt a A_Reserved d') d"
    by (intro tx_wp_conjI keeps_wp take_gates_open, unfold take_gates_def) (intro tx_frame; simp)
  show ?thesis
    unfolding acquire_gates_body_def gate_request_active_def tx_wp_bind tx_wp_block tx_wp_fenced
      tx_wp_check tx_wp_gets tx_wp_lift tx_wp_return
    using take by (auto split: option.split simp: tx_wp_True)
qed

lemma acquire_gates_Inr:
  assumes "acquire_gates rid a ks p l now d = (d', Inr res)"
  obtains t where "now = utc t" "gates_taken rid a ks l t d d'" "fence_error l t d = None"
    "lease_slot d' = lease_slot d" "open_attempt a A_Reserved d'" "pa_generation a = rl_generation l"
    "is_identifier rid" "valid_physical_attempt a" "valid_lease l"
    "res = \<lparr>gr_id = rid, gr_attempt = pa_id a, gr_logical = pa_logical a,
       gr_generation = rl_generation l, gr_acquired_at = isoformat t\<rparr>"
proof -
  obtain t b where t: "now = utc t" "acquire_gates_body rid a ks p l t d = Inr (b, d')"
    "is_identifier rid" "valid_physical_attempt a" "valid_lease l" "pa_generation a = rl_generation l"
    and out: "gate_outcome \<lparr>gr_id = rid, gr_attempt = pa_id a, gr_logical = pa_logical a,
       gr_generation = rl_generation l, gr_acquired_at = isoformat t\<rparr> b = Inr res"
    using assms by (auto simp: acquire_gates_def with_clock_ok after_commit_ok run_tx_ok split: if_splits)
  have b: "b = None" using out by (auto simp: gate_outcome_def split: option.splits)
  show thesis
    by (rule that [of t])
       (use t out b tx_wpD [OF acquire_body_wp t(2)] tx_wpD [OF acquire_body_opens t(2)]
         in \<open>auto simp: gate_outcome_def\<close>)
qed

lemma start_commits:
  assumes "schema_ok d" and "fence_error l t d = None" and "primary_keys d"
    and "open_attempt a A_Reserved d" and "pa_generation a = rl_generation l"
  shows "tx_ok (start_body (pa_id a) l t) (\<lambda>_ d'. open_attempt a A_Started d'
    \<and> (\<exists>h. d' = physical_attempts_update h d)) d"
proof -
  obtain b where b: "select_by pa_id (pa_id a) (physical_attempts d) = Some b" "pa_state b = A_Reserved"
    "pa_generation b = rl_generation l"
    using assms(4,5) by (auto simp: open_attempt_def)
  have "count_where (\<lambda>x. pa_id x = pa_id a \<and> pa_generation x = rl_generation l \<and> pa_state x = A_Reserved)
      (physical_attempts d) = 1"
    using count_where_select [of pa_id "physical_attempts d" "pa_id a"] assms(3) b
    by (simp add: primary_keys_def keys_ok_def)
  moreover have "open_attempt a A_Started (physical_attempts_update (update_where
      (\<lambda>x. pa_id x = pa_id a \<and> pa_generation x = rl_generation l \<and> pa_state x = A_Reserved)
      (\<lambda>x. x\<lparr>pa_state := A_Started\<rparr>)) d)"
    using b assms(5) select_by_key [OF b(1)] by (simp add: open_attempt_def select_by_update_where)
  ultimately show ?thesis
    unfolding start_body_def tx_ok_block tx_ok_fenced tx_ok_rows using assms(1,2) by blast
qed


section \<open>An exchange settles\<close>

text \<open>What a started exchange owns, in the database the callback sees.\<close>

definition in_exchange :: "gate_reservation \<Rightarrow> runtime_lease \<Rightarrow> db \<Rightarrow> bool" where
  "in_exchange res l d \<longleftrightarrow> holds_reservation res l d \<and> valid_gate_reservation res \<and> valid_lease l
     \<and> attempt_phase (gr_attempt res) d = Some A_Started"

lemma gates_taken_holds:
  assumes "gates_taken rid a ks l t d d'" and "pa_generation a = rl_generation l"
    and "res = \<lparr>gr_id = rid, gr_attempt = pa_id a, gr_logical = pa_logical a,
       gr_generation = rl_generation l, gr_acquired_at = isoformat t\<rparr>"
  shows "holds_reservation res l d'"
proof -
  have "select_by rv_id rid (reservations d) = None"
    using assms(1) by (simp add: gates_taken_def select_by_None)
  then show ?thesis
    using assms by (simp add: holds_reservation_def gates_taken_def select_by_append select_by_Cons)
qed

lemma slots_taken:
  assumes "occupancy_ok d" and "gates_taken rid a ks l t d d'"
  shows "slots_at s k rid d' = (if (s, k) \<in> set (ordered ks) then 1 else 0)"
proof -
  have none: "filter (\<lambda>r. rs_reservation r = rid) (reserved_scopes d) = []"
    using assms by (fastforce simp: occupancy_ok_def scopes_known_def gates_taken_def filter_empty_conv)
  have new: "filter (\<lambda>r. rs_reservation r = rid) (map (scope_row rid) xs) = map (scope_row rid) xs" for xs
    by (induction xs) (auto simp: scope_row_def)
  have "count_where (at_gate s k) (map (scope_row rid) xs) = (if (s, k) \<in> set xs then 1 else 0)"
    if "distinct xs" for xs
    using that by (induction xs) (auto simp: row_simps at_gate_def scope_row_def)
  moreover have "distinct (ordered ks)" using distinct_ordered [of ks] by (simp add: distinct_map)
  ultimately show ?thesis
    using assms(2) none new by (simp add: slots_at_def scopes_of_def gates_taken_def)
qed

lemma started_exchange:
  assumes "reachable any_op (ts_db s)" and "valid_instant t1"
    and "start_exchange a rid ks gp l (utc t1) s = (s', Inr res)"
  shows "reachable any_op (ts_db s') \<and> lease_slot (ts_db s') = lease_slot (ts_db s) \<and> ts_sent s' = ts_sent s
    \<and> in_exchange res l (ts_db s') \<and> gr_attempt res = pa_id a
    \<and> (\<forall>sc k. active_count sc k (ts_db s') - slots_at sc k (gr_id res) (ts_db s') = active_count sc k (ts_db s))"
proof -
  let ?d = "ts_db s"
  obtain d1 where acq: "acquire_gates rid a ks gp l (utc t1) ?d = (d1, Inr res)"
    and mark: "mark_physical_attempt_started (pa_id a) l (utc t1) d1 = (ts_db s', Inr ())"
    and sent: "ts_sent s' = ts_sent s"
    using assms(3)
    by (auto simp: start_exchange_def on_db_def prog_simps split: prod.splits sum.splits)
  from acq obtain taken: "gates_taken rid a ks l t1 ?d d1" and lease: "lease_slot d1 = lease_slot ?d"
    and opened: "open_attempt a A_Reserved d1" and gen: "pa_generation a = rl_generation l"
    and valid: "is_identifier rid" "valid_physical_attempt a" "valid_lease l"
    and res: "res = \<lparr>gr_id = rid, gr_attempt = pa_id a, gr_logical = pa_logical a,
       gr_generation = rl_generation l, gr_acquired_at = isoformat t1\<rparr>"
    and fence: "fence_error l t1 ?d = None"
    by (rule acquire_gates_Inr) auto
  have r1: "reachable any_op d1"
    using reachable.step [OF assms(1), of "Acquire_Gates rid a ks gp l (utc t1)"] acq by simp
  have fence1: "fence_error l t1 d1 = None" using fence lease by (simp add: fence_error_def)
  have "tx_ok (start_body (pa_id a) l t1) (\<lambda>_ d'. open_attempt a A_Started d'
      \<and> (\<exists>h. d' = physical_attempts_update h d1)) d1"
    by (rule start_commits [OF schema.always [OF r1] fence1 pk.always [OF r1] opened gen])
  moreover have "start_body (pa_id a) l t1 d1 = Inr ((), ts_db s')"
    using mark by (simp add: mark_physical_attempt_started_def with_clock_ok run_tx_ok)
  ultimately obtain h where started: "open_attempt a A_Started (ts_db s')"
    and d2: "ts_db s' = physical_attempts_update h d1"
    by (auto simp: tx_ok_iff)
  have r2: "reachable any_op (ts_db s')"
    using reachable.step [OF r1, of "Mark_Started (pa_id a) l (utc t1)"] mark by simp
  have "valid_gate_reservation res"
    using valid isoformat_timestamp [OF assms(2)] gen
    by (simp add: res valid_gate_reservation_def valid_physical_attempt_def)
  moreover have "holds_reservation res l (ts_db s')"
    using gates_taken_holds [OF taken gen res] by (simp add: d2 holds_reservation_def)
  moreover have "attempt_phase (gr_attempt res) (ts_db s') = Some A_Started"
    using started by (auto simp: open_attempt_def attempt_phase_def res)
  moreover have "active_count sc k (ts_db s') - slots_at sc k (gr_id res) (ts_db s') = active_count sc k ?d" for sc k
    using slots_taken [OF occ.always [OF assms(1)] taken, of sc k] taken
    by (simp add: d2 active_count_def gate_row_of_def slots_at_def scopes_of_def res gates_taken_def)
  ultimately show ?thesis using r2 lease sent valid by (simp add: d2 in_exchange_def res)
qed











lemma issue_permit_frame:
  "issue_permit ids res s = (s', r) \<Longrightarrow> ts_db s' = ts_db s \<and> ts_sent s' = ts_sent s"
  by (auto simp: issue_permit_def call_world_def prog_simps Let_def split: prod.splits sum.splits if_splits)

text \<open>A send calls the callback at most once, and leaves the database alone.\<close>

lemma send_frame:
  assumes "send cb q p policy s = (s', r)"
  shows "ts_db s' = ts_db s \<and> (ts_sent s' = ts_sent s \<or> ts_sent s' = ts_sent s @ [(q, ts_db s)])"
  using assms
  by (auto simp: send_def consume_permit_def call_world_def note_sent_def
      split: prod.splits sum.splits callback_outcome.splits if_splits)


lemma transition_check: "check_exchange q a s = (s', r) \<Longrightarrow> s' = s"
  by (auto simp: check_exchange_def prog_simps split: if_splits)








text \<open>Endings never call the callback.\<close>

lemma on_db_sent: "on_db m s = (s', r) \<Longrightarrow> ts_sent s' = ts_sent s"
  by (auto simp: on_db_def prog_simps split: prod.splits)

lemma endings_sent:
  "finish_failed res l t reason s = (s', r) \<Longrightarrow> ts_sent s' = ts_sent s"
  "finish_unknown res l t s = (s', r) \<Longrightarrow> ts_sent s' = ts_sent s"
  "conclude q resp res l t s = (s', r) \<Longrightarrow> ts_sent s' = ts_sent s"
  by (auto simp: finish_failed_def finish_unknown_def conclude_def prog_simps dest!: on_db_sent
      split: prod.splits sum.splits option.splits if_splits)

lemma start_sent: "start_exchange a rid ks gp l t s = (s', r) \<Longrightarrow> ts_sent s' = ts_sent s"
  by (auto simp: start_exchange_def prog_simps dest!: on_db_sent split: prod.splits sum.splits)

text \<open>C15: nothing is sent before it is durable, and nothing is sent twice: an exchange calls the
  callback at most once, with its own request, at a moment when the database already shows the
  physical attempt as started and its gates held by the caller's reservation.\<close>

theorem sent_once_after_durable_start:
  assumes "reachable any_op (ts_db s)" and "valid_instant t1"
    and "execute_exchange ids cb q a rid ks gp tp l (utc t1) completed s = (s', r)"
  shows "ts_sent s' = ts_sent s \<or>
    (\<exists>d res. ts_sent s' = ts_sent s @ [(q, d)] \<and> in_exchange res l d \<and> gr_attempt res = tq_attempt q)"
proof -
  obtain s0 c where check: "check_exchange q a s = (s0, c)" by fastforce
  note s0 = transition_check [OF check]
  obtain s1 sr where start: "start_exchange a rid ks gp l (utc t1) s = (s1, sr)" by fastforce
  show ?thesis
  proof (cases "\<exists>u res. c = Inr u \<and> sr = Inr res")
    case False
    then show ?thesis
      using assms(3) check s0 start start_sent [OF start]
      by (auto simp: execute_exchange_def prog_simps split: sum.splits)
  next
    case True
    then obtain res where c: "c = Inr ()" and res: "sr = Inr res" by auto
    note st = started_exchange [OF assms(1,2) start [unfolded res]]
    have ids: "gr_attempt res = tq_attempt q"
      using check c st by (auto simp: check_exchange_def prog_simps split: if_splits)
    obtain s2 pr where issue: "issue_permit ids res s1 = (s2, pr)" by fastforce
    note f = issue_permit_frame [OF issue]
    show ?thesis
    proof (cases pr)
      case (Inl e)
      then have "finish_failed res l completed ''permit_issuance_failed'' s2 = (s', r)"
        using assms(3) check s0 c start res issue by (auto simp: execute_exchange_def prog_simps)
      then show ?thesis using endings_sent(1) f st by metis
    next
      case (Inr p)
      obtain s3 sr3 where send: "send cb q p tp s2 = (s3, sr3)" by fastforce
      have "ts_sent s' = ts_sent s3"
        using assms(3) check s0 c start res issue Inr send
        by (auto simp: execute_exchange_def prog_simps split: sum.splits send_error.splits dest: endings_sent)
      then show ?thesis using send_frame [OF send] f st ids by auto
    qed
  qed
qed

section \<open>Permits are one-shot\<close>

text \<open>Any further use of the authority.\<close>

inductive authority_steps :: "'w permit_ids \<Rightarrow> 'w transport_state \<Rightarrow> 'w transport_state \<Rightarrow> bool" for ids where
  start: "authority_steps ids s s"
| issue: "authority_steps ids s t \<Longrightarrow> issue_permit ids res t = (t', r) \<Longrightarrow> authority_steps ids s t'"
| consume: "authority_steps ids s t \<Longrightarrow> consume_permit p q t = (t', r) \<Longrightarrow> authority_steps ids s t'"

text \<open>The identities of permit objects are fresh, and an active permit is filed under its own id.\<close>

definition authority_ok :: "'w transport_state \<Rightarrow> bool" where
  "authority_ok s \<longleftrightarrow> (\<forall>pid p. ts_active s pid = Some p \<longrightarrow> pm_id p = pid \<and> pm_object p < ts_next s)
     \<and> (\<forall>i j p q. ts_active s i = Some p \<longrightarrow> ts_active s j = Some q \<longrightarrow> pm_object p = pm_object q \<longrightarrow> i = j)"

definition spent :: "permit \<Rightarrow> 'w transport_state \<Rightarrow> bool" where
  "spent p s \<longleftrightarrow> pm_object p < ts_next s \<and> (\<forall>pid a. ts_active s pid = Some a \<longrightarrow> pm_object a \<noteq> pm_object p)"

lemma issue_permit_cases:
  assumes "issue_permit ids res s = (s', r)"
  shows "ts_active s' = ts_active s \<and> ts_next s' = ts_next s
    \<or> (\<exists>p. ts_active s (pm_id p) = None \<and> ts_active s' = (ts_active s)(pm_id p \<mapsto> p)
        \<and> pm_object p = ts_next s \<and> ts_next s' = Suc (ts_next s))"
proof (cases r)
  case (Inl e)
  then show ?thesis
    using assms by (auto simp: issue_permit_def call_world_def prog_simps Let_def
        split: prod.splits sum.splits if_splits)
next
  case (Inr p)
  then have "ts_active s (pm_id p) = None \<and> ts_active s' = (ts_active s)(pm_id p \<mapsto> p)
        \<and> pm_object p = ts_next s \<and> ts_next s' = Suc (ts_next s)"
    using assms by (auto simp: issue_permit_def call_world_def prog_simps Let_def
        split: prod.splits sum.splits if_splits)
  then show ?thesis by blast
qed

lemma authority_ok_issue: "authority_ok s \<Longrightarrow> issue_permit ids res s = (s', r) \<Longrightarrow> authority_ok s'"
  by (drule issue_permit_cases) (fastforce simp: authority_ok_def split: if_splits)

lemma authority_ok_consume: "authority_ok s \<Longrightarrow> consume_permit p q s = (s', r) \<Longrightarrow> authority_ok s'"
  by (auto simp: consume_permit_def authority_ok_def split: if_splits)

lemma spent_issue: "spent p s \<Longrightarrow> issue_permit ids res s = (s', r) \<Longrightarrow> spent p s'"
  by (drule issue_permit_cases) (auto simp: spent_def split: if_splits)

lemma spent_consume: "spent p s \<Longrightarrow> consume_permit p' q s = (s', r) \<Longrightarrow> spent p s'"
  by (auto simp: consume_permit_def spent_def split: if_splits)

lemma spent_refused: "spent p s \<Longrightarrow> snd (consume_permit p q s) = Inl (StorageError ''invalid_transport_permit'')"
  by (auto simp: consume_permit_def spent_def permit_matches_def)

text \<open>C16: a permit opens the transport at most once: once it was consumed, successfully, it is
  refused for every request, however many permits are issued and consumed in between, also when
  a later permit reuses its id.\<close>

theorem permit_is_one_shot:
  assumes "authority_ok s" and "consume_permit p q s = (s1, Inr ())" and "authority_steps ids s1 s2"
  shows "snd (consume_permit p q' s2) = Inl (StorageError ''invalid_transport_permit'')"
proof (rule spent_refused)
  obtain a where a: "ts_active s (pm_id p) = Some a" "pm_object a = pm_object p"
    using assms(2) by (auto simp: consume_permit_def permit_matches_def split: if_splits)
  have "spent p s1"
    unfolding spent_def
  proof (intro conjI allI impI)
    show "pm_object p < ts_next s1"
      using a assms(1,2) by (fastforce simp: authority_ok_def consume_permit_def split: if_splits)
    fix pid b assume "ts_active s1 pid = Some b"
    then have "pid \<noteq> pm_id p" "ts_active s pid = Some b"
      using assms(2) by (auto simp: consume_permit_def split: if_splits)
    then show "pm_object b \<noteq> pm_object p"
      using a assms(1) unfolding authority_ok_def by metis
  qed
  with assms(3) show "spent p s2"
    by (induction rule: authority_steps.induct) (auto intro: spent_issue spent_consume)
qed

section \<open>The ephemeral path\<close>

text \<open>
  An ephemeral callback as a plain one, without its provider response. A callback that raises
  \<open>ReceivedResponseValidationError\<close> becomes one that returns a response \<open>model_validate\<close> refuses;
  a plain callback that raises this error itself ends with an unknown outcome, like any other
  exception.
\<close>

definition refused_response :: transport_response where
  "refused_response = \<lparr>tr_status = 0, tr_body = [], tr_media_type = '''', tr_encoding = '''', tr_origin = '''',
     tr_redirected = False, tr_retry_after = None\<rparr>"

definition plain_callback :: "('w, 'e, 'p) ephemeral \<Rightarrow> 'e \<Rightarrow> 'w callback" where
  "plain_callback cb envelope q w =
     (case cb q envelope w of
        (w', Ephemeral_Raised) \<Rightarrow> (w', Callback_Raised)
      | (w', Ephemeral_Invalid) \<Rightarrow> (w', Callback_Returned refused_response)
      | (w', Ephemeral_Returned r x) \<Rightarrow> (w', Callback_Returned r))"

lemma refused_response_invalid: "\<not> valid_transport_response refused_response"
  by (simp add: refused_response_def valid_transport_response_def)

definition returned_by :: "('w, 'e, 'p) ephemeral \<Rightarrow> transport_request \<Rightarrow> 'e \<Rightarrow> transport_response \<Rightarrow> 'p \<Rightarrow> bool" where
  "returned_by cb q envelope r x \<longleftrightarrow> (\<exists>w w'. cb q envelope w = (w', Ephemeral_Returned r x))"

lemma send_ephemeral_cases:
  assumes "send (plain_callback cb e) q p tp s = (s', out)"
  obtains (unknown) "out = Inl Outcome_Unknown" "send_ephemeral cb q p tp e s = (s', Inl Outcome_Unknown)"
  | (failed) err err' where "out = Inl err" "err \<noteq> Outcome_Unknown" "err' \<noteq> Outcome_Unknown"
      "send_ephemeral cb q p tp e s = (s', Inl err')"
  | (answered) r x where "out = Inr r" "send_ephemeral cb q p tp e s = (s', Inr (r, x))" "returned_by cb q e r x"
proof (cases "consume_permit p q s")
  case (Pair s1 c)
  show thesis
  proof (cases c)
    case (Inl err)
    then show thesis using assms Pair failed by (auto simp: send_def send_ephemeral_def)
  next
    case (Inr u)
    obtain w o1 where called: "cb q e (ts_world s1) = (w, o1)" by fastforce
    let ?s = "(note_sent q s1)\<lparr>ts_world := w\<rparr>"
    have world: "ts_world (note_sent q s1) = ts_world s1" by (simp add: note_sent_def)
    show thesis
    proof (cases o1)
      case Ephemeral_Raised
      then show thesis
        using assms Pair Inr called world unknown
        by (auto simp: send_def send_ephemeral_def call_world_def plain_callback_def)
    next
      case Ephemeral_Invalid
      then show thesis
        using assms Pair Inr called world failed [of "Send_Rejected ValidationError" Response_Invalid]
        by (auto simp: send_def send_ephemeral_def call_world_def plain_callback_def checked_response_def
            refused_response_invalid)
    next
      case (Ephemeral_Returned r x)
      have "returned_by cb q e r x" using called Ephemeral_Returned by (auto simp: returned_by_def)
      then show thesis
        using assms Pair Inr called world Ephemeral_Returned answered [of r x] failed
        by (auto simp: send_def send_ephemeral_def call_world_def plain_callback_def checked_response_def
            split: if_splits option.splits)
    qed
  qed
qed

text \<open>An ending works on the database alone, so the clock may change the world before it.\<close>

definition worldless :: "('w transport_state, 'a) prog \<Rightarrow> bool" where
  "worldless m \<longleftrightarrow> (\<forall>s s' r w. m s = (s', r) \<longrightarrow>
     ts_world s' = ts_world s \<and> ts_sent s' = ts_sent s \<and> m (s\<lparr>ts_world := w\<rparr>) = (s'\<lparr>ts_world := w\<rparr>, r))"

lemma worldless_on_db: "worldless (prog_then (on_db m) (prog_return x))"
  by (auto simp: worldless_def on_db_def prog_simps split: prod.splits sum.splits)

lemma worldless_endings:
  "worldless (finish_failed res l t reason)" "worldless (finish_unknown res l t)" "worldless (conclude q r res l t)"
  by (auto simp: finish_failed_def finish_unknown_def conclude_def worldless_on_db split: option.splits)

text \<open>
  One run is the other with the completion time that the clock gives: they end before the clock is
  read, or with the same execution and, but for the clock's own effect, the same state, or the
  clock raises after the call.
\<close>

definition same_but_clock ::
  "'w clock \<Rightarrow> 'w transport_state \<times> (exn + 'p callback_result)
    \<Rightarrow> (py_datetime \<Rightarrow> 'w transport_state \<times> (exn + exchange_result)) \<Rightarrow> bool" where
  "same_but_clock clock run plain \<longleftrightarrow>
     (case run of (s1, r1) \<Rightarrow>
        (\<exists>err. r1 = Inl err \<and> (\<forall>c. plain c = (s1, Inl err)))
      \<or> (\<exists>s2 w c. plain c = (s2, map_sum id cr_execution r1) \<and> clock (ts_world s2) = (w, Inr c)
           \<and> s1 = s2\<lparr>ts_world := w\<rparr>)
      \<or> (\<exists>w0 w err. clock w0 = (w, Inl err) \<and> r1 = Inl err \<and> ts_world s1 = w
           \<and> (\<forall>c. ts_world (fst (plain c)) = w0 \<and> ts_sent (fst (plain c)) = ts_sent s1)))"

lemma after_clock:
  assumes "\<And>c. worldless (finish c)" and fits: "\<And>x. cr_execution (f x) = x"
  shows "same_but_clock clock
    (prog_bind (call_world clock) (\<lambda>c. prog_bind (finish c) (\<lambda>x. prog_return (f x))) s) (\<lambda>c. finish c s)"
proof -
  obtain w got where got: "clock (ts_world s) = (w, got)" by fastforce
  show ?thesis
  proof (cases got)
    case (Inl err)
    have "ts_world (fst (finish c s)) = ts_world s \<and> ts_sent (fst (finish c s)) = ts_sent s" for c
      using assms(1) [of c] by (cases "finish c s") (auto simp: worldless_def)
    then show ?thesis
      using got Inl by (auto simp: same_but_clock_def prog_simps call_world_def)
  next
    case (Inr c)
    obtain s2 r2 where fin: "finish c s = (s2, r2)" by fastforce
    then have "ts_world s2 = ts_world s" "finish c (s\<lparr>ts_world := w\<rparr>) = (s2\<lparr>ts_world := w\<rparr>, r2)"
      using assms(1) [of c] by (auto simp: worldless_def)
    then show ?thesis
      using got Inr fin fits
      by (cases r2) (auto simp: same_but_clock_def prog_simps call_world_def intro!: exI [of _ s2])
  qed
qed

text \<open>What the answer says of the response: all of it, or nothing.\<close>

definition answer_fits :: "('w, 'e, 'p) ephemeral \<Rightarrow> transport_request \<Rightarrow> 'e \<Rightarrow> exn + 'p callback_result \<Rightarrow> bool" where
  "answer_fits cb q envelope out \<longleftrightarrow>
     (case out of
        Inl _ \<Rightarrow> True
      | Inr y \<Rightarrow>
          (case cr_provider y of
             None \<Rightarrow> cr_status_code y = None \<and> xr_candidate (cr_execution y) = None
           | Some x \<Rightarrow> \<exists>r. returned_by cb q envelope r x \<and> cr_status_code y = Some (tr_status r)
               \<and> xr_candidate (cr_execution y) = Some (candidate q r)))"

lemma ending_candidates:
  "finish_failed res l c reason s = (s', Inr y) \<Longrightarrow> xr_candidate y = None"
  "finish_unknown res l c s = (s', Inr y) \<Longrightarrow> xr_candidate y = None"
  "conclude q r res l c s = (s', Inr y) \<Longrightarrow> xr_candidate y = Some (candidate q r)"
  by (auto simp: finish_failed_def finish_unknown_def conclude_def prog_simps result_of_def
      split: prod.splits sum.splits option.splits if_splits)

lemma without_response_fits:
  assumes "\<And>c s s' y. finish c s = (s', Inr y) \<Longrightarrow> xr_candidate y = None"
  shows "answer_fits cb q e (snd (end_without_response clock finish s))"
  by (auto simp: end_without_response_def prog_simps answer_fits_def dest: assms split: prod.splits sum.splits)

lemma response_fits:
  assumes "returned_by cb q e r x"
  shows "answer_fits cb q e (snd (prog_bind (call_world clock) (\<lambda>c. prog_bind (conclude q r res l c)
    (\<lambda>y. prog_return \<lparr>cr_execution = y, cr_status_code = Some (tr_status r), cr_provider = Some x\<rparr>)) s))"
  using assms
  by (auto simp: prog_simps answer_fits_def dest: ending_candidates(3) split: prod.splits sum.splits)

lemma then_bind: "prog_then m (prog_bind n f) = prog_bind (prog_then m n) f"
  by (rule ext) (simp add: prog_then_def prog_run(5) split: prod.split sum.split)

lemma bind_after: "m s = (s1, Inr a) \<Longrightarrow> prog_bind m f s = f a s1"
  by (simp add: prog_run(5))

text \<open>C17: the envelope-aware exchange acts like the plain one, for every callback and every clock.
  It is the plain exchange with the callback's projection, where \<open>ReceivedResponseValidationError\<close>
  counts as a response that validation refuses, and with the completion time the clock gives after
  the call: the same execution result or exception and the same state but for the clock's own
  effect. Only when the clock itself raises does it end earlier, after the same calls. A result
  carries the status and the provider response of the callback exactly with their candidate.\<close>

theorem ephemeral_exchange_equivalent:
  "same_but_clock clock (execute_exchange_with_callback ids q a rid ks gp tp l started clock e cb s)
      (\<lambda>completed. execute_exchange ids (plain_callback cb e) q a rid ks gp tp l started completed s)
    \<and> answer_fits cb q e (snd (execute_exchange_with_callback ids q a rid ks gp tp l started clock e cb s))"
proof -
  let ?cb = "execute_exchange_with_callback ids q a rid ks gp tp l started clock e cb s"
  let ?plain = "\<lambda>c. execute_exchange ids (plain_callback cb e) q a rid ks gp tp l started c s"
  obtain s1 begun where begun: "prog_then (check_exchange q a) (start_exchange a rid ks gp l started) s = (s1, begun)"
    by fastforce
  show ?thesis
  proof (cases begun)
    case (Inl err)
    have "?cb = (s1, Inl err)" "?plain c = (s1, Inl err)" for c
      unfolding execute_exchange_with_callback_def execute_exchange_def then_bind
      using begun Inl by (simp_all add: prog_run)
    then show ?thesis by (simp add: same_but_clock_def answer_fits_def)
  next
    case (Inr res)
    obtain s2 issued where issued: "issue_permit ids res s1 = (s2, issued)" by fastforce
    have ready: "prog_bind (prog_then (check_exchange q a) (start_exchange a rid ks gp l started)) f s = f res s1"
      for f :: "gate_reservation \<Rightarrow> ('a transport_state, 'x) prog"
      using begun Inr by (simp add: bind_after)
    have cb: "?cb = (case issued of
         Inl e \<Rightarrow> end_without_response clock (\<lambda>c. finish_failed res l c ''permit_issuance_failed'') s2
       | Inr p \<Rightarrow> (case send_ephemeral cb q p tp e s2 of
              (s3, Inl Outcome_Unknown) \<Rightarrow> end_without_response clock (finish_unknown res l) s3
            | (s3, Inl _) \<Rightarrow> end_without_response clock (\<lambda>c. finish_failed res l c ''invalid_transport_response'') s3
            | (s3, Inr (r, x)) \<Rightarrow> prog_bind (call_world clock) (\<lambda>c. prog_bind (conclude q r res l c) (\<lambda>y. prog_return
                  \<lparr>cr_execution = y, cr_status_code = Some (tr_status r), cr_provider = Some x\<rparr>)) s3))"
      unfolding execute_exchange_with_callback_def then_bind ready issued
      by (simp only: prod.case)
    have plain: "?plain c = (case issued of
         Inl e \<Rightarrow> finish_failed res l c ''permit_issuance_failed'' s2
       | Inr p \<Rightarrow> (case send (plain_callback cb e) q p tp s2 of
              (s3, Inl Outcome_Unknown) \<Rightarrow> finish_unknown res l c s3
            | (s3, Inl _) \<Rightarrow> finish_failed res l c ''invalid_transport_response'' s3
            | (s3, Inr r) \<Rightarrow> conclude q r res l c s3))" for c
      unfolding execute_exchange_def then_bind ready issued
      by (simp only: prod.case)
    have failing: ?thesis
      if "\<And>c. worldless (finish c)" "\<And>c s s' y. finish c s = (s', Inr y) \<Longrightarrow> xr_candidate y = None"
        "?cb = end_without_response clock finish s3" "\<And>c. ?plain c = finish c s3" for finish s3
      unfolding that(3,4)
    proof
      show "answer_fits cb q e (snd (end_without_response clock finish s3))"
        by (rule without_response_fits) (rule that(2))
      show "same_but_clock clock (end_without_response clock finish s3) (\<lambda>c. finish c s3)"
        unfolding end_without_response_def by (rule after_clock [OF that(1)]) simp
    qed
    show ?thesis
    proof (cases issued)
      case (Inl err)
      show ?thesis
        by (rule failing [OF worldless_endings(1) ending_candidates(1)]) (simp_all add: cb plain Inl)
    next
      case (Inr p)
      obtain s3 out where sent: "send (plain_callback cb e) q p tp s2 = (s3, out)" by fastforce
      then show ?thesis
      proof (cases rule: send_ephemeral_cases)
        case unknown
        show ?thesis
          by (rule failing [OF worldless_endings(2) ending_candidates(2)])
            (simp_all add: cb plain \<open>issued = Inr p\<close> sent unknown)
      next
        case (failed err err')
        show ?thesis
          by (rule failing [of "\<lambda>c. finish_failed res l c ''invalid_transport_response''" s3,
                OF worldless_endings(1) ending_candidates(1)])
            (use failed(2,3) in \<open>simp_all add: cb plain \<open>issued = Inr p\<close> sent failed(1,4) split: send_error.splits\<close>)
      next
        case (answered r x)
        have "same_but_clock clock
          (prog_bind (call_world clock) (\<lambda>c. prog_bind (conclude q r res l c) (\<lambda>y. prog_return
            \<lparr>cr_execution = y, cr_status_code = Some (tr_status r), cr_provider = Some x\<rparr>)) s3)
          (\<lambda>c. conclude q r res l c s3)"
          by (rule after_clock [OF worldless_endings(3)]) simp
        then show ?thesis
          using response_fits [OF answered(3)] by (simp add: cb plain \<open>issued = Inr p\<close> sent answered)
      qed
    qed
  qed
qed

section \<open>Witnesses\<close>

text \<open>The claimed request of the sample run, sent with a callback that gets no answer.\<close>

definition sample_transport :: "unit transport_state" where
  "sample_transport = \<lparr>ts_db = claimed_db, ts_token = 0, ts_next = 0, ts_active = Map.empty,
     ts_world = (), ts_sent = []\<rparr>"

definition sample_ids :: "unit permit_ids" where
  "sample_ids w = (w, Inr ''permit-1'')"

definition silent :: "unit callback" where
  "silent q w = (w, Callback_Raised)"

definition sample_send :: transport_request where
  "sample_send = \<lparr>tq_logical = ''req-1'', tq_attempt = ''att-1'', tq_origin = ''origin-1'',
     tq_operation = ''operation-1'', tq_resource = ''resource-1''\<rparr>"

definition sample_transport_policy :: transport_policy where
  "sample_transport_policy = \<lparr>tp_media_types = [''text/csv''], tp_encodings = [''utf-8''], tp_redirects = []\<rparr>"

definition sample_exchange :: "int \<Rightarrow> unit transport_state \<times> (exn + exchange_result)" where
  "sample_exchange completed = execute_exchange sample_ids silent sample_send (sample_attempt ''att-1'' ''req-1'' 1)
     ''res-1'' sample_keys sample_policy sample_transport_policy sample_lease
     (utc (noon + 4000000)) (utc completed) sample_transport"

lemma sample_exchange_result:
  "snd (sample_exchange (noon + 6000000)) = Inr (result_of X_Unknown ''transport_outcome_unknown'' None)"
  "length (ts_sent (fst (sample_exchange (noon + 6000000)))) = 1"
  by code_simp+


lemma sample_exchange_run:
  "execute_exchange sample_ids silent sample_send (sample_attempt ''att-1'' ''req-1'' 1)
     ''res-1'' sample_keys sample_policy sample_transport_policy sample_lease
     (utc (noon + 4000000)) (utc completed) sample_transport = (fst (sample_exchange completed), snd (sample_exchange completed))"
  by (simp add: sample_exchange_def)

lemma sample_exchange_facts:
  "reachable any_op (ts_db sample_transport)" "valid_instant (noon + 4000000)"
proof -
  show "reachable any_op (ts_db sample_transport)" by (simp add: sample_transport_def)
  show "valid_instant (noon + 4000000)" by (simp add: valid_instant_def max_instant_def noon_def)
qed


text \<open>
  The two paths on one failure: an ephemeral callback that raises \<open>ReceivedResponseValidationError\<close>
  fails the attempt, a plain callback that raises leaves it unknown.
\<close>

lemma received_but_invalid:
  "map_sum id (\<lambda>y. (xr_status (cr_execution y), xr_reason (cr_execution y)))
     (snd (execute_exchange_with_callback sample_ids sample_send (sample_attempt ''att-1'' ''req-1'' 1)
        ''res-1'' sample_keys sample_policy sample_transport_policy sample_lease (utc (noon + 4000000))
        (\<lambda>w. (w, Inr (utc (noon + 6000000)))) () (\<lambda>_ _ w. (w, Ephemeral_Invalid :: unit ephemeral_outcome)) sample_transport))
   = Inr (X_Failed, ''invalid_transport_response'')"
  by code_simp

theorem sent_once_after_durable_start_witness:
  "\<exists>d res. ts_sent (fst (sample_exchange (noon + 6000000))) = [(sample_send, d)] \<and> in_exchange res sample_lease d
     \<and> gr_attempt res = ''att-1''"
  using sent_once_after_durable_start [OF sample_exchange_facts sample_exchange_run [of "noon + 6000000"]]
    sample_exchange_result(2)
  by (auto simp: sample_transport_def sample_send_def)

text \<open>A permit issued twice under the same id: the consumed object stays refused.\<close>

definition sample_permit :: permit where
  "sample_permit = \<lparr>pm_id = ''permit-1'', pm_attempt = ''att-1'', pm_logical = ''req-1'',
     pm_generation = 1, pm_token = 0, pm_object = 0\<rparr>"

definition issued :: "unit transport_state" where
  "issued = sample_transport\<lparr>ts_active := [''permit-1'' \<mapsto> sample_permit], ts_next := 1\<rparr>"

theorem permit_is_one_shot_witness:
  "snd (consume_permit sample_permit sample_send
      (fst (issue_permit sample_ids held (fst (consume_permit sample_permit sample_send issued)))))
    = Inl (StorageError ''invalid_transport_permit'')"
proof (rule permit_is_one_shot)
  show "authority_ok issued"
    by (auto simp: authority_ok_def issued_def sample_permit_def split: if_splits)
  show "consume_permit sample_permit sample_send issued
      = (fst (consume_permit sample_permit sample_send issued), Inr ())"
    by (simp add: consume_permit_def permit_matches_def issued_def sample_permit_def sample_send_def
        sample_transport_def)
  show "authority_steps sample_ids (fst (consume_permit sample_permit sample_send issued))
      (fst (issue_permit sample_ids held (fst (consume_permit sample_permit sample_send issued))))"
    by (rule authority_steps.issue [OF authority_steps.start]) (rule prod.collapse [symmetric])
qed

end
