(* ===== verification/Migration.thy ===== *)
theory Migration
  imports Store Effects
begin

text \<open>
  \<open>initialize_runtime_storage\<close> of \<open>requests/storage.py\<close>: the checks of the runtime directory,
  the creation of a fresh database and the seven migrations \<open>_migrate_v1_to_v2\<close> to
  \<open>_migrate_v7_to_v8\<close>. A table that a schema version does not have yet is \<open>None\<close>; the tables
  whose columns changed are one constructor per column set. The connection keeps what is on
  disk apart from the open transaction, because a crash leaves exactly the former.
\<close>

section \<open>Database files of every schema version\<close>

record old_lease_row =
  ol_owner :: string
  ol_generation :: int
  ol_acquired_at :: int
  ol_heartbeat_at :: int
  ol_expires_at :: int

record old_consumer_row =
  oc_id :: string
  oc_fingerprint :: string
  oc_role :: flight_role
  oc_cancelled :: bool
  oc_cache :: cache_decision
  oc_domain :: string
  oc_joined_at :: int

datatype attempt_table = Attempts_V1 "physical_attempt list" | Attempts_V7 "attempt_row list"

datatype lease_table = Lease_V1 "old_lease_row option" | Lease_V2 "lease_row option"

datatype consumer_table = Consumers_V5 "old_consumer_row list" | Consumers_V8 "consumer_row list"

record sqlite_file =
  sf_version :: int
  sf_metadata :: "(string \<times> int) option option"
  sf_integrity :: bool
  sf_requests :: "logical_request list option"
  sf_attempts :: "attempt_table option"
  sf_results :: "logical_result list option"
  sf_lease :: "lease_table option"
  sf_queue :: "queue_row list option"
  sf_cursors :: "(string \<times> string) list option"
  sf_queue_log :: "event_row list option"
  sf_gates :: "gate_row list option"
  sf_reservations :: "reservation_row list option"
  sf_scopes :: "reserved_scope list option"
  sf_starts :: "gate_start list option"
  sf_gate_log :: "gate_event list option"
  sf_flights :: "flight_row list option"
  sf_consumers :: "consumer_table option"
  sf_consumers_v8 :: "consumer_row list option"
  sf_admissions :: "event_row list option"
  sf_publications :: "raw_row list option"

definition empty_file :: sqlite_file where
  "empty_file = \<lparr>sf_version = 0, sf_metadata = None, sf_integrity = True, sf_requests = None,
     sf_attempts = None, sf_results = None, sf_lease = None, sf_queue = None, sf_cursors = None,
     sf_queue_log = None, sf_gates = None, sf_reservations = None, sf_scopes = None,
     sf_starts = None, sf_gate_log = None, sf_flights = None, sf_consumers = None,
     sf_consumers_v8 = None, sf_admissions = None, sf_publications = None\<rparr>"

text \<open>The database the repository works on, when every table has its current columns.\<close>

definition as_db :: "sqlite_file \<Rightarrow> db option" where
  "as_db f =
     (case (sf_metadata f, sf_requests f, sf_attempts f, sf_results f, sf_lease f) of
        (Some meta, Some requests, Some (Attempts_V7 attempts), Some results, Some (Lease_V2 lease)) \<Rightarrow>
          (case (sf_queue f, sf_cursors f, sf_queue_log f, sf_gates f, sf_reservations f, sf_scopes f) of
             (Some queue, Some cursors, Some qlog, Some gates, Some holds, Some scopes) \<Rightarrow>
               (case (sf_starts f, sf_gate_log f, sf_flights f, sf_consumers f, sf_admissions f,
                      sf_publications f) of
                  (Some starts, Some glog, Some fls, Some (Consumers_V8 cons), Some admissions,
                   Some pubs) \<Rightarrow>
                    Some \<lparr>user_version = sf_version f, schema_metadata = meta,
                      integrity = sf_integrity f, logical_requests = requests,
                      physical_attempts = attempts, logical_results = results, lease_slot = lease,
                      queue_entries = queue, queue_cursors = cursors, queue_log = qlog,
                      gate_states = gates, reservations = holds, reserved_scopes = scopes,
                      gate_starts = starts, gate_log = glog, flights = fls, consumers = cons,
                      admission_log = admissions, raw_publications = pubs\<rparr>
                | _ \<Rightarrow> None)
           | _ \<Rightarrow> None)
      | _ \<Rightarrow> None)"

section \<open>Statements that change the schema\<close>

type_synonym statement = "(sqlite_file, unit) tx"

definition create_table ::
  "(sqlite_file \<Rightarrow> 't option) \<Rightarrow> (('t option \<Rightarrow> 't option) \<Rightarrow> sqlite_file \<Rightarrow> sqlite_file) \<Rightarrow> 't
    \<Rightarrow> statement" where
  "create_table get put t = (\<lambda>f.
     case get f of None \<Rightarrow> Inr ((), put (\<lambda>_. Some t) f) | Some _ \<Rightarrow> Inl SqliteError)"

definition insert_metadata :: "int \<Rightarrow> statement" where
  "insert_metadata n = (\<lambda>f.
     case sf_metadata f of
       Some None \<Rightarrow> Inr ((), f\<lparr>sf_metadata := Some (Some (schema_owner, n))\<rparr>)
     | _ \<Rightarrow> Inl SqliteError)"

definition set_schema_version :: "int \<Rightarrow> statement" where
  "set_schema_version n = (\<lambda>f.
     case sf_metadata f of
       None \<Rightarrow> Inl SqliteError
     | Some row \<Rightarrow> Inr ((), f\<lparr>sf_metadata := Some (map_option (\<lambda>(owner, _). (owner, n)) row)\<rparr>))"

definition set_user_version :: "int \<Rightarrow> statement" where
  "set_user_version n = tx_modify (sf_version_update (\<lambda>_. n))"

definition activate_lease :: "old_lease_row \<Rightarrow> lease_row" where
  "activate_lease l =
     \<lparr>le_owner = ol_owner l, le_generation = ol_generation l, le_acquired_at = ol_acquired_at l,
      le_heartbeat_at = ol_heartbeat_at l, le_expires_at = ol_expires_at l, le_active = True\<rparr>"

definition add_lease_active :: statement where
  "add_lease_active = (\<lambda>f.
     case sf_lease f of
       Some (Lease_V1 row) \<Rightarrow> Inr ((), f\<lparr>sf_lease := Some (Lease_V2 (map_option activate_lease row))\<rparr>)
     | _ \<Rightarrow> Inl SqliteError)"

definition with_eligibility :: "bool \<Rightarrow> physical_attempt \<Rightarrow> attempt_row" where
  "with_eligibility b a = physical_attempt.extend a \<lparr>pa_raw_eligible = b\<rparr>"

definition add_raw_eligible :: statement where
  "add_raw_eligible = (\<lambda>f.
     case sf_attempts f of
       Some (Attempts_V1 rows) \<Rightarrow>
         Inr ((), f\<lparr>sf_attempts := Some (Attempts_V7 (map (with_eligibility False) rows))\<rparr>)
     | _ \<Rightarrow> Inl SqliteError)"

definition mark_succeeded_eligible :: statement where
  "mark_succeeded_eligible = (\<lambda>f.
     case sf_attempts f of
       Some (Attempts_V7 rows) \<Rightarrow>
         Inr ((), f\<lparr>sf_attempts := Some (Attempts_V7
           (update_where (\<lambda>a. pa_state a = A_Succeeded) (pa_raw_eligible_update (\<lambda>_. True)) rows))\<rparr>)
     | _ \<Rightarrow> Inl SqliteError)"

definition attribute_consumer :: "old_consumer_row \<Rightarrow> consumer_row" where
  "attribute_consumer c =
     \<lparr>co_id = oc_id c, co_fingerprint = oc_fingerprint c, co_role = oc_role c,
      co_state = (if oc_cancelled c then C_Cancelled else C_Active), co_cache = oc_cache c,
      co_domain = oc_domain c, co_joined_at = oc_joined_at c, co_owner = None\<rparr>"

definition copy_consumers :: statement where
  "copy_consumers = (\<lambda>f.
     case (sf_consumers_v8 f, sf_consumers f) of
       (Some rows, Some (Consumers_V5 old)) \<Rightarrow>
         Inr ((), f\<lparr>sf_consumers_v8 := Some (rows @ map attribute_consumer old)\<rparr>)
     | (Some rows, Some (Consumers_V8 new)) \<Rightarrow>
         (if list_ex (\<lambda>c. co_state c = C_Completed) new then Inl SqliteError
          else Inr ((), f\<lparr>sf_consumers_v8 := Some (rows @ map (co_owner_update (\<lambda>_. None)) new)\<rparr>))
     | _ \<Rightarrow> Inl SqliteError)"

definition drop_consumers :: statement where
  "drop_consumers = (\<lambda>f.
     case sf_consumers f of
       Some _ \<Rightarrow> Inr ((), f\<lparr>sf_consumers := None\<rparr>)
     | None \<Rightarrow> Inl SqliteError)"

definition rename_consumers :: statement where
  "rename_consumers = (\<lambda>f.
     case (sf_consumers_v8 f, sf_consumers f) of
       (Some rows, None) \<Rightarrow>
         Inr ((), f\<lparr>sf_consumers := Some (Consumers_V8 rows), sf_consumers_v8 := None\<rparr>)
     | _ \<Rightarrow> Inl SqliteError)"

section \<open>Connections\<close>

text \<open>
  \<open>sqlite3\<close> with \<open>isolation_level="DEFERRED"\<close>: \<open>INSERT\<close>, \<open>UPDATE\<close> and \<open>DELETE\<close> open a transaction when
  none is open, other statements run in the open transaction or commit at once, and
  \<open>executescript\<close> first commits what is open.
\<close>

record connection =
  cn_disk :: sqlite_file
  cn_open :: "sqlite_file option"

definition current :: "connection \<Rightarrow> sqlite_file" where
  "current c = (case cn_open c of None \<Rightarrow> cn_disk c | Some f \<Rightarrow> f)"

definition run_statement :: "statement \<Rightarrow> (connection, unit) prog" where
  "run_statement st = (\<lambda>c.
     case st (current c) of
       Inl e \<Rightarrow> (c, Inl e)
     | Inr (_, f) \<Rightarrow>
         (case cn_open c of
            None \<Rightarrow> (c\<lparr>cn_disk := f\<rparr>, Inr ())
          | Some _ \<Rightarrow> (c\<lparr>cn_open := Some f\<rparr>, Inr ())))"

definition begin_transaction :: "(connection, unit) prog" where
  "begin_transaction = (\<lambda>c. (c\<lparr>cn_open := Some (current c)\<rparr>, Inr ()))"

definition run_dml :: "statement \<Rightarrow> (connection, unit) prog" where
  "run_dml st = prog_then begin_transaction (run_statement st)"

definition commit :: "(connection, unit) prog" where
  "commit = (\<lambda>c. (\<lparr>cn_disk = current c, cn_open = None\<rparr>, Inr ()))"

definition rollback :: "connection \<Rightarrow> connection" where
  "rollback c = c\<lparr>cn_open := None\<rparr>"

definition executescript :: "statement list \<Rightarrow> (connection, unit) prog list" where
  "executescript sts = [commit, begin_transaction] @ map run_statement sts @ [commit]"

definition check_metadata :: "int \<Rightarrow> (connection, unit) prog" where
  "check_metadata n = prog_block
     [prog_check (\<lambda>c. sf_metadata (current c) \<noteq> None) SqliteError,
      prog_check (\<lambda>c. sf_metadata (current c) = Some (Some (schema_owner, n)))
        (StorageError ''runtime_schema_metadata_mismatch'')]"

section \<open>Migrations\<close>

type_synonym steps = "(connection, unit) prog list"

definition create_schema_steps :: steps where
  "create_schema_steps = executescript
     [create_table sf_metadata sf_metadata_update None, insert_metadata 8,
      create_table sf_requests sf_requests_update [],
      create_table sf_attempts sf_attempts_update (Attempts_V7 []),
      create_table sf_results sf_results_update [],
      create_table sf_lease sf_lease_update (Lease_V2 None),
      create_table sf_queue sf_queue_update [],
      create_table sf_cursors sf_cursors_update [],
      create_table sf_queue_log sf_queue_log_update [],
      create_table sf_gates sf_gates_update [],
      create_table sf_reservations sf_reservations_update [],
      create_table sf_scopes sf_scopes_update [],
      create_table sf_starts sf_starts_update [],
      create_table sf_gate_log sf_gate_log_update [],
      create_table sf_flights sf_flights_update [],
      create_table sf_consumers sf_consumers_update (Consumers_V8 []),
      create_table sf_admissions sf_admissions_update [],
      create_table sf_publications sf_publications_update [],
      set_user_version 8]"

definition migrate_v1_to_v2 :: steps where
  "migrate_v1_to_v2 =
     [check_metadata 1, run_statement add_lease_active, run_dml (set_schema_version 2),
      run_statement (set_user_version 2)]"

definition migrate_v2_to_v3 :: steps where
  "migrate_v2_to_v3 = check_metadata 2 # executescript
     [create_table sf_queue sf_queue_update [], create_table sf_cursors sf_cursors_update [],
      create_table sf_queue_log sf_queue_log_update [], set_schema_version 3, set_user_version 3]"

definition migrate_v3_to_v4 :: steps where
  "migrate_v3_to_v4 = check_metadata 3 # executescript
     [create_table sf_gates sf_gates_update [],
      create_table sf_reservations sf_reservations_update [],
      create_table sf_scopes sf_scopes_update [], create_table sf_starts sf_starts_update [],
      create_table sf_gate_log sf_gate_log_update [], set_schema_version 4, set_user_version 4]"

definition migrate_v4_to_v5 :: steps where
  "migrate_v4_to_v5 = check_metadata 4 # executescript
     [create_table sf_flights sf_flights_update [],
      create_table sf_consumers sf_consumers_update (Consumers_V5 []),
      create_table sf_admissions sf_admissions_update [], set_schema_version 5, set_user_version 5]"

definition migrate_v5_to_v6 :: steps where
  "migrate_v5_to_v6 = check_metadata 5 # executescript
     [create_table sf_publications sf_publications_update [], set_schema_version 6,
      set_user_version 6]"

definition migrate_v6_to_v7 :: steps where
  "migrate_v6_to_v7 = check_metadata 6 # executescript
     [add_raw_eligible, mark_succeeded_eligible, set_schema_version 7, set_user_version 7]"

definition migrate_v7_to_v8 :: steps where
  "migrate_v7_to_v8 = check_metadata 7 # executescript
     [create_table sf_consumers_v8 sf_consumers_v8_update [], copy_consumers, drop_consumers,
      rename_consumers, set_schema_version 8, set_user_version 8]"

text \<open>The chain of \<open>if current_version == n\<close> blocks, each of which raises \<open>current_version\<close>.\<close>

definition migrations :: "(int \<times> steps) list" where
  "migrations =
     [(1, migrate_v1_to_v2), (2, migrate_v2_to_v3), (3, migrate_v3_to_v4), (4, migrate_v4_to_v5),
      (5, migrate_v5_to_v6), (6, migrate_v6_to_v7), (7, migrate_v7_to_v8)]"

fun migration_chain :: "(int \<times> steps) list \<Rightarrow> int \<Rightarrow> steps" where
  "migration_chain [] v = []"
| "migration_chain ((n, ms) # rest) v =
     (if v = n then ms @ migration_chain rest (n + 1) else migration_chain rest v)"

definition verify_steps :: steps where
  "verify_steps =
     [prog_check (\<lambda>c. sf_version (current c) = schema_version_8)
        (StorageError ''unsupported_runtime_schema''),
      check_metadata schema_version_8,
      prog_check (\<lambda>c. sf_integrity (current c)) (StorageError ''runtime_database_integrity_failed'')]"

definition schema_steps :: "int \<Rightarrow> steps" where
  "schema_steps v =
     (if v = 0 then create_schema_steps
      else if v > schema_version_8 then [prog_raise (StorageError ''unsupported_runtime_schema'')]
      else migration_chain migrations v) @ verify_steps"

text \<open>\<open>with connection\<close>: commit what is open at the end, roll it back when a step raised.\<close>

definition with_connection :: "(connection, unit) prog \<Rightarrow> (sqlite_file, unit) prog" where
  "with_connection m = (\<lambda>f.
     case m \<lparr>cn_disk = f, cn_open = None\<rparr> of
       (c, Inr _) \<Rightarrow> (current c, Inr ())
     | (c, Inl e) \<Rightarrow> (cn_disk (rollback c), Inl e))"

section \<open>The runtime directory\<close>

datatype path_kind = Absent | Symlink | Directory | Regular | Other_Kind

record runtime_root =
  rr_kind :: path_kind
  rr_uid :: int
  rr_mode :: nat
  rr_db_kind :: path_kind
  rr_db_uid :: int
  rr_db_mode :: nat
  rr_db :: sqlite_file

record process =
  pr_euid :: int
  pr_file_mode :: nat

text \<open>The modes 0700 and 0600.\<close>

definition mode_700 :: nat where "mode_700 = 7 * 64"

definition mode_600 :: nat where "mode_600 = 6 * 64"

definition validate_runtime_root :: "process \<Rightarrow> (runtime_root, unit) prog" where
  "validate_runtime_root p = prog_block
     [prog_check (\<lambda>r. rr_kind r = Directory) (StorageError ''invalid_runtime_root''),
      prog_check (\<lambda>r. rr_uid r = pr_euid p \<and> rr_mode r = mode_700)
        (StorageError ''invalid_runtime_root_permissions'')]"

definition validate_database_mode :: "process \<Rightarrow> (runtime_root, unit) prog" where
  "validate_database_mode p =
     prog_check (\<lambda>r. rr_db_uid r = pr_euid p \<and> rr_db_mode r = mode_600)
       (StorageError ''invalid_runtime_database_permissions'')"

text \<open>\<open>sqlite3.connect\<close> creates a missing file with the process's default mode.\<close>

definition connect :: "process \<Rightarrow> (runtime_root, unit) prog" where
  "connect p = (\<lambda>r.
     if rr_db_kind r = Absent
     then (r\<lparr>rr_db_kind := Regular, rr_db_uid := pr_euid p, rr_db_mode := pr_file_mode p,
             rr_db := empty_file\<rparr>, Inr ())
     else (r, Inr ()))"

definition chmod_600 :: "(runtime_root, unit) prog" where
  "chmod_600 = (\<lambda>r. (r\<lparr>rr_db_mode := mode_600\<rparr>, Inr ()))"

definition initialize_body :: "process \<Rightarrow> bool \<Rightarrow> (runtime_root, unit) prog" where
  "initialize_body p existed = prog_block
     [connect p, (if existed then prog_return () else chmod_600), validate_database_mode p,
      on_part rr_db rr_db_update
        (with_connection
          (prog_bind (prog_gets (\<lambda>c. sf_version (current c))) (\<lambda>v. prog_block (schema_steps v))))]"

definition initialize_runtime_storage :: "process \<Rightarrow> (runtime_root, unit) prog" where
  "initialize_runtime_storage p =
     prog_then (validate_runtime_root p)
       (prog_bind (prog_gets (\<lambda>r. rr_db_kind r \<noteq> Absent)) (\<lambda>existed.
          prog_then
            (prog_check (\<lambda>r. rr_db_kind r = Absent \<or> rr_db_kind r = Regular)
              (StorageError ''invalid_runtime_database''))
            (prog_try (initialize_body p existed) (\<lambda>e.
               prog_raise (if e = SqliteError then StorageError ''runtime_storage_initialization_failed''
                 else e)))))"

end
