(* ===== verification/Upgrade.thy ===== *)
theory Upgrade
  imports Migration
begin

text \<open>
  What \<open>initialize_runtime_storage\<close> does to the data. \<open>upgraded f\<close> is the database that a file of
  any released schema version stands for, written as one function of the rows it holds; the
  seven migrations refine it step by step (the locale \<open>migration\<close>, interpreted on each), and so
  does every restart after a crash (\<open>restartable_migration\<close>).
\<close>

section \<open>The abstract upgrade\<close>

text \<open>A file as version \<open>n\<close> of the schema leaves it.\<close>

definition well_versioned :: "int \<Rightarrow> sqlite_file \<Rightarrow> bool" where
  "well_versioned n f \<longleftrightarrow>
     sf_version f = n \<and> sf_metadata f = Some (Some (schema_owner, n)) \<and> sf_integrity f
     \<and> sf_requests f \<noteq> None \<and> sf_results f \<noteq> None
     \<and> (case sf_attempts f of None \<Rightarrow> False | Some (Attempts_V1 _) \<Rightarrow> n < 7 | Some (Attempts_V7 _) \<Rightarrow> 7 \<le> n)
     \<and> (case sf_lease f of None \<Rightarrow> False | Some (Lease_V1 _) \<Rightarrow> n < 2 | Some (Lease_V2 _) \<Rightarrow> 2 \<le> n)
     \<and> (sf_queue f = None \<longleftrightarrow> n < 3) \<and> (sf_cursors f = None \<longleftrightarrow> n < 3) \<and> (sf_queue_log f = None \<longleftrightarrow> n < 3)
     \<and> (sf_gates f = None \<longleftrightarrow> n < 4) \<and> (sf_reservations f = None \<longleftrightarrow> n < 4)
     \<and> (sf_scopes f = None \<longleftrightarrow> n < 4) \<and> (sf_starts f = None \<longleftrightarrow> n < 4) \<and> (sf_gate_log f = None \<longleftrightarrow> n < 4)
     \<and> (sf_flights f = None \<longleftrightarrow> n < 5) \<and> (sf_admissions f = None \<longleftrightarrow> n < 5)
     \<and> (case sf_consumers f of None \<Rightarrow> n < 5 | Some (Consumers_V5 _) \<Rightarrow> 5 \<le> n \<and> n < 8
        | Some (Consumers_V8 _) \<Rightarrow> 8 \<le> n)
     \<and> sf_consumers_v8 f = None \<and> (sf_publications f = None \<longleftrightarrow> n < 6)"

definition rows_of :: "'a list option \<Rightarrow> 'a list" where
  "rows_of t = (case t of None \<Rightarrow> [] | Some rows \<Rightarrow> rows)"

definition upgraded_attempts :: "attempt_table option \<Rightarrow> attempt_row list" where
  "upgraded_attempts t =
     (case t of
        None \<Rightarrow> []
      | Some (Attempts_V1 rows) \<Rightarrow> map (\<lambda>a. with_eligibility (pa_state a = A_Succeeded) a) rows
      | Some (Attempts_V7 rows) \<Rightarrow> rows)"

definition upgraded_lease :: "lease_table option \<Rightarrow> lease_row option" where
  "upgraded_lease t =
     (case t of
        None \<Rightarrow> None
      | Some (Lease_V1 row) \<Rightarrow> map_option activate_lease row
      | Some (Lease_V2 row) \<Rightarrow> row)"

definition upgraded_consumers :: "consumer_table option \<Rightarrow> consumer_row list" where
  "upgraded_consumers t =
     (case t of
        None \<Rightarrow> []
      | Some (Consumers_V5 rows) \<Rightarrow> map attribute_consumer rows
      | Some (Consumers_V8 rows) \<Rightarrow> rows)"

definition upgraded :: "sqlite_file \<Rightarrow> db" where
  "upgraded f =
     \<lparr>user_version = schema_version_8, schema_metadata = Some (schema_owner, schema_version_8),
      integrity = True, logical_requests = rows_of (sf_requests f),
      physical_attempts = upgraded_attempts (sf_attempts f),
      logical_results = rows_of (sf_results f), lease_slot = upgraded_lease (sf_lease f),
      queue_entries = rows_of (sf_queue f), queue_cursors = rows_of (sf_cursors f),
      queue_log = rows_of (sf_queue_log f), gate_states = rows_of (sf_gates f),
      reservations = rows_of (sf_reservations f), reserved_scopes = rows_of (sf_scopes f),
      gate_starts = rows_of (sf_starts f), gate_log = rows_of (sf_gate_log f),
      flights = rows_of (sf_flights f), consumers = upgraded_consumers (sf_consumers f),
      admission_log = rows_of (sf_admissions f), raw_publications = rows_of (sf_publications f)\<rparr>"

lemma current_tables:
  assumes "well_versioned 8 f"
  shows "\<exists>a. sf_attempts f = Some (Attempts_V7 a)" and "\<exists>l. sf_lease f = Some (Lease_V2 l)"
    and "\<exists>c. sf_consumers f = Some (Consumers_V8 c)"
  using assms by (auto simp: well_versioned_def
      split: option.splits attempt_table.splits lease_table.splits consumer_table.splits)

lemma as_db_current:
  assumes "well_versioned 8 f"
  shows "as_db f = Some (upgraded f)"
proof -
  obtain a l c where tables: "sf_attempts f = Some (Attempts_V7 a)" "sf_lease f = Some (Lease_V2 l)"
    "sf_consumers f = Some (Consumers_V8 c)"
    using current_tables [OF assms] by blast
  have "\<not> (8::int) < 3" "\<not> (8::int) < 4" "\<not> (8::int) < 5" "\<not> (8::int) < 6" by simp_all
  then have "\<exists>t. sf_requests f = Some t" "\<exists>t. sf_results f = Some t" "\<exists>t. sf_queue f = Some t"
    "\<exists>t. sf_cursors f = Some t" "\<exists>t. sf_queue_log f = Some t" "\<exists>t. sf_gates f = Some t"
    "\<exists>t. sf_reservations f = Some t" "\<exists>t. sf_scopes f = Some t" "\<exists>t. sf_starts f = Some t"
    "\<exists>t. sf_gate_log f = Some t" "\<exists>t. sf_flights f = Some t" "\<exists>t. sf_admissions f = Some t"
    "\<exists>t. sf_publications f = Some t"
    using assms unfolding well_versioned_def by (metis option.exhaust)+
  then obtain t1 t2 t3 t4 t5 t6 t7 t8 t9 t10 t11 t12 t13 where
    "sf_requests f = Some t1" "sf_results f = Some t2" "sf_queue f = Some t3"
    "sf_cursors f = Some t4" "sf_queue_log f = Some t5" "sf_gates f = Some t6"
    "sf_reservations f = Some t7" "sf_scopes f = Some t8" "sf_starts f = Some t9"
    "sf_gate_log f = Some t10" "sf_flights f = Some t11" "sf_admissions f = Some t12"
    "sf_publications f = Some t13"
    by blast
  moreover have "sf_metadata f = Some (Some (schema_owner, 8))" "sf_version f = 8" "sf_integrity f"
    using assms by (simp_all add: well_versioned_def)
  ultimately show ?thesis
    using tables by (simp add: as_db_def upgraded_def upgraded_attempts_def upgraded_lease_def
        upgraded_consumers_def rows_of_def schema_version_8_def)
qed

section \<open>Scripts\<close>

text \<open>What is on disk after each prefix of a program's steps: the states a crash can leave.\<close>

fun crash_states :: "steps \<Rightarrow> connection \<Rightarrow> sqlite_file list" where
  "crash_states [] c = [cn_disk c]"
| "crash_states (m # ms) c =
     cn_disk c # (case m c of (c', Inl _) \<Rightarrow> [cn_disk c'] | (c', Inr _) \<Rightarrow> crash_states ms c')"

lemma prog_block_append:
  "prog_block (ms @ ns) c =
     (case prog_block ms c of (c', Inl e) \<Rightarrow> (c', Inl e) | (c', Inr _) \<Rightarrow> prog_block ns c')"
  by (induction ms arbitrary: c) (auto simp: prog_simps split: prod.splits sum.splits)

lemma crash_states_append:
  "prog_block ms c = (c', Inr u) \<Longrightarrow>
   set (crash_states (ms @ ns) c) = set (crash_states ms c) \<union> set (crash_states ns c')"
proof (induction ms arbitrary: c)
  case Nil
  then show ?case by (cases ns) (auto simp: prog_simps)
next
  case (Cons m ms)
  then obtain c1 u1 where "m c = (c1, Inr u1)" "prog_block ms c1 = (c', Inr u)"
    by (auto simp: prog_simps split: prod.splits sum.splits)
  with Cons.IH show ?case by simp
qed

lemma last_state:
  "prog_block ms c = (c', Inr u) \<Longrightarrow> cn_disk c' \<in> set (crash_states ms c)"
  by (induction ms arbitrary: c) (auto simp: prog_simps split: prod.splits sum.splits)

lemma current_simps [simp]:
  "current \<lparr>cn_disk = d, cn_open = None\<rparr> = d"
  "current \<lparr>cn_disk = d, cn_open = Some f\<rparr> = f"
  "current (c\<lparr>cn_open := Some f\<rparr>) = f"
  "cn_open c = None \<Longrightarrow> current c = cn_disk c"
  "cn_open c = Some f \<Longrightarrow> current c = f"
  by (simp_all add: current_def)

lemma statements_in_transaction:
  assumes "tx_block sts f = Inr (u, g)" and "cn_open c = Some f"
  shows "prog_block (map run_statement sts) c = (c\<lparr>cn_open := Some g\<rparr>, Inr ())
    \<and> set (crash_states (map run_statement sts) c) = {cn_disk c}"
  using assms
proof (induction sts arbitrary: f c)
  case Nil
  then show ?case by (simp add: tx_simps prog_simps)
next
  case (Cons st sts)
  then obtain f1 where f1: "st f = Inr ((), f1)" "tx_block sts f1 = Inr (u, g)"
    by (auto simp: tx_simps split: sum.splits)
  then have step: "run_statement st c = (c\<lparr>cn_open := Some f1\<rparr>, Inr ())"
    using Cons.prems by (simp add: run_statement_def)
  have "cn_open (c\<lparr>cn_open := Some f1\<rparr>) = Some f1" by simp
  from Cons.IH [OF f1(2) this] step show ?case by (simp add: prog_simps)
qed

lemma run_script:
  assumes "tx_block sts (current c) = Inr (u, g)"
  shows "prog_block (executescript sts) c = (\<lparr>cn_disk = g, cn_open = None\<rparr>, Inr ())
    \<and> set (crash_states (executescript sts) c) = {cn_disk c, current c, g}"
proof -
  let ?c = "\<lparr>cn_disk = current c, cn_open = Some (current c)\<rparr>"
  have body: "prog_block (map run_statement sts) ?c = (\<lparr>cn_disk = current c, cn_open = Some g\<rparr>, Inr ())"
    "set (crash_states (map run_statement sts) ?c) = {current c}"
    using statements_in_transaction [OF assms, of ?c] by simp_all
  let ?done = "\<lparr>cn_disk = current c, cn_open = Some g\<rparr>"
  have first: "prog_block [commit, begin_transaction] c = (?c, Inr ())"
    "set (crash_states [commit, begin_transaction] c) = {cn_disk c, current c}"
    by (auto simp: prog_simps commit_def begin_transaction_def)
  have last: "prog_block [commit] ?done = (\<lparr>cn_disk = g, cn_open = None\<rparr>, Inr ())"
    "set (crash_states [commit] ?done) = {current c, g}"
    by (auto simp: prog_simps commit_def)
  show ?thesis
    unfolding executescript_def
    by (simp only: prog_block_append crash_states_append [OF first(1)]
        crash_states_append [OF body(1)] first body last prod.case sum.case) auto
qed

text \<open>A migration script whose metadata check passes.\<close>

lemma run_migration_script:
  assumes "sf_metadata (current c) = Some (Some (schema_owner, n))"
    and "tx_block sts (current c) = Inr (u, g)"
  shows "prog_block (check_metadata n # executescript sts) c = (\<lparr>cn_disk = g, cn_open = None\<rparr>, Inr ())
    \<and> set (crash_states (check_metadata n # executescript sts) c) = {cn_disk c, current c, g}"
proof -
  have "check_metadata n c = (c, Inr ())"
    using assms(1) by (simp add: check_metadata_def prog_simps)
  with run_script [OF assms(2)] show ?thesis by (simp add: prog_simps)
qed

section \<open>The contract of a migration\<close>

definition later_version :: "int \<Rightarrow> sqlite_file \<Rightarrow> sqlite_file \<Rightarrow> bool" where
  "later_version n f g \<longleftrightarrow> (\<exists>m. n \<le> m \<and> m \<le> 8 \<and> well_versioned m g) \<and> upgraded g = upgraded f"

definition reaches_current :: "int \<Rightarrow> steps \<Rightarrow> bool" where
  "reaches_current n ms \<longleftrightarrow>
     (\<forall>c. well_versioned n (current c) \<longrightarrow>
        (\<exists>c'. prog_block ms c = (c', Inr ()) \<and> well_versioned 8 (current c')
              \<and> upgraded (current c') = upgraded (current c)))"

definition restarts :: "int \<Rightarrow> steps \<Rightarrow> bool" where
  "restarts n ms \<longleftrightarrow>
     (\<forall>c. well_versioned n (current c) \<longrightarrow>
        (\<forall>d \<in> set (crash_states ms c). d = cn_disk c \<or> later_version n (current c) d))"

locale migration =
  fixes n :: int
    and ms :: steps
  assumes advances: "well_versioned n (current c) \<Longrightarrow>
    \<exists>c'. prog_block ms c = (c', Inr ()) \<and> well_versioned (n + 1) (current c')
       \<and> upgraded (current c') = upgraded (current c)"
begin

lemma compose:
  assumes "reaches_current (n + 1) rest"
  shows "reaches_current n (ms @ rest)"
  unfolding reaches_current_def
proof (intro allI impI)
  fix c assume "well_versioned n (current c)"
  then obtain c1 where "prog_block ms c = (c1, Inr ())" "well_versioned (n + 1) (current c1)"
      "upgraded (current c1) = upgraded (current c)"
    using advances by blast
  with assms show "\<exists>c'. prog_block (ms @ rest) c = (c', Inr ()) \<and> well_versioned 8 (current c')
      \<and> upgraded (current c') = upgraded (current c)"
    by (auto simp: reaches_current_def prog_block_append)
qed

end

locale restartable_migration = migration +
  assumes version: "n < 8"
    and crash: "well_versioned n (current c) \<Longrightarrow> prog_block ms c = (c', r) \<Longrightarrow>
      cn_disk c' = current c' \<and> set (crash_states ms c) \<subseteq> {cn_disk c, current c, current c'}"
begin

lemma compose_restarts:
  assumes "restarts (n + 1) rest"
  shows "restarts n (ms @ rest)"
  unfolding restarts_def
proof (intro allI impI ballI)
  fix c d assume well: "well_versioned n (current c)" and d: "d \<in> set (crash_states (ms @ rest) c)"
  then obtain c1 where c1: "prog_block ms c = (c1, Inr ())" "well_versioned (n + 1) (current c1)"
      "upgraded (current c1) = upgraded (current c)"
    using advances by blast
  have here: "later_version n (current c) (current c)" and following: "later_version n (current c) (current c1)"
    using well c1 version by (auto simp: later_version_def intro: exI [of _ n] exI [of _ "n + 1"])
  have after: "later_version (n + 1) (current c1) d \<Longrightarrow> later_version n (current c) d"
    using c1(3) unfolding later_version_def by (metis add1_zle_eq order_less_imp_le)
  from d consider "d \<in> set (crash_states ms c)" | "d \<in> set (crash_states rest c1)"
    by (auto simp: crash_states_append [OF c1(1)])
  then show "d = cn_disk c \<or> later_version n (current c) d"
  proof cases
    case 1
    with crash [OF well c1(1)] here following show ?thesis by auto
  next
    case 2
    with assms c1(2) have "d = cn_disk c1 \<or> later_version (n + 1) (current c1) d"
      by (auto simp: restarts_def)
    with crash [OF well c1(1)] following after show ?thesis by auto
  qed
qed

end

lemma script_migration:
  assumes "n < 8"
    and "\<And>f. well_versioned n f \<Longrightarrow>
      \<exists>g. tx_block sts f = Inr ((), g) \<and> well_versioned (n + 1) g \<and> upgraded g = upgraded f"
  shows "restartable_migration n (check_metadata n # executescript sts)"
proof
  fix c assume well: "well_versioned n (current c)"
  then obtain g where g: "tx_block sts (current c) = Inr ((), g)" "well_versioned (n + 1) g"
      "upgraded g = upgraded (current c)"
    using assms(2) by blast
  have "sf_metadata (current c) = Some (Some (schema_owner, n))"
    using well by (simp add: well_versioned_def)
  note run = run_migration_script [OF this g(1)]
  show "\<exists>c'. prog_block (check_metadata n # executescript sts) c = (c', Inr ())
      \<and> well_versioned (n + 1) (current c') \<and> upgraded (current c') = upgraded (current c)"
    using run g by simp
  show "cn_disk c' = current c'
      \<and> set (crash_states (check_metadata n # executescript sts) c) \<subseteq> {cn_disk c, current c, current c'}"
    if "prog_block (check_metadata n # executescript sts) c = (c', r)" for c' r
    using run that by auto
qed (rule assms(1))

section \<open>The migrations keep the contract\<close>

lemmas statement_simps = tx_simps create_table_def set_schema_version_def set_user_version_def
  add_raw_eligible_def mark_succeeded_eligible_def copy_consumers_def drop_consumers_def
  rename_consumers_def

lemma table_shapes:
  assumes "well_versioned n f"
  shows "n < 5 \<Longrightarrow> sf_consumers f = None"
    and "5 \<le> n \<Longrightarrow> n < 8 \<Longrightarrow> \<exists>rows. sf_consumers f = Some (Consumers_V5 rows)"
    and "n < 7 \<Longrightarrow> \<exists>rows. sf_attempts f = Some (Attempts_V1 rows)"
  using assms by (auto simp: well_versioned_def
      split: option.splits attempt_table.splits lease_table.splits consumer_table.splits)

lemma upgraded_tables [simp]:
  "upgraded_consumers None = []"
  "upgraded_consumers (Some (Consumers_V5 old)) = map attribute_consumer old"
  "upgraded_consumers (Some (Consumers_V8 new)) = new"
  "upgraded_attempts (Some (Attempts_V1 rows1)) =
     map (\<lambda>a. with_eligibility (pa_state a = A_Succeeded) a) rows1"
  "upgraded_attempts (Some (Attempts_V7 rows7)) = rows7"
  by (simp_all add: upgraded_consumers_def upgraded_attempts_def)

interpretation v2: restartable_migration 2 migrate_v2_to_v3
  unfolding migrate_v2_to_v3_def
  by (rule script_migration)
    (auto simp: well_versioned_def statement_simps upgraded_def rows_of_def
      split: attempt_table.splits lease_table.splits consumer_table.splits option.splits)

interpretation v3: restartable_migration 3 migrate_v3_to_v4
  unfolding migrate_v3_to_v4_def
  by (rule script_migration)
    (auto simp: well_versioned_def statement_simps upgraded_def rows_of_def
      split: attempt_table.splits lease_table.splits consumer_table.splits option.splits)

interpretation v4: restartable_migration 4 migrate_v4_to_v5
  unfolding migrate_v4_to_v5_def
  by (rule script_migration, simp, frule table_shapes(1), simp)
    (auto simp: well_versioned_def statement_simps upgraded_def rows_of_def
      split: attempt_table.splits lease_table.splits consumer_table.splits option.splits)

interpretation v5: restartable_migration 5 migrate_v5_to_v6
  unfolding migrate_v5_to_v6_def
  by (rule script_migration)
    (auto simp: well_versioned_def statement_simps upgraded_def rows_of_def
      split: attempt_table.splits lease_table.splits consumer_table.splits option.splits)

lemma eligible_update:
  "update_where (\<lambda>a. pa_state a = A_Succeeded) (pa_raw_eligible_update (\<lambda>_. True))
     (map (with_eligibility False) rows) =
   map (\<lambda>a. with_eligibility (pa_state a = A_Succeeded) a) rows"
  by (simp add: update_where_def with_eligibility_def physical_attempt.defs attempt_row.defs)

interpretation v6: restartable_migration 6 migrate_v6_to_v7
  unfolding migrate_v6_to_v7_def
  by (rule script_migration, simp, frule table_shapes(3), simp)
    (auto simp: well_versioned_def statement_simps upgraded_def rows_of_def eligible_update
      split: attempt_table.splits lease_table.splits consumer_table.splits option.splits)

interpretation v7: restartable_migration 7 migrate_v7_to_v8
  unfolding migrate_v7_to_v8_def
  by (rule script_migration, simp, frule table_shapes(2), simp, simp)
    (auto simp: well_versioned_def statement_simps upgraded_def rows_of_def
      split: attempt_table.splits lease_table.splits consumer_table.splits option.splits)

text \<open>
  \<open>_migrate_v1_to_v2\<close> is no script: \<open>ALTER TABLE\<close> commits at once, and the two changes of the
  version stay in the transaction that the next migration commits.
\<close>

interpretation v1: migration 1 migrate_v1_to_v2
proof
  fix c assume well: "well_versioned 1 (current c)"
  then obtain row where lease: "sf_lease (current c) = Some (Lease_V1 row)"
    and meta: "sf_metadata (current c) = Some (Some (schema_owner, 1))"
    by (auto simp: well_versioned_def split: option.splits lease_table.splits)
  let ?f = "(current c)\<lparr>sf_lease := Some (Lease_V2 (map_option activate_lease row)),
    sf_metadata := Some (Some (schema_owner, 2)), sf_version := 2\<rparr>"
  have "well_versioned 2 ?f" and "upgraded ?f = upgraded (current c)"
    using well lease by (auto simp: well_versioned_def upgraded_def upgraded_lease_def
        split: attempt_table.splits consumer_table.splits option.splits)
  moreover have "\<exists>c'. prog_block migrate_v1_to_v2 c = (c', Inr ()) \<and> current c' = ?f"
    using lease meta by (cases "cn_open c")
      (simp_all add: migrate_v1_to_v2_def check_metadata_def prog_simps run_statement_def run_dml_def
        begin_transaction_def add_lease_active_def set_schema_version_def set_user_version_def tx_simps)
  ultimately show "\<exists>c'. prog_block migrate_v1_to_v2 c = (c', Inr ()) \<and> well_versioned (1 + 1) (current c')
      \<and> upgraded (current c') = upgraded (current c)"
    by auto
qed

section \<open>The whole chain\<close>

lemma reaches_current_Nil: "reaches_current 8 []"
  by (auto simp: reaches_current_def prog_simps)

lemma restarts_Nil: "restarts 8 []"
  by (auto simp: restarts_def)

lemmas chain_simps = migrations_def migration_chain.simps

lemma chain_8: "reaches_current 8 (migration_chain migrations 8)" "restarts 8 (migration_chain migrations 8)"
  by (simp_all add: chain_simps reaches_current_Nil restarts_Nil)

lemma chain_7: "reaches_current 7 (migration_chain migrations 7)" "restarts 7 (migration_chain migrations 7)"
  using v7.compose [of "migration_chain migrations 8"] v7.compose_restarts [of "migration_chain migrations 8"] chain_8
  by (simp_all add: chain_simps)

lemma chain_6: "reaches_current 6 (migration_chain migrations 6)" "restarts 6 (migration_chain migrations 6)"
  using v6.compose [of "migration_chain migrations 7"] v6.compose_restarts [of "migration_chain migrations 7"] chain_7
  by (simp_all add: chain_simps)

lemma chain_5: "reaches_current 5 (migration_chain migrations 5)" "restarts 5 (migration_chain migrations 5)"
  using v5.compose [of "migration_chain migrations 6"] v5.compose_restarts [of "migration_chain migrations 6"] chain_6
  by (simp_all add: chain_simps)

lemma chain_4: "reaches_current 4 (migration_chain migrations 4)" "restarts 4 (migration_chain migrations 4)"
  using v4.compose [of "migration_chain migrations 5"] v4.compose_restarts [of "migration_chain migrations 5"] chain_5
  by (simp_all add: chain_simps)

lemma chain_3: "reaches_current 3 (migration_chain migrations 3)" "restarts 3 (migration_chain migrations 3)"
  using v3.compose [of "migration_chain migrations 4"] v3.compose_restarts [of "migration_chain migrations 4"] chain_4
  by (simp_all add: chain_simps)

lemma chain_2: "reaches_current 2 (migration_chain migrations 2)" "restarts 2 (migration_chain migrations 2)"
  using v2.compose [of "migration_chain migrations 3"] v2.compose_restarts [of "migration_chain migrations 3"] chain_3
  by (simp_all add: chain_simps)

lemma chain_1: "reaches_current 1 (migration_chain migrations 1)"
  using v1.compose [of "migration_chain migrations 2"] chain_2(1) by (simp add: chain_simps)

lemma int_between: "(1::int) \<le> n \<Longrightarrow> n \<le> 8 \<Longrightarrow> n \<in> {1, 2, 3, 4, 5, 6, 7, 8}"
  by auto

lemma chain_reaches: "1 \<le> n \<Longrightarrow> n \<le> 8 \<Longrightarrow> reaches_current n (migration_chain migrations n)"
  using chain_1 chain_2 chain_3 chain_4 chain_5 chain_6 chain_7 chain_8 int_between [of n] by auto

lemma chain_restarts: "2 \<le> n \<Longrightarrow> n \<le> 8 \<Longrightarrow> restarts n (migration_chain migrations n)"
  using chain_2 chain_3 chain_4 chain_5 chain_6 chain_7 chain_8 int_between [of n] by auto

lemma verified:
  assumes "well_versioned 8 (current c)"
  shows "prog_block verify_steps c = (c, Inr ()) \<and> set (crash_states verify_steps c) = {cn_disk c}"
  using assms by (simp add: verify_steps_def well_versioned_def check_metadata_def prog_simps
      schema_version_8_def)

lemma schema_steps_upgrade:
  assumes "1 \<le> n" "n \<le> 8" "well_versioned n (current c)"
  shows "\<exists>c'. prog_block (schema_steps n) c = (c', Inr ()) \<and> well_versioned 8 (current c')
    \<and> upgraded (current c') = upgraded (current c)"
proof -
  obtain c' where "prog_block (migration_chain migrations n) c = (c', Inr ())"
    "well_versioned 8 (current c')" "upgraded (current c') = upgraded (current c)"
    using chain_reaches [OF assms(1,2)] assms(3) by (auto simp: reaches_current_def)
  with assms show ?thesis
    by (simp add: schema_steps_def prog_block_append verified schema_version_8_def)
qed

section \<open>Initialization\<close>

text \<open>A directory and a database file that pass the ownership and mode checks.\<close>

definition private_root :: "process \<Rightarrow> runtime_root \<Rightarrow> bool" where
  "private_root p r \<longleftrightarrow> rr_kind r = Directory \<and> rr_uid r = pr_euid p \<and> rr_mode r = mode_700"

definition private_database :: "process \<Rightarrow> runtime_root \<Rightarrow> bool" where
  "private_database p r \<longleftrightarrow>
     private_root p r \<and> rr_db_kind r = Regular \<and> rr_db_uid r = pr_euid p \<and> rr_db_mode r = mode_600"

text \<open>An existing database: initialization is the schema program on it.\<close>

lemma initialize_existing:
  assumes "private_database p r"
  shows "initialize_runtime_storage p r =
    (case with_connection (prog_block (schema_steps (sf_version (rr_db r)))) (rr_db r) of
       (f, Inr _) \<Rightarrow> (r\<lparr>rr_db := f\<rparr>, Inr ())
     | (f, Inl e) \<Rightarrow> (r\<lparr>rr_db := f\<rparr>,
          Inl (if e = SqliteError then StorageError ''runtime_storage_initialization_failed'' else e)))"
  using assms
  by (simp add: initialize_runtime_storage_def initialize_body_def validate_runtime_root_def
      private_database_def private_root_def connect_def validate_database_mode_def with_connection_def
      prog_simps current_def split: prod.splits sum.splits)

lemma initialize_upgrades:
  assumes "1 \<le> n" "n \<le> 8" "well_versioned n (rr_db r)" "private_database p r"
  shows "\<exists>f. initialize_runtime_storage p r = (r\<lparr>rr_db := f\<rparr>, Inr ())
    \<and> as_db f = Some (upgraded (rr_db r))"
proof -
  obtain c' where "prog_block (schema_steps n) \<lparr>cn_disk = rr_db r, cn_open = None\<rparr> = (c', Inr ())"
    "well_versioned 8 (current c')" "upgraded (current c') = upgraded (rr_db r)"
    using schema_steps_upgrade [OF assms(1,2), of "\<lparr>cn_disk = rr_db r, cn_open = None\<rparr>"] assms(3)
    by auto
  moreover have "sf_version (rr_db r) = n" using assms(3) by (simp add: well_versioned_def)
  ultimately show ?thesis
    by (auto simp: initialize_existing [OF assms(4)] with_connection_def as_db_current
        intro!: exI [of _ "current c'"])
qed

text \<open>
  C24: Initialization upgrades a database of any released schema version 1 to 8. It succeeds, leaves
  the directory and the file's ownership and mode as they are, and the database the repository
  then works on holds every row of the old one: tables the old version did not have are empty,
  the lease of a version without \<open>active\<close> is active, an attempt of a version without
  \<open>raw_eligible\<close> is eligible exactly when it succeeded, and consumers of a version without
  \<open>result_owner_id\<close> have none.
\<close>

theorem upgrade_keeps_every_row:
  assumes "1 \<le> n" "n \<le> 8" "well_versioned n (rr_db r)" "private_database p r"
  shows "\<exists>f. initialize_runtime_storage p r = (r\<lparr>rr_db := f\<rparr>, Inr ())
    \<and> as_db f = Some (upgraded (rr_db r))"
  by (rule initialize_upgrades [OF assms])

definition sample_process :: process where
  "sample_process = \<lparr>pr_euid = 1000, pr_file_mode = 420\<rparr>"

definition sample_v1 :: sqlite_file where
  "sample_v1 = empty_file
     \<lparr>sf_version := 1, sf_metadata := Some (Some (schema_owner, 1)), sf_requests := Some [],
      sf_attempts := Some (Attempts_V1
        [\<lparr>pa_id = ''a1'', pa_logical = ''r1'', pa_sequence = 1, pa_generation = 1,
          pa_created_at = ''2026-01-01T00:00:00Z'', pa_state = A_Succeeded\<rparr>,
         \<lparr>pa_id = ''a2'', pa_logical = ''r2'', pa_sequence = 1, pa_generation = 1,
          pa_created_at = ''2026-01-01T00:00:00Z'', pa_state = A_Failed\<rparr>]),
      sf_results := Some [],
      sf_lease := Some (Lease_V1 (Some \<lparr>ol_owner = ''w1'', ol_generation = 1, ol_acquired_at = 0,
        ol_heartbeat_at = 0, ol_expires_at = 60\<rparr>))\<rparr>"

definition sample_v2 :: sqlite_file where
  "sample_v2 = sample_v1\<lparr>sf_version := 2, sf_metadata := Some (Some (schema_owner, 2)),
     sf_lease := Some (Lease_V2 None)\<rparr>"

definition sample_root :: "sqlite_file \<Rightarrow> runtime_root" where
  "sample_root f = \<lparr>rr_kind = Directory, rr_uid = 1000, rr_mode = mode_700, rr_db_kind = Regular,
     rr_db_uid = 1000, rr_db_mode = mode_600, rr_db = f\<rparr>"

lemmas sample_file_simps = sample_v1_def sample_v2_def empty_file_def well_versioned_def

lemma sample_root_private: "private_database sample_process (sample_root f)"
  by (simp add: private_database_def private_root_def sample_root_def sample_process_def)

lemma rr_db_sample [simp]: "rr_db (sample_root f) = f" "rr_db_update g (sample_root f) = sample_root (g f)"
  by (simp_all add: sample_root_def)

theorem upgrade_keeps_every_row_witness:
  "\<exists>f. initialize_runtime_storage sample_process (sample_root sample_v1) = (sample_root f, Inr ())
    \<and> as_db f = Some (upgraded sample_v1)"
  using upgrade_keeps_every_row [of 1 "sample_root sample_v1" sample_process] sample_root_private
  by (simp add: sample_file_simps)

text \<open>
  C25: In an empty runtime directory initialization creates the database of \<open>_create_schema\<close>, every
  table empty at schema version 8, readable and writable by its owner alone whatever the
  process's default file mode.
\<close>

theorem fresh_database_is_created:
  assumes "private_root p r" "rr_db_kind r = Absent"
  shows "\<exists>f. initialize_runtime_storage p r =
      (r\<lparr>rr_db_kind := Regular, rr_db_uid := pr_euid p, rr_db_mode := mode_600, rr_db := f\<rparr>, Inr ())
    \<and> as_db f = Some create_schema"
proof -
  define c where "c = \<lparr>cn_disk = empty_file, cn_open = None\<rparr>"
  have "\<exists>g. tx_block
     [create_table sf_metadata sf_metadata_update None, insert_metadata 8,
      create_table sf_requests sf_requests_update [],
      create_table sf_attempts sf_attempts_update (Attempts_V7 []),
      create_table sf_results sf_results_update [],
      create_table sf_lease sf_lease_update (Lease_V2 None),
      create_table sf_queue sf_queue_update [],
      create_table sf_cursors sf_cursors_update [],
      create_table sf_queue_log sf_queue_log_update [],
      create_table sf_gates sf_gates_update [],
      create_table sf_reservations sf_reservations_update [],
      create_table sf_scopes sf_scopes_update [],
      create_table sf_starts sf_starts_update [],
      create_table sf_gate_log sf_gate_log_update [],
      create_table sf_flights sf_flights_update [],
      create_table sf_consumers sf_consumers_update (Consumers_V8 []),
      create_table sf_admissions sf_admissions_update [],
      create_table sf_publications sf_publications_update [],
      set_user_version 8] (current c) = Inr ((), g) \<and> well_versioned 8 g \<and> upgraded g = create_schema"
    by (simp add: c_def empty_file_def statement_simps insert_metadata_def well_versioned_def
        upgraded_def rows_of_def upgraded_lease_def create_schema_def schema_version_8_def)
  then obtain g where "prog_block create_schema_steps c = (\<lparr>cn_disk = g, cn_open = None\<rparr>, Inr ())"
      "well_versioned 8 g" "upgraded g = create_schema"
    using run_script [of _ c] unfolding create_schema_steps_def by blast
  then have "prog_block (schema_steps 0) c = (\<lparr>cn_disk = g, cn_open = None\<rparr>, Inr ())"
      "as_db g = Some create_schema"
    by (simp_all add: schema_steps_def prog_block_append verified as_db_current)
  moreover have "sf_version empty_file = 0" by (simp add: empty_file_def)
  ultimately show ?thesis
    using assms
    by (auto simp: initialize_runtime_storage_def initialize_body_def validate_runtime_root_def
        private_root_def connect_def chmod_600_def validate_database_mode_def with_connection_def
        prog_simps c_def intro!: exI [of _ g])
qed

theorem fresh_database_is_created_witness:
  "\<exists>f. initialize_runtime_storage sample_process ((sample_root empty_file)\<lparr>rr_db_kind := Absent\<rparr>) =
      (sample_root f, Inr ()) \<and> as_db f = Some create_schema"
  using fresh_database_is_created [of sample_process "(sample_root empty_file)\<lparr>rr_db_kind := Absent\<rparr>"]
  by (simp add: private_root_def sample_root_def sample_process_def)

text \<open>
  The directories that a crash during initialization of an existing database can leave: the
  database is in one of the states its connection committed.
\<close>

definition crashed_initializations :: "runtime_root \<Rightarrow> runtime_root list" where
  "crashed_initializations r =
     map (\<lambda>f. r\<lparr>rr_db := f\<rparr>)
       (crash_states (schema_steps (sf_version (rr_db r))) \<lparr>cn_disk = rr_db r, cn_open = None\<rparr>)"

lemma schema_steps_restart:
  assumes "2 \<le> n" "n \<le> 8" "well_versioned n (current c)" "d \<in> set (crash_states (schema_steps n) c)"
  shows "d = cn_disk c \<or> later_version n (current c) d"
proof -
  obtain c' where c': "prog_block (migration_chain migrations n) c = (c', Inr ())" "well_versioned 8 (current c')"
    using chain_reaches [of n] assms by (auto simp: reaches_current_def)
  have rest: "restarts n (migration_chain migrations n)"
    using chain_restarts assms by simp
  have "cn_disk c' \<in> set (crash_states (migration_chain migrations n) c)"
    using c'(1) by (rule last_state)
  moreover have "set (crash_states (schema_steps n) c) =
      set (crash_states (migration_chain migrations n) c) \<union> {cn_disk c'}"
    using assms by (simp add: schema_steps_def schema_version_8_def crash_states_append [OF c'(1)] verified [OF c'(2)])
  ultimately show ?thesis
    using rest assms(3,4) by (auto simp: restarts_def)
qed

text \<open>
  C26: From version 2 on, an initialization that crashes at any point can be run again: whatever
  the crash left, the next initialization succeeds and ends with the same rows as an
  uninterrupted one.
\<close>

theorem upgrade_survives_crashes:
  assumes "2 \<le> n" "n \<le> 8" "well_versioned n (rr_db r)" "private_database p r"
    and "r' \<in> set (crashed_initializations r)"
  shows "\<exists>f. initialize_runtime_storage p r' = (r\<lparr>rr_db := f\<rparr>, Inr ())
    \<and> as_db f = Some (upgraded (rr_db r))"
proof -
  let ?c = "\<lparr>cn_disk = rr_db r, cn_open = None\<rparr>"
  have "sf_version (rr_db r) = n" using assms(3) by (simp add: well_versioned_def)
  then obtain d where r': "r' = r\<lparr>rr_db := d\<rparr>" and "d \<in> set (crash_states (schema_steps n) ?c)"
    using assms(5) by (auto simp: crashed_initializations_def)
  then have "d = rr_db r \<or> later_version n (rr_db r) d"
    using schema_steps_restart [of n ?c d] assms(1-3) by simp
  then obtain m where m: "n \<le> m" "m \<le> 8" "well_versioned m d" "upgraded d = upgraded (rr_db r)"
    using assms(2,3) by (auto simp: later_version_def)
  moreover have "private_database p r'"
    using assms(4) r' by (simp add: private_database_def private_root_def)
  ultimately show ?thesis
    using initialize_upgrades [of m r' p] assms(1) r' by simp
qed

definition sample_v3 :: sqlite_file where
  "sample_v3 = sample_v2\<lparr>sf_version := 3, sf_metadata := Some (Some (schema_owner, 3)),
     sf_queue := Some [], sf_cursors := Some [], sf_queue_log := Some []\<rparr>"

lemma sample_crash: "sample_root sample_v3 \<in> set (crashed_initializations (sample_root sample_v2))"
proof -
  let ?c = "\<lparr>cn_disk = sample_v2, cn_open = None\<rparr>"
  have "sf_metadata (current ?c) = Some (Some (schema_owner, 2))" by (simp add: sample_file_simps)
  moreover have "tx_block
     [create_table sf_queue sf_queue_update [], create_table sf_cursors sf_cursors_update [],
      create_table sf_queue_log sf_queue_log_update [], set_schema_version 3, set_user_version 3]
     (current ?c) = Inr ((), sample_v3)"
    by (simp add: sample_v3_def sample_file_simps statement_simps)
  ultimately have run: "prog_block migrate_v2_to_v3 ?c = (\<lparr>cn_disk = sample_v3, cn_open = None\<rparr>, Inr ())"
      "sample_v3 \<in> set (crash_states migrate_v2_to_v3 ?c)"
    using run_migration_script [of ?c 2 _ "()" sample_v3] unfolding migrate_v2_to_v3_def by blast+
  have "schema_steps 2 = migrate_v2_to_v3 @ migration_chain migrations 3 @ verify_steps"
    by (simp add: schema_steps_def schema_version_8_def chain_simps)
  then have "sample_v3 \<in> set (crash_states (schema_steps 2) ?c)"
    using run by (simp add: crash_states_append)
  then show ?thesis by (simp add: crashed_initializations_def) (simp add: sample_file_simps)
qed

theorem upgrade_survives_crashes_witness:
  "\<exists>f. initialize_runtime_storage sample_process (sample_root sample_v3) = (sample_root f, Inr ())
     \<and> as_db f = Some (upgraded sample_v2)"
  using upgrade_survives_crashes [OF _ _ _ _ sample_crash, of 2 sample_process] sample_root_private
  by (simp add: sample_file_simps)

text \<open>
  C27: A crash of \<open>_migrate_v1_to_v2\<close> after its \<open>ALTER TABLE\<close>, which commits by itself, leaves a
  version 1 database that no later initialization accepts: each of them finds the column already
  there, raises, and changes nothing.
\<close>

theorem interrupted_first_migration_is_stuck:
  assumes "well_versioned 1 (rr_db r)" "private_database p r"
  shows "\<exists>r' \<in> set (crashed_initializations r). initialize_runtime_storage p r' =
    (r', Inl (StorageError ''runtime_storage_initialization_failed''))"
proof -
  obtain row where lease: "sf_lease (rr_db r) = Some (Lease_V1 row)"
    and version: "sf_version (rr_db r) = 1" "sf_metadata (rr_db r) = Some (Some (schema_owner, 1))"
    using assms(1) by (auto simp: well_versioned_def split: option.splits lease_table.splits)
  define f where "f = (rr_db r)\<lparr>sf_lease := Some (Lease_V2 (map_option activate_lease row))\<rparr>"
  have steps: "schema_steps 1 = check_metadata 1 # run_statement add_lease_active
      # [run_dml (set_schema_version 2), run_statement (set_user_version 2)]
      @ migration_chain migrations 2 @ verify_steps"
    by (simp add: schema_steps_def schema_version_8_def migrations_def migrate_v1_to_v2_def)
  have "f \<in> set (crash_states (schema_steps 1) \<lparr>cn_disk = rr_db r, cn_open = None\<rparr>)"
    using lease version by (simp add: steps check_metadata_def prog_simps run_statement_def
        add_lease_active_def f_def)
  then have "r\<lparr>rr_db := f\<rparr> \<in> set (crashed_initializations r)"
    using version by (simp add: crashed_initializations_def)
  moreover have "with_connection (prog_block (schema_steps 1)) f = (f, Inl SqliteError)"
    using version by (simp add: steps with_connection_def check_metadata_def prog_simps
        run_statement_def add_lease_active_def rollback_def f_def)
  then have "initialize_runtime_storage p (r\<lparr>rr_db := f\<rparr>) =
      (r\<lparr>rr_db := f\<rparr>, Inl (StorageError ''runtime_storage_initialization_failed''))"
    using assms(2) version by (subst initialize_existing)
      (simp_all add: private_database_def private_root_def f_def)
  ultimately show ?thesis by blast
qed

theorem interrupted_first_migration_is_stuck_witness:
  "\<exists>r' \<in> set (crashed_initializations (sample_root sample_v1)).
     initialize_runtime_storage sample_process r' =
       (r', Inl (StorageError ''runtime_storage_initialization_failed''))"
  using interrupted_first_migration_is_stuck [of "sample_root sample_v1" sample_process] sample_root_private
  by (simp add: sample_file_simps)

text \<open>
  C28: A database of a newer schema version, or one whose \<open>schema_metadata\<close> names another owner or
  version than the file, is refused and left exactly as it is.
\<close>

theorem foreign_database_is_refused:
  assumes "private_database p r"
    and "8 < sf_version (rr_db r) \<or>
      1 \<le> sf_version (rr_db r) \<and> sf_version (rr_db r) \<le> 8
        \<and> sf_metadata (rr_db r) \<notin> {None, Some (Some (schema_owner, sf_version (rr_db r)))}"
  shows "initialize_runtime_storage p r =
    (r, Inl (StorageError (if 8 < sf_version (rr_db r) then ''unsupported_runtime_schema''
       else ''runtime_schema_metadata_mismatch'')))"
proof (cases "8 < sf_version (rr_db r)")
  case True
  then show ?thesis
    by (simp add: initialize_existing [OF assms(1)] with_connection_def schema_steps_def
        schema_version_8_def prog_simps rollback_def)
next
  case False
  let ?n = "sf_version (rr_db r)"
  let ?c = "\<lparr>cn_disk = rr_db r, cn_open = None\<rparr>"
  have n: "?n \<in> {1, 2, 3, 4, 5, 6, 7, 8}" and bad: "check_metadata ?n ?c = (?c, Inl (StorageError ''runtime_schema_metadata_mismatch''))"
    using assms(2) False int_between [of ?n] by (auto simp: check_metadata_def prog_simps)
  have "prog_block (schema_steps ?n) ?c = (?c, Inl (StorageError ''runtime_schema_metadata_mismatch''))"
    using n bad
    by (auto simp: schema_steps_def schema_version_8_def chain_simps verify_steps_def prog_simps
        migrate_v1_to_v2_def migrate_v2_to_v3_def migrate_v3_to_v4_def migrate_v4_to_v5_def
        migrate_v5_to_v6_def migrate_v6_to_v7_def migrate_v7_to_v8_def)
  with False show ?thesis
    by (simp add: initialize_existing [OF assms(1)] with_connection_def rollback_def)
qed

theorem foreign_database_is_refused_witness:
  "initialize_runtime_storage sample_process (sample_root (sample_v1\<lparr>sf_version := 9\<rparr>)) =
    (sample_root (sample_v1\<lparr>sf_version := 9\<rparr>), Inl (StorageError ''unsupported_runtime_schema''))"
  using foreign_database_is_refused [of sample_process "sample_root (sample_v1\<lparr>sf_version := 9\<rparr>)"]
    sample_root_private by simp

end
