(* ===== verification/Json.thy ===== *)
theory Json
  imports Sha256 Clock
begin

text \<open>
  The part of Python's \<open>json\<close> module that \<open>requests/raw_artifacts.py\<close> uses: \<open>json.dumps\<close> with
  \<open>ensure_ascii=True, sort_keys=True, separators=(",", ":")\<close> of a flat dictionary of texts and
  integers, \<open>json.loads\<close> of the bytes of a UTF-8 document, and \<open>==\<close> of the loaded value with such
  a dictionary. A text is the list of its code points. The round trip is proved at the end.
\<close>

section \<open>Values\<close>

datatype json =
    JNull
  | JBool bool
  | JInt int
  | JFloat double
  | JStr "nat list"
  | JArr "json list"
  | JObj "(nat list \<times> json) list"

definition code_points :: "string \<Rightarrow> nat list" where
  "code_points = map of_char"

section \<open>Printing\<close>

definition hex_code :: "nat \<Rightarrow> nat" where
  "hex_code n = (if n < 10 then 48 + n else 87 + n)"

definition escape_unit :: "nat \<Rightarrow> nat list" where
  "escape_unit u = [92, 117, hex_code (u div 4096), hex_code (u div 256 mod 16),
     hex_code (u div 16 mod 16), hex_code (u mod 16)]"

text \<open>The escapes of a quote, a backslash and the five control characters with a letter.\<close>

definition short_escapes :: "(nat \<times> nat) list" where
  "short_escapes = [(34, 34), (92, 92), (10, 110), (13, 114), (9, 116), (12, 102), (8, 98)]"

definition escape :: "nat \<Rightarrow> nat list" where
  "escape c =
     (case map_of short_escapes c of
        Some l \<Rightarrow> [92, l]
      | None \<Rightarrow>
          if 32 \<le> c \<and> c \<le> 126 then [c]
          else if c < 65536 then escape_unit c
          else escape_unit (55296 + (c - 65536) div 1024) @ escape_unit (56320 + (c - 65536) mod 1024))"

definition print_text :: "nat list \<Rightarrow> nat list" where
  "print_text t = 34 # concat (map escape t) @ [34]"

fun print_nat :: "nat \<Rightarrow> nat list" where
  "print_nat n = (if n < 10 then [48 + n] else print_nat (n div 10) @ [48 + n mod 10])"

declare print_nat.simps [simp del]

definition print_int :: "int \<Rightarrow> nat list" where
  "print_int i = (if i < 0 then 45 # print_nat (nat (- i)) else print_nat (nat i))"

datatype scalar = Text string | Number int

primrec print_scalar :: "scalar \<Rightarrow> nat list" where
  "print_scalar (Text s) = print_text (code_points s)"
| "print_scalar (Number i) = print_int i"

type_synonym fields = "(string \<times> scalar) list"

definition print_member :: "string \<times> scalar \<Rightarrow> nat list" where
  "print_member kv = print_text (code_points (fst kv)) @ [58] @ print_scalar (snd kv)"

fun print_members :: "fields \<Rightarrow> nat list" where
  "print_members [] = []"
| "print_members [kv] = print_member kv"
| "print_members (kv # kvs) = print_member kv @ [44] @ print_members kvs"

definition print_object :: "fields \<Rightarrow> nat list" where
  "print_object d = 123 # print_members (sort_key fst d) @ [125]"

text \<open>\<open>_json_bytes\<close>.\<close>

definition json_bytes :: "fields \<Rightarrow> bytes" where
  "json_bytes d = map word_of_nat (print_object d @ [10])"

section \<open>Parsing\<close>

definition is_space :: "nat \<Rightarrow> bool" where
  "is_space c \<longleftrightarrow> c \<in> {32, 9, 10, 13}"

definition skip :: "nat list \<Rightarrow> nat list" where
  "skip = dropWhile is_space"

definition hex_value :: "nat \<Rightarrow> nat option" where
  "hex_value c =
     (if 48 \<le> c \<and> c \<le> 57 then Some (c - 48)
      else if 97 \<le> c \<and> c \<le> 102 then Some (c - 87)
      else if 65 \<le> c \<and> c \<le> 70 then Some (c - 55)
      else None)"

definition hex_unit :: "nat list \<Rightarrow> nat option" where
  "hex_unit ds =
     (case map hex_value ds of
        [Some a, Some b, Some c, Some d] \<Rightarrow> Some (4096 * a + 256 * b + 16 * c + d)
      | _ \<Rightarrow> None)"

definition unescape :: "nat \<Rightarrow> nat option" where
  "unescape l = map_of [(34, 34), (92, 92), (47, 47), (98, 8), (102, 12), (110, 10), (114, 13), (116, 9)] l"

text \<open>A second escape that completes a surrogate pair.\<close>

definition low_surrogate :: "nat list \<Rightarrow> nat option" where
  "low_surrogate s =
     (if take 2 s = [92, 117] then
        (case hex_unit (take 4 (drop 2 s)) of
           Some v \<Rightarrow> if 56320 \<le> v \<and> v \<le> 57343 then Some v else None
         | None \<Rightarrow> None)
      else None)"

text \<open>The rest of a text after its opening quote.\<close>

function parse_text :: "nat list \<Rightarrow> (nat list \<times> nat list) option" where
  "parse_text [] = None"
| "parse_text (c # s) =
     (if c = 34 then Some ([], s)
      else if c < 32 then None
      else if c \<noteq> 92 then map_option (apfst ((#) c)) (parse_text s)
      else
        (case s of
           [] \<Rightarrow> None
         | l # s' \<Rightarrow>
             if l = 117 then
               (case hex_unit (take 4 s') of
                  None \<Rightarrow> None
                | Some u \<Rightarrow>
                    if 55296 \<le> u \<and> u \<le> 56319 \<and> low_surrogate (drop 4 s') \<noteq> None
                    then map_option
                      (apfst ((#) (65536 + 1024 * (u - 55296) + (the (low_surrogate (drop 4 s')) - 56320))))
                      (parse_text (drop 10 s'))
                    else map_option (apfst ((#) u)) (parse_text (drop 4 s')))
             else
               (case unescape l of
                  None \<Rightarrow> None
                | Some e \<Rightarrow> map_option (apfst ((#) e)) (parse_text s'))))"
  by pat_completeness auto

termination parse_text
  by (relation "measure length") auto

definition is_digit_code :: "nat \<Rightarrow> bool" where
  "is_digit_code c \<longleftrightarrow> 48 \<le> c \<and> c \<le> 57"

definition digits_value :: "nat list \<Rightarrow> nat" where
  "digits_value ds = foldl (\<lambda>n c. 10 * n + (c - 48)) 0 ds"

text \<open>The fraction and the exponent of a number, when they are there.\<close>

definition parse_fraction :: "nat list \<Rightarrow> nat list option \<times> nat list" where
  "parse_fraction s =
     (case s of
        c # cs \<Rightarrow>
          if c = 46 \<and> takeWhile is_digit_code cs \<noteq> []
          then (Some (takeWhile is_digit_code cs), dropWhile is_digit_code cs) else (None, s)
      | [] \<Rightarrow> (None, s))"

definition parse_exponent :: "nat list \<Rightarrow> int option \<times> nat list" where
  "parse_exponent s =
     (case s of
        c # cs \<Rightarrow>
          (let (neg, ds) = (case cs of [] \<Rightarrow> (False, []) | sg # r \<Rightarrow>
                 if sg = 45 then (True, r) else if sg = 43 then (False, r) else (False, cs)) in
           if (c = 101 \<or> c = 69) \<and> takeWhile is_digit_code ds \<noteq> []
           then (Some ((if neg then - 1 else 1) * int (digits_value (takeWhile is_digit_code ds))),
                 dropWhile is_digit_code ds)
           else (None, s))
      | [] \<Rightarrow> (None, s))"

definition power10 :: "int \<Rightarrow> rat" where
  "power10 e = (if 0 \<le> e then 10 ^ nat e else 1 / 10 ^ nat (- e))"

definition int_digits_limit :: nat where
  "int_digits_limit = 4300"

definition number_of :: "bool \<Rightarrow> nat list \<Rightarrow> nat list option \<Rightarrow> int option \<Rightarrow> json option" where
  "number_of neg ds fraction exponent =
     (let sign = (if neg then - 1 else 1) in
      if fraction = None \<and> exponent = None
      then (if length ds > int_digits_limit then None else Some (JInt (sign * int (digits_value ds))))
      else
        (let fr = (case fraction of None \<Rightarrow> [] | Some f \<Rightarrow> f);
             e = (case exponent of None \<Rightarrow> 0 | Some e \<Rightarrow> e) in
         Some (JFloat (to_double
           (of_int sign * of_nat (digits_value (ds @ fr)) * power10 (e - int (length fr)))))))"

definition parse_number :: "nat list \<Rightarrow> (json \<times> nat list) option" where
  "parse_number s =
     (let (neg, s1) = (case s of c # cs \<Rightarrow> if c = 45 then (True, cs) else (False, s) | [] \<Rightarrow> (False, s));
          (ds, s2) = (case s1 of
             [] \<Rightarrow> ([], [])
           | c # cs \<Rightarrow> if c = 48 then ([c], cs) else (takeWhile is_digit_code s1, dropWhile is_digit_code s1))
      in if ds = [] then None
         else
           (let (fraction, s3) = parse_fraction s2; (exponent, s4) = parse_exponent s3
            in map_option (\<lambda>j. (j, s4)) (number_of neg ds fraction exponent)))"

definition json_words :: "(string \<times> json) list" where
  "json_words = [(''null'', JNull), (''true'', JBool True), (''false'', JBool False),
     (''NaN'', JFloat Not_A_Number), (''Infinity'', JFloat Infinite), (''-Infinity'', JFloat Minus_Infinite)]"

definition parse_atom :: "nat list \<Rightarrow> (json \<times> nat list) option" where
  "parse_atom s =
     (case List.find (\<lambda>(w, _). take (length w) s = code_points w) json_words of
        Some (w, j) \<Rightarrow> Some (j, drop (length w) s)
      | None \<Rightarrow> parse_number s)"

text \<open>
  A value, the members of an object after their first quote, and the elements of an array. Every
  call uses up a character, so the length of the document is fuel enough.
\<close>

fun parse_value :: "nat \<Rightarrow> nat list \<Rightarrow> (json \<times> nat list) option"
  and parse_members :: "nat \<Rightarrow> nat list \<Rightarrow> ((nat list \<times> json) list \<times> nat list) option"
  and parse_elements :: "nat \<Rightarrow> nat list \<Rightarrow> (json list \<times> nat list) option" where
  "parse_value 0 s = None"
| "parse_value (Suc n) s =
     (case s of
        [] \<Rightarrow> None
      | c # cs \<Rightarrow>
          if c = 34 then map_option (apfst JStr) (parse_text cs)
          else if c = 123 then
            (case skip cs of
               [] \<Rightarrow> None
             | d # ds \<Rightarrow>
                 if d = 125 then Some (JObj [], ds)
                 else if d = 34 then map_option (apfst JObj) (parse_members n ds)
                 else None)
          else if c = 91 then
            (case skip cs of
               [] \<Rightarrow> None
             | d # ds \<Rightarrow>
                 if d = 93 then Some (JArr [], ds)
                 else map_option (apfst JArr) (parse_elements n (d # ds)))
          else parse_atom s)"
| "parse_members 0 s = None"
| "parse_members (Suc n) s =
     (case parse_text s of
        None \<Rightarrow> None
      | Some (key, s1) \<Rightarrow>
          (case skip s1 of
             [] \<Rightarrow> None
           | c # s2 \<Rightarrow>
               if c \<noteq> 58 then None
               else
                 (case parse_value n (skip s2) of
                    None \<Rightarrow> None
                  | Some (v, s3) \<Rightarrow>
                      (case skip s3 of
                         [] \<Rightarrow> None
                       | d # s4 \<Rightarrow>
                           if d = 125 then Some ([(key, v)], s4)
                           else if d = 44 \<and> take 1 (skip s4) = [34]
                           then map_option (apfst ((#) (key, v))) (parse_members n (drop 1 (skip s4)))
                           else None))))"
| "parse_elements 0 s = None"
| "parse_elements (Suc n) s =
     (case parse_value n s of
        None \<Rightarrow> None
      | Some (v, s1) \<Rightarrow>
          (case skip s1 of
             [] \<Rightarrow> None
           | d # s2 \<Rightarrow>
               if d = 93 then Some ([v], s2)
               else if d = 44 then map_option (apfst ((#) v)) (parse_elements n (skip s2))
               else None))"

definition loads_text :: "nat list \<Rightarrow> json option" where
  "loads_text s =
     (case parse_value (Suc (length s)) (skip s) of
        Some (j, rest) \<Rightarrow> if skip rest = [] then Some j else None
      | None \<Rightarrow> None)"

text \<open>\<open>bytes.decode("utf-8", "surrogatepass")\<close>.\<close>

definition continues :: "nat \<Rightarrow> bool" where
  "continues b \<longleftrightarrow> 128 \<le> b \<and> b \<le> 191"

fun decode_utf8 :: "nat list \<Rightarrow> nat list option" where
  "decode_utf8 [] = Some []"
| "decode_utf8 (a # s) =
     (if a < 128 then map_option ((#) a) (decode_utf8 s)
      else
        (case s of
           b # s1 \<Rightarrow>
             if 194 \<le> a \<and> a \<le> 223 \<and> continues b
             then map_option ((#) (64 * (a - 192) + (b - 128))) (decode_utf8 s1)
             else
               (case s1 of
                  c # s2 \<Rightarrow>
                    if 224 \<le> a \<and> a \<le> 239 \<and> continues b \<and> continues c \<and> (a = 224 \<longrightarrow> 160 \<le> b)
                    then map_option ((#) (4096 * (a - 224) + 64 * (b - 128) + (c - 128))) (decode_utf8 s2)
                    else
                      (case s2 of
                         d # s3 \<Rightarrow>
                           if 240 \<le> a \<and> a \<le> 244 \<and> continues b \<and> continues c \<and> continues d
                             \<and> (a = 240 \<longrightarrow> 144 \<le> b) \<and> (a = 244 \<longrightarrow> b \<le> 143)
                           then map_option ((#) (262144 * (a - 240) + 4096 * (b - 128) + 64 * (c - 128) + (d - 128)))
                             (decode_utf8 s3)
                           else None
                       | [] \<Rightarrow> None)
                | [] \<Rightarrow> None)
         | [] \<Rightarrow> None))"

definition json_loads :: "bytes \<Rightarrow> json option" where
  "json_loads bs =
     (let codes = map unat bs;
          body = (if take 3 codes = [239, 187, 191] then drop 3 codes else codes)
      in case decode_utf8 body of None \<Rightarrow> None | Some s \<Rightarrow> loads_text s)"

section \<open>Comparison\<close>

definition numeric :: "json \<Rightarrow> rat option" where
  "numeric j =
     (case j of
        JBool b \<Rightarrow> Some (if b then 1 else 0)
      | JInt i \<Rightarrow> Some (of_int i)
      | JFloat (Finite x) \<Rightarrow> Some x
      | _ \<Rightarrow> None)"

fun equals_scalar :: "json \<Rightarrow> scalar \<Rightarrow> bool" where
  "equals_scalar j (Text s) \<longleftrightarrow> j = JStr (code_points s)"
| "equals_scalar j (Number i) \<longleftrightarrow> numeric j = Some (of_int i)"

text \<open>\<open>loaded == {...}\<close>: of two members with one key the later one counts.\<close>

definition equals_fields :: "json \<Rightarrow> fields \<Rightarrow> bool" where
  "equals_fields j d \<longleftrightarrow>
     (case j of
        JObj ms \<Rightarrow> set (map fst ms) = set (map (code_points \<circ> fst) d)
          \<and> list_all (\<lambda>(k, v). case map_of (rev ms) (code_points k) of
                None \<Rightarrow> False | Some w \<Rightarrow> equals_scalar w v) d
      | _ \<Rightarrow> False)"

section \<open>Round trip\<close>

text \<open>Texts.\<close>

lemma hex_value_code: "n < 16 \<Longrightarrow> hex_value (hex_code n) = Some n"
  by (auto simp: hex_value_def hex_code_def)

lemma hex_unit_digits:
  assumes "u < 65536"
  shows "hex_unit [hex_code (u div 4096), hex_code (u div 256 mod 16), hex_code (u div 16 mod 16),
    hex_code (u mod 16)] = Some u"
proof -
  have "u div 4096 < 16" using assms by simp
  moreover have "4096 * (u div 4096) + 256 * (u div 256 mod 16) + 16 * (u div 16 mod 16) + u mod 16 = u"
  proof -
    have "u = 16 * (u div 16) + u mod 16" by simp
    moreover have "u div 16 = 16 * (u div 256) + u div 16 mod 16"
      using div_mult2_eq [of u 16 16] by simp
    moreover have "u div 256 = 16 * (u div 4096) + u div 256 mod 16"
      using div_mult2_eq [of u 256 16] by simp
    ultimately show ?thesis by linarith
  qed
  ultimately show ?thesis by (simp add: hex_unit_def hex_value_code)
qed

lemma parse_short_escape:
  "map_of short_escapes c = Some l \<Longrightarrow> parse_text (92 # l # s) = map_option (apfst ((#) c)) (parse_text s)"
  by (auto simp: short_escapes_def unescape_def split: if_splits)

lemma parse_escape:
  assumes "c < 55296"
  shows "parse_text (escape c @ s) = map_option (apfst ((#) c)) (parse_text s)"
proof (cases "map_of short_escapes c")
  case (Some l)
  then show ?thesis by (simp add: escape_def parse_short_escape del: parse_text.simps)
next
  case None
  then have "c \<noteq> 34" "c \<noteq> 92" by (auto simp: short_escapes_def split: if_splits)
  moreover have "parse_text (escape_unit c @ s) = map_option (apfst ((#) c)) (parse_text s)"
    using assms hex_unit_digits [of c] by (simp add: escape_unit_def)
  ultimately show ?thesis using None assms by (auto simp: escape_def)
qed

lemma parse_print_text:
  "list_all (\<lambda>c. c < 55296) t \<Longrightarrow> parse_text (concat (map escape t) @ 34 # s) = Some (t, s)"
  by (induction t) (simp_all add: parse_escape del: parse_text.simps(2), simp)

lemma code_points_small: "list_all (\<lambda>c. c < 256) (code_points w)"
proof -
  have "(of_char c :: nat) < 256" for c
    using of_char_eq_iff by (metis nat_of_char_less_256)
  then show ?thesis by (simp add: code_points_def list_all_iff)
qed

text \<open>Numbers.\<close>

lemma print_nat_digits: "list_all is_digit_code (print_nat n) \<and> print_nat n \<noteq> []"
  by (induction n rule: print_nat.induct) (subst (1 2) print_nat.simps, auto simp: list_all_iff is_digit_code_def)

lemma digits_value_print_nat: "digits_value (print_nat n) = n"
  by (induction n rule: print_nat.induct) (subst print_nat.simps, auto simp: digits_value_def)

lemma print_nat_head: "0 < n \<Longrightarrow> hd (print_nat n) \<noteq> 48"
proof (induction n rule: print_nat.induct)
  case (1 n)
  show ?case
    using 1 print_nat_digits [of "n div 10"] by (subst print_nat.simps) (auto simp: hd_append)
qed

lemma length_print_nat: "n < 10 ^ k \<Longrightarrow> 0 < k \<Longrightarrow> length (print_nat n) \<le> k"
proof (induction n arbitrary: k rule: print_nat.induct)
  case (1 n)
  show ?case
  proof (cases "n < 10")
    case True
    then show ?thesis using 1(3) by (subst print_nat.simps) simp
  next
    case False
    with 1(2) obtain k' where k: "k = Suc k'" "0 < k'"
      by (cases k; cases "k - 1") auto
    with 1(2) have "n div 10 < 10 ^ k'" by (simp add: less_mult_imp_div_less mult.commute)
    with 1(1) [OF False this] k False show ?thesis by (subst print_nat.simps) simp
  qed
qed

text \<open>What follows a value in a printed object.\<close>

definition delimited :: "nat list \<Rightarrow> bool" where
  "delimited s \<longleftrightarrow> (\<exists>c r. s = c # r \<and> c \<in> {44, 125})"

lemma take_digits:
  assumes "list_all is_digit_code ds" "delimited s"
  shows "takeWhile is_digit_code (ds @ s) = ds \<and> dropWhile is_digit_code (ds @ s) = s"
  using assms by (induction ds) (auto simp: delimited_def is_digit_code_def)

lemma parse_number_nat:
  assumes "n < 10 ^ int_digits_limit" "delimited s"
  shows "parse_number (print_nat n @ s) = Some (JInt (int n), s)"
    and "parse_number (45 # print_nat n @ s) = Some (JInt (- int n), s)"
proof -
  obtain c r where s: "s = c # r" "c = 44 \<or> c = 125" using assms(2) by (auto simp: delimited_def)
  then have rest: "parse_fraction s = (None, s)" "parse_exponent s = (None, s)"
    by (auto simp: parse_fraction_def parse_exponent_def Let_def split: list.splits prod.splits)
  have ds: "list_all is_digit_code (print_nat n)" "print_nat n \<noteq> []" using print_nat_digits by auto
  have "n = 0 \<or> hd (print_nat n) \<noteq> 48" using print_nat_head by auto
  then have split: "(case print_nat n @ s of
      [] \<Rightarrow> ([], [])
    | c # cs \<Rightarrow> if c = 48 then ([c], cs)
        else (takeWhile is_digit_code (print_nat n @ s), dropWhile is_digit_code (print_nat n @ s))) =
    (print_nat n, s)"
  proof
    assume "n = 0"
    then show ?thesis by (simp add: print_nat.simps)
  next
    assume "hd (print_nat n) \<noteq> 48"
    then show ?thesis using ds take_digits [OF ds(1) assms(2)] by (cases "print_nat n") auto
  qed
  have num: "number_of neg (print_nat n) None None = Some (JInt ((if neg then - 1 else 1) * int n))" for neg
    using length_print_nat [OF assms(1)] by (simp add: number_of_def digits_value_print_nat int_digits_limit_def)
  have sign: "(case print_nat n @ s of c # cs \<Rightarrow> if c = 45 then (True, cs) else (False, print_nat n @ s)
      | [] \<Rightarrow> (False, print_nat n @ s)) = (False, print_nat n @ s)"
    using ds by (cases "print_nat n") (auto simp: is_digit_code_def)
  show "parse_number (print_nat n @ s) = Some (JInt (int n), s)"
    unfolding parse_number_def using ds by (simp add: sign split rest num)
  show "parse_number (45 # print_nat n @ s) = Some (JInt (- int n), s)"
    unfolding parse_number_def using ds by (simp add: split rest num)
qed

definition printable :: "scalar \<Rightarrow> bool" where
  "printable v = (case v of Text _ \<Rightarrow> True | Number i \<Rightarrow> nat \<bar>i\<bar> < 10 ^ int_digits_limit)"

primrec json_of :: "scalar \<Rightarrow> json" where
  "json_of (Text s) = JStr (code_points s)"
| "json_of (Number i) = JInt i"

lemma digit_is_no_word:
  assumes "is_digit_code c \<or> c = 45 \<and> (\<exists>d r. s = d # r \<and> is_digit_code d)"
  shows "parse_atom (c # s) = parse_number (c # s)"
  using assms by (auto simp: parse_atom_def json_words_def code_points_def is_digit_code_def)

lemma digit_value:
  assumes "is_digit_code c \<or> c = 45 \<and> (\<exists>d r. s = d # r \<and> is_digit_code d)"
  shows "parse_value (Suc n) (c # s) = parse_number (c # s)"
  using assms digit_is_no_word [OF assms] by (auto simp: is_digit_code_def)

lemma parse_print_scalar:
  assumes "printable v" "delimited s"
  shows "parse_value (Suc n) (print_scalar v @ s) = Some (json_of v, s)"
proof (cases v)
  case (Text w)
  have "list_all (\<lambda>c. c < 55296) (code_points w)"
    using code_points_small [of w] by (auto simp: list_all_iff)
  from parse_print_text [OF this] Text show ?thesis by (simp add: print_text_def)
next
  case (Number i)
  define m where "m = nat \<bar>i\<bar>"
  have m: "m < 10 ^ int_digits_limit" using assms(1) Number by (simp add: printable_def m_def)
  obtain d r where d: "print_nat m = d # r" "is_digit_code d"
    using print_nat_digits [of m] by (cases "print_nat m") auto
  show ?thesis
  proof (cases "i < 0")
    case True
    then have "print_scalar v = 45 # print_nat m" "i = - int m"
      using Number by (simp_all add: print_int_def m_def)
    then show ?thesis
      using parse_number_nat(2) [OF m assms(2)] digit_value [of 45 "print_nat m @ s" n] d Number by simp
  next
    case False
    then have "print_scalar v = print_nat m" "i = int m" using Number by (simp_all add: print_int_def m_def)
    then show ?thesis
      using parse_number_nat(1) [OF m assms(2)] digit_value [of d "r @ s" n] d Number by simp
  qed
qed

lemma skip_delimited: "delimited s \<Longrightarrow> skip s = s"
  by (auto simp: delimited_def skip_def is_space_def)

lemma print_text_Cons: "print_text t = 34 # concat (map escape t) @ [34]"
  by (simp add: print_text_def)

lemma print_scalar_start:
  "printable v \<Longrightarrow> skip (print_scalar v @ s) = print_scalar v @ s"
proof -
  obtain c r where "print_scalar v = c # r" "\<not> is_space c"
  proof (cases v)
    case (Text w)
    then show ?thesis using that by (simp add: print_text_def is_space_def)
  next
    case (Number i)
    obtain d r where "print_nat (nat i) = d # r" "is_digit_code d"
      using print_nat_digits [of "nat i"] by (cases "print_nat (nat i)") auto
    with Number that [of 45] that [of d r] show ?thesis
      by (cases "i < 0") (auto simp: print_int_def is_space_def is_digit_code_def)
  qed
  then show "skip (print_scalar v @ s) = print_scalar v @ s" by (simp add: skip_def)
qed

text \<open>One member, after its opening quote, before \<open>,\<close> or \<open>}\<close>.\<close>

lemma parse_print_members:
  assumes "kvs \<noteq> []" "list_all (\<lambda>kv. printable (snd kv)) kvs" "length kvs \<le> n"
  shows "parse_members (Suc n) (drop 1 (print_members kvs) @ 125 # s) =
    Some (map (\<lambda>(k, v). (code_points k, json_of v)) kvs, s)"
  using assms
proof (induction kvs arbitrary: n rule: print_members.induct)
  case (2 kv)
  obtain k v where kv: "kv = (k, v)" by fastforce
  obtain n' where n: "n = Suc n'" using 2 by (cases n) auto
  have key: "list_all (\<lambda>c. c < 55296) (code_points k)"
    using code_points_small [of k] by (auto simp: list_all_iff)
  have end_s: "delimited (125 # s)" by (simp add: delimited_def)
  have "printable v" using 2 kv by simp
  then show ?case
    using parse_print_text [OF key] parse_print_scalar [OF _ end_s] print_scalar_start [of v]
      skip_delimited [OF end_s]
    by (simp add: kv n print_member_def print_text_Cons skip_def is_space_def del: parse_value.simps)
next
  case (3 kv kv2 kvs)
  obtain k v where kv: "kv = (k, v)" by fastforce
  obtain n' where n: "n = Suc n'" using 3 by (cases n) auto
  have key: "list_all (\<lambda>c. c < 55296) (code_points k)"
    using code_points_small [of k] by (auto simp: list_all_iff)
  let ?rest = "print_members (kv2 # kvs) @ 125 # s"
  have sep: "delimited (44 # ?rest)" by (simp add: delimited_def)
  have quote: "\<exists>r. print_members (kv2 # kvs) = 34 # r"
    by (cases kvs) (auto simp: print_member_def print_text_Cons)
  then obtain r where r: "print_members (kv2 # kvs) = 34 # r" ..
  have IH: "parse_members n (r @ 125 # s) =
      Some (map (\<lambda>(k, v). (code_points k, json_of v)) (kv2 # kvs), s)"
    using 3(1) [of n'] 3(3,4) n r by simp
  have "printable v" using 3 kv by simp
  then show ?case
    using parse_print_text [OF key] parse_print_scalar [OF _ sep] print_scalar_start [of v]
      skip_delimited [OF sep] IH r
    by (simp add: kv n print_member_def print_text_Cons skip_def is_space_def del: parse_value.simps)
qed simp

text \<open>The whole document.\<close>

definition printable_fields :: "fields \<Rightarrow> bool" where
  "printable_fields d \<longleftrightarrow> d \<noteq> [] \<and> distinct (map fst d) \<and> list_all (\<lambda>kv. printable (snd kv)) d"

definition object_of :: "fields \<Rightarrow> json" where
  "object_of d = JObj (map (\<lambda>(k, v). (code_points k, json_of v)) (sort_key fst d))"

lemma length_print_members: "kvs \<noteq> [] \<Longrightarrow> 2 * length kvs \<le> length (print_members kvs)"
  by (induction kvs rule: print_members.induct) (simp_all add: print_member_def print_text_def)

lemma loads_print_object:
  assumes "printable_fields d"
  shows "loads_text (print_object d @ [10]) = Some (object_of d)"
proof -
  let ?kvs = "sort_key fst d"
  have kvs: "?kvs \<noteq> []" "list_all (\<lambda>kv. printable (snd kv)) ?kvs"
    using assms by (auto simp: printable_fields_def list_all_iff dest: arg_cong [of _ _ set])
  obtain r where r: "print_members ?kvs = 34 # r"
    using kvs(1) by (cases ?kvs rule: print_members.cases) (auto simp: print_member_def print_text_Cons)
  define n where "n = length (print_object d @ [10]) - 1"
  have n: "Suc n = length (print_object d @ [10])" "length ?kvs \<le> n"
    using length_print_members [OF kvs(1)] by (simp_all add: n_def print_object_def)
  have "parse_members (Suc n) (r @ [125, 10]) =
      Some (map (\<lambda>(k, v). (code_points k, json_of v)) ?kvs, [10])"
    using parse_print_members [OF kvs n(2), of "[10]"] r by simp
  then show ?thesis
    using n(1) r
    by (simp add: loads_text_def print_object_def skip_def is_space_def object_of_def
        del: parse_members.simps)
qed

lemma escape_ascii:
  assumes "c < 55296"
  shows "list_all (\<lambda>x. x < 128) (escape c)"
proof -
  have hex: "hex_code n < 128" if "n < 16" for n using that by (simp add: hex_code_def)
  have "c div 4096 < 16" using assms by simp
  then have "list_all (\<lambda>x. x < 128) (escape_unit c)" by (simp add: escape_unit_def hex)
  then show ?thesis
    using assms by (auto simp: escape_def short_escapes_def list_all_iff split: option.splits)
qed

lemma print_text_ascii: "list_all (\<lambda>x. x < 128) (print_text (code_points w))"
proof -
  have "list_all (\<lambda>x. x < 128) (concat (map escape t))" if "list_all (\<lambda>c. c < 256) t" for t
  proof -
    have "list_all (\<lambda>x. x < 128) (escape c)" if "c < 256" for c using that by (simp add: escape_ascii)
    with that show ?thesis by (induction t) simp_all
  qed
  then show ?thesis using code_points_small by (simp add: print_text_def)
qed

lemma print_scalar_ascii: "list_all (\<lambda>x. x < 128) (print_scalar v)"
proof -
  have "list_all (\<lambda>x. x < 128) (print_nat n)" for n
    using print_nat_digits [of n] by (auto simp: list_all_iff is_digit_code_def)
  then show ?thesis by (cases v) (simp_all add: print_text_ascii print_int_def)
qed

lemma print_object_ascii: "list_all (\<lambda>x. x < 128) (print_object d)"
proof -
  have "list_all (\<lambda>x. x < 128) (print_members kvs)" for kvs
    by (induction kvs rule: print_members.induct)
      (simp_all add: print_member_def print_text_ascii print_scalar_ascii)
  then show ?thesis by (simp add: print_object_def)
qed

lemma decode_ascii: "list_all (\<lambda>x. x < 128) s \<Longrightarrow> decode_utf8 s = Some s"
  by (induction s) simp_all

lemma unat_bytes: "list_all (\<lambda>x. x < 128) s \<Longrightarrow> map unat (map word_of_nat s :: bytes) = s"
  by (induction s) (simp_all add: unat_of_nat)

theorem json_loads_json_bytes:
  assumes "printable_fields d"
  shows "json_loads (json_bytes d) = Some (object_of d)"
proof -
  have ascii: "list_all (\<lambda>x. x < 128) (print_object d @ [10])" using print_object_ascii by simp
  have "take 3 (print_object d @ [10]) \<noteq> [239, 187, 191]" by (simp add: print_object_def)
  with ascii show ?thesis
    unfolding json_loads_def json_bytes_def
    by (simp only: unat_bytes [OF ascii] decode_ascii [OF ascii] Let_def if_False option.case
        loads_print_object [OF assms])
qed

text \<open>Loaded values compare as the dictionaries they were printed from.\<close>

lemma code_points_inject: "code_points s = code_points t \<longleftrightarrow> s = t"
  unfolding code_points_def by (simp add: inj_map_eq_map inj_def)

lemma equals_scalar_json_of: "equals_scalar (json_of v) w \<longleftrightarrow> v = w"
  by (cases v; cases w) (auto simp: numeric_def code_points_inject)

lemma equals_object:
  assumes "printable_fields d" "printable_fields e"
  shows "equals_fields (object_of d) e \<longleftrightarrow> set d = set e"
proof -
  let ?ms = "map (\<lambda>(k, v). (code_points k, json_of v)) (sort_key fst d)"
  have inj: "inj code_points" by (simp add: inj_def code_points_inject)
  have fst_ms: "map fst ?ms = map code_points (map fst (sort_key fst d))" by (simp add: split_def)
  have "distinct (map fst (sort_key fst d))"
    using assms(1) by (simp add: printable_fields_def distinct_map)
  then have dist: "distinct (map fst ?ms)"
    unfolding fst_ms distinct_map [of code_points] using inj_on_subset [OF inj subset_UNIV] by blast
  then have look: "map_of (rev ?ms) (code_points k) = Some j \<longleftrightarrow> (code_points k, j) \<in> set ?ms" for k j
    by (subst map_of_eq_Some_iff) (simp_all only: rev_map [symmetric] distinct_rev set_rev)
  have mem: "(code_points k, j) \<in> set ?ms \<longleftrightarrow> (\<exists>v. (k, v) \<in> set d \<and> j = json_of v)" for k j
    by (force simp: code_points_inject)
  have keys: "set (map fst ?ms) = code_points ` fst ` set d" by (simp add: fst_ms del: map_map)
  have dist_d: "distinct (map fst d)" and dist_e: "distinct (map fst e)"
    using assms by (simp_all add: printable_fields_def)
  have "equals_fields (object_of d) e \<longleftrightarrow>
      fst ` set d = fst ` set e \<and> (\<forall>(k, v) \<in> set e. \<exists>w. (k, w) \<in> set d \<and> equals_scalar (json_of w) v)"
  proof -
    have "(case map_of (rev ?ms) (code_points k) of None \<Rightarrow> False | Some w \<Rightarrow> equals_scalar w v) \<longleftrightarrow>
        (\<exists>w. (k, w) \<in> set d \<and> equals_scalar (json_of w) v)" for k v
    proof (cases "map_of (rev ?ms) (code_points k)")
      case None
      then have "(k, w) \<notin> set d" for w using look [of k] mem [of k] by fastforce
      with None show ?thesis by simp
    next
      case (Some j)
      then obtain w where w: "(k, w) \<in> set d" "j = json_of w" using look [of k] mem [of k] by blast
      then have "(k, w') \<in> set d \<longleftrightarrow> w' = w" for w' using eq_key_imp_eq_value [OF dist_d] by blast
      with Some w show ?thesis by simp
    qed
    moreover have "code_points ` fst ` set d = (code_points \<circ> fst) ` set e \<longleftrightarrow> fst ` set d = fst ` set e"
      using inj_image_eq_iff [OF inj, of "fst ` set d" "fst ` set e"] by (simp only: image_comp)
    ultimately show ?thesis
      unfolding equals_fields_def object_of_def json.case list_all_iff keys by (simp add: split_def)
  qed
  also have "\<dots> \<longleftrightarrow> fst ` set d = fst ` set e \<and> set e \<subseteq> set d"
    by (auto simp: equals_scalar_json_of)
  also have "\<dots> \<longleftrightarrow> set d = set e"
  proof -
    have "set d \<subseteq> set e" if keys: "fst ` set d = fst ` set e" and sub: "set e \<subseteq> set d"
    proof
      fix kv assume kv: "kv \<in> set d"
      then obtain v where v: "(fst kv, v) \<in> set e" using keys by (metis imageE imageI prod.collapse)
      then have "v = snd kv" using sub kv eq_key_imp_eq_value [OF dist_d, of "fst kv"] by auto
      with v show "kv \<in> set e" by simp
    qed
    then show ?thesis by blast
  qed
  finally show ?thesis .
qed

end
