(* ===== verification/Publisher.thy ===== *)
theory Publisher
  imports Publications Transport Migration Json
begin

text \<open>
  \<open>requests/raw_artifacts.py\<close>: \<open>RawArtifactPublisher.publish\<close> and \<open>reconcile\<close> over a file system
  and the repository. Files are an association list from the path below the runs root to the
  entry there. Every effect first takes one element of a schedule of faults: it may happen, fail
  with an operating system error, or be the moment the process dies, after which nothing that
  the program still would do has an effect.
\<close>

section \<open>Files\<close>

type_synonym path = "string list"

text \<open>
  \<open>Dir link uid mode\<close> is a directory, reached through a symbolic link if \<open>link\<close>; \<open>Dangling\<close> is a
  link to nothing.
\<close>

datatype entry = Dir bool int nat | File bytes | Dangling | Other_Entry

type_synonym files = "(path \<times> entry) list"

definition path_exists :: "path \<Rightarrow> files \<Rightarrow> bool" where
  "path_exists p fs \<longleftrightarrow> map_of fs p \<noteq> None \<and> map_of fs p \<noteq> Some Dangling"

definition is_symlink :: "path \<Rightarrow> files \<Rightarrow> bool" where
  "is_symlink p fs =
     (case map_of fs p of Some (Dir link _ _) \<Rightarrow> link | Some Dangling \<Rightarrow> True | _ \<Rightarrow> False)"

definition is_dir :: "path \<Rightarrow> files \<Rightarrow> bool" where
  "is_dir p fs = (case map_of fs p of Some (Dir _ _ _) \<Rightarrow> True | _ \<Rightarrow> False)"

definition set_entry :: "path \<Rightarrow> entry \<Rightarrow> files \<Rightarrow> files" where
  "set_entry p e fs = (p, e) # filter (\<lambda>(q, _). q \<noteq> p) fs"

definition remove_entry :: "path \<Rightarrow> files \<Rightarrow> files" where
  "remove_entry p = filter (\<lambda>(q, _). q \<noteq> p)"

definition children :: "path \<Rightarrow> files \<Rightarrow> path list" where
  "children p fs = filter (\<lambda>q. q \<noteq> [] \<and> butlast q = p) (map fst fs)"

definition make_dir :: "int \<Rightarrow> bool \<Rightarrow> nat \<Rightarrow> path \<Rightarrow> files \<Rightarrow> exn + files" where
  "make_dir uid exist_ok mode p fs =
     (case map_of fs p of
        Some e \<Rightarrow> if exist_ok \<and> is_dir p fs then Inr fs else Inl OsError
      | None \<Rightarrow>
          if p \<noteq> [] \<and> is_dir (butlast p) fs then Inr (set_entry p (Dir False uid mode) fs)
          else Inl OsError)"

definition create_file :: "path \<Rightarrow> files \<Rightarrow> exn + files" where
  "create_file p fs =
     (if map_of fs p = None \<and> p \<noteq> [] \<and> is_dir (butlast p) fs then Inr (set_entry p (File []) fs)
      else Inl OsError)"

definition fill_file :: "path \<Rightarrow> bytes \<Rightarrow> files \<Rightarrow> exn + files" where
  "fill_file p content fs =
     (case map_of fs p of Some (File _) \<Rightarrow> Inr (set_entry p (File content) fs) | _ \<Rightarrow> Inl OsError)"

definition unlink :: "path \<Rightarrow> files \<Rightarrow> exn + files" where
  "unlink p fs =
     (case map_of fs p of
        None \<Rightarrow> Inl OsError
      | Some (Dir link _ _) \<Rightarrow> if link then Inr (remove_entry p fs) else Inl OsError
      | Some _ \<Rightarrow> Inr (remove_entry p fs))"

definition remove_dir :: "path \<Rightarrow> files \<Rightarrow> exn + files" where
  "remove_dir p fs =
     (if is_dir p fs \<and> \<not> is_symlink p fs \<and> children p fs = [] then Inr (remove_entry p fs)
      else Inl OsError)"

definition rebase :: "path \<Rightarrow> path \<Rightarrow> path \<Rightarrow> path" where
  "rebase s d q = (if take (length s) q = s then d @ drop (length s) q else q)"

text \<open>\<open>os.rename\<close> of a directory: onto nothing, or onto an empty directory.\<close>

definition rename :: "path \<Rightarrow> path \<Rightarrow> files \<Rightarrow> exn + files" where
  "rename s d fs =
     (if map_of fs s \<noteq> None \<and> d \<noteq> [] \<and> is_dir (butlast d) fs
         \<and> (map_of fs d = None \<or> is_dir d fs \<and> \<not> is_symlink d fs \<and> children d fs = [])
      then Inr (map (\<lambda>(q, e). (rebase s d q, e)) (remove_entry d fs))
      else Inl OsError)"

section \<open>The process\<close>

datatype fault = Fine | Fails | Dies

record publisher =
  pb_db :: db
  pb_files :: files
  pb_faults :: "fault list"
  pb_alive :: bool

text \<open>One effect, under the next fault of the schedule.\<close>

definition effect :: "exn \<Rightarrow> (publisher, 'a) prog \<Rightarrow> (publisher, 'a) prog" where
  "effect err m = (\<lambda>s.
     if \<not> pb_alive s then (s, Inl err)
     else
       (case pb_faults s of
          [] \<Rightarrow> m s
        | f # fs \<Rightarrow>
            (case f of
               Fine \<Rightarrow> m (s\<lparr>pb_faults := fs\<rparr>)
             | Fails \<Rightarrow> (s\<lparr>pb_faults := fs\<rparr>, Inl err)
             | Dies \<Rightarrow> (s\<lparr>pb_faults := fs, pb_alive := False\<rparr>, Inl err))))"

definition on_files :: "(files \<Rightarrow> exn + files) \<Rightarrow> (publisher, unit) prog" where
  "on_files op = effect OsError (\<lambda>s.
     case op (pb_files s) of Inl e \<Rightarrow> (s, Inl e) | Inr fs \<Rightarrow> (s\<lparr>pb_files := fs\<rparr>, Inr ()))"

definition read_files :: "(files \<Rightarrow> exn + 'a) \<Rightarrow> (publisher, 'a) prog" where
  "read_files op = effect OsError (\<lambda>s. (s, op (pb_files s)))"

text \<open>A repository operation turns an operating system error into its own \<open>RuntimeStorageError\<close>.\<close>

definition on_repository :: "string \<Rightarrow> (db, 'a) prog \<Rightarrow> (publisher, 'a) prog" where
  "on_repository code m = effect (StorageError code) (on_part pb_db pb_db_update m)"

definition look :: "(files \<Rightarrow> 'a) \<Rightarrow> (publisher, 'a) prog" where
  "look f = prog_gets (\<lambda>s. f (pb_files s))"

definition read_bytes :: "path \<Rightarrow> (publisher, bytes) prog" where
  "read_bytes p = read_files (\<lambda>fs.
     case map_of fs p of Some (File b) \<Rightarrow> Inr b | _ \<Rightarrow> Inl OsError)"

definition write_exact :: "path \<Rightarrow> bytes \<Rightarrow> (publisher, unit) prog" where
  "write_exact p content = prog_then (on_files (create_file p)) (on_files (fill_file p content))"

definition fsync_directory :: "path \<Rightarrow> (publisher, unit) prog" where
  "fsync_directory p = read_files (\<lambda>fs. if is_dir p fs then Inr () else Inl OsError)"

definition remove_bundle :: "path \<Rightarrow> (publisher, unit) prog" where
  "remove_bundle p =
     prog_bind (look (children p)) (\<lambda>cs.
       prog_then (prog_for cs (\<lambda>c. on_files (unlink c))) (on_files (remove_dir p)))"

text \<open>\<open>Path.mkdir(mode, parents=True, exist_ok=True)\<close>: missing parents get the default mode.\<close>

definition make_dirs :: "int \<Rightarrow> nat \<Rightarrow> nat \<Rightarrow> path \<Rightarrow> (publisher, unit) prog" where
  "make_dirs uid default_mode mode p =
     prog_then
       (prog_for [1..<length p] (\<lambda>n. on_files (make_dir uid True default_mode (take n p))))
       (on_files (make_dir uid True mode p))"

definition validate_private_directory :: "process \<Rightarrow> path \<Rightarrow> (publisher, unit) prog" where
  "validate_private_directory h p = read_files (\<lambda>fs.
     case map_of fs p of
       Some (Dir _ uid mode) \<Rightarrow>
         if uid = pr_euid h \<and> mode = mode_700 then Inr ()
         else Inl (StorageError ''invalid_artifact_directory_permissions'')
     | _ \<Rightarrow> Inl OsError)"

definition validate_runs_root :: "process \<Rightarrow> (publisher, unit) prog" where
  "validate_runs_root h =
     prog_bind (look (\<lambda>fs. is_symlink [] fs \<or> \<not> is_dir [] fs)) (\<lambda>bad.
       if bad then prog_raise (StorageError ''invalid_runs_root'')
       else validate_private_directory h [])"

section \<open>Bundles\<close>

definition request_metadata :: "raw_intent \<Rightarrow> fields" where
  "request_metadata i =
     [(''logical_request_id'', Text (ri_logical i)), (''operation'', Text (ri_operation i)),
      (''physical_attempt_id'', Text (ri_attempt i)),
      (''publication_generation'', Number (ri_generation i)), (''publication_id'', Text (ri_id i)),
      (''source_id'', Text (ri_source i)), (''task_id'', Text (ri_task i))]"

definition response_metadata :: "raw_intent \<Rightarrow> fields" where
  "response_metadata i =
     [(''byte_count'', Number (ri_byte_count i)), (''encoding'', Text (ri_encoding i)),
      (''media_type'', Text (ri_media_type i)), (''raw_schema_id'', Text (ri_schema_id i)),
      (''raw_schema_version'', Number (ri_schema_version i))]"

definition receipt_metadata :: "raw_intent \<Rightarrow> fields" where
  "receipt_metadata i =
     [(''body_sha256'', Text (ri_sha256 i)), (''byte_count'', Number (ri_byte_count i))]"

definition task_root :: "raw_intent \<Rightarrow> path" where
  "task_root i = [ri_task i]"

definition staging_parent :: "raw_intent \<Rightarrow> path" where
  "staging_parent i = [ri_task i, ''.staging'', ''acquisitions'']"

definition staging :: "raw_intent \<Rightarrow> path" where
  "staging i = staging_parent i @ [ri_attempt i]"

definition destination_parent :: "raw_intent \<Rightarrow> path" where
  "destination_parent i = [ri_task i, ''acquisitions'', ri_logical i]"

definition destination :: "raw_intent \<Rightarrow> path" where
  "destination i = destination_parent i @ [ri_attempt i]"

definition relative_path :: "raw_intent \<Rightarrow> string" where
  "relative_path i = ''acquisitions/'' @ ri_logical i @ ''/'' @ ri_attempt i"

text \<open>The path a text with slashes names.\<close>

abbreviation split_slash :: "string \<Rightarrow> path" where
  "split_slash \<equiv> split_at (CHR ''/'')"

text \<open>\<open>_reference\<close>: building the pydantic model validates the path.\<close>

definition reference_for :: "raw_intent \<Rightarrow> string \<Rightarrow> raw_reference" where
  "reference_for i path =
     \<lparr>rr_id = ri_id i, rr_task = ri_task i, rr_logical = ri_logical i, rr_attempt = ri_attempt i,
      rr_path = path, rr_sha256 = ri_sha256 i, rr_byte_count = ri_byte_count i,
      rr_schema_id = ri_schema_id i, rr_schema_version = ri_schema_version i,
      rr_generation = ri_generation i\<rparr>"

definition make_reference :: "raw_intent \<Rightarrow> string \<Rightarrow> (publisher, raw_reference) prog" where
  "make_reference i path =
     prog_then (prog_check (\<lambda>_. valid_raw_reference (reference_for i path)) ValidationError)
       (prog_return (reference_for i path))"

definition load_json :: "path \<Rightarrow> (publisher, json) prog" where
  "load_json p =
     prog_bind (read_bytes p) (\<lambda>b.
       case json_loads b of None \<Rightarrow> prog_raise ValueError | Some j \<Rightarrow> prog_return j)"

definition bundle_matches :: "raw_intent \<Rightarrow> bytes \<Rightarrow> json \<Rightarrow> json \<Rightarrow> json \<Rightarrow> bool" where
  "bundle_matches i body request response receipt \<longleftrightarrow>
     int (length body) = ri_byte_count i \<and> sha256_hex body = ri_sha256 i
     \<and> equals_fields request (request_metadata i) \<and> equals_fields response (response_metadata i)
     \<and> equals_fields receipt (receipt_metadata i)"

definition verify_staged_bundle :: "path \<Rightarrow> raw_intent \<Rightarrow> (publisher, unit) prog" where
  "verify_staged_bundle p i =
     prog_bind (read_bytes (p @ [''body.bin''])) (\<lambda>body.
     prog_bind (load_json (p @ [''request.json''])) (\<lambda>request.
     prog_bind (load_json (p @ [''response.json''])) (\<lambda>response.
     prog_bind (load_json (p @ [''receipt.json''])) (\<lambda>receipt.
       prog_check (\<lambda>_. bundle_matches i body request response receipt)
         (StorageError ''raw_staging_verification_failed'')))))"

definition verify_committed_reference :: "raw_intent \<Rightarrow> raw_reference \<Rightarrow> (publisher, unit) prog" where
  "verify_committed_reference i r =
     (let bundle = rr_task r # split_slash (rr_path r) in
      prog_bind (look (\<lambda>fs. is_symlink bundle fs \<or> \<not> is_dir bundle fs)) (\<lambda>bad.
        if bad then prog_raise (StorageError ''raw_committed_artifact_invalid'')
        else prog_try (verify_staged_bundle bundle i)
          (\<lambda>_. prog_raise (StorageError ''raw_committed_artifact_invalid''))))"

section \<open>Publication\<close>

text \<open>\<open>_mark_reconciliation_required\<close> suppresses a \<open>RuntimeStorageError\<close>.\<close>

definition mark_reconciliation ::
  "raw_intent \<Rightarrow> runtime_lease \<Rightarrow> py_datetime \<Rightarrow> (publisher, unit) prog" where
  "mark_reconciliation i lease now =
     prog_try (on_repository ''raw_publication_transition_failed''
         (mark_raw_publication_reconciliation_required (ri_id i) lease now))
       (\<lambda>e. case e of StorageError _ \<Rightarrow> prog_return () | _ \<Rightarrow> prog_raise e)"

definition stage_bundle ::
  "process \<Rightarrow> (bytes \<Rightarrow> exn + unit) \<Rightarrow> raw_candidate \<Rightarrow> raw_intent \<Rightarrow> nat \<Rightarrow> (publisher, unit) prog" where
  "stage_bundle h validator c i default_mode = prog_block
     [write_exact (staging i @ [''body.bin'']) (rc_body c),
      write_exact (staging i @ [''request.json'']) (json_bytes (request_metadata i)),
      write_exact (staging i @ [''response.json'']) (json_bytes (response_metadata i)),
      write_exact (staging i @ [''receipt.json'']) (json_bytes (receipt_metadata i)),
      prog_bind (read_bytes (staging i @ [''body.bin''])) (\<lambda>b.
        case validator b of Inl e \<Rightarrow> prog_raise e | Inr _ \<Rightarrow> prog_return ()),
      verify_staged_bundle (staging i) i,
      fsync_directory (staging i),
      make_dirs (pr_euid h) default_mode mode_700 (destination_parent i),
      on_files (rename (staging i) (destination i))]"

definition clean_staging :: "raw_intent \<Rightarrow> (publisher, unit) prog" where
  "clean_staging i =
     prog_bind (look (\<lambda>fs. is_dir (staging i) fs \<and> \<not> is_symlink (staging i) fs)) (\<lambda>there.
       if there then remove_bundle (staging i) else prog_return ())"

text \<open>\<open>try: m finally: n\<close>, where an exception of \<open>n\<close> replaces the outcome of \<open>m\<close>.\<close>

definition prog_finally :: "('s, 'a) prog \<Rightarrow> ('s, unit) prog \<Rightarrow> ('s, 'a) prog" where
  "prog_finally m n = (\<lambda>s. case m s of
     (s', r) \<Rightarrow> (case n s' of (s'', Inl e) \<Rightarrow> (s'', Inl e) | (s'', Inr _) \<Rightarrow> (s'', r)))"

text \<open>
  The \<open>try\<close> statement: a failure before the rename fails the publication, the \<open>finally\<close> clause
  removes the staging directory, and a failure after the rename asks for reconciliation.
\<close>

definition expose_bundle ::
  "process \<Rightarrow> (bytes \<Rightarrow> exn + unit) \<Rightarrow> raw_candidate \<Rightarrow> raw_intent \<Rightarrow> nat \<Rightarrow> runtime_lease
    \<Rightarrow> py_datetime \<Rightarrow> (publisher, unit) prog" where
  "expose_bundle h validator c i default_mode lease now =
     prog_then
       (prog_try (stage_bundle h validator c i default_mode) (\<lambda>e.
          prog_finally
            (prog_then
              (on_repository ''raw_publication_transition_failed'' (fail_raw_publication (ri_id i) lease now))
              (prog_raise e))
            (clean_staging i)))
       (prog_try (fsync_directory (destination_parent i)) (\<lambda>_.
          prog_then (mark_reconciliation i lease now)
            (prog_raise (StorageError ''raw_publication_reconciliation_required''))))"

definition publish_new ::
  "process \<Rightarrow> (bytes \<Rightarrow> exn + unit) \<Rightarrow> raw_candidate \<Rightarrow> raw_intent \<Rightarrow> nat \<Rightarrow> runtime_lease
    \<Rightarrow> py_datetime \<Rightarrow> py_datetime \<Rightarrow> (publisher, raw_reference) prog" where
  "publish_new h validator c i default_mode lease started committed =
     prog_then (prog_block
       [on_repository ''raw_publication_intent_failed'' (begin_raw_publication i lease started),
        on_files (make_dir (pr_euid h) True mode_700 (task_root i)),
        validate_private_directory h (task_root i),
        make_dirs (pr_euid h) default_mode mode_700 (staging_parent i),
        prog_check (\<lambda>s. map_of (pb_files s) (staging i) = None \<and> map_of (pb_files s) (destination i) = None)
          (StorageError ''raw_publication_path_exists''),
        on_files (make_dir (pr_euid h) False mode_700 (staging i)),
        expose_bundle h validator c i default_mode lease committed])
     (prog_bind (make_reference i (relative_path i)) (\<lambda>ref.
        prog_then
          (prog_try (on_repository ''raw_publication_commit_failed'' (commit_raw_publication ref lease committed))
            (\<lambda>_. prog_then (mark_reconciliation i lease committed)
              (prog_raise (StorageError ''raw_publication_reconciliation_required''))))
          (prog_return ref)))"

text \<open>A publication that the repository already knows is only read back.\<close>

definition replay :: "raw_intent \<Rightarrow> raw_record \<Rightarrow> (publisher, raw_reference) prog" where
  "replay i e =
     prog_then (prog_check (\<lambda>_. rc_intent e = i) (StorageError ''raw_publication_replay_mismatch''))
       (case rc_path e of
          None \<Rightarrow> prog_raise (StorageError ''raw_publication_reconciliation_required'')
        | Some path \<Rightarrow>
            if rc_state e \<noteq> P_Committed
            then prog_raise (StorageError ''raw_publication_reconciliation_required'')
            else prog_bind (make_reference i path) (\<lambda>ref.
              prog_then (verify_committed_reference i ref) (prog_return ref)))"

definition candidate_matches :: "raw_candidate \<Rightarrow> raw_intent \<Rightarrow> bool" where
  "candidate_matches c i \<longleftrightarrow>
     rc_attempt c = ri_attempt i \<and> rc_sha256 c = ri_sha256 i
     \<and> int (length (rc_body c)) = ri_byte_count i \<and> rc_media_type c = ri_media_type i
     \<and> rc_encoding c = ri_encoding i"

definition publish ::
  "process \<Rightarrow> (bytes \<Rightarrow> exn + unit) \<Rightarrow> raw_candidate \<Rightarrow> raw_intent \<Rightarrow> nat \<Rightarrow> runtime_lease
    \<Rightarrow> py_datetime \<Rightarrow> py_datetime \<Rightarrow> (publisher, raw_reference) prog" where
  "publish h validator c i default_mode lease started committed =
     prog_then (prog_block
       [prog_check (\<lambda>_. valid_raw_intent i) ValidationError,
        prog_check (\<lambda>_. candidate_matches c i) (StorageError ''raw_candidate_intent_mismatch''),
        validate_runs_root h])
     (prog_bind (on_repository ''raw_publication_read_failed'' (raw_publication_record (ri_id i))) (\<lambda>existing.
        case existing of
          Some e \<Rightarrow> replay i e
        | None \<Rightarrow> publish_new h validator c i default_mode lease started committed))"

section \<open>Reconciliation\<close>

definition reconcile_one ::
  "runtime_lease \<Rightarrow> py_datetime \<Rightarrow> raw_record \<Rightarrow> (publisher, raw_reference list) prog" where
  "reconcile_one lease now r =
     (let i = rc_intent r;
          fail = on_repository ''raw_publication_transition_failed'' (fail_raw_publication (ri_id i) lease now) in
      prog_bind (prog_gets pb_files) (\<lambda>fs.
        if is_dir (destination i) fs \<and> \<not> is_symlink (destination i) fs \<and> \<not> path_exists (staging i) fs then
          prog_bind (make_reference i (relative_path i)) (\<lambda>ref.
            prog_then (prog_block
              [verify_committed_reference i ref,
               on_repository ''raw_publication_commit_failed'' (commit_raw_publication ref lease now)])
            (prog_return [ref]))
        else if is_dir (staging i) fs \<and> \<not> is_symlink (staging i) fs \<and> \<not> path_exists (destination i) fs then
          prog_then (remove_bundle (staging i)) (prog_then fail (prog_return []))
        else if \<not> path_exists (staging i) fs \<and> \<not> path_exists (destination i) fs then
          prog_then fail (prog_return [])
        else prog_raise (StorageError ''raw_publication_reconciliation_conflict'')))"

fun reconcile_all ::
  "runtime_lease \<Rightarrow> py_datetime \<Rightarrow> raw_record list \<Rightarrow> (publisher, raw_reference list) prog" where
  "reconcile_all lease now [] = prog_return []"
| "reconcile_all lease now (r # rs) =
     prog_bind (reconcile_one lease now r) (\<lambda>refs.
     prog_bind (reconcile_all lease now rs) (\<lambda>more. prog_return (refs @ more)))"

definition check_committed :: "raw_record \<Rightarrow> (publisher, unit) prog" where
  "check_committed r =
     (case rc_path r of
        None \<Rightarrow> prog_raise (StorageError ''raw_committed_artifact_invalid'')
      | Some path \<Rightarrow>
          prog_bind (make_reference (rc_intent r) path) (\<lambda>ref.
            verify_committed_reference (rc_intent r) ref))"

definition reconcile ::
  "process \<Rightarrow> runtime_lease \<Rightarrow> py_datetime \<Rightarrow> (publisher, raw_reference list) prog" where
  "reconcile h lease now =
     prog_then (validate_runs_root h)
       (prog_bind (on_repository ''raw_publication_read_failed'' raw_publications_for_reconciliation) (\<lambda>rs.
        prog_bind (reconcile_all lease now rs) (\<lambda>repaired.
        prog_bind (on_repository ''raw_publication_read_failed'' committed_raw_records) (\<lambda>cs.
        prog_then (prog_for cs check_committed) (prog_return repaired)))))"

end
