(* ===== verification/Files.thy ===== *)
theory Files
  imports Publisher
begin

text \<open>
  Reasoning about the file system of \<open>Publisher\<close>: what each operation does to the lookup
  function, and two rules for programs, one that holds under every schedule of faults
  (\<open>under_faults\<close>) and one for a run without any (\<open>runs_to\<close>).
\<close>

section \<open>Lookups\<close>

lemma map_of_set_entry [simp]: "map_of (set_entry p e fs) = (map_of fs)(p \<mapsto> e)"
proof
  fix q
  have "map_of (filter (\<lambda>(q, _). q \<noteq> p) fs) q = (if q = p then None else map_of fs q)"
    by (induction fs) auto
  then show "map_of (set_entry p e fs) q = ((map_of fs)(p \<mapsto> e)) q" by (simp add: set_entry_def)
qed

lemma map_of_remove_entry [simp]: "map_of (remove_entry p fs) = (map_of fs)(p := None)"
proof
  fix q show "map_of (remove_entry p fs) q = ((map_of fs)(p := None)) q"
    by (induction fs) (auto simp: remove_entry_def)
qed

lemma is_dir_set_entry: "is_dir q (set_entry p e fs) \<longleftrightarrow> (if q = p then is_dir p [(p, e)] else is_dir q fs)"
  by (simp add: is_dir_def)

text \<open>Every entry has a directory above it, and no path has two entries.\<close>

definition well_formed :: "files \<Rightarrow> bool" where
  "well_formed fs \<longleftrightarrow> distinct (map fst fs)
     \<and> (\<forall>p. p \<noteq> [] \<longrightarrow> map_of fs p \<noteq> None \<longrightarrow> is_dir (butlast p) fs)"

lemma nothing_below:
  assumes "well_formed fs" "\<not> is_dir p fs" "x \<noteq> []"
  shows "map_of fs (p @ x) = None"
  using assms(3)
proof (induction x rule: rev_induct)
  case (snoc a x)
  have "\<not> is_dir (p @ x) fs"
  proof (cases "x = []")
    case True
    then show ?thesis using assms(2) by simp
  next
    case False
    then show ?thesis using snoc.IH by (simp add: is_dir_def)
  qed
  moreover have "map_of fs ((p @ x) @ [a]) \<noteq> None \<longrightarrow> is_dir (p @ x) fs"
    using assms(1) unfolding well_formed_def by (metis butlast_snoc snoc_eq_iff_butlast)
  ultimately show ?case by fastforce
qed simp

lemma nothing_below_None:
  "well_formed fs \<Longrightarrow> map_of fs p = None \<Longrightarrow> map_of fs (p @ x) = None"
  using nothing_below [of fs p x] by (cases "x = []") (auto simp: is_dir_def)

lemma distinct_set_entry: "distinct (map fst fs) \<Longrightarrow> distinct (map fst (set_entry p e fs))"
  by (auto simp: set_entry_def distinct_map inj_on_def image_iff)

lemma distinct_remove_entry: "distinct (map fst fs) \<Longrightarrow> distinct (map fst (remove_entry p fs))"
  by (auto simp: remove_entry_def distinct_map inj_on_def)

text \<open>A new entry in a directory, new content for a file.\<close>

lemma well_formed_new:
  assumes "well_formed fs" "map_of fs p = None" "is_dir (butlast p) fs"
  shows "well_formed (set_entry p e fs)"
proof -
  have "is_dir q fs \<Longrightarrow> is_dir q (set_entry p e fs)" for q
    using assms(2) by (auto simp: is_dir_def)
  with assms show ?thesis by (auto simp: well_formed_def distinct_set_entry)
qed

lemma well_formed_fill:
  assumes "well_formed fs" "map_of fs p = Some (File b)"
  shows "well_formed (set_entry p (File c) fs)"
proof -
  have "is_dir q fs \<Longrightarrow> is_dir q (set_entry p (File c) fs)" for q
    using assms(2) by (auto simp: is_dir_def)
  with assms show ?thesis by (auto simp: well_formed_def distinct_set_entry)
qed

lemma well_formed_remove:
  assumes "well_formed fs" "\<And>q. q \<noteq> [] \<Longrightarrow> butlast q = p \<Longrightarrow> map_of fs q = None"
  shows "well_formed (remove_entry p fs)"
proof -
  have "is_dir (butlast q) (remove_entry p fs)"
    if q: "q \<noteq> []" "map_of (remove_entry p fs) q \<noteq> None" for q
  proof -
    have there: "map_of fs q \<noteq> None" using q(2) by (auto split: if_splits)
    then have "is_dir (butlast q) fs" using assms(1) q(1) unfolding well_formed_def by blast
    moreover have "butlast q \<noteq> p" using assms(2) [of q] q(1) there by blast
    ultimately show ?thesis by (simp add: is_dir_def)
  qed
  with assms(1) show ?thesis unfolding well_formed_def by (simp add: distinct_remove_entry)
qed

lemma make_dir_Inr:
  "make_dir uid ok mode p fs = Inr fs' \<longleftrightarrow>
     (if map_of fs p = None
      then p \<noteq> [] \<and> is_dir (butlast p) fs \<and> fs' = set_entry p (Dir False uid mode) fs
      else ok \<and> is_dir p fs \<and> fs' = fs)"
  by (auto simp: make_dir_def split: option.splits)

lemma create_file_Inr:
  "create_file p fs = Inr fs' \<longleftrightarrow>
     map_of fs p = None \<and> p \<noteq> [] \<and> is_dir (butlast p) fs \<and> fs' = set_entry p (File []) fs"
  by (auto simp: create_file_def)

lemma fill_file_Inr:
  "fill_file p c fs = Inr fs' \<longleftrightarrow> (\<exists>b. map_of fs p = Some (File b)) \<and> fs' = set_entry p (File c) fs"
  by (auto simp: fill_file_def split: option.splits entry.splits)

text \<open>The entries after a rename onto an unused path.\<close>

lemma map_of_rebased:
  assumes "\<And>q. take (length d) q = d \<Longrightarrow> map_of fs q = None"
  shows "map_of (map (\<lambda>(q, e). (rebase s d q, e)) fs) q =
    (if take (length d) q = d then map_of fs (s @ drop (length d) q)
     else if take (length s) q = s then None else map_of fs q)"
  using assms
proof (induction fs)
  case (Cons ke fs)
  obtain k e where ke: "ke = (k, e)" by fastforce
  have k: "take (length d) k \<noteq> d" using Cons.prems [of k] by (auto simp: ke)
  have "map_of fs q = None" if "take (length d) q = d" for q
    using Cons.prems [OF that] by (auto simp: ke split: if_splits)
  note IH = Cons.IH [OF this]
  have join: "take (length p) r = p \<Longrightarrow> p @ drop (length p) r = r" for p r :: path
    by (metis append_take_drop_id)
  show ?case
  proof (cases "take (length s) k = s")
    case True
    then have "rebase s d k = q \<longleftrightarrow> take (length d) q = d \<and> s @ drop (length d) q = k"
      using join [of d q] join [of s k] by (auto simp: rebase_def)
    with True IH k show ?thesis by (auto simp: ke)
  next
    case False
    then have "rebase s d k = k" by (simp add: rebase_def)
    with False IH k show ?thesis by (auto simp: ke)
  qed
qed simp

lemma rename_Inr:
  assumes "well_formed fs" "map_of fs d = None" "rename s d fs = Inr fs'"
  shows "map_of fs' q =
    (if take (length d) q = d then map_of fs (s @ drop (length d) q)
     else if take (length s) q = s then None else map_of fs q)"
proof -
  have none: "map_of (remove_entry d fs) q = None" if "take (length d) q = d" for q
    using nothing_below_None [OF assms(1,2), of "drop (length d) q"] that
    by (metis append_take_drop_id fun_upd_apply map_of_remove_entry)
  have "fs' = map (\<lambda>(q, e). (rebase s d q, e)) (remove_entry d fs)"
    using assms(3) by (simp add: rename_def split: if_splits)
  moreover have "map_of (remove_entry d fs) = map_of fs"
    using assms(2) by (simp add: fun_upd_idem)
  ultimately show ?thesis using map_of_rebased [of d "remove_entry d fs", OF none] by simp
qed

section \<open>Programs under every schedule of faults\<close>

text \<open>
  \<open>under_faults m Q d f\<close>: from database \<open>d\<close> and files \<open>f\<close>, whatever the schedule is and whether
  the process is alive, \<open>m\<close> ends in a database, files and result that \<open>Q\<close> accepts.
\<close>

named_theorems fault_rules \<open>rules for a program under every schedule of faults\<close>

definition under_faults ::
  "(publisher, 'a) prog \<Rightarrow> (db \<Rightarrow> files \<Rightarrow> exn + 'a \<Rightarrow> bool) \<Rightarrow> db \<Rightarrow> files \<Rightarrow> bool" where
  "under_faults m Q d f \<longleftrightarrow>
     (\<forall>s. pb_db s = d \<and> pb_files s = f \<longrightarrow> Q (pb_db (fst (m s))) (pb_files (fst (m s))) (snd (m s)))"

lemma under_faultsD:
  "under_faults m Q (pb_db s) (pb_files s) \<Longrightarrow> m s = (s', r) \<Longrightarrow> Q (pb_db s') (pb_files s') r"
  unfolding under_faults_def by (metis fst_conv snd_conv)

lemma under_faults_mono:
  "under_faults m P d f \<Longrightarrow> (\<And>d' f' r. P d' f' r \<Longrightarrow> Q d' f' r) \<Longrightarrow> under_faults m Q d f"
  by (simp add: under_faults_def)

lemma under_faults_pure [fault_rules]:
  "Q d f (Inr a) \<Longrightarrow> under_faults (prog_return a) Q d f"
  "Q d f (Inl e) \<Longrightarrow> under_faults (prog_raise e) Q d f"
  "R d f (Inr (g f)) \<Longrightarrow> under_faults (look g) R d f"
  "S d f (Inr f) \<Longrightarrow> under_faults (prog_gets pb_files) S d f"
  "(c \<Longrightarrow> T d f (Inr ())) \<Longrightarrow> (\<not> c \<Longrightarrow> T d f (Inl e)) \<Longrightarrow> under_faults (prog_check (\<lambda>_. c) e) T d f"
  by (auto simp: under_faults_def prog_simps look_def)

lemma under_faults_check_files [fault_rules]:
  "(p f \<Longrightarrow> Q d f (Inr ())) \<Longrightarrow> (\<not> p f \<Longrightarrow> Q d f (Inl e)) \<Longrightarrow>
   under_faults (prog_check (\<lambda>s. p (pb_files s)) e) Q d f"
  by (auto simp: under_faults_def prog_simps)

lemma under_faults_bind [fault_rules]:
  assumes "under_faults m (\<lambda>d f r. case r of Inl e \<Rightarrow> Q d f (Inl e) | Inr a \<Rightarrow> under_faults (g a) Q d f) d f"
  shows "under_faults (prog_bind m g) Q d f"
  unfolding under_faults_def
proof (intro allI impI)
  fix s :: publisher assume s: "pb_db s = d \<and> pb_files s = f"
  obtain s' r where m: "m s = (s', r)" by fastforce
  with assms s have "case r of Inl e \<Rightarrow> Q (pb_db s') (pb_files s') (Inl e)
      | Inr a \<Rightarrow> under_faults (g a) Q (pb_db s') (pb_files s')"
    by (auto dest!: under_faultsD [where s = s])
  then show "Q (pb_db (fst (prog_bind m g s))) (pb_files (fst (prog_bind m g s))) (snd (prog_bind m g s))"
    by (cases r) (simp_all add: prog_simps m under_faults_def)
qed

lemma under_faults_then [fault_rules]:
  "under_faults m (\<lambda>d f r. case r of Inl e \<Rightarrow> Q d f (Inl e) | Inr a \<Rightarrow> under_faults n Q d f) d f \<Longrightarrow>
   under_faults (prog_then m n) Q d f"
  unfolding prog_then_def by (rule under_faults_bind)

lemma under_faults_block [fault_rules]:
  "Q d f (Inr ()) \<Longrightarrow> under_faults (prog_block []) Q d f"
  "under_faults m (\<lambda>d f r. case r of Inl e \<Rightarrow> Q d f (Inl e) | Inr a \<Rightarrow> under_faults (prog_block ms) Q d f) d f \<Longrightarrow>
   under_faults (prog_block (m # ms)) Q d f"
  by (simp_all add: under_faults_pure under_faults_then)

lemma under_faults_try [fault_rules]:
  assumes "under_faults m (\<lambda>d f r. case r of Inl e \<Rightarrow> under_faults (h e) Q d f | Inr a \<Rightarrow> Q d f (Inr a)) d f"
  shows "under_faults (prog_try m h) Q d f"
  unfolding under_faults_def
proof (intro allI impI)
  fix s :: publisher assume s: "pb_db s = d \<and> pb_files s = f"
  obtain s' r where m: "m s = (s', r)" by fastforce
  with assms s have "case r of Inl e \<Rightarrow> under_faults (h e) Q (pb_db s') (pb_files s')
      | Inr a \<Rightarrow> Q (pb_db s') (pb_files s') (Inr a)"
    by (auto dest!: under_faultsD [where s = s])
  then show "Q (pb_db (fst (prog_try m h s))) (pb_files (fst (prog_try m h s))) (snd (prog_try m h s))"
    by (cases r) (simp_all add: prog_simps m under_faults_def)
qed

lemma under_faults_finally [fault_rules]:
  assumes "under_faults m (\<lambda>d f r. under_faults n (\<lambda>d f x. case x of Inl e \<Rightarrow> Q d f (Inl e) | Inr _ \<Rightarrow> Q d f r) d f) d f"
  shows "under_faults (prog_finally m n) Q d f"
  unfolding under_faults_def
proof (intro allI impI)
  fix s :: publisher assume s: "pb_db s = d \<and> pb_files s = f"
  obtain s' r where m: "m s = (s', r)" by fastforce
  obtain s'' x where n: "n s' = (s'', x)" by fastforce
  from assms s m have "under_faults n (\<lambda>d f x. case x of Inl e \<Rightarrow> Q d f (Inl e) | Inr _ \<Rightarrow> Q d f r)
      (pb_db s') (pb_files s')"
    by (auto dest!: under_faultsD [where s = s])
  then have "case x of Inl e \<Rightarrow> Q (pb_db s'') (pb_files s'') (Inl e) | Inr _ \<Rightarrow> Q (pb_db s'') (pb_files s'') r"
    using n by (auto dest!: under_faultsD [where s = s'])
  then show "Q (pb_db (fst (prog_finally m n s))) (pb_files (fst (prog_finally m n s))) (snd (prog_finally m n s))"
    by (cases x) (simp_all add: prog_finally_def m n)
qed

lemma under_faults_effect:
  assumes "Q d f (Inl err)"
    and "\<And>s. pb_db s = d \<Longrightarrow> pb_files s = f \<Longrightarrow> Q (pb_db (fst (m s))) (pb_files (fst (m s))) (snd (m s))"
  shows "under_faults (effect err m) Q d f"
  using assms by (auto simp: under_faults_def effect_def split: list.splits fault.splits)

lemma under_faults_on_files [fault_rules]:
  "(\<And>e. Q d f (Inl e)) \<Longrightarrow> (\<And>f'. op f = Inr f' \<Longrightarrow> Q d f' (Inr ())) \<Longrightarrow> under_faults (on_files op) Q d f"
  unfolding on_files_def by (rule under_faults_effect) (auto split: sum.splits)

lemma under_faults_read_files [fault_rules]:
  "(\<And>e. Q d f (Inl e)) \<Longrightarrow> (\<And>a. op f = Inr a \<Longrightarrow> Q d f (Inr a)) \<Longrightarrow> under_faults (read_files op) Q d f"
  unfolding read_files_def by (rule under_faults_effect) (metis (full_types) fst_conv snd_conv sum.exhaust)+

lemma under_faults_on_repository [fault_rules]:
  "Q d f (Inl (StorageError code)) \<Longrightarrow> Q (fst (m d)) f (snd (m d)) \<Longrightarrow>
   under_faults (on_repository code m) Q d f"
  unfolding on_repository_def
  by (rule under_faults_effect) (auto simp: prog_simps split: prod.splits)

lemma under_faults_for [fault_rules]:
  assumes "I d f" and "\<And>d f e. I d f \<Longrightarrow> Q d f (Inl e)" "\<And>d f. I d f \<Longrightarrow> Q d f (Inr ())"
    and "\<And>x d f. x \<in> set xs \<Longrightarrow> I d f \<Longrightarrow> under_faults (g x) (\<lambda>d f _. I d f) d f"
  shows "under_faults (prog_for xs g) Q d f"
  using assms(1,4)
proof (induction xs arbitrary: d f)
  case Nil
  then show ?case using assms(3) by (simp add: under_faults_pure)
next
  case (Cons x xs)
  have "under_faults (g x) (\<lambda>d f _. I d f) d f" using Cons.prems by simp
  then show ?case
    using Cons.IH Cons.prems(2) assms(2)
    by (auto intro!: under_faults_bind elim!: under_faults_mono split: sum.splits)
qed

section \<open>Programs without a fault\<close>

definition running :: "db \<Rightarrow> files \<Rightarrow> publisher" where
  "running d f = \<lparr>pb_db = d, pb_files = f, pb_faults = [], pb_alive = True\<rparr>"

named_theorems clean_run \<open>programs in a process without faults\<close>

lemma clean_run_basic [clean_run]:
  "on_files op (running d f) = (case op f of Inl e \<Rightarrow> (running d f, Inl e) | Inr f' \<Rightarrow> (running d f', Inr ()))"
  "read_files q (running d f) = (running d f, q f)"
  "on_repository code m (running d f) = (case m d of (d', r) \<Rightarrow> (running d' f, r))"
  "look g (running d f) = (running d f, Inr (g f))"
  "prog_gets pb_files (running d f) = (running d f, Inr f)"
  by (simp_all add: on_files_def read_files_def on_repository_def look_def effect_def running_def prog_simps
      split: sum.splits prod.splits)

lemma running_simps [simp]:
  "pb_files (running d f) = f" "pb_db (running d f) = d"
  by (simp_all add: running_def)

end
