(* ===== verification/Publishing.thy ===== *)
theory Publishing
  imports Files Runtime
begin

text \<open>
  Correctness of raw publication: whatever fails or dies during \<open>publish\<close>, the publication's row
  and its files stay in step (\<open>staged_phase\<close> before the rename, \<open>exposed_phase\<close> after it), and
  \<open>reconcile\<close> takes either to a settled end.
\<close>

section \<open>The row of a publication\<close>

definition own_rows :: "raw_intent \<Rightarrow> db \<Rightarrow> raw_row list" where
  "own_rows i d = filter (\<lambda>w. ri_id w = ri_id i) (raw_publications d)"

definition same_but_own :: "raw_intent \<Rightarrow> db \<Rightarrow> db \<Rightarrow> bool" where
  "same_but_own i d0 d \<longleftrightarrow> d = d0\<lparr>raw_publications := raw_publications d\<rparr>
     \<and> filter (\<lambda>w. ri_id w \<noteq> ri_id i) (raw_publications d) =
       filter (\<lambda>w. ri_id w \<noteq> ri_id i) (raw_publications d0)"

definition own_state :: "raw_intent \<Rightarrow> raw_state set \<Rightarrow> db \<Rightarrow> bool" where
  "own_state i S d \<longleftrightarrow>
     (\<exists>w. own_rows i d = [w] \<and> raw_intent.truncate w = i \<and> rw_state w \<in> S
        \<and> (rw_state w = P_Committed \<longrightarrow> rw_path w = Some (relative_path i)))"

lemma same_but_own_refl [simp]: "same_but_own i d d"
  by (simp add: same_but_own_def)

lemma same_but_own_trans: "same_but_own i d0 d \<Longrightarrow> same_but_own i d d' \<Longrightarrow> same_but_own i d0 d'"
  by (cases d0; cases d; cases d') (simp add: same_but_own_def)

lemma same_but_own_fields:
  "same_but_own i d0 d \<Longrightarrow> schema_ok d = schema_ok d0 \<and> lease_slot d = lease_slot d0"
  by (cases d0; cases d) (simp add: same_but_own_def schema_ok_def)

lemma own_state_mono: "own_state i S d \<Longrightarrow> S \<subseteq> T \<Longrightarrow> own_state i T d"
  by (auto simp: own_state_def)

lemma same_but_own_update:
  assumes "\<And>w. p w \<Longrightarrow> ri_id w = ri_id i" "\<And>w. ri_id (g w) = ri_id w"
  shows "same_but_own i d (raw_publications_update (update_where p g) d)
    \<and> own_rows i (raw_publications_update (update_where p g) d) = update_where p g (own_rows i d)"
proof -
  have "filter (\<lambda>w. ri_id w \<noteq> ri_id i) (update_where p g ws) = filter (\<lambda>w. ri_id w \<noteq> ri_id i) ws"
    "filter (\<lambda>w. ri_id w = ri_id i) (update_where p g ws) =
      update_where p g (filter (\<lambda>w. ri_id w = ri_id i) ws)" for ws
    using assms by (induction ws) (auto simp: row_simps)
  then show ?thesis by (simp add: same_but_own_def own_rows_def)
qed

lemma own_state_update:
  assumes "own_state i T d" "\<And>w. p w \<Longrightarrow> ri_id w = ri_id i"
    and "\<And>w. raw_intent.truncate (g w) = raw_intent.truncate w" "\<And>w. rw_state (g w) = t"
    and "\<And>w. t = P_Committed \<Longrightarrow> rw_path (g w) = Some (relative_path i)"
  shows "own_state i (insert t T) (raw_publications_update (update_where p g) d)
    \<and> (count_where p (raw_publications d) = 1 \<longrightarrow>
        own_state i {t} (raw_publications_update (update_where p g) d))"
proof -
  obtain w where w: "own_rows i d = [w]" "raw_intent.truncate w = i" "rw_state w \<in> T"
    "rw_state w = P_Committed \<longrightarrow> rw_path w = Some (relative_path i)"
    using assms(1) by (auto simp: own_state_def)
  have keep: "ri_id (g w) = ri_id w" for w
    using assms(3) [of w] by (metis raw_intent.select_convs(1) raw_intent.defs(4))
  note upd = same_but_own_update [of p i g d, OF assms(2) keep]
  have "count_where p (raw_publications d) = count_where p (own_rows i d)"
  proof -
    have "filter p ws = filter p (filter (\<lambda>w. ri_id w = ri_id i) ws)" for ws
      using assms(2) by (induction ws) auto
    then show ?thesis unfolding count_where_def own_rows_def by metis
  qed
  then have "count_where p (raw_publications d) = 1 \<longleftrightarrow> p w"
    using w(1) by (simp add: row_simps)
  then show ?thesis
    using upd w assms(3,4,5) by (auto simp: own_state_def row_simps)
qed

text \<open>What the repository operations do to it.\<close>

lemma update_one_cases:
  assumes "run_tx e (tx_block [fenced lease t, sql_update_one raw_publications raw_publications_update p g code]) d = (d', r)"
  shows "case r of Inl _ \<Rightarrow> d' = d
    | Inr _ \<Rightarrow> d' = raw_publications_update (update_where p g) d \<and> count_where p (raw_publications d) = 1"
proof (cases r)
  case (Inl x)
  then show ?thesis using assms run_tx_error by fastforce
next
  case (Inr u)
  have "tx_wp (tx_block [fenced lease t, sql_update_one raw_publications raw_publications_update p g code])
    (\<lambda>_ d'. d' = raw_publications_update (update_where p g) d \<and> count_where p (raw_publications d) = 1) d"
    by (simp add: tx_wp)
  from run_tx_wp [OF this] assms Inr show ?thesis by auto
qed

lemma with_clock_cases:
  assumes "with_clock b now a body d = (d', r)"
  obtains e where "d' = d" "r = Inl e" | t where "now = utc t" "b" "a" "body t d = (d', r)"
  using assms by (auto simp: with_clock_def validate_utc_Inr split: if_splits sum.splits)

lemma transition_cases:
  assumes "transition_raw_publication (ri_id i) target S lease now d = (d', r)"
    and "target \<noteq> P_Committed" "own_state i T d"
  shows "same_but_own i d d' \<and> own_state i (insert target T) d'
    \<and> (case r of Inl _ \<Rightarrow> d' = d | Inr _ \<Rightarrow> own_state i {target} d')"
  using assms(1) unfolding transition_raw_publication_def
proof (cases rule: with_clock_cases)
  case 1
  then show ?thesis using assms(3) own_state_mono by (fastforce simp: subset_insertI)
next
  case (2 t)
  let ?p = "\<lambda>w. ri_id w = ri_id i \<and> rw_state w \<in> S" and ?g = "rw_state_update (\<lambda>_. target)"
  have "case r of Inl _ \<Rightarrow> d' = d
    | Inr _ \<Rightarrow> d' = raw_publications_update (update_where ?p ?g) d \<and> count_where ?p (raw_publications d) = 1"
    using update_one_cases 2(4) unfolding transition_publication_body_def by blast
  moreover have "same_but_own i d (raw_publications_update (update_where ?p ?g) d)"
    by (rule same_but_own_update [THEN conjunct1]) simp_all
  moreover have "own_state i (insert target T) (raw_publications_update (update_where ?p ?g) d)
    \<and> (count_where ?p (raw_publications d) = 1 \<longrightarrow>
        own_state i {target} (raw_publications_update (update_where ?p ?g) d))"
    using assms(2,3) by (intro own_state_update) (simp_all add: raw_intent.defs)
  moreover have "own_state i (insert target T) d" using assms(3) own_state_mono by blast
  ultimately show ?thesis by (auto split: sum.splits)
qed

lemma rr_path_reference [simp]: "rr_path (reference_for i p) = p" "rr_task (reference_for i p) = ri_task i"
  by (simp_all add: reference_for_def)

lemma commit_cases:
  assumes "commit_raw_publication (reference_for i (relative_path i)) lease now d = (d', r)"
    and "own_state i T d"
  shows "same_but_own i d d' \<and> own_state i (insert P_Committed T) d'
    \<and> (case r of Inl _ \<Rightarrow> d' = d | Inr _ \<Rightarrow> own_state i {P_Committed} d')"
  using assms(1) unfolding commit_raw_publication_def
proof (cases rule: with_clock_cases)
  case 1
  then show ?thesis using assms(2) own_state_mono by (fastforce simp: subset_insertI)
next
  case (2 t)
  let ?p = "commits (reference_for i (relative_path i))"
  let ?g = "\<lambda>w. w\<lparr>rw_path := Some (relative_path i), rw_state := P_Committed, rw_committed_at := Some t\<rparr>"
  have own: "?p w \<Longrightarrow> ri_id w = ri_id i" for w by (simp add: commits_def reference_for_def)
  have "case r of Inl _ \<Rightarrow> d' = d
    | Inr _ \<Rightarrow> d' = raw_publications_update (update_where ?p ?g) d \<and> count_where ?p (raw_publications d) = 1"
    using update_one_cases [OF 2(4) [unfolded commit_publication_body_def]] by (simp split: sum.splits)
  moreover have "same_but_own i d (raw_publications_update (update_where ?p ?g) d)"
    by (rule same_but_own_update [THEN conjunct1]) (simp_all add: own)
  moreover have "own_state i (insert P_Committed T) (raw_publications_update (update_where ?p ?g) d)
    \<and> (count_where ?p (raw_publications d) = 1 \<longrightarrow>
        own_state i {P_Committed} (raw_publications_update (update_where ?p ?g) d))"
    using assms(2) by (intro own_state_update) (simp_all add: own raw_intent.defs)
  moreover have "own_state i (insert P_Committed T) d" using assms(2) own_state_mono by blast
  ultimately show ?thesis by (auto split: sum.splits)
qed

lemma begin_cases:
  assumes "begin_raw_publication i lease now d = (d', r)" and "own_rows i d = []"
  shows "case r of Inl _ \<Rightarrow> d' = d | Inr _ \<Rightarrow> same_but_own i d d' \<and> own_state i {P_Staging} d'"
  using assms(1) unfolding begin_raw_publication_def
proof (cases rule: with_clock_cases)
  case (2 t)
  show ?thesis
  proof (cases r)
    case (Inl e)
    then show ?thesis using run_tx_error 2(4) by fastforce
  next
    case (Inr u)
    have "tx_wp (begin_publication_body i lease t)
      (\<lambda>_ d'. d' = raw_publications_update (\<lambda>ws. ws @ [staged i t]) d) d"
      by (simp add: begin_publication_body_def insert_publication_def logical_exists_def tx_wp)
    from run_tx_wp [OF this] 2(4) Inr have d': "d' = raw_publications_update (\<lambda>ws. ws @ [staged i t]) d"
      by auto
    have "ri_id (staged i t) = ri_id i" "rw_state (staged i t) = P_Staging"
      "raw_intent.truncate (staged i t) = i"
      by (simp_all add: staged_def raw_intent.defs)
    with d' assms(2) Inr show ?thesis
      by (simp add: same_but_own_def own_state_def own_rows_def)
  qed
qed simp

text \<open>Under a valid fence an open publication can be ended.\<close>

lemma own_count:
  assumes "own_state i S d" "\<And>w. p w \<Longrightarrow> ri_id w = ri_id i"
    and "\<And>w. ri_id w = ri_id i \<Longrightarrow> raw_intent.truncate w = i \<Longrightarrow> rw_state w \<in> S \<Longrightarrow> p w"
  shows "count_where p (raw_publications d) = 1"
proof -
  obtain w where w: "own_rows i d = [w]" "raw_intent.truncate w = i" "rw_state w \<in> S"
    using assms(1) by (auto simp: own_state_def)
  have "w \<in> set (own_rows i d)" using w(1) by simp
  then have "ri_id w = ri_id i" by (simp add: own_rows_def)
  with w assms(3) have "p w" by blast
  moreover have "filter p ws = filter p (filter (\<lambda>w. ri_id w = ri_id i) ws)" for ws
    using assms(2) by (induction ws) auto
  then have "count_where p (raw_publications d) = count_where p (own_rows i d)"
    unfolding count_where_def own_rows_def by metis
  ultimately show ?thesis using w(1) by (simp add: row_simps)
qed

lemma fail_succeeds:
  assumes "schema_ok d" "fence_error lease t d = None" "valid_lease lease" "is_identifier (ri_id i)"
    and "own_state i {P_Staging, P_Reconciliation} d"
  shows "\<exists>d'. fail_raw_publication (ri_id i) lease (utc t) d = (d', Inr ())
    \<and> same_but_own i d d' \<and> own_state i {P_Failed} d'"
proof -
  have "count_where (\<lambda>w. ri_id w = ri_id i \<and> rw_state w \<in> {P_Staging, P_Reconciliation}) (raw_publications d) = 1"
    using assms(5) by (rule own_count) simp_all
  then have "tx_ok (transition_publication_body (ri_id i) P_Failed {P_Staging, P_Reconciliation} lease t) (\<lambda>_ _. True) d"
    using assms(1,2) by (simp add: transition_publication_body_def tx_ok)
  from run_tx_okI [OF this] obtain d' where "fail_raw_publication (ri_id i) lease (utc t) d = (d', Inr ())"
    using assms(3,4) by (fastforce simp: fail_raw_publication_def transition_raw_publication_def)
  moreover from this have "same_but_own i d d' \<and> own_state i {P_Failed} d'"
    using transition_cases [of i P_Failed _ lease "utc t" d d' "Inr ()"] assms(5)
    by (fastforce simp: fail_raw_publication_def)
  ultimately show ?thesis by blast
qed

lemma commit_succeeds:
  assumes "schema_ok d" "fence_error lease t d = None" "valid_lease lease"
    and "valid_raw_reference (reference_for i (relative_path i))"
    and "own_state i {P_Staging, P_Reconciliation} d"
  shows "\<exists>d'. commit_raw_publication (reference_for i (relative_path i)) lease (utc t) d = (d', Inr ())
    \<and> same_but_own i d d' \<and> own_state i {P_Committed} d'"
proof -
  let ?r = "reference_for i (relative_path i)"
  have "commits ?r w" if "raw_intent.truncate w = i" "rw_state w \<in> {P_Staging, P_Reconciliation}" for w
    using that by (auto simp: commits_def reference_for_def raw_intent.defs)
  then have "count_where (commits ?r) (raw_publications d) = 1"
    using assms(5) by (intro own_count) (auto simp: commits_def reference_for_def)
  then have "tx_ok (commit_publication_body ?r lease t) (\<lambda>_ _. True) d"
    using assms(1,2) by (simp add: commit_publication_body_def tx_ok)
  from run_tx_okI [OF this] obtain d' where "commit_raw_publication ?r lease (utc t) d = (d', Inr ())"
    using assms(3,4) by (fastforce simp: commit_raw_publication_def)
  moreover from this have "same_but_own i d d' \<and> own_state i {P_Committed} d'"
    using commit_cases [of i lease "utc t" d d' "Inr ()"] assms(5) by fastforce
  ultimately show ?thesis by blast
qed

section \<open>The files of a publication\<close>

definition bundle_at :: "path \<Rightarrow> raw_intent \<Rightarrow> files \<Rightarrow> bool" where
  "bundle_at p i f \<longleftrightarrow>
     (\<exists>b rq rs rc jq js jc.
        map_of f (p @ [''body.bin'']) = Some (File b) \<and> map_of f (p @ [''request.json'']) = Some (File rq)
        \<and> map_of f (p @ [''response.json'']) = Some (File rs) \<and> map_of f (p @ [''receipt.json'']) = Some (File rc)
        \<and> json_loads rq = Some jq \<and> json_loads rs = Some js \<and> json_loads rc = Some jc
        \<and> bundle_matches i b jq js jc)"

lemma bundle_at_mono: "bundle_at p i f \<Longrightarrow> map_of f \<subseteq>\<^sub>m map_of f' \<Longrightarrow> bundle_at p i f'"
proof -
  assume "bundle_at p i f" "map_of f \<subseteq>\<^sub>m map_of f'"
  moreover from this have "map_of f q = Some e \<Longrightarrow> map_of f' q = Some e" for q e
    by (metis domI map_le_def)
  ultimately show ?thesis unfolding bundle_at_def by blast
qed

lemma verify_under_faults:
  assumes "\<And>e. Q d f (Inl e)" "bundle_at p i f \<Longrightarrow> Q d f (Inr ())"
  shows "under_faults (verify_staged_bundle p i) Q d f"
proof -
  have read: "under_faults (read_bytes q) P d f"
    if "\<And>e. P d f (Inl e)" "\<And>b. map_of f q = Some (File b) \<Longrightarrow> P d f (Inr b)" for q P
    unfolding read_bytes_def
    by (rule under_faults_read_files) (use that in \<open>auto split: option.splits entry.splits\<close>)
  have load: "under_faults (load_json q) P d f"
    if "\<And>e. P d f (Inl e)" "\<And>b j. map_of f q = Some (File b) \<Longrightarrow> json_loads b = Some j \<Longrightarrow> P d f (Inr j)" for q P
    unfolding load_json_def
    by (rule under_faults_bind, rule read) (use that in \<open>auto intro!: fault_rules split: option.splits\<close>)
  show ?thesis
    unfolding verify_staged_bundle_def
    by (rule under_faults_bind, rule read, simp_all add: assms(1),
        rule under_faults_bind, rule load, simp_all add: assms(1),
        rule under_faults_bind, rule load, simp_all add: assms(1),
        rule under_faults_bind, rule load, simp_all add: assms(1),
        rule under_faults_pure(5), rule assms(2), unfold bundle_at_def, blast, rule assms(1))
qed

lemma verify_runs:
  assumes "bundle_at p i f"
  shows "verify_staged_bundle p i (running d f) = (running d f, Inr ())"
  using assms unfolding bundle_at_def
  by (auto simp: verify_staged_bundle_def load_json_def read_bytes_def prog_simps clean_run)

text \<open>Before the rename: plain files in the staging directory, nothing at the destination.\<close>

definition staging_plain :: "raw_intent \<Rightarrow> files \<Rightarrow> bool" where
  "staging_plain i f \<longleftrightarrow>
     (map_of f (staging i) = None \<or> (\<exists>u m. map_of f (staging i) = Some (Dir False u m)))
     \<and> (\<forall>n. map_of f (staging i @ [n]) = None \<or> (\<exists>b. map_of f (staging i @ [n]) = Some (File b)))"

definition unused :: "raw_intent \<Rightarrow> files \<Rightarrow> bool" where
  "unused i f \<longleftrightarrow> well_formed f \<and> map_of f (staging i) = None \<and> map_of f (destination i) = None"

definition staged_files :: "raw_intent \<Rightarrow> files \<Rightarrow> files \<Rightarrow> bool" where
  "staged_files i f0 f \<longleftrightarrow> well_formed f \<and> map_of f (destination i) = None \<and> staging_plain i f
     \<and> map_of f0 \<subseteq>\<^sub>m map_of f"

definition exposed_files :: "raw_intent \<Rightarrow> files \<Rightarrow> files \<Rightarrow> bool" where
  "exposed_files i f0 f \<longleftrightarrow> map_of f (staging i) = None
     \<and> (\<exists>u m. map_of f (destination i) = Some (Dir False u m)) \<and> bundle_at (destination i) i f
     \<and> map_of f0 \<subseteq>\<^sub>m map_of f"

lemmas bundle_paths = staging_def staging_parent_def destination_def destination_parent_def task_root_def

lemma paths_apart [simp]:
  "destination i \<noteq> staging i @ x" "staging i \<noteq> destination i @ x"
  "staging i \<noteq> []" "destination i \<noteq> []" "staging i \<noteq> destination i" "destination i \<noteq> staging i"
  by (simp_all add: bundle_paths)

lemma unused_below: "unused i f0 \<Longrightarrow> map_of f0 (staging i @ x) = None"
  unfolding unused_def by (blast intro: nothing_below_None)

lemma unused_staged: "unused i f \<Longrightarrow> staged_files i f f"
  using unused_below [of i f] by (auto simp: staged_files_def staging_plain_def unused_def)

lemma map_le_new: "map_of f0 \<subseteq>\<^sub>m m \<Longrightarrow> map_of f0 p = None \<or> m p = None \<Longrightarrow> map_of f0 \<subseteq>\<^sub>m m(p \<mapsto> e)"
  by (auto simp: map_le_def dom_def)

lemma map_le_removed: "map_of f0 \<subseteq>\<^sub>m m \<Longrightarrow> map_of f0 p = None \<Longrightarrow> map_of f0 \<subseteq>\<^sub>m m(p := None)"
  by (auto simp: map_le_def dom_def)

lemma staged_make_dir:
  assumes "staged_files i f0 f" "make_dir u ok m p f = Inr f'"
    and "p \<noteq> destination i" "p = staging i \<or> take 4 p \<noteq> staging i"
  shows "staged_files i f0 f'"
proof (cases "map_of f p")
  case None
  then have f': "f' = set_entry p (Dir False u m) f" "is_dir (butlast p) f" "p \<noteq> []"
    using assms(2) by (auto simp: make_dir_Inr)
  have "p \<noteq> staging i @ [n]" for n
    using assms(4) by (auto simp: bundle_paths)
  then have "staging_plain i f'"
    using assms(1) f'(1) by (auto simp: staged_files_def staging_plain_def)
  moreover have "well_formed f'" using assms(1) None f' by (auto simp: staged_files_def intro: well_formed_new)
  ultimately show ?thesis
    using assms(1,3) None f'(1) by (auto simp: staged_files_def intro: map_le_new)
next
  case (Some e)
  then show ?thesis using assms(1,2) by (simp add: make_dir_Inr)
qed

lemma staged_create:
  assumes "unused i f0" "staged_files i f0 f" "create_file (staging i @ [n]) f = Inr f'"
  shows "staged_files i f0 f'"
  using assms unused_below [OF assms(1)]
  by (auto simp: create_file_Inr staged_files_def staging_plain_def intro: well_formed_new map_le_new)

lemma staged_fill:
  assumes "unused i f0" "staged_files i f0 f" "fill_file (staging i @ [n]) c f = Inr f'"
  shows "staged_files i f0 f'"
  using assms unused_below [OF assms(1)]
  by (auto simp: fill_file_Inr staged_files_def staging_plain_def intro: well_formed_fill map_le_new)

lemma make_dir_le: "make_dir u ok m p f = Inr f' \<Longrightarrow> map_of f \<subseteq>\<^sub>m map_of f'"
  by (auto simp: make_dir_Inr map_le_def split: if_splits)

text \<open>The rename exposes the verified bundle.\<close>

lemma staged_rename:
  assumes "unused i f0" "staged_files i f0 f" "bundle_at (staging i) i f"
    and "rename (staging i) (destination i) f = Inr f'"
  shows "exposed_files i f0 f'"
proof -
  have wf: "well_formed f" and none: "map_of f (destination i) = None" and le: "map_of f0 \<subseteq>\<^sub>m map_of f"
    and plain: "staging_plain i f"
    using assms(2) by (simp_all add: staged_files_def)
  have look: "map_of f' q =
      (if take (length (destination i)) q = destination i
       then map_of f (staging i @ drop (length (destination i)) q)
       else if take (length (staging i)) q = staging i then None else map_of f q)" for q
    using rename_Inr [OF wf none assms(4)] by blast
  have moved: "map_of f' (destination i @ x) = map_of f (staging i @ x)" for x
    using look [of "destination i @ x"] by simp
  have there: "map_of f (staging i) \<noteq> None" using assms(4) by (auto simp: rename_def split: if_splits)
  have "map_of f' (staging i) = None" using look [of "staging i"] by (simp add: bundle_paths)
  moreover have "\<exists>u m. map_of f' (destination i) = Some (Dir False u m)"
    using moved [of "[]"] plain there by (auto simp: staging_plain_def)
  moreover have "bundle_at (destination i) i f'" using assms(3) by (simp add: bundle_at_def moved)
  moreover have "map_of f0 \<subseteq>\<^sub>m map_of f'"
    unfolding map_le_def
  proof
    fix q assume q: "q \<in> dom (map_of f0)"
    have "map_of f0 (destination i @ x) = None" for x
      using assms(1) unfolding unused_def by (blast intro: nothing_below_None)
    then have "take (length (destination i)) q \<noteq> destination i"
      using q by (metis append_take_drop_id domIff)
    moreover have "take (length (staging i)) q \<noteq> staging i"
      using q unused_below [OF assms(1)] by (metis append_take_drop_id domIff)
    ultimately show "map_of f0 q = map_of f' q" using look [of q] le q by (simp add: map_le_def)
  qed
  ultimately show ?thesis by (simp add: exposed_files_def)
qed

section \<open>Publishing under every schedule of faults\<close>

definition keeps_files :: "(files \<Rightarrow> bool) \<Rightarrow> (publisher, 'a) prog \<Rightarrow> bool" where
  "keeps_files I m \<longleftrightarrow> (\<forall>d f. I f \<longrightarrow> under_faults m (\<lambda>d' f' _. d' = d \<and> I f') d f)"

lemma keeps_filesI:
  "(\<And>d f. I f \<Longrightarrow> under_faults m (\<lambda>d' f' _. d' = d \<and> I f') d f) \<Longrightarrow> keeps_files I m"
  by (simp add: keeps_files_def)

lemma block_keeps:
  assumes "keeps_files I m" "I f" "\<And>f e. I f \<Longrightarrow> Q d f (Inl e)"
    and "\<And>f. I f \<Longrightarrow> under_faults (prog_block ms) Q d f"
  shows "under_faults (prog_block (m # ms)) Q d f"
proof (rule under_faults_block(2))
  have "under_faults m (\<lambda>d' f' _. d' = d \<and> I f') d f" using assms(1,2) by (simp add: keeps_files_def)
  then show "under_faults m (\<lambda>d f r. case r of Inl e \<Rightarrow> Q d f (Inl e)
      | Inr a \<Rightarrow> under_faults (prog_block ms) Q d f) d f"
    by (rule under_faults_mono) (auto split: sum.splits intro: assms(3,4))
qed

lemma keeps_on_files:
  "(\<And>f f'. I f \<Longrightarrow> op f = Inr f' \<Longrightarrow> I f') \<Longrightarrow> keeps_files I (on_files op)"
  by (rule keeps_filesI, rule under_faults_on_files) auto

lemma keeps_read_files: "keeps_files I (read_files op)"
  by (rule keeps_filesI, rule under_faults_read_files) auto

lemma keeps_bind:
  assumes "keeps_files I m" "\<And>a. keeps_files I (g a)"
  shows "keeps_files I (prog_bind m g)"
proof (rule keeps_filesI, rule under_faults_bind)
  fix d f assume "I f"
  with assms(1) have "under_faults m (\<lambda>d' f' _. d' = d \<and> I f') d f" by (simp add: keeps_files_def)
  then show "under_faults m (\<lambda>da fa r. case r of Inl e \<Rightarrow> da = d \<and> I fa
      | Inr a \<Rightarrow> under_faults (g a) (\<lambda>d' f' _. d' = d \<and> I f') da fa) d f"
    by (rule under_faults_mono) (use assms(2) in \<open>auto simp: keeps_files_def split: sum.splits\<close>)
qed

lemma keeps_then: "keeps_files I m \<Longrightarrow> keeps_files I n \<Longrightarrow> keeps_files I (prog_then m n)"
  unfolding prog_then_def by (rule keeps_bind)

lemma keeps_pure:
  "keeps_files I (prog_return a)" "keeps_files I (prog_raise e)" "keeps_files I (look g)"
  by (rule keeps_filesI, rule fault_rules, simp)+

lemma keeps_for: "(\<And>x. x \<in> set xs \<Longrightarrow> keeps_files I (g x)) \<Longrightarrow> keeps_files I (prog_for xs g)"
  by (induction xs) (auto intro: keeps_pure keeps_bind)

lemma keeps_make_dirs:
  assumes "length p \<le> 3" and "\<And>f u ok m q f'. I f \<Longrightarrow> length q \<le> 3 \<Longrightarrow> make_dir u ok m q f = Inr f' \<Longrightarrow> I f'"
  shows "keeps_files I (make_dirs u dm m p)"
  unfolding make_dirs_def
  by (intro keeps_then keeps_for keeps_on_files; erule assms(2) [rotated 2]) (use assms(1) in auto)

lemma staged_short_dir:
  assumes "staged_files i f0 f" "length q \<le> 3" "make_dir u ok m q f = Inr f'"
  shows "staged_files i f0 f'"
proof (rule staged_make_dir [OF assms(1,3)])
  show "q \<noteq> destination i" "q = staging i \<or> take 4 q \<noteq> staging i"
    using assms(2) by (auto simp: bundle_paths)
qed

lemma keeps_write_exact: "unused i f0 \<Longrightarrow> keeps_files (staged_files i f0) (write_exact (staging i @ [n]) c)"
  unfolding write_exact_def by (intro keeps_then keeps_on_files) (blast intro: staged_create staged_fill)+

lemma stage_bundle_faults:
  assumes "unused i f0" "staged_files i f0 f"
  shows "under_faults (stage_bundle h v c i dm)
    (\<lambda>d' f' r. d' = d \<and> (case r of Inl _ \<Rightarrow> staged_files i f0 f' | Inr _ \<Rightarrow> exposed_files i f0 f')) d f"
proof -
  let ?Q = "\<lambda>d' f' r. d' = d \<and> (case r of Inl _ \<Rightarrow> staged_files i f0 f' | Inr _ \<Rightarrow> exposed_files i f0 f')"
  let ?J = "\<lambda>f. staged_files i f0 f \<and> bundle_at (staging i) i f"
  have checked: "keeps_files (staged_files i f0) (prog_bind (read_bytes p) (\<lambda>b.
      case v b of Inl e \<Rightarrow> prog_raise e | Inr _ \<Rightarrow> prog_return ()))" for p
    unfolding read_bytes_def by (intro keeps_bind keeps_read_files) (auto intro: keeps_pure split: sum.splits)
  have rest: "under_faults (prog_block
      [fsync_directory (staging i), make_dirs (pr_euid h) dm mode_700 (destination_parent i),
       on_files (rename (staging i) (destination i))]) ?Q d f" if "?J f" for f
  proof (rule block_keeps [of ?J])
    show "keeps_files ?J (fsync_directory (staging i))"
      unfolding fsync_directory_def by (rule keeps_read_files)
  next
    fix f assume J: "?J f"
    show "under_faults (prog_block [make_dirs (pr_euid h) dm mode_700 (destination_parent i),
       on_files (rename (staging i) (destination i))]) ?Q d f"
    proof (rule block_keeps [of ?J])
      show "keeps_files ?J (make_dirs (pr_euid h) dm mode_700 (destination_parent i))"
        by (rule keeps_make_dirs)
          (auto simp: destination_parent_def intro: staged_short_dir bundle_at_mono make_dir_le)
    next
      fix f assume "?J f"
      then show "under_faults (prog_block [on_files (rename (staging i) (destination i))]) ?Q d f"
        by (intro under_faults_block(2) under_faults_on_files)
          (auto intro!: under_faults_pure(1) staged_rename [OF assms(1)])
    qed (use J in auto)
  qed (use that in auto)
  have verified: "under_faults (prog_block
      (verify_staged_bundle (staging i) i # [fsync_directory (staging i),
       make_dirs (pr_euid h) dm mode_700 (destination_parent i),
       on_files (rename (staging i) (destination i))])) ?Q d f" if "staged_files i f0 f" for f
    by (rule under_faults_block(2), rule verify_under_faults) (use that rest in auto)
  note kept = keeps_write_exact [OF assms(1)]
  show ?thesis
    unfolding stage_bundle_def
    by (rule block_keeps [OF kept assms(2)], simp, rule block_keeps [OF kept], assumption, simp,
        rule block_keeps [OF kept], assumption, simp, rule block_keeps [OF kept], assumption, simp,
        rule block_keeps [OF checked], assumption, simp, rule verified)
qed

text \<open>Cleaning the staging directory.\<close>

lemma child_path: "c \<in> set (children p f) \<Longrightarrow> \<exists>n. c = p @ [n]"
  by (auto simp: children_def) (metis append_butlast_last_id)

lemma staged_unlink:
  assumes "unused i f0" "staged_files i f0 f" "unlink (staging i @ [n]) f = Inr f'"
  shows "staged_files i f0 f'"
proof -
  have wf: "well_formed f" and plain: "staging_plain i f" using assms(2) by (simp_all add: staged_files_def)
  have f': "f' = remove_entry (staging i @ [n]) f"
    using assms(3) plain by (auto simp: unlink_def staging_plain_def split: option.splits entry.splits if_splits)
  have "\<not> is_dir (staging i @ [n]) f"
    using plain unfolding staging_plain_def is_dir_def by (auto dest: spec [of _ n])
  then have "map_of f q = None" if "q \<noteq> []" "butlast q = staging i @ [n]" for q
    using nothing_below [OF wf, of "staging i @ [n]" "[last q]"] that by (metis append_butlast_last_id list.discI)
  then have "well_formed f'" using f' wf by (auto intro: well_formed_remove)
  then show ?thesis
    using assms(2) f' unused_below [OF assms(1)]
    by (auto simp: staged_files_def staging_plain_def intro: map_le_removed)
qed

lemma staged_remove_dir:
  assumes "unused i f0" "staged_files i f0 f" "remove_dir (staging i) f = Inr f'"
  shows "staged_files i f0 f' \<and> map_of f' (staging i) = None"
proof -
  have wf: "well_formed f" using assms(2) by (simp add: staged_files_def)
  have f': "f' = remove_entry (staging i) f" "children (staging i) f = []"
    using assms(3) by (auto simp: remove_dir_def split: if_splits)
  have none: "map_of f q = None" if "q \<noteq> []" "butlast q = staging i" for q
  proof (rule ccontr)
    assume "map_of f q \<noteq> None"
    then have "q \<in> fst ` set f" by (simp add: map_of_eq_None_iff)
    then have "q \<in> set (children (staging i) f)" using that by (simp add: children_def)
    then show False using f'(2) by simp
  qed
  then have "well_formed f'" using f'(1) wf by (auto intro: well_formed_remove)
  moreover have "map_of f (staging i @ [n]) = None" for n using none [of "staging i @ [n]"] by simp
  moreover have "map_of f0 \<subseteq>\<^sub>m map_of f'"
    using assms(2) f'(1) unused_below [OF assms(1), of "[]"] map_le_removed [of f0 "map_of f" "staging i"]
    by (simp add: staged_files_def)
  ultimately show ?thesis
    using assms(2) f'(1) by (simp add: staged_files_def staging_plain_def)
qed

lemma keeps_remove_bundle: "unused i f0 \<Longrightarrow> keeps_files (staged_files i f0) (remove_bundle (staging i))"
proof (rule keeps_filesI)
  fix d f assume unused: "unused i f0" and staged: "staged_files i f0 f"
  have "keeps_files (staged_files i f0) (prog_then (prog_for cs (\<lambda>c. on_files (unlink c))) (on_files (remove_dir (staging i))))"
    if paths: "\<forall>c \<in> set cs. \<exists>n. c = staging i @ [n]" for cs
  proof (intro keeps_then keeps_for keeps_on_files)
    fix c g g' assume c: "c \<in> set cs" and g: "staged_files i f0 g" and u: "unlink c g = Inr g'"
    obtain n where "c = staging i @ [n]" using paths c by blast
    with staged_unlink [OF unused g] u show "staged_files i f0 g'" by simp
  next
    fix g g' assume "staged_files i f0 g" "remove_dir (staging i) g = Inr g'"
    then show "staged_files i f0 g'" using staged_remove_dir [OF unused] by simp
  qed
  from this [of "children (staging i) f"] have "keeps_files (staged_files i f0)
      (prog_then (prog_for (children (staging i) f) (\<lambda>c. on_files (unlink c))) (on_files (remove_dir (staging i))))"
    using child_path by simp
  then show "under_faults (remove_bundle (staging i)) (\<lambda>d' f' _. d' = d \<and> staged_files i f0 f') d f"
    unfolding remove_bundle_def
    by (intro under_faults_bind under_faults_pure(3)) (simp add: keeps_files_def staged)
qed

lemma keeps_clean_staging: "unused i f0 \<Longrightarrow> keeps_files (staged_files i f0) (clean_staging i)"
  unfolding clean_staging_def
  by (rule keeps_bind, rule keeps_pure) (auto intro: keeps_remove_bundle keeps_pure)

section \<open>The phases of a publication\<close>

definition publication_phase :: "raw_intent \<Rightarrow> db \<Rightarrow> files \<Rightarrow> db \<Rightarrow> files \<Rightarrow> bool" where
  "publication_phase i d0 f0 d f \<longleftrightarrow> same_but_own i d0 d
     \<and> (staged_files i f0 f \<and> (own_rows i d = [] \<or> own_state i {P_Staging, P_Failed} d)
      \<or> exposed_files i f0 f \<and> own_state i {P_Staging, P_Reconciliation, P_Committed} d)"

definition exposed_phase :: "raw_intent \<Rightarrow> raw_state set \<Rightarrow> db \<Rightarrow> files \<Rightarrow> db \<Rightarrow> files \<Rightarrow> bool" where
  "exposed_phase i S d0 f0 d f \<longleftrightarrow> same_but_own i d0 d \<and> exposed_files i f0 f \<and> own_state i S d"

lemma exposed_phaseD:
  "exposed_phase i S d0 f0 d f \<Longrightarrow> S \<subseteq> {P_Staging, P_Reconciliation, P_Committed} \<Longrightarrow> publication_phase i d0 f0 d f"
  by (auto simp: exposed_phase_def publication_phase_def intro: own_state_mono)

lemma mark_faults:
  assumes "exposed_phase i {P_Staging} d0 f0 d f"
  shows "under_faults (prog_then (mark_reconciliation i l t) (prog_raise e))
    (\<lambda>d' f' r. publication_phase i d0 f0 d' f' \<and> r \<noteq> Inr a) d f"
proof -
  have own: "own_state i {P_Staging} d" using assms by (simp add: exposed_phase_def)
  obtain d' r where run: "mark_raw_publication_reconciliation_required (ri_id i) l t d = (d', r)" by fastforce
  then have "same_but_own i d d' \<and> own_state i {P_Reconciliation, P_Staging} d'"
    using transition_cases [OF _ _ own, of P_Reconciliation "{P_Staging}" l t d' r]
    by (simp add: mark_raw_publication_reconciliation_required_def)
  then have after: "publication_phase i d0 f0 d' f" and before: "publication_phase i d0 f0 d f"
    using assms by (auto simp: exposed_phase_def publication_phase_def intro: same_but_own_trans own_state_mono)
  show ?thesis
    unfolding mark_reconciliation_def
    by (intro under_faults_then under_faults_try under_faults_on_repository)
      (auto simp: run after before intro!: fault_rules split: sum.splits exn.splits)
qed

lemma expose_faults:
  assumes "unused i f0" "staged_files i f0 f" "same_but_own i d0 d" "own_state i {P_Staging} d"
  shows "under_faults (expose_bundle h v c i dm l t)
    (\<lambda>d' f' r. case r of Inl _ \<Rightarrow> publication_phase i d0 f0 d' f' | Inr _ \<Rightarrow> exposed_phase i {P_Staging} d0 f0 d' f') d f"
proof -
  let ?Q = "\<lambda>d' f' r. case r of Inl _ \<Rightarrow> publication_phase i d0 f0 d' f' | Inr _ \<Rightarrow> exposed_phase i {P_Staging} d0 f0 d' f'"
  let ?H = "\<lambda>d' f' r. case r of Inl _ \<Rightarrow> publication_phase i d0 f0 d' f' | Inr (_ :: unit) \<Rightarrow> False"
  obtain d' r where run: "fail_raw_publication (ri_id i) l t d = (d', r)" by fastforce
  then have "same_but_own i d d' \<and> own_state i {P_Failed, P_Staging} d'"
    using transition_cases [OF _ _ assms(4), of P_Failed "{P_Staging, P_Reconciliation}" l t d' r]
    by (simp add: fail_raw_publication_def)
  then have failed: "same_but_own i d0 d'" "own_state i {P_Staging, P_Failed} d'"
    using assms(3) by (auto intro: same_but_own_trans own_state_mono)
  have clean: "under_faults (clean_staging i)
      (\<lambda>d'' f'' x. case x of Inl e \<Rightarrow> ?H d'' f'' (Inl e) | Inr _ \<Rightarrow> ?H d'' f'' (Inl e')) d1 f1"
    if staged: "staged_files i f0 f1" and d1: "d1 = d \<or> d1 = d'" for d1 f1 e'
  proof -
    have "under_faults (clean_staging i) (\<lambda>d'' f'' _. d'' = d1 \<and> staged_files i f0 f'') d1 f1"
      using keeps_clean_staging [OF assms(1)] staged by (simp add: keeps_files_def)
    moreover have "publication_phase i d0 f0 d1 f''" if "staged_files i f0 f''" for f''
      using d1 failed assms(3,4) that own_state_mono [OF assms(4), of "{P_Staging, P_Failed}"]
      by (auto simp: publication_phase_def)
    ultimately show ?thesis by (elim under_faults_mono) (auto split: sum.splits)
  qed
  have handler: "under_faults (prog_finally (prog_then
      (on_repository ''raw_publication_transition_failed'' (fail_raw_publication (ri_id i) l t)) (prog_raise e))
      (clean_staging i)) ?H d f1" if "staged_files i f0 f1" for f1 e
  proof (intro under_faults_finally under_faults_then under_faults_on_repository)
    show "case Inl (StorageError ''raw_publication_transition_failed'') of
        Inl e \<Rightarrow> under_faults (clean_staging i) (\<lambda>d f x. case x of Inl e \<Rightarrow> ?H d f (Inl e) | Inr _ \<Rightarrow> ?H d f (Inl e)) d f1
      | Inr a \<Rightarrow> under_faults (prog_raise e) (\<lambda>d f r. under_faults (clean_staging i)
          (\<lambda>d f x. case x of Inl e \<Rightarrow> ?H d f (Inl e) | Inr _ \<Rightarrow> ?H d f r) d f) d f1"
      using clean [OF that, of d "StorageError ''raw_publication_transition_failed''"] by simp
    show "case snd (fail_raw_publication (ri_id i) l t d) of
        Inl e \<Rightarrow> under_faults (clean_staging i) (\<lambda>d f x. case x of Inl e \<Rightarrow> ?H d f (Inl e) | Inr _ \<Rightarrow> ?H d f (Inl e))
          (fst (fail_raw_publication (ri_id i) l t d)) f1
      | Inr a \<Rightarrow> under_faults (prog_raise e) (\<lambda>d f r. under_faults (clean_staging i)
          (\<lambda>d f x. case x of Inl e \<Rightarrow> ?H d f (Inl e) | Inr _ \<Rightarrow> ?H d f r) d f)
          (fst (fail_raw_publication (ri_id i) l t d)) f1"
    proof (cases r)
      case (Inl x)
      then show ?thesis using clean [OF that, of d' x] by (simp add: run)
    next
      case (Inr u)
      then show ?thesis
        using clean [OF that, of d' e] by (simp add: run) (rule under_faults_pure(2), simp)
    qed
  qed
  have exposed: "exposed_phase i {P_Staging} d0 f0 d f1" if "exposed_files i f0 f1" for f1
    using that assms(3,4) by (simp add: exposed_phase_def)
  have synced: "under_faults (prog_try (fsync_directory (destination_parent i)) (\<lambda>_.
          prog_then (mark_reconciliation i l t)
            (prog_raise (StorageError ''raw_publication_reconciliation_required'')))) ?Q d f1"
    if "exposed_files i f0 f1" for f1
    unfolding fsync_directory_def
    by (intro under_faults_try under_faults_read_files)
      (auto intro!: under_faults_mono [OF mark_faults [OF exposed [OF that]]] exposed [OF that] split: sum.splits)
  show ?thesis
    unfolding expose_bundle_def
    by (intro under_faults_then under_faults_try under_faults_mono [OF stage_bundle_faults [OF assms(1,2)]])
      (auto intro!: under_faults_mono [OF handler] synced split: sum.splits)
qed

definition published :: "raw_intent \<Rightarrow> db \<Rightarrow> files \<Rightarrow> db \<Rightarrow> files \<Rightarrow> exn + raw_reference \<Rightarrow> bool" where
  "published i d0 f0 d f r \<longleftrightarrow>
     (case r of
        Inl _ \<Rightarrow> publication_phase i d0 f0 d f
      | Inr ref \<Rightarrow> exposed_phase i {P_Committed} d0 f0 d f \<and> ref = reference_for i (relative_path i)
          \<and> valid_raw_reference ref)"

lemma make_reference_faults:
  "(\<And>e. Q d f (Inl e)) \<Longrightarrow>
   (valid_raw_reference (reference_for i p) \<Longrightarrow> Q d f (Inr (reference_for i p))) \<Longrightarrow>
   under_faults (make_reference i p) Q d f"
  unfolding make_reference_def by (intro under_faults_then under_faults_pure(5)) (auto intro: under_faults_pure(1))

lemma commit_faults:
  assumes "exposed_phase i {P_Staging} d0 f0 d f"
  shows "under_faults
    (prog_bind (make_reference i (relative_path i)) (\<lambda>ref.
        prog_then
          (prog_try (on_repository ''raw_publication_commit_failed'' (commit_raw_publication ref l t))
            (\<lambda>_. prog_then (mark_reconciliation i l t)
              (prog_raise (StorageError ''raw_publication_reconciliation_required''))))
          (prog_return ref)))
    (published i d0 f0) d f"
proof -
  let ?ref = "reference_for i (relative_path i)"
  have own: "own_state i {P_Staging} d" using assms by (simp add: exposed_phase_def)
  have phase: "publication_phase i d0 f0 d f" using assms by (rule exposed_phaseD) simp
  have mark: "under_faults (prog_then (mark_reconciliation i l t) (prog_raise e))
      (\<lambda>d f r. case r of Inl e \<Rightarrow> publication_phase i d0 f0 d f | Inr (a :: unit) \<Rightarrow> under_faults (prog_return ref) (published i d0 f0) d f) d f"
    for e ref
    by (rule under_faults_mono [OF mark_faults [OF assms, of l t e "()"]]) (auto simp: published_def split: sum.splits)
  obtain d' r where run: "commit_raw_publication ?ref l t d = (d', r)" by fastforce
  note cases = commit_cases [OF run own]
  have "exposed_phase i {P_Committed} d0 f0 d' f" if "r = Inr u" for u
    using cases assms that by (auto simp: exposed_phase_def intro: same_but_own_trans)
  moreover have "d' = d" if "r = Inl e" for e using cases that by simp
  ultimately have "under_faults (prog_then
      (prog_try (on_repository ''raw_publication_commit_failed'' (commit_raw_publication ?ref l t))
        (\<lambda>_. prog_then (mark_reconciliation i l t)
          (prog_raise (StorageError ''raw_publication_reconciliation_required''))))
      (prog_return ?ref)) (published i d0 f0) d f"
    if "valid_raw_reference ?ref"
    using that mark
    by (intro under_faults_then under_faults_try under_faults_on_repository)
      (auto simp: run published_def intro!: under_faults_pure(1) split: sum.splits)
  then show ?thesis
    by (intro under_faults_bind make_reference_faults) (auto simp: published_def phase)
qed

lemma publish_new_faults:
  assumes "unused i f0" "own_rows i d0 = []"
  shows "under_faults (publish_new h v c i dm l st t) (published i d0 f0) d0 f0"
proof -
  let ?I = "staged_files i f0"
  let ?tail = "\<lambda>d f r. case r of Inl e \<Rightarrow> published i d0 f0 d f (Inl e)
    | Inr a \<Rightarrow> under_faults (prog_bind (make_reference i (relative_path i)) (\<lambda>ref.
        prog_then
          (prog_try (on_repository ''raw_publication_commit_failed'' (commit_raw_publication ref l t))
            (\<lambda>_. prog_then (mark_reconciliation i l t)
              (prog_raise (StorageError ''raw_publication_reconciliation_required''))))
          (prog_return ref))) (published i d0 f0) d f"
  have fresh: "publication_phase i d0 f0 d0 f0"
    using assms by (simp add: publication_phase_def unused_staged)
  have staged: "under_faults (prog_block
       [on_files (make_dir (pr_euid h) True mode_700 (task_root i)),
        validate_private_directory h (task_root i),
        make_dirs (pr_euid h) dm mode_700 (staging_parent i),
        prog_check (\<lambda>s. map_of (pb_files s) (staging i) = None \<and> map_of (pb_files s) (destination i) = None)
          (StorageError ''raw_publication_path_exists''),
        on_files (make_dir (pr_euid h) False mode_700 (staging i)),
        expose_bundle h v c i dm l t]) ?tail d f0"
    if same: "same_but_own i d0 d" and own: "own_state i {P_Staging} d" for d
  proof -
    have phase: "?tail d f (Inl e)" if "?I f" for f e
      using that same own own_state_mono [OF own, of "{P_Staging, P_Failed}"]
      by (auto simp: published_def publication_phase_def)
    have expose: "under_faults (prog_block [expose_bundle h v c i dm l t]) ?tail d f" if "?I f" for f
      by (rule under_faults_block(2), rule under_faults_mono [OF expose_faults [OF assms(1) that same own]])
        (auto simp: published_def intro!: under_faults_pure(1) commit_faults split: sum.splits)
    have k1: "keeps_files ?I (on_files (make_dir u ok m (task_root i)))" for u ok m
      by (rule keeps_on_files, erule staged_short_dir [rotated 2]) (auto simp: task_root_def)
    have k2: "keeps_files ?I (validate_private_directory h p)" for p
      unfolding validate_private_directory_def by (rule keeps_read_files)
    have k3: "keeps_files ?I (make_dirs u m m' (staging_parent i))" for u m m'
      by (rule keeps_make_dirs) (auto simp: staging_parent_def intro: staged_short_dir)
    have k4: "keeps_files ?I (prog_check (\<lambda>s. p (pb_files s)) e)" for p e
      by (rule keeps_filesI, rule under_faults_check_files) auto
    have k5: "keeps_files ?I (on_files (make_dir u ok m (staging i)))" for u ok m
      by (rule keeps_on_files) (rule staged_make_dir, auto)
    show ?thesis
      by (rule block_keeps [OF k1 unused_staged [OF assms(1)]], erule phase,
          rule block_keeps [OF k2], assumption, erule phase, rule block_keeps [OF k3], assumption, erule phase,
          rule block_keeps [OF k4], assumption, erule phase, rule block_keeps [OF k5], assumption, erule phase,
          erule expose)
  qed
  obtain d r where run: "begin_raw_publication i l st d0 = (d, r)" by fastforce
  have "under_faults (prog_block
      [on_repository ''raw_publication_intent_failed'' (begin_raw_publication i l st),
       on_files (make_dir (pr_euid h) True mode_700 (task_root i)),
       validate_private_directory h (task_root i),
       make_dirs (pr_euid h) dm mode_700 (staging_parent i),
       prog_check (\<lambda>s. map_of (pb_files s) (staging i) = None \<and> map_of (pb_files s) (destination i) = None)
         (StorageError ''raw_publication_path_exists''),
       on_files (make_dir (pr_euid h) False mode_700 (staging i)),
       expose_bundle h v c i dm l t]) ?tail d0 f0"
    using begin_cases [OF run assms(2)] fresh staged
    by (intro under_faults_block(2) under_faults_on_repository) (auto simp: run published_def split: sum.splits)
  then show ?thesis unfolding publish_new_def by (rule under_faults_then)
qed

end
