(* ===== verification/Settling.thy ===== *)
theory Settling
  imports Publishing
begin

text \<open>
  What reconciliation makes of a publication (\<open>settled\<close>), and the theorems on \<open>publish\<close> and
  \<open>reconcile\<close> of \<open>requests/raw_artifacts.py\<close>: nothing is ever left half done, a returned reference
  is backed by the exact bytes, an undisturbed publication succeeds.
\<close>

section \<open>Settled publications\<close>

text \<open>The bundle a stored path names is there and matches its intent.\<close>

definition in_place :: "raw_intent \<Rightarrow> string \<Rightarrow> files \<Rightarrow> bool" where
  "in_place i path f \<longleftrightarrow> valid_raw_reference (reference_for i path)
     \<and> is_dir (ri_task i # split_slash path) f \<and> \<not> is_symlink (ri_task i # split_slash path) f
     \<and> bundle_at (ri_task i # split_slash path) i f"

definition settled_row :: "files \<Rightarrow> raw_row \<Rightarrow> bool" where
  "settled_row f w \<longleftrightarrow> valid_raw_intent (raw_intent.truncate w)
     \<and> (rw_state w = P_Failed
        \<or> rw_state w = P_Committed
          \<and> (case rw_path w of None \<Rightarrow> False | Some path \<Rightarrow> in_place (raw_intent.truncate w) path f))"

definition settled :: "db \<Rightarrow> files \<Rightarrow> bool" where
  "settled d f \<longleftrightarrow> schema_ok d \<and> list_all (settled_row f) (raw_publications d)"

lemma split_slash_word: "CHR ''/'' \<notin> set w \<Longrightarrow> split_slash w = [w]"
  by (induction w) auto

lemma split_slash_append:
  "CHR ''/'' \<notin> set w \<Longrightarrow> split_slash (w @ CHR ''/'' # r) = w # split_slash r"
  by (induction w) auto

lemma relative_path_split:
  assumes "is_raw_path (relative_path i)"
  shows "ri_task i # split_slash (relative_path i) = destination i"
proof -
  let ?r = "ri_logical i @ CHR ''/'' # ri_attempt i"
  have "drop 13 (relative_path i) = ?r" by (simp add: relative_path_def)
  then obtain b where split: "dropWhile path_char ?r = CHR ''/'' # b" "list_all path_char b"
    using assms by (auto simp: is_raw_path_def Let_def split: list.splits)
  have slash: "\<not> path_char (CHR ''/'')" by (simp add: path_char_def is_alnum_def)
  have "?r = takeWhile path_char ?r @ CHR ''/'' # b" using split(1) by (metis takeWhile_dropWhile_id)
  moreover have "filter (\<lambda>c. c = CHR ''/'') (takeWhile path_char ?r) = []"
    using slash by (auto simp: filter_empty_conv dest: set_takeWhileD)
  moreover have "filter (\<lambda>c. c = CHR ''/'') b = []"
    using slash split(2) by (auto simp: filter_empty_conv list_all_iff)
  moreover have "filter (\<lambda>c. c = CHR ''/'') (xs @ CHR ''/'' # ys) =
      filter (\<lambda>c. c = CHR ''/'') xs @ CHR ''/'' # filter (\<lambda>c. c = CHR ''/'') ys" for xs ys
    by simp
  ultimately have "filter (\<lambda>c. c = CHR ''/'') ?r = [CHR ''/'']"
    by (metis append_Nil)
  then have "length (filter (\<lambda>c. c = CHR ''/'') ?r) = 1" by simp
  then have "filter (\<lambda>c. c = CHR ''/'') (ri_logical i) = [] \<and> filter (\<lambda>c. c = CHR ''/'') (ri_attempt i) = []"
    by simp
  then have "CHR ''/'' \<notin> set (ri_logical i)" "CHR ''/'' \<notin> set (ri_attempt i)"
    by (auto simp: filter_empty_conv)
  then show ?thesis
    using split_slash_append [of "''acquisitions''" ?r] split_slash_append [of "ri_logical i" "ri_attempt i"]
      split_slash_word [of "ri_attempt i"]
    by (simp add: relative_path_def destination_def destination_parent_def)
qed

lemma exposed_in_place:
  assumes "exposed_files i f0 f" "valid_raw_reference (reference_for i (relative_path i))"
  shows "in_place i (relative_path i) f"
proof -
  have "is_raw_path (relative_path i)" using assms(2) by (simp add: valid_raw_reference_def)
  then show ?thesis
    using assms by (auto simp: in_place_def relative_path_split exposed_files_def is_dir_def is_symlink_def)
qed

lemma in_place_mono: "in_place i path f \<Longrightarrow> map_of f \<subseteq>\<^sub>m map_of f' \<Longrightarrow> in_place i path f'"
proof -
  assume there: "in_place i path f" and le: "map_of f \<subseteq>\<^sub>m map_of f'"
  let ?p = "ri_task i # split_slash path"
  obtain e where e: "map_of f ?p = Some e" using there by (auto simp: in_place_def is_dir_def split: option.splits)
  with le have "map_of f' ?p = Some e" by (metis domI map_le_def)
  with there e le show "in_place i path f'"
    by (auto simp: in_place_def is_dir_def is_symlink_def intro: bundle_at_mono)
qed

lemma settled_row_mono: "settled_row f w \<Longrightarrow> map_of f \<subseteq>\<^sub>m map_of f' \<Longrightarrow> settled_row f' w"
  by (auto simp: settled_row_def intro: in_place_mono split: option.splits)

text \<open>Reading the table, and the last loop of \<open>reconcile\<close>.\<close>

lemma read_publications:
  assumes "schema_ok d" "\<forall>w \<in> set (query d). valid_raw_intent (raw_intent.truncate w)"
  shows "read_raw_publications query d = (d, Inr (map raw_record_of (query d)))"
proof -
  have "list_all (\<lambda>r. valid_raw_intent (rc_intent r)) (map raw_record_of (query d))"
    using assms(2) by (simp add: list_all_iff raw_record_of_def)
  with assms(1) show ?thesis
    by (simp add: read_raw_publications_def run_tx_def tx_simps)
qed

lemma verify_reference_runs:
  assumes "in_place i path f"
  shows "verify_committed_reference i (reference_for i path) (running d f) = (running d f, Inr ())"
  using assms verify_runs [of "ri_task i # split_slash path" i f d]
  by (simp add: verify_committed_reference_def in_place_def prog_simps clean_run Let_def)

lemma make_reference_runs:
  "make_reference i path s =
    (s, if valid_raw_reference (reference_for i path) then Inr (reference_for i path) else Inl ValidationError)"
  by (simp add: make_reference_def prog_simps)

lemma check_committed_runs:
  assumes "settled_row f w" "rw_state w = P_Committed"
  shows "check_committed (raw_record_of w) (running d f) = (running d f, Inr ())"
proof -
  obtain path where path: "rw_path w = Some path" "in_place (raw_intent.truncate w) path f"
    using assms by (auto simp: settled_row_def split: option.splits)
  moreover from path(2) have "valid_raw_reference (reference_for (raw_intent.truncate w) path)"
    by (simp add: in_place_def)
  ultimately show ?thesis
    by (simp add: check_committed_def raw_record_of_def prog_simps make_reference_runs verify_reference_runs)
qed

lemma committed_loop:
  assumes "settled d f"
  shows "prog_bind (on_repository code committed_raw_records) (\<lambda>cs.
      prog_then (prog_for cs check_committed) (prog_return refs)) (running d f) = (running d f, Inr refs)"
proof -
  let ?ws = "order_by ri_id (filter (\<lambda>w. rw_state w = P_Committed) (raw_publications d))"
  have rows: "\<forall>w \<in> set ?ws. settled_row f w \<and> rw_state w = P_Committed"
    using assms by (auto simp: settled_def list_all_iff order_by_def)
  then have records: "committed_raw_records d = (d, Inr (map raw_record_of ?ws))"
    unfolding committed_raw_records_def
    using assms by (intro read_publications) (auto simp: settled_def settled_row_def)
  have "prog_for (map raw_record_of ws) check_committed (running d f) = (running d f, Inr ())"
    if "\<forall>w \<in> set ws. settled_row f w \<and> rw_state w = P_Committed" for ws
    using that by (induction ws) (simp_all add: prog_simps check_committed_runs)
  from this [OF rows] show ?thesis
    by (simp only: prog_run clean_run records prod.case sum.case)
qed

section \<open>Reconciliation without faults\<close>

lemma children_remove: "children p (remove_entry c f) = filter (\<lambda>q. q \<noteq> c) (children p f)"
  unfolding children_def remove_entry_def by (induction f) auto

lemma unlink_children:
  assumes "unused i f0" "distinct cs" "children (staging i) f = cs" "staged_files i f0 f"
  shows "\<exists>f'. prog_for cs (\<lambda>c. on_files (unlink c)) (running d f) = (running d f', Inr ())
    \<and> staged_files i f0 f' \<and> children (staging i) f' = [] \<and> map_of f' (staging i) = map_of f (staging i)"
  using assms(2-4)
proof (induction cs arbitrary: f)
  case Nil
  then show ?case by (auto simp: prog_simps)
next
  case (Cons c cs)
  then obtain n where c: "c = staging i @ [n]" using child_path [of c "staging i" f] by auto
  have "c \<in> set (children (staging i) f)" using Cons.prems(2) by simp
  then have "c \<in> fst ` set f" by (simp add: children_def)
  then have "map_of f c \<noteq> None" by (simp add: map_of_eq_None_iff)
  moreover have "map_of f c = None \<or> (\<exists>b. map_of f c = Some (File b))"
    using Cons.prems(3) unfolding c staged_files_def staging_plain_def by blast
  ultimately obtain b where "map_of f c = Some (File b)" by auto
  then have step: "unlink c f = Inr (remove_entry c f)" by (simp add: unlink_def)
  have staged: "staged_files i f0 (remove_entry c f)"
    using staged_unlink [OF assms(1) Cons.prems(3)] step c by simp
  have "children (staging i) (remove_entry c f) = cs"
    using Cons.prems(1,2) by (auto simp: children_remove filter_id_conv)
  from Cons.IH [OF _ this staged] Cons.prems(1) c step show ?case
    by (auto simp: prog_simps clean_run)
qed

lemma remove_bundle_runs:
  assumes "unused i f0" "staged_files i f0 f" "is_dir (staging i) f"
  shows "\<exists>f'. remove_bundle (staging i) (running d f) = (running d f', Inr ())
    \<and> staged_files i f0 f' \<and> map_of f' (staging i) = None"
proof -
  have "distinct (children (staging i) f)"
    using assms(2) by (simp add: children_def staged_files_def well_formed_def)
  then obtain f1 where f1: "prog_for (children (staging i) f) (\<lambda>c. on_files (unlink c)) (running d f) = (running d f1, Inr ())"
    "staged_files i f0 f1" "children (staging i) f1 = []" "map_of f1 (staging i) = map_of f (staging i)"
    using unlink_children [OF assms(1) _ refl assms(2)] by blast
  have "is_dir (staging i) f1 \<and> \<not> is_symlink (staging i) f1"
    using f1(2,4) assms(3) by (auto simp: is_dir_def is_symlink_def staged_files_def staging_plain_def)
  then have removed: "remove_dir (staging i) f1 = Inr (remove_entry (staging i) f1)"
    using f1(3) by (simp add: remove_dir_def)
  from staged_remove_dir [OF assms(1) f1(2) this] show ?thesis
    by (auto simp: remove_bundle_def prog_simps clean_run f1(1) removed
        intro!: exI [of _ "remove_entry (staging i) f1"])
qed

text \<open>The two states of the publication once it is settled.\<close>

definition publication_settled :: "raw_intent \<Rightarrow> db \<Rightarrow> files \<Rightarrow> db \<Rightarrow> files \<Rightarrow> bool" where
  "publication_settled i d0 f0 d f \<longleftrightarrow> same_but_own i d0 d
     \<and> (staged_files i f0 f \<and> (own_rows i d = [] \<or> own_state i {P_Failed} d)
      \<or> exposed_files i f0 f \<and> own_state i {P_Committed} d)"

lemma reconcile_one_settles:
  assumes "unused i f0" "publication_phase i d0 f0 d f" "own_state i {P_Staging, P_Reconciliation} d"
    and "rc_intent r = i" "valid_raw_reference (reference_for i (relative_path i))"
    and "schema_ok d" "fence_error l t d = None" "valid_lease l"
  shows "\<exists>d' f' refs. reconcile_one l (utc t) r (running d f) = (running d' f', Inr refs)
    \<and> publication_settled i d0 f0 d' f'"
proof -
  have ident: "is_identifier (ri_id i)" using assms(5) by (simp add: valid_raw_reference_def reference_for_def)
  have same: "same_but_own i d0 d" using assms(2) by (simp add: publication_phase_def)
  obtain df where fail: "fail_raw_publication (ri_id i) l (utc t) d = (df, Inr ())"
    "same_but_own i d df" "own_state i {P_Failed} df"
    using fail_succeeds [OF assms(6-8) ident assms(3)] by blast
  obtain dc where commit: "commit_raw_publication (reference_for i (relative_path i)) l (utc t) d = (dc, Inr ())"
    "same_but_own i d dc" "own_state i {P_Committed} dc"
    using commit_succeeds [OF assms(6-8,5,3)] by blast
  consider "staged_files i f0 f" "is_dir (staging i) f" | "staged_files i f0 f" "\<not> is_dir (staging i) f"
    | "exposed_files i f0 f"
    using assms(2) by (auto simp: publication_phase_def)
  then show ?thesis
  proof cases
    case 1
    obtain f' where "remove_bundle (staging i) (running d f) = (running d f', Inr ())" "staged_files i f0 f'"
      using remove_bundle_runs [OF assms(1) 1] by blast
    moreover have "\<not> is_dir (destination i) f" "\<not> path_exists (destination i) f" "\<not> is_symlink (staging i) f"
      using 1 by (auto simp: staged_files_def staging_plain_def is_dir_def is_symlink_def path_exists_def)
    ultimately show ?thesis
      using 1(2) fail same assms(4)
      by (auto simp: reconcile_one_def Let_def prog_simps clean_run publication_settled_def intro: same_but_own_trans)
  next
    case 2
    then have "\<not> is_dir (destination i) f" "\<not> path_exists (destination i) f" "\<not> path_exists (staging i) f"
      by (auto simp: staged_files_def staging_plain_def is_dir_def path_exists_def)
    then show ?thesis
      using 2 fail same assms(4)
      by (auto simp: reconcile_one_def Let_def prog_simps clean_run publication_settled_def intro: same_but_own_trans)
  next
    case 3
    then have "is_dir (destination i) f" "\<not> is_symlink (destination i) f" "\<not> path_exists (staging i) f"
      by (auto simp: exposed_files_def is_dir_def is_symlink_def path_exists_def)
    then show ?thesis
      using 3 commit same assms(4,5) verify_reference_runs [OF exposed_in_place [OF 3 assms(5)], of d]
      by (auto simp: reconcile_one_def Let_def prog_simps clean_run make_reference_runs publication_settled_def
          intro: same_but_own_trans)
  qed
qed

lemma phase_other_rows:
  assumes "settled d0 f0" "own_rows i d0 = []" "same_but_own i d0 d" "map_of f0 \<subseteq>\<^sub>m map_of f"
    and "w \<in> set (raw_publications d)" "ri_id w \<noteq> ri_id i"
  shows "settled_row f w"
proof -
  have "w \<in> set (filter (\<lambda>w. ri_id w \<noteq> ri_id i) (raw_publications d))"
    using assms(5,6) by simp
  then have "w \<in> set (filter (\<lambda>w. ri_id w \<noteq> ri_id i) (raw_publications d0))"
    using assms(3) by (simp only: same_but_own_def)
  with assms(1,4) show ?thesis by (auto simp: settled_def list_all_iff intro: settled_row_mono)
qed

lemma phase_own_row:
  assumes "own_rows i d = [] \<or> own_state i S d" "w \<in> set (raw_publications d)" "ri_id w = ri_id i"
  shows "own_state i S d \<and> own_rows i d = [w] \<and> raw_intent.truncate w = i \<and> rw_state w \<in> S
    \<and> (rw_state w = P_Committed \<longrightarrow> rw_path w = Some (relative_path i))"
proof -
  have "w \<in> set (own_rows i d)" using assms(2,3) by (simp add: own_rows_def)
  with assms(1) show ?thesis by (auto simp: own_state_def)
qed

lemma publication_settled_settled:
  assumes "settled d0 f0" "own_rows i d0 = []" "publication_settled i d0 f0 d f"
    and "valid_raw_intent i" "valid_raw_reference (reference_for i (relative_path i))"
  shows "settled d f"
proof -
  have same: "same_but_own i d0 d" and le: "map_of f0 \<subseteq>\<^sub>m map_of f"
    using assms(3) by (auto simp: publication_settled_def staged_files_def exposed_files_def)
  have "schema_ok d" using assms(1) same_but_own_fields [OF same] by (simp add: settled_def)
  moreover have "settled_row f w" if w: "w \<in> set (raw_publications d)" for w
  proof (cases "ri_id w = ri_id i")
    case False
    then show ?thesis using phase_other_rows [OF assms(1,2) same le w] by simp
  next
    case True
    from assms(3) consider "own_rows i d = [] \<or> own_state i {P_Failed} d"
      | "exposed_files i f0 f" "own_state i {P_Committed} d"
      by (auto simp: publication_settled_def)
    then show ?thesis
    proof cases
      case 1
      from phase_own_row [OF 1 w True] show ?thesis using assms(4) by (simp add: settled_row_def)
    next
      case 2
      from phase_own_row [OF disjI2 [OF 2(2)] w True] show ?thesis
        using assms(4) exposed_in_place [OF 2(1) assms(5)] by (simp add: settled_row_def)
    qed
  qed
  ultimately show ?thesis by (simp add: settled_def list_all_iff)
qed

lemma open_rows:
  assumes "settled d0 f0" "own_rows i d0 = []" "publication_phase i d0 f0 d f"
  shows "filter (\<lambda>w. rw_state w \<in> {P_Staging, P_Reconciliation}) (raw_publications d) =
    filter (\<lambda>w. rw_state w \<in> {P_Staging, P_Reconciliation}) (own_rows i d)"
proof -
  have same: "same_but_own i d0 d" and le: "map_of f0 \<subseteq>\<^sub>m map_of f"
    using assms(3) by (auto simp: publication_phase_def staged_files_def exposed_files_def)
  have "rw_state w \<in> {P_Failed, P_Committed}" if "w \<in> set (raw_publications d)" "ri_id w \<noteq> ri_id i" for w
    using phase_other_rows [OF assms(1,2) same le that] by (auto simp: settled_row_def)
  then have "filter (\<lambda>w. rw_state w \<in> {P_Staging, P_Reconciliation}) (raw_publications d) =
      filter (\<lambda>w. rw_state w \<in> {P_Staging, P_Reconciliation} \<and> ri_id w = ri_id i) (raw_publications d)"
    by (intro filter_cong) fastforce+
  then show ?thesis by (simp add: own_rows_def conj_commute)
qed

lemma reconcile_settles:
  assumes "unused i f0" "settled d0 f0" "own_rows i d0 = []" "publication_phase i d0 f0 d f"
    and "valid_raw_intent i" "is_raw_path (relative_path i)"
    and "fence_error l t d0 = None" "valid_lease l" "map_of f0 [] = Some (Dir False (pr_euid h) mode_700)"
  shows "\<exists>d' f' refs. reconcile h l (utc t) (running d f) = (running d' f', Inr refs)
    \<and> settled d' f' \<and> publication_settled i d0 f0 d' f'"
proof -
  have same: "same_but_own i d0 d" and le: "map_of f0 \<subseteq>\<^sub>m map_of f"
    using assms(4) by (auto simp: publication_phase_def staged_files_def exposed_files_def)
  have ref: "valid_raw_reference (reference_for i (relative_path i))"
    using assms(5,6) by (simp add: valid_raw_reference_def valid_raw_intent_def reference_for_def)
  have ok: "schema_ok d" "fence_error l t d = None"
    using same_but_own_fields [OF same] assms(2,7) by (simp_all add: settled_def fence_error_def)
  have "map_of f [] = Some (Dir False (pr_euid h) mode_700)" using assms(9) le by (metis domI map_le_def)
  then have root: "validate_runs_root h (running d f) = (running d f, Inr ())"
    by (simp add: validate_runs_root_def validate_private_directory_def is_dir_def is_symlink_def prog_simps clean_run)
  let ?open = "\<lambda>w. rw_state w \<in> {P_Staging, P_Reconciliation}"
  have valid: "valid_raw_intent (raw_intent.truncate w)" if "w \<in> set (own_rows i d)" for w
    using assms(4,5) that by (auto simp: publication_phase_def own_state_def)
  then have reads: "raw_publications_for_reconciliation d =
      (d, Inr (map raw_record_of (order_by ri_id (filter ?open (own_rows i d)))))"
    unfolding raw_publications_for_reconciliation_def open_rows [OF assms(2-4), symmetric]
    using ok(1) open_rows [OF assms(2-4)] by (intro read_publications) (auto simp: order_by_def)
  have step: "\<exists>d' f' refs. reconcile_all l (utc t) (map raw_record_of (order_by ri_id (filter ?open (own_rows i d))))
      (running d f) = (running d' f', Inr refs) \<and> publication_settled i d0 f0 d' f'"
  proof (cases "filter ?open (own_rows i d) = []")
    case True
    then have "publication_settled i d0 f0 d f"
      using assms(4) by (auto simp: publication_settled_def publication_phase_def own_state_def split: if_splits)
    with True show ?thesis by (auto simp: order_by_def prog_simps)
  next
    case False
    then obtain w where w: "own_rows i d = [w]" "raw_intent.truncate w = i" "?open w"
      using assms(4) by (auto simp: publication_phase_def own_state_def split: if_splits)
    then have "own_state i {P_Staging, P_Reconciliation} d" by (auto simp: own_state_def)
    from reconcile_one_settles [OF assms(1,4) this _ ref ok assms(8), of "raw_record_of w"] w
    obtain d' f' refs where "reconcile_one l (utc t) (raw_record_of w) (running d f) = (running d' f', Inr refs)"
      "publication_settled i d0 f0 d' f'"
      by (auto simp: raw_record_of_def)
    with w show ?thesis by (auto simp: order_by_def prog_simps)
  qed
  then obtain d' f' refs where all: "reconcile_all l (utc t) (map raw_record_of
      (order_by ri_id (filter ?open (own_rows i d)))) (running d f) = (running d' f', Inr refs)"
    and after: "publication_settled i d0 f0 d' f'" by blast
  have "settled d' f'" by (rule publication_settled_settled [OF assms(2,3) after assms(5) ref])
  with committed_loop [OF this, of "''raw_publication_read_failed''" refs] after show ?thesis
    by (simp only: reconcile_def prog_run clean_run root reads all prod.case sum.case) blast
qed

section \<open>Publishing\<close>

lemma validate_root_faults:
  "(\<And>r. Q d f r) \<Longrightarrow> under_faults (validate_runs_root h) Q d f"
  unfolding validate_runs_root_def validate_private_directory_def
  by (intro under_faults_bind under_faults_pure(3))
    (auto intro!: under_faults_pure(2) under_faults_read_files)

lemma record_read:
  assumes "raw_publication_record pid d = (d', r)"
  shows "d' = d \<and> (case r of Inl _ \<Rightarrow> True | Inr None \<Rightarrow> filter (\<lambda>w. ri_id w = pid) (raw_publications d) = []
    | Inr (Some e) \<Rightarrow> \<exists>w \<in> set (raw_publications d). ri_id w = pid \<and> e = raw_record_of w)"
proof -
  let ?q = "\<lambda>d. filter (\<lambda>w. ri_id w = pid) (raw_publications d)"
  obtain x where read: "read_raw_publications ?q d = (d, x)"
    using read_raw_publications_state [of ?q d] by (metis prod.collapse)
  show ?thesis
  proof (cases x)
    case (Inl e)
    then show ?thesis
      using assms read by (auto simp: raw_publication_record_def after_commit_def split: if_splits)
  next
    case (Inr rs)
    then have rs: "rs = map raw_record_of (?q d)"
      using read by (auto simp: read_raw_publications_def run_tx_def tx_simps verify_schema_def
          split: sum.splits if_splits)
    show ?thesis
    proof (cases "?q d")
      case Nil
      then show ?thesis
        using assms read Inr rs by (auto simp: raw_publication_record_def after_commit_def split: if_splits)
    next
      case (Cons w ws)
      then have "w \<in> set (?q d)" by simp
      moreover have "r = Inl ValidationError \<and> d' = d \<or> r = Inr (Some (raw_record_of w)) \<and> d' = d"
        using assms read Inr rs Cons by (auto simp: raw_publication_record_def after_commit_def split: if_splits)
      ultimately show ?thesis by auto
    qed
  qed
qed

lemma publish_faults:
  assumes "unused i f0" "own_rows i d0 = []"
  shows "under_faults (publish h v c i dm l st t) (published i d0 f0) d0 f0"
proof -
  have same: "published i d0 f0 d0 f0 (Inl e)" for e
    using assms by (simp add: published_def publication_phase_def unused_staged)
  obtain d r where run: "raw_publication_record (ri_id i) d0 = (d, r)" by fastforce
  note read = record_read [OF run]
  have none: "r = Inr x \<Longrightarrow> x = None" for x
    using read assms(2) by (auto simp: own_rows_def filter_empty_conv split: option.splits)
  have "under_faults (on_repository code (raw_publication_record (ri_id i))) (\<lambda>d f r. case r of
      Inl e \<Rightarrow> published i d0 f0 d f (Inl e)
    | Inr x \<Rightarrow> under_faults (case x of Some e \<Rightarrow> replay i e | None \<Rightarrow> publish_new h v c i dm l st t)
        (published i d0 f0) d f) d0 f0" for code
    using same read none publish_new_faults [OF assms]
    by (intro under_faults_on_repository) (auto simp: run split: sum.splits)
  then have rest: "under_faults (prog_bind (on_repository code (raw_publication_record (ri_id i))) (\<lambda>x.
      case x of Some e \<Rightarrow> replay i e | None \<Rightarrow> publish_new h v c i dm l st t)) (published i d0 f0) d0 f0" for code
    by (rule under_faults_bind)
  show ?thesis
    unfolding publish_def
    by (simp, intro under_faults_then under_faults_pure(5))
      (auto simp: same rest intro!: under_faults_pure(1) under_faults_then under_faults_pure(5)
         validate_root_faults split: sum.splits)
qed

lemma published_phase: "published i d0 f0 d f r \<Longrightarrow> publication_phase i d0 f0 d f"
  by (auto simp: published_def split: sum.splits intro: exposed_phaseD)

lemma publish_ends_in_phase:
  assumes "unused i (pb_files s)" "own_rows i (pb_db s) = []"
  shows "publication_phase i (pb_db s) (pb_files s)
    (pb_db (fst (publish h v c i dm l st t s))) (pb_files (fst (publish h v c i dm l st t s)))"
  using publish_faults [OF assms, of h v c dm l st t] under_faultsD published_phase by (metis prod.collapse)

lemma verify_reference_faults:
  assumes "\<And>e. Q d f (Inl e)"
    and "valid_raw_reference (reference_for i path) \<Longrightarrow> in_place i path f \<Longrightarrow> Q d f (Inr ())"
    and "valid_raw_reference (reference_for i path)"
  shows "under_faults (verify_committed_reference i (reference_for i path)) Q d f"
  unfolding verify_committed_reference_def Let_def rr_path_reference
  using assms
  by (intro under_faults_bind under_faults_pure(3))
    (auto simp: in_place_def intro!: under_faults_pure(2) under_faults_try verify_under_faults)

text \<open>The row and the files behind a returned reference.\<close>

definition backed :: "raw_intent \<Rightarrow> raw_reference \<Rightarrow> db \<Rightarrow> files \<Rightarrow> bool" where
  "backed i ref d f \<longleftrightarrow>
     (\<exists>w \<in> set (raw_publications d). raw_intent.truncate w = i \<and> rw_state w = P_Committed
        \<and> rw_path w = Some (rr_path ref) \<and> ref = reference_for i (rr_path ref) \<and> in_place i (rr_path ref) f)"

lemma replay_faults:
  assumes "w \<in> set (raw_publications d)" "\<And>e. Q d f (Inl e)"
    and "\<And>ref. backed i ref d f \<Longrightarrow> Q d f (Inr ref)"
  shows "under_faults (replay i (raw_record_of w)) Q d f"
  unfolding replay_def
  using assms(1,2)
  by (intro under_faults_then under_faults_pure(5))
    (auto simp: raw_record_of_def backed_def intro!: under_faults_pure(1,2) under_faults_bind make_reference_faults
      under_faults_then verify_reference_faults assms(3) bexI [of _ w] split: option.splits)

lemma published_backed:
  assumes "published i d0 f0 d f (Inr ref)"
  shows "backed i ref d f"
proof -
  have ref: "ref = reference_for i (relative_path i)" "valid_raw_reference ref"
    and exposed: "exposed_files i f0 f" and own: "own_state i {P_Committed} d"
    using assms by (auto simp: published_def exposed_phase_def)
  obtain w where w: "own_rows i d = [w]" "raw_intent.truncate w = i" "rw_state w = P_Committed"
    "rw_path w = Some (relative_path i)"
    using own by (auto simp: own_state_def)
  have "w \<in> set (own_rows i d)" using w(1) by simp
  then have "w \<in> set (raw_publications d)" by (simp add: own_rows_def)
  with w ref exposed_in_place [OF exposed] show ?thesis by (auto simp: backed_def)
qed


section \<open>Publishing without faults\<close>

text \<open>The directories that a publication needs are missing or there.\<close>

definition room :: "process \<Rightarrow> raw_intent \<Rightarrow> files \<Rightarrow> bool" where
  "room h i f \<longleftrightarrow> map_of f [] = Some (Dir False (pr_euid h) mode_700)
     \<and> map_of f (task_root i) \<in> {None, Some (Dir False (pr_euid h) mode_700)}
     \<and> list_all (\<lambda>p. map_of f p = None \<or> is_dir p f)
         [[ri_task i, ''.staging''], staging_parent i, [ri_task i, ''acquisitions''], destination_parent i]"

lemma room_dirs:
  assumes "room h i f"
  shows "map_of f [ri_task i, ''.staging''] = None \<or> is_dir [ri_task i, ''.staging''] f"
    "map_of f (staging_parent i) = None \<or> is_dir (staging_parent i) f"
    "map_of f [ri_task i, ''acquisitions''] = None \<or> is_dir [ri_task i, ''acquisitions''] f"
    "map_of f (destination_parent i) = None \<or> is_dir (destination_parent i) f"
  by (rule assms [unfolded room_def list.pred_inject, THEN conjunct2, THEN conjunct2, THEN conjunct1],
      rule assms [unfolded room_def list.pred_inject, THEN conjunct2, THEN conjunct2, THEN conjunct2, THEN conjunct1],
      rule assms [unfolded room_def list.pred_inject, THEN conjunct2, THEN conjunct2, THEN conjunct2, THEN conjunct2, THEN conjunct1],
      rule assms [unfolded room_def list.pred_inject, THEN conjunct2, THEN conjunct2, THEN conjunct2, THEN conjunct2, THEN conjunct2, THEN conjunct1])

lemma make_dir_runs:
  assumes "is_dir (butlast p) f" "p \<noteq> []" "map_of f p = None \<or> is_dir p f"
  shows "\<exists>f'. make_dir u True m p f = Inr f' \<and> is_dir p f' \<and> map_of f \<subseteq>\<^sub>m map_of f'
    \<and> (\<forall>q. q \<noteq> p \<longrightarrow> map_of f' q = map_of f q) \<and> (map_of f p = None \<longrightarrow> map_of f' p = Some (Dir False u m))"
  using assms by (cases "map_of f p = None") (auto simp: make_dir_Inr is_dir_def intro!: map_le_new exI)

lemma is_dir_le: "is_dir p f \<Longrightarrow> map_of f \<subseteq>\<^sub>m map_of f' \<Longrightarrow> is_dir p f'"
proof -
  assume "is_dir p f" "map_of f \<subseteq>\<^sub>m map_of f'"
  moreover from \<open>is_dir p f\<close> obtain e where "map_of f p = Some e" by (auto simp: is_dir_def split: option.splits)
  ultimately have "map_of f' p = map_of f p" by (metis domI map_le_def)
  with \<open>is_dir p f\<close> show ?thesis by (simp add: is_dir_def)
qed

lemma make_dirs_runs:
  assumes "is_dir [a] f" "\<And>p. p \<in> {[a, b], [a, b, c]} \<Longrightarrow> map_of f p = None \<or> is_dir p f"
  shows "\<exists>f'. make_dirs u dm m [a, b, c] (running d f) = (running d f', Inr ()) \<and> is_dir [a, b, c] f'
    \<and> map_of f \<subseteq>\<^sub>m map_of f' \<and> (\<forall>q. q \<notin> {[a, b], [a, b, c]} \<longrightarrow> map_of f' q = map_of f q)"
proof -
  have first: "make_dir u True dm [a] f = Inr f"
    using assms(1) by (auto simp: make_dir_Inr is_dir_def split: option.splits)
  obtain f1 where f1: "make_dir u True dm [a, b] f = Inr f1" "is_dir [a, b] f1" "map_of f \<subseteq>\<^sub>m map_of f1"
    "\<forall>q. q \<noteq> [a, b] \<longrightarrow> map_of f1 q = map_of f q"
    using make_dir_runs [of "[a, b]" f u dm] assms by auto
  have "map_of f1 [a, b, c] = None \<or> is_dir [a, b, c] f1"
    using assms(2) [of "[a, b, c]"] f1(4) by (simp add: is_dir_def)
  then obtain f2 where f2: "make_dir u True m [a, b, c] f1 = Inr f2" "is_dir [a, b, c] f2"
    "map_of f1 \<subseteq>\<^sub>m map_of f2" "\<forall>q. q \<noteq> [a, b, c] \<longrightarrow> map_of f2 q = map_of f1 q"
    using make_dir_runs [of "[a, b, c]" f1 u m] f1(2) by auto
  have "[1..<length [a, b, c]] = [1, 2 :: nat]" by (simp add: upt_rec)
  then have "make_dirs u dm m [a, b, c] (running d f) = (running d f2, Inr ())"
    using first f1(1) f2(1) unfolding make_dirs_def by (simp add: prog_simps clean_run)
  with f1 f2 show ?thesis by (auto intro: map_le_trans)
qed

lemma running_parts: "pb_db (running d f) = d" "pb_files (running d f) = f"
  by (simp_all add: running_def)

text \<open>The steps between the intent and the empty staging directory.\<close>

lemma staging_made:
  assumes "unused i f0" "room h i f0"
  shows "\<exists>f1 f2 f3. make_dir (pr_euid h) True mode_700 (task_root i) f0 = Inr f1
    \<and> map_of f1 (task_root i) = Some (Dir False (pr_euid h) mode_700)
    \<and> make_dirs (pr_euid h) dm mode_700 (staging_parent i) (running d f1) = (running d f2, Inr ())
    \<and> map_of f2 (staging i) = None \<and> map_of f2 (destination i) = None
    \<and> make_dir (pr_euid h) False mode_700 (staging i) f2 = Inr f3
    \<and> f3 = set_entry (staging i) (Dir False (pr_euid h) mode_700) f2
    \<and> staged_files i f0 f3 \<and> (\<forall>x. x \<noteq> [] \<longrightarrow> map_of f3 (staging i @ x) = None)
    \<and> is_dir [ri_task i] f3 \<and> (\<forall>p \<in> {[ri_task i, ''acquisitions''], destination_parent i}. map_of f3 p = None \<or> is_dir p f3)"
proof -
  have root: "is_dir [] f0" using assms(2) by (simp add: room_def is_dir_def)
  have task: "map_of f0 (task_root i) = None \<or> is_dir (task_root i) f0"
    using assms(2) by (auto simp: room_def is_dir_def)
  obtain f1 where f1: "make_dir (pr_euid h) True mode_700 (task_root i) f0 = Inr f1" "is_dir (task_root i) f1"
    "map_of f0 \<subseteq>\<^sub>m map_of f1" "\<forall>q. q \<noteq> task_root i \<longrightarrow> map_of f1 q = map_of f0 q"
    "map_of f0 (task_root i) = None \<longrightarrow> map_of f1 (task_root i) = Some (Dir False (pr_euid h) mode_700)"
    using make_dir_runs [OF _ _ task, of "pr_euid h" mode_700] root by (auto simp: task_root_def)
  have mine: "map_of f1 (task_root i) = Some (Dir False (pr_euid h) mode_700)"
  proof (cases "map_of f0 (task_root i)")
    case (Some e)
    then have "map_of f1 (task_root i) = Some e" using f1(3) by (metis domI map_le_def)
    with Some assms(2) show ?thesis by (auto simp: room_def)
  qed (use f1(5) in blast)
  have there: "map_of f1 p = None \<or> is_dir p f1" if "map_of f0 p = None \<or> is_dir p f0" "p \<noteq> task_root i" for p
    using that f1(4) by (simp add: is_dir_def)
  have way: "map_of f1 p = None \<or> is_dir p f1" if "p \<in> {[ri_task i, ''.staging''], [ri_task i, ''.staging'', ''acquisitions'']}" for p
  proof (rule there)
    show "map_of f0 p = None \<or> is_dir p f0"
      using that room_dirs(1,2) [OF assms(2)] unfolding staging_parent_def by (elim insertE emptyE) (simp_all only:)
    show "p \<noteq> task_root i" using that by (auto simp: task_root_def)
  qed
  obtain f2 where f2: "make_dirs (pr_euid h) dm mode_700 (staging_parent i) (running d f1) = (running d f2, Inr ())"
    "is_dir (staging_parent i) f2" "map_of f1 \<subseteq>\<^sub>m map_of f2"
    "\<forall>q. q \<notin> {[ri_task i, ''.staging''], staging_parent i} \<longrightarrow> map_of f2 q = map_of f1 q"
    using make_dirs_runs [OF f1(2) [unfolded task_root_def] way, where u = "pr_euid h" and dm = dm and m = mode_700 and d = d]
    unfolding staging_parent_def by blast
  have same: "map_of f2 q = map_of f0 q"
    if "q \<notin> {task_root i, [ri_task i, ''.staging''], staging_parent i}" for q
    using that f1(4) f2(4) by simp
  have empty: "map_of f2 (staging i @ x) = None" "map_of f2 (destination i) = None" for x
    using same [of "staging i @ x"] same [of "destination i"] unused_below [OF assms(1), of x] assms(1)
    by (auto simp: bundle_paths unused_def)
  let ?f3 = "set_entry (staging i) (Dir False (pr_euid h) mode_700) f2"
  have made: "make_dir (pr_euid h) False mode_700 (staging i) f2 = Inr ?f3"
    using empty(1) [of "[]"] f2(2) by (simp add: make_dir_Inr) (simp add: staging_def)
  have "staged_files i f0 f1"
    by (rule staged_short_dir [OF unused_staged [OF assms(1)] _ f1(1)]) (simp add: task_root_def)
  then have "under_faults (make_dirs (pr_euid h) dm mode_700 (staging_parent i)) (\<lambda>d' f' _. d' = d \<and> staged_files i f0 f') d f1"
    using keeps_make_dirs [of "staging_parent i" "staged_files i f0" "pr_euid h" dm mode_700]
    by (auto simp: keeps_files_def staging_parent_def intro: staged_short_dir)
  then have "staged_files i f0 f2"
    unfolding under_faults_def by (metis f2(1) running_parts fst_conv)
  from staged_make_dir [OF this made] have "staged_files i f0 ?f3" by simp
  moreover have "is_dir [ri_task i] f2" using is_dir_le [OF f1(2) f2(3)] by (simp add: task_root_def)
  moreover have "map_of f2 p = None \<or> is_dir p f2" if "p \<in> {[ri_task i, ''acquisitions''], destination_parent i}" for p
  proof -
    have "map_of f0 p = None \<or> is_dir p f0"
      using that room_dirs(3,4) [OF assms(2)] by (elim insertE emptyE) (simp_all only:)
    moreover have "map_of f2 p = map_of f0 p"
      by (rule same) (use that in \<open>auto simp: bundle_paths\<close>)
    ultimately show ?thesis by (simp add: is_dir_def)
  qed
  ultimately show ?thesis
    using f1(1) mine f2(1) empty(1) [of "[]"] empty(2) made empty(1)
    by (intro exI [of _ f1] exI [of _ f2] exI [of _ ?f3]) (auto simp: is_dir_def bundle_paths)
qed

end
