(* ===== verification/Completing.thy ===== *)
theory Completing
  imports Settling
begin

text \<open>
  A publication that nothing disturbs: the bundle is written, verified, renamed and committed, and
  the reference it returns is backed by the committed row and the exact bytes. And what a
  returned reference says whatever happened on the way.
\<close>

section \<open>Writing a bundle\<close>

lemma write_exact_runs:
  assumes "is_dir p f" "map_of f (p @ [n]) = None"
  shows "\<exists>f'. write_exact (p @ [n]) c (running d f) = (running d f', Inr ())
    \<and> map_of f' = (map_of f)(p @ [n] \<mapsto> File c)"
proof -
  have "create_file (p @ [n]) f = Inr (set_entry (p @ [n]) (File []) f)"
    using assms by (simp add: create_file_Inr)
  moreover have "fill_file (p @ [n]) c (set_entry (p @ [n]) (File []) f) =
      Inr (set_entry (p @ [n]) (File c) (set_entry (p @ [n]) (File []) f))"
    by (simp add: fill_file_Inr)
  ultimately show ?thesis
    by (intro exI [of _ "set_entry (p @ [n]) (File c) (set_entry (p @ [n]) (File []) f)"])
      (simp add: write_exact_def prog_simps clean_run)
qed

lemma is_dir_other: "is_dir p f \<Longrightarrow> q \<noteq> p \<Longrightarrow> map_of f' = (map_of f)(q \<mapsto> e) \<Longrightarrow> is_dir p f'"
  by (simp add: is_dir_def)

lemma map_of_rebased_outside:
  assumes "length p < length d" "take (length s) p \<noteq> s"
  shows "map_of (map (\<lambda>(q, e). (rebase s d q, e)) fs) p = map_of fs p"
proof (induction fs)
  case (Cons ke fs)
  obtain q e where ke: "ke = (q, e)" by fastforce
  have "(rebase s d q = p) = (q = p)" using assms by (auto simp: rebase_def)
  with Cons ke show ?case by (cases "q = p") simp_all
qed simp

text \<open>The metadata of an intent whose numbers fit a 64-bit column is read back as it was written.\<close>

definition narrow :: "raw_intent \<Rightarrow> bool" where
  "narrow i \<longleftrightarrow> ri_generation i < 2 ^ 63 \<and> ri_schema_version i < 2 ^ 63 \<and> ri_byte_count i < 2 ^ 63"

lemma printable_narrow: "0 \<le> n \<Longrightarrow> n < 2 ^ 63 \<Longrightarrow> printable (Number n)"
proof -
  assume "0 \<le> n" "n < 2 ^ 63"
  then have "nat \<bar>n\<bar> < 10 ^ 19" by simp
  also have "(10 :: nat) ^ 19 \<le> 10 ^ int_digits_limit"
    by (rule power_increasing) (simp_all add: int_digits_limit_def)
  finally show ?thesis by (simp add: printable_def)
qed

lemma metadata_printable:
  assumes "valid_raw_intent i" "narrow i"
  shows "printable_fields (request_metadata i)" "printable_fields (response_metadata i)"
    "printable_fields (receipt_metadata i)"
  using assms
  by (auto simp: printable_fields_def request_metadata_def response_metadata_def receipt_metadata_def
      valid_raw_intent_def narrow_def printable_def [of "Text w" for w] intro: printable_narrow)

lemma written_bundle:
  assumes "valid_raw_intent i" "narrow i" "candidate_matches c i" "rc_sha256 c = sha256_hex (rc_body c)"
    and "map_of f (p @ [''body.bin'']) = Some (File (rc_body c))"
    and "map_of f (p @ [''request.json'']) = Some (File (json_bytes (request_metadata i)))"
    and "map_of f (p @ [''response.json'']) = Some (File (json_bytes (response_metadata i)))"
    and "map_of f (p @ [''receipt.json'']) = Some (File (json_bytes (receipt_metadata i)))"
  shows "bundle_at p i f"
proof -
  note printable = metadata_printable [OF assms(1,2)]
  have "bundle_matches i (rc_body c) (object_of (request_metadata i)) (object_of (response_metadata i))
      (object_of (receipt_metadata i))"
    using assms(3,4) by (simp add: bundle_matches_def candidate_matches_def equals_object printable)
  then show ?thesis
    unfolding bundle_at_def using assms(5-8) printable [THEN json_loads_json_bytes] by blast
qed

lemma keeps_running: "keeps_files I m \<Longrightarrow> I f \<Longrightarrow> m (running d f) = (running d' f', r) \<Longrightarrow> I f'"
  unfolding keeps_files_def under_faults_def by (metis fst_conv snd_conv running_parts)

lemma stage_bundle_runs:
  assumes "valid_raw_intent i" "narrow i" "candidate_matches c i" "rc_sha256 c = sha256_hex (rc_body c)"
    and "v (rc_body c) = Inr ()"
    and "map_of f (staging i) = Some (Dir False u m)" "\<And>x. x \<noteq> [] \<Longrightarrow> map_of f (staging i @ x) = None"
    and "is_dir [ri_task i] f"
    and "\<And>p. p \<in> {[ri_task i, ''acquisitions''], destination_parent i} \<Longrightarrow> map_of f p = None \<or> is_dir p f"
    and "unused i f0" "staged_files i f0 f"
  shows "\<exists>f'. stage_bundle h v c i dm (running d f) = (running d f', Inr ()) \<and> is_dir (destination_parent i) f'
    \<and> map_of f' (destination i @ [''body.bin'']) = Some (File (rc_body c))"
proof -
  let ?s = "staging i"
  have dir: "is_dir ?s f" using assms(6) by (simp add: is_dir_def)
  obtain f1 where f1: "write_exact (?s @ [''body.bin'']) (rc_body c) (running d f) = (running d f1, Inr ())"
    "map_of f1 = (map_of f)(?s @ [''body.bin''] \<mapsto> File (rc_body c))"
    using write_exact_runs [OF dir assms(7)] by blast
  have d1: "is_dir ?s f1" by (rule is_dir_other [OF dir _ f1(2)]) simp
  obtain f2 where f2: "write_exact (?s @ [''request.json'']) (json_bytes (request_metadata i)) (running d f1) =
      (running d f2, Inr ())"
    "map_of f2 = (map_of f1)(?s @ [''request.json''] \<mapsto> File (json_bytes (request_metadata i)))"
    using write_exact_runs [OF d1, of "''request.json''"] f1(2) assms(7) [of "[''request.json'']"] by fastforce
  have d2: "is_dir ?s f2" by (rule is_dir_other [OF d1 _ f2(2)]) simp
  obtain f3 where f3: "write_exact (?s @ [''response.json'']) (json_bytes (response_metadata i)) (running d f2) =
      (running d f3, Inr ())"
    "map_of f3 = (map_of f2)(?s @ [''response.json''] \<mapsto> File (json_bytes (response_metadata i)))"
    using write_exact_runs [OF d2, of "''response.json''"] f1(2) f2(2) assms(7) [of "[''response.json'']"] by fastforce
  have d3: "is_dir ?s f3" by (rule is_dir_other [OF d2 _ f3(2)]) simp
  obtain f4 where f4: "write_exact (?s @ [''receipt.json'']) (json_bytes (receipt_metadata i)) (running d f3) =
      (running d f4, Inr ())"
    "map_of f4 = (map_of f3)(?s @ [''receipt.json''] \<mapsto> File (json_bytes (receipt_metadata i)))"
    using write_exact_runs [OF d3, of "''receipt.json''"] f1(2) f2(2) f3(2) assms(7) [of "[''receipt.json'']"] by fastforce
  have d4: "is_dir ?s f4" by (rule is_dir_other [OF d3 _ f4(2)]) simp
  have whole: "bundle_at ?s i f4"
    by (rule written_bundle [OF assms(1-4)]) (simp_all add: f1(2) f2(2) f3(2) f4(2))
  have body: "map_of f4 (?s @ [''body.bin'']) = Some (File (rc_body c))"
    by (simp add: f1(2) f2(2) f3(2) f4(2))
  have apart: "map_of f4 q = map_of f q" if "\<And>n. q \<noteq> ?s @ [n]" for q
    using that by (simp add: f1(2) f2(2) f3(2) f4(2))
  have task: "is_dir [ri_task i] f4"
    using assms(8) apart [of "[ri_task i]"] by (simp add: is_dir_def bundle_paths)
  have way: "map_of f4 p = None \<or> is_dir p f4"
    if "p \<in> {[ri_task i, ''acquisitions''], [ri_task i, ''acquisitions'', ri_logical i]}" for p
  proof -
    have "map_of f4 p = map_of f p" by (rule apart) (use that in \<open>auto simp: bundle_paths\<close>)
    moreover have "p \<in> {[ri_task i, ''acquisitions''], destination_parent i}"
      using that by (simp only: destination_parent_def)
    ultimately show ?thesis using assms(9) [of p] by (simp add: is_dir_def)
  qed
  obtain f5 where f5: "make_dirs (pr_euid h) dm mode_700 (destination_parent i) (running d f4) = (running d f5, Inr ())"
    "is_dir (destination_parent i) f5" "map_of f4 \<subseteq>\<^sub>m map_of f5"
    "\<forall>q. q \<notin> {[ri_task i, ''acquisitions''], [ri_task i, ''acquisitions'', ri_logical i]} \<longrightarrow> map_of f5 q = map_of f4 q"
    using make_dirs_runs [OF task way, where u = "pr_euid h" and dm = dm and m = mode_700 and d = d]
    unfolding destination_parent_def by blast
  have "map_of f5 (destination i) = map_of f4 (destination i)"
    using f5(4) by (simp add: bundle_paths)
  also have "\<dots> = map_of f (destination i)" by (rule apart) (simp add: bundle_paths)
  finally have target: "map_of f5 (destination i) = None" using assms(11) by (simp add: staged_files_def)
  have "staged_files i f0 f4"
    by (rule keeps_running [OF keeps_write_exact [OF assms(10)] _ f4(1)],
        rule keeps_running [OF keeps_write_exact [OF assms(10)] _ f3(1)],
        rule keeps_running [OF keeps_write_exact [OF assms(10)] _ f2(1)],
        rule keeps_running [OF keeps_write_exact [OF assms(10)] assms(11) f1(1)])
  moreover have "keeps_files (staged_files i f0) (make_dirs (pr_euid h) dm mode_700 (destination_parent i))"
    by (rule keeps_make_dirs) (auto simp: destination_parent_def intro: staged_short_dir)
  ultimately have "staged_files i f0 f5" using f5(1) by (blast intro: keeps_running)
  then have "well_formed f5" by (simp add: staged_files_def)
  have "is_dir ?s f5" by (rule is_dir_le [OF d4 f5(3)])
  then have source: "map_of f5 ?s \<noteq> None" by (auto simp: is_dir_def split: option.splits)
  have "is_dir (butlast (destination i)) f5" using f5(2) by (simp add: destination_def)
  with source target obtain f6 where f6: "rename ?s (destination i) f5 = Inr f6"
    by (auto simp: rename_def destination_def)
  have "map_of f6 (destination_parent i) = map_of f5 (destination_parent i)"
    using f6 map_of_rebased_outside [of "destination_parent i" "destination i" ?s "remove_entry (destination i) f5"]
    by (auto simp: rename_def bundle_paths split: if_splits)
  with f5(2) have parent: "is_dir (destination_parent i) f6" by (simp add: is_dir_def)
  have "map_of f6 (destination i @ [''body.bin'']) = map_of f5 (?s @ [''body.bin''])"
    using rename_Inr [OF \<open>well_formed f5\<close> target f6, of "destination i @ [''body.bin'']"] by simp
  also have "\<dots> = Some (File (rc_body c))" using body f5(3) by (metis domI map_le_def)
  finally have exact: "map_of f6 (destination i @ [''body.bin'']) = Some (File (rc_body c))" .
  have "stage_bundle h v c i dm (running d f) = (running d f6, Inr ())"
    unfolding stage_bundle_def
    by (simp add: f1(1) f2(1) f3(1) f4(1) f5(1) f6 prog_simps clean_run read_bytes_def fsync_directory_def
        body assms(5) d4 verify_runs [OF whole])
  with parent exact show ?thesis by blast
qed

section \<open>A whole publication\<close>

text \<open>What \<open>publish\<close> does after the rename, and how an undisturbed publication gets there.\<close>

definition commit_exposed :: "raw_intent \<Rightarrow> runtime_lease \<Rightarrow> py_datetime \<Rightarrow> (publisher, raw_reference) prog" where
  "commit_exposed i l t = prog_bind (make_reference i (relative_path i)) (\<lambda>ref.
     prog_then
       (prog_try (on_repository ''raw_publication_commit_failed'' (commit_raw_publication ref l t))
         (\<lambda>_. prog_then (mark_reconciliation i l t)
           (prog_raise (StorageError ''raw_publication_reconciliation_required''))))
       (prog_return ref))"

lemma publication_exposes:
  assumes "valid_raw_intent i" "narrow i"
    and "candidate_matches c i" "rc_sha256 c = sha256_hex (rc_body c)" "v (rc_body c) = Inr ()"
    and "unused i f0" "room h i f0" "own_rows i d0 = []"
    and "begin_raw_publication i l st d0 = (d1, Inr ())" "schema_ok d1"
  shows "\<exists>f. publish h v c i dm l st t (running d0 f0) = commit_exposed i l t (running d1 f)
    \<and> exposed_files i f0 f \<and> map_of f (destination i @ [''body.bin'']) = Some (File (rc_body c))"
proof -
  obtain f1 f2 f3 where steps: "make_dir (pr_euid h) True mode_700 (task_root i) f0 = Inr f1"
    "map_of f1 (task_root i) = Some (Dir False (pr_euid h) mode_700)"
    "make_dirs (pr_euid h) dm mode_700 (staging_parent i) (running d1 f1) = (running d1 f2, Inr ())"
    "map_of f2 (staging i) = None" "map_of f2 (destination i) = None"
    "make_dir (pr_euid h) False mode_700 (staging i) f2 = Inr f3"
    and f3: "f3 = set_entry (staging i) (Dir False (pr_euid h) mode_700) f2" "staged_files i f0 f3"
    "\<forall>x. x \<noteq> [] \<longrightarrow> map_of f3 (staging i @ x) = None" "is_dir [ri_task i] f3"
    "\<forall>p \<in> {[ri_task i, ''acquisitions''], destination_parent i}. map_of f3 p = None \<or> is_dir p f3"
    using staging_made [OF assms(6,7), of dm d1] by blast
  obtain f4 where f4: "stage_bundle h v c i dm (running d1 f3) = (running d1 f4, Inr ())"
    "is_dir (destination_parent i) f4" "map_of f4 (destination i @ [''body.bin'']) = Some (File (rc_body c))"
    using stage_bundle_runs [where v = v and c = c and h = h and dm = dm and d = d1, OF assms(1-5) _ _ f3(4) _ assms(6) f3(2)] f3 by auto
  have exposed: "exposed_files i f0 f4"
    using stage_bundle_faults [OF assms(6) f3(2), of h v c dm d1] f4(1)
    unfolding under_faults_def by (metis fst_conv snd_conv running_parts sum.case(2))
  have root: "validate_runs_root h (running d0 f0) = (running d0 f0, Inr ())"
    using assms(7) by (simp add: room_def validate_runs_root_def validate_private_directory_def
        is_symlink_def is_dir_def prog_simps clean_run)
  have "same_but_own i d0 d1" using begin_cases [OF assms(9,8)] by simp
  then have "schema_ok d0" using assms(10) same_but_own_fields by blast
  then have read: "raw_publication_record (ri_id i) d0 = (d0, Inr None)"
    using assms(1,8)
    by (simp add: raw_publication_record_def read_raw_publications_def own_rows_def after_commit_def
        valid_raw_intent_def schema_ok_def run_tx_def tx_simps verify_schema_def)
  have new: "publish_new h v c i dm l st t (running d0 f0) = commit_exposed i l t (running d1 f4)"
    unfolding publish_new_def commit_exposed_def [symmetric]
    using assms(9) steps f4
    by (simp add: expose_bundle_def validate_private_directory_def fsync_directory_def prog_simps clean_run)
  have "publish h v c i dm l st t (running d0 f0) = commit_exposed i l t (running d1 f4)"
    using assms(1,3) by (simp add: publish_def root read new prog_simps clean_run)
  with exposed f4(3) show ?thesis by blast
qed

lemma undisturbed_run:
  assumes "valid_raw_intent i" "is_raw_path (relative_path i)" "narrow i"
    and "candidate_matches c i" "rc_sha256 c = sha256_hex (rc_body c)" "v (rc_body c) = Inr ()"
    and "unused i f0" "room h i f0" "own_rows i d0 = []"
    and "begin_raw_publication i l st d0 = (d1, Inr ())"
    and "schema_ok d1" "fence_error l t d1 = None" "valid_lease l"
  shows "\<exists>d f. publish h v c i dm l st (utc t) (running d0 f0) = (running d f, Inr (reference_for i (relative_path i)))
    \<and> backed i (reference_for i (relative_path i)) d f
    \<and> map_of f (destination i @ [''body.bin'']) = Some (File (rc_body c)) \<and> map_of f0 \<subseteq>\<^sub>m map_of f"
proof -
  obtain f where f: "publish h v c i dm l st (utc t) (running d0 f0) = commit_exposed i l (utc t) (running d1 f)"
    "exposed_files i f0 f" "map_of f (destination i @ [''body.bin'']) = Some (File (rc_body c))"
    using publication_exposes [where v = v and h = h and dm = dm and t = "utc t", OF assms(1,3-11)] by blast
  have ref: "valid_raw_reference (reference_for i (relative_path i))"
    using assms(1,2) by (simp add: valid_raw_reference_def reference_for_def valid_raw_intent_def)
  have "own_state i {P_Staging} d1" using begin_cases [OF assms(10,9)] by simp
  then have "own_state i {P_Staging, P_Reconciliation} d1" by (rule own_state_mono) simp
  then obtain d where d: "commit_raw_publication (reference_for i (relative_path i)) l (utc t) d1 = (d, Inr ())"
    using commit_succeeds [OF assms(11,12,13) ref] by blast
  then have run: "publish h v c i dm l st (utc t) (running d0 f0) = (running d f, Inr (reference_for i (relative_path i)))"
    using ref by (simp add: f(1) commit_exposed_def make_reference_def prog_simps clean_run)
  then have "published i d0 f0 d f (Inr (reference_for i (relative_path i)))"
    using publish_faults [OF assms(7,9), of h v c dm l st "utc t"]
    unfolding under_faults_def by (metis fst_conv snd_conv running_parts)
  then have "backed i (reference_for i (relative_path i)) d f" by (rule published_backed)
  with run f(2,3) show ?thesis
    by (intro exI [of _ d] exI [of _ f]) (simp add: exposed_files_def)
qed

text \<open>
  Which publications a reference can name: those whose request and attempt are written with
  letters, digits, underscores and hyphens only. \<open>Identifier\<close> also admits dots and colons.
\<close>

lemma nameable:
  assumes "valid_raw_intent i"
  shows "is_raw_path (relative_path i) \<longleftrightarrow> list_all path_char (ri_logical i) \<and> list_all path_char (ri_attempt i)"
proof -
  have slash: "\<not> path_char (CHR ''/'')" by code_simp
  have names: "is_identifier (ri_logical i)" "ri_attempt i \<noteq> []"
    using assms by (auto simp: valid_raw_intent_def is_identifier_def)
  have chars: "c \<in> set (ri_logical i) \<Longrightarrow> c \<noteq> CHR ''/''" for c
    using names(1) by (cases "ri_logical i") (auto simp: is_identifier_def is_alnum_def list_all_iff less_eq_char_def)
  show ?thesis
  proof (cases "list_all path_char (ri_logical i)")
    case True
    then have "takeWhile path_char (ri_logical i @ ''/'' @ ri_attempt i) = ri_logical i"
      "dropWhile path_char (ri_logical i @ ''/'' @ ri_attempt i) = ''/'' @ ri_attempt i"
      using slash by (simp_all add: list_all_iff takeWhile_append dropWhile_append)
    then show ?thesis
      using True names by (auto simp: is_raw_path_def relative_path_def Let_def is_identifier_def)
  next
    case False
    then have "dropWhile path_char (ri_logical i) \<noteq> []" by (auto simp: list_all_iff dropWhile_eq_Nil_conv)
    then obtain c b where rest: "dropWhile path_char (ri_logical i) = c # b" by (cases "dropWhile path_char (ri_logical i)") auto
    then have "c \<in> set (ri_logical i)" by (metis list.set_intros(1) set_dropWhileD)
    then have "c \<noteq> CHR ''/''" by (rule chars)
    moreover have "dropWhile path_char (ri_logical i @ ''/'' @ ri_attempt i) = c # b @ ''/'' @ ri_attempt i"
      using False rest by (auto simp: dropWhile_append list_all_iff)
    ultimately show ?thesis using False by (simp add: is_raw_path_def relative_path_def Let_def)
  qed
qed


text \<open>A sample publication of the response of \<open>att-1\<close>.\<close>

definition sample_body :: bytes where
  "sample_body = [104, 105]"

definition sample_candidate :: raw_candidate where
  "sample_candidate = \<lparr>rc_attempt = ''att-1'', rc_body = sample_body,
     rc_sha256 = sha256_hex sample_body, rc_media_type = ''text/plain'', rc_encoding = ''utf-8''\<rparr>"

definition sample_intent :: "string \<Rightarrow> raw_intent" where
  "sample_intent h = \<lparr>ri_id = ''pub-1'', ri_task = ''task-1'', ri_logical = ''req-1'', ri_attempt = ''att-1'',
     ri_source = ''edinet'', ri_operation = ''fetch'', ri_sha256 = h, ri_byte_count = 2,
     ri_media_type = ''text/plain'', ri_encoding = ''utf-8'', ri_schema_id = ''schema-1'', ri_schema_version = 1,
     ri_generation = 1\<rparr>"

definition sample_process :: process where
  "sample_process = \<lparr>pr_euid = 1000, pr_file_mode = mode_600\<rparr>"

definition sample_files :: files where
  "sample_files = [([], Dir False 1000 mode_700)]"

abbreviation "hi_intent \<equiv> sample_intent (sha256_hex sample_body)"

lemma sample_identifiers:
  "is_identifier ''pub-1''" "is_identifier ''task-1''" "is_identifier ''req-1''" "is_identifier ''att-1''"
  "is_identifier ''edinet''" "is_identifier ''fetch''" "is_identifier ''schema-1''"
  by code_simp+

lemma sample_intent_valid:
  "valid_raw_intent hi_intent" "is_raw_path (relative_path (sample_intent h))" "narrow (sample_intent h)"
    apply (simp add: valid_raw_intent_def sample_intent_def sample_identifiers sha256_hex_valid)
   apply code_simp
  apply code_simp
  done

lemma sample_candidate_matches: "candidate_matches sample_candidate hi_intent"
  by (simp add: candidate_matches_def sample_candidate_def sample_intent_def sample_body_def)

lemma sample_place: "unused (sample_intent h) sample_files" "room sample_process (sample_intent h) sample_files"
  by (simp_all add: unused_def well_formed_def sample_files_def bundle_paths room_def sample_process_def is_dir_def)

lemma begin_succeeds:
  assumes "schema_ok d" "fence_error l t d = None" "valid_lease l" "valid_raw_intent i" "publishable i d"
    and "raw_publications d = []"
  shows "begin_raw_publication i l (utc t) d = (d\<lparr>raw_publications := [staged i t]\<rparr>, Inr ())"
proof -
  obtain a r where "select_by pa_id (ri_attempt i) (physical_attempts d) = Some a"
    "select_by lr_id (ri_logical i) (logical_requests d) = Some r"
    using assms(5) by (auto simp: publishable_def split: option.splits)
  then have "ri_logical i \<in> lr_id ` set (logical_requests d)" "ri_attempt i \<in> pa_id ` set (physical_attempts d)"
    by (auto dest!: select_by_SomeD intro: rev_image_eqI)
  then have "tx_ok (begin_publication_body i l t) (\<lambda>_ d'. d' = d\<lparr>raw_publications := [staged i t]\<rparr>) d"
    using assms(1,2,5,6)
    by (simp add: begin_publication_body_def insert_publication_def logical_exists_def tx_ok)
      (simp add: staged_def)
  from run_tx_okI [OF this] show ?thesis
    using assms(3,4) by (fastforce simp: begin_raw_publication_def)
qed

lemma answered_fence: "schema_ok answered_db" "fence_error sample_lease (noon + 7000000) answered_db = None"
  "valid_lease sample_lease"
  by code_simp+

lemma sample_publishable: "publishable (sample_intent h) answered_db"
  by code_simp

lemma no_publications: "raw_publications answered_db = []"
  by code_simp

lemma committing_fence:
  "schema_ok (answered_db\<lparr>raw_publications := ws\<rparr>)"
  "fence_error sample_lease (noon + 8000000) (answered_db\<lparr>raw_publications := ws\<rparr>) = None"
  by code_simp+

lemma sample_begin:
  "begin_raw_publication hi_intent sample_lease (utc (noon + 7000000)) answered_db =
    (answered_db\<lparr>raw_publications := [staged hi_intent (noon + 7000000)]\<rparr>, Inr ())"
  by (rule begin_succeeds [OF answered_fence sample_intent_valid(1) sample_publishable no_publications])


lemma sample_run:
  "\<exists>s' ref. publish sample_process (\<lambda>_. Inr ()) sample_candidate hi_intent mode_700 sample_lease
      (utc (noon + 7000000)) (utc (noon + 8000000)) (running answered_db sample_files) = (s', Inr ref)"
proof -
  have "own_rows hi_intent answered_db = []" by (simp add: own_rows_def no_publications)
  from undisturbed_run [where v = "\<lambda>_. Inr ()" and h = sample_process and dm = mode_700,
      OF sample_intent_valid sample_candidate_matches _ _ sample_place this sample_begin committing_fence answered_fence(3)]
  show ?thesis by (fastforce simp: sample_candidate_def)
qed

section \<open>A bundle that no reference can name\<close>

text \<open>
  C21: An identifier may contain dots and colons, but the path of a reference may not. A publication
  whose request or attempt has such an identifier passes every check before the rename, exposes
  its bundle, and then raises \<open>ValidationError\<close>, which neither handler catches: the row stays in
  the staging state although the bundle is at its destination, and from then on every
  reconciliation fails before it repairs anything.
\<close>

theorem unnameable_bundle_blocks_reconciliation:
  assumes "valid_raw_intent i" "\<not> is_raw_path (relative_path i)" "narrow i"
    and "candidate_matches c i" "rc_sha256 c = sha256_hex (rc_body c)" "v (rc_body c) = Inr ()"
    and "unused i f0" "room h i f0" "raw_publications d0 = []"
    and "begin_raw_publication i l st d0 = (d1, Inr ())" "schema_ok d1"
  shows "\<exists>d f. publish h v c i dm l st t (running d0 f0) = (running d f, Inl ValidationError)
    \<and> is_dir (destination i) f \<and> own_state i {P_Staging} d
    \<and> (\<forall>h' l' now. \<exists>e. reconcile h' l' now (running d f) = (running d f, Inl e))"
proof -
  have none: "own_rows i d0 = []" using assms(9) by (simp add: own_rows_def)
  obtain f where f: "publish h v c i dm l st t (running d0 f0) = commit_exposed i l t (running d1 f)"
    "exposed_files i f0 f"
    using publication_exposes [where v = v and h = h and dm = dm and t = t, OF assms(1,3-8) none assms(10,11)] by blast
  have bad: "\<not> valid_raw_reference (reference_for i (relative_path i))"
    using assms(2) by (simp add: valid_raw_reference_def reference_for_def)
  have begun: "same_but_own i d0 d1" and own: "own_state i {P_Staging} d1" using begin_cases [OF assms(10) none] by auto
  obtain w where w: "own_rows i d1 = [w]" "raw_intent.truncate w = i" "rw_state w = P_Staging"
    using own by (auto simp: own_state_def)
  have "filter (\<lambda>w. ri_id w \<noteq> ri_id i) (raw_publications d1) = []"
    using begun assms(9) by (simp add: same_but_own_def)
  then have "filter (\<lambda>w. ri_id w = ri_id i) (raw_publications d1) = raw_publications d1"
    by (auto simp: filter_empty_conv filter_id_conv)
  then have rows: "raw_publications d1 = [w]" using w(1) by (simp add: own_rows_def)
  have "publish h v c i dm l st t (running d0 f0) = (running d1 f, Inl ValidationError)"
    using bad by (simp add: f(1) commit_exposed_def make_reference_def prog_simps clean_run)
  moreover have place: "is_dir (destination i) f" "\<not> is_symlink (destination i) f" "\<not> path_exists (staging i) f"
    using f(2) by (auto simp: exposed_files_def is_dir_def is_symlink_def path_exists_def)
  moreover have "\<exists>e. reconcile h' l' now (running d1 f) = (running d1 f, Inl e)" for h' l' now
  proof -
    have "raw_publications_for_reconciliation d1 = (d1, Inr [raw_record_of w])"
      unfolding raw_publications_for_reconciliation_def
      using assms(1,11) rows w by (subst read_publications) (auto simp: order_by_def)
    moreover have "reconcile_one l' now (raw_record_of w) (running d1 f) = (running d1 f, Inl ValidationError)"
      using place bad w(2)
      by (simp add: reconcile_one_def Let_def make_reference_def raw_record_of_def prog_simps clean_run)
    moreover have "fst (validate_runs_root h' (running d1 f)) = running d1 f"
      by (cases "is_symlink [] f \<or> \<not> is_dir [] f")
        (auto simp: validate_runs_root_def validate_private_directory_def prog_simps clean_run)
    then obtain r where "validate_runs_root h' (running d1 f) = (running d1 f, r)" by (metis prod.collapse)
    ultimately show ?thesis by (cases r) (simp_all add: reconcile_def prog_simps clean_run)
  qed
  ultimately show ?thesis using own by blast
qed

text \<open>The same request under the name \<open>req.1\<close>.\<close>

definition dotted_db :: db where
  "dotted_db = answered_db\<lparr>
     logical_requests := map (\<lambda>r. r\<lparr>lr_id := ''req.1''\<rparr>) (take 1 (logical_requests answered_db)),
     physical_attempts := map (\<lambda>a. a\<lparr>pa_logical := ''req.1''\<rparr>) (physical_attempts answered_db)\<rparr>"

lemma dotted_begin:
  "begin_raw_publication (hi_intent\<lparr>ri_logical := ''req.1''\<rparr>) sample_lease (utc (noon + 7000000)) dotted_db =
    (dotted_db\<lparr>raw_publications := [staged (hi_intent\<lparr>ri_logical := ''req.1''\<rparr>) (noon + 7000000)]\<rparr>, Inr ())"
proof (rule begin_succeeds)
  show "publishable (hi_intent\<lparr>ri_logical := ''req.1''\<rparr>) dotted_db"
  proof -
    have "publishable ((sample_intent h)\<lparr>ri_logical := ''req.1''\<rparr>) dotted_db" for h by code_simp
    then show ?thesis .
  qed
  have "is_identifier ''req.1''" by code_simp
  then show "valid_raw_intent (hi_intent\<lparr>ri_logical := ''req.1''\<rparr>)"
    using sample_intent_valid(1) by (simp add: valid_raw_intent_def)
qed code_simp+

theorem unnameable_bundle_blocks_reconciliation_witness:
  "\<exists>d f. publish sample_process (\<lambda>_. Inr ()) sample_candidate (hi_intent\<lparr>ri_logical := ''req.1''\<rparr>) mode_700
      sample_lease (utc (noon + 7000000)) (utc (noon + 8000000)) (running dotted_db sample_files) =
      (running d f, Inl ValidationError)
    \<and> is_dir [''task-1'', ''acquisitions'', ''req.1'', ''att-1''] f"
proof -
  let ?i = "hi_intent\<lparr>ri_logical := ''req.1''\<rparr>"
  have "valid_raw_intent ?i"
  proof -
    have "is_identifier ''req.1''" by code_simp
    then show ?thesis using sample_intent_valid(1) by (simp add: valid_raw_intent_def)
  qed
  moreover have "\<not> is_raw_path (relative_path ?i)"
  proof -
    have "\<not> is_raw_path (relative_path ((sample_intent h)\<lparr>ri_logical := ''req.1''\<rparr>))" for h by code_simp
    then show ?thesis .
  qed
  moreover have "narrow ?i" using sample_intent_valid(3) by (simp add: narrow_def)
  moreover have "candidate_matches sample_candidate ?i"
    using sample_candidate_matches by (simp add: candidate_matches_def)
  moreover have "unused ?i sample_files" "room sample_process ?i sample_files"
    by (simp_all add: unused_def well_formed_def sample_files_def bundle_paths room_def sample_process_def is_dir_def
        sample_intent_def)
  moreover have "raw_publications dotted_db = []" "schema_ok (dotted_db\<lparr>raw_publications := ws\<rparr>)" for ws
    by code_simp+
  moreover have "rc_sha256 sample_candidate = sha256_hex (rc_body sample_candidate)" by (simp add: sample_candidate_def)
  moreover have "destination ?i = [''task-1'', ''acquisitions'', ''req.1'', ''att-1'']"
    by (simp add: destination_def destination_parent_def sample_intent_def)
  ultimately obtain d f where "publish sample_process (\<lambda>_. Inr ()) sample_candidate ?i mode_700 sample_lease
      (utc (noon + 7000000)) (utc (noon + 8000000)) (running dotted_db sample_files) =
      (running d f, Inl ValidationError)" "is_dir (destination ?i) f"
    "destination ?i = [''task-1'', ''acquisitions'', ''req.1'', ''att-1'']"
    using unnameable_bundle_blocks_reconciliation [of ?i sample_candidate "\<lambda>_. Inr ()" sample_files sample_process
        dotted_db sample_lease "utc (noon + 7000000)"
        "dotted_db\<lparr>raw_publications := [staged ?i (noon + 7000000)]\<rparr>" mode_700 "utc (noon + 8000000)"]
      dotted_begin by blast
  then show ?thesis by auto
qed

section \<open>Any publication\<close>

text \<open>
  C18: Whatever the file system and the repository do, and whenever the process dies: a reference
  that \<open>publish\<close> returns is backed by a committed row for the very intent and by a plain directory
  at its path whose body has the recorded length and digest and whose three documents are the
  metadata of the intent. This holds for a publication in an unused place and for a replay
  of a known one.
\<close>

theorem returned_reference_is_backed:
  assumes "publish h v c i dm l st t s = (s', Inr ref)"
    and "own_rows i (pb_db s) = [] \<Longrightarrow> unused i (pb_files s)"
  shows "backed i ref (pb_db s') (pb_files s') \<and> candidate_matches c i"
proof -
  have matches: "candidate_matches c i"
    using assms(1) by (auto simp: publish_def prog_simps split: if_splits)
  have "under_faults (publish h v c i dm l st t)
      (\<lambda>d f r. \<forall>ref. r = Inr ref \<longrightarrow> backed i ref d f) (pb_db s) (pb_files s)"
  proof (cases "own_rows i (pb_db s) = []")
    case True
    then show ?thesis
      by (intro under_faults_mono [OF publish_faults [OF assms(2)]]) (auto simp: published_backed)
  next
    case False
    obtain d r where run: "raw_publication_record (ri_id i) (pb_db s) = (d, r)" by fastforce
    note read = record_read [OF run]
    have "r \<noteq> Inr None" using read False by (auto simp: own_rows_def)
    with read have "under_faults (on_repository code (raw_publication_record (ri_id i))) (\<lambda>d f r. case r of
        Inl e \<Rightarrow> True
      | Inr x \<Rightarrow> under_faults (case x of Some e \<Rightarrow> replay i e | None \<Rightarrow> publish_new h v c i dm l st t)
          (\<lambda>d f r. \<forall>ref. r = Inr ref \<longrightarrow> backed i ref d f) d f) (pb_db s) (pb_files s)" for code
      by (intro under_faults_on_repository) (auto simp: run intro!: replay_faults split: sum.splits option.splits)
    from this [THEN under_faults_mono] have rest:
      "under_faults (prog_bind (on_repository code (raw_publication_record (ri_id i))) (\<lambda>x.
        case x of Some e \<Rightarrow> replay i e | None \<Rightarrow> publish_new h v c i dm l st t))
        (\<lambda>d f r. \<forall>ref. r = Inr ref \<longrightarrow> backed i ref d f) (pb_db s) (pb_files s)" for code
      by (intro under_faults_bind) (auto split: sum.splits)
    show ?thesis
      unfolding publish_def
      by (simp, intro under_faults_then under_faults_pure(5))
        (auto simp: rest intro!: under_faults_pure(1) under_faults_then under_faults_pure(5)
           validate_root_faults split: sum.splits)
  qed
  with assms(1) matches show ?thesis unfolding under_faults_def by (metis fst_conv snd_conv)
qed

theorem returned_reference_is_backed_witness:
  "\<exists>s' ref. publish sample_process (\<lambda>_. Inr ()) sample_candidate hi_intent mode_700 sample_lease
      (utc (noon + 7000000)) (utc (noon + 8000000)) (running answered_db sample_files) = (s', Inr ref)
    \<and> backed hi_intent ref (pb_db s') (pb_files s')"
proof -
  obtain s' ref where run: "publish sample_process (\<lambda>_. Inr ()) sample_candidate hi_intent mode_700 sample_lease
      (utc (noon + 7000000)) (utc (noon + 8000000)) (running answered_db sample_files) = (s', Inr ref)"
    using sample_run by blast
  from returned_reference_is_backed [OF this] sample_place(1) show ?thesis
    using run by auto
qed

text \<open>
  C19: For a fresh publication that a reference can name, in an unused place of a store that is
  settled so far: whatever fails or dies during \<open>publish\<close>, and wherever, a later fault-free
  \<open>reconcile\<close> under a valid lease succeeds and settles it. Every row is failed or committed, every
  committed row's bundle is in place with the bytes, digest and metadata of its intent, and the
  publication's destination directory exists exactly if its row is committed. The schedule of
  faults is the one in the state \<open>s\<close>; publications that were settled before stay settled.
\<close>

theorem publication_is_never_half_done:
  assumes "unused i (pb_files s)" "settled (pb_db s) (pb_files s)" "own_rows i (pb_db s) = []"
    and "valid_raw_intent i" "is_raw_path (relative_path i)"
    and "fence_error l' t' (pb_db s) = None" "valid_lease l'"
    and "map_of (pb_files s) [] = Some (Dir False (pr_euid h) mode_700)"
  shows "\<exists>d f refs. reconcile h l' (utc t')
      (running (pb_db (fst (publish h v c i dm l st t s))) (pb_files (fst (publish h v c i dm l st t s)))) =
      (running d f, Inr refs)
    \<and> settled d f
    \<and> (is_dir (destination i) f \<longleftrightarrow> (\<exists>w \<in> set (own_rows i d). rw_state w = P_Committed))"
proof -
  obtain d f refs where run: "reconcile h l' (utc t')
      (running (pb_db (fst (publish h v c i dm l st t s))) (pb_files (fst (publish h v c i dm l st t s)))) =
      (running d f, Inr refs)" and "settled d f"
    and after: "publication_settled i (pb_db s) (pb_files s) d f"
    using reconcile_settles [OF assms(1-3) publish_ends_in_phase [OF assms(1,3)] assms(4-8)] by blast
  moreover have "is_dir (destination i) f \<longleftrightarrow> (\<exists>w \<in> set (own_rows i d). rw_state w = P_Committed)"
    using after by (auto simp: publication_settled_def own_state_def staged_files_def exposed_files_def is_dir_def)
  ultimately show ?thesis by blast
qed

theorem publication_is_never_half_done_witness:
  "\<exists>d f refs. reconcile sample_process sample_lease (utc (noon + 8000000))
      (running
        (pb_db (fst (publish sample_process (\<lambda>_. Inr ()) sample_candidate hi_intent mode_700 sample_lease
          (utc (noon + 7000000)) (utc (noon + 8000000)) \<lparr>pb_db = answered_db, pb_files = sample_files,
            pb_faults = replicate 9 Fine @ [Dies], pb_alive = True\<rparr>)))
        (pb_files (fst (publish sample_process (\<lambda>_. Inr ()) sample_candidate hi_intent mode_700 sample_lease
          (utc (noon + 7000000)) (utc (noon + 8000000)) \<lparr>pb_db = answered_db, pb_files = sample_files,
            pb_faults = replicate 9 Fine @ [Dies], pb_alive = True\<rparr>)))) =
      (running d f, Inr refs)
    \<and> settled d f"
proof -
  let ?s = "\<lparr>pb_db = answered_db, pb_files = sample_files, pb_faults = replicate 9 Fine @ [Dies], pb_alive = True\<rparr>"
  have "unused hi_intent (pb_files ?s)" "settled (pb_db ?s) (pb_files ?s)" "own_rows hi_intent (pb_db ?s) = []"
    by (simp_all add: sample_place settled_def own_rows_def no_publications answered_fence(1))
  moreover have "fence_error sample_lease (noon + 8000000) (pb_db ?s) = None"
    using committing_fence(2) [of "[]"] by (simp add: fence_error_def)
  moreover have "map_of (pb_files ?s) [] = Some (Dir False (pr_euid sample_process) mode_700)"
    by (simp add: sample_files_def sample_process_def)
  ultimately show ?thesis
    using publication_is_never_half_done [of hi_intent ?s, OF _ _ _ sample_intent_valid(1,2) _ answered_fence(3)] by blast
qed

end
