(* ===== verification/Contracts.thy ===== *)
theory Contracts
  imports Timestamps
begin

text \<open>
  The shared primitives of \<open>contracts/base.py\<close> and the audit events of
  \<open>contracts/detailed_analysis/v1/external_requests.py\<close>: records for the pydantic models and one
  \<open>valid_*\<close> predicate per model. A field that a \<open>Literal\<close> fixes to one value is left out.
\<close>

section \<open>Primitives\<close>

definition is_lower_alnum :: "char \<Rightarrow> bool" where
  "is_lower_alnum c \<longleftrightarrow> (CHR ''a'' \<le> c \<and> c \<le> CHR ''z'') \<or> (CHR ''0'' \<le> c \<and> c \<le> CHR ''9'')"

text \<open>\<open>SchemaIdentifier\<close>: \<^verbatim>\<open>^detailed-analysis\.[a-z0-9]+(?:-[a-z0-9]+)*$\<close>.\<close>

definition is_schema_id :: "string \<Rightarrow> bool" where
  "is_schema_id s \<longleftrightarrow>
     take 18 s = ''detailed-analysis.''
     \<and> list_all (\<lambda>w. w \<noteq> [] \<and> list_all is_lower_alnum w) (split_at (CHR ''-'') (drop 18 s))"

definition is_text :: "string \<Rightarrow> bool" where
  "is_text s \<longleftrightarrow> 1 \<le> length s"

definition unless_None :: "('a \<Rightarrow> bool) \<Rightarrow> 'a option \<Rightarrow> bool" where
  "unless_None p x = (case x of None \<Rightarrow> True | Some a \<Rightarrow> p a)"

record artifact_reference =
  ar_type :: string
  ar_id :: string
  ar_schema :: string
  ar_version :: int
  ar_sha256 :: string

definition valid_artifact_reference :: "artifact_reference \<Rightarrow> bool" where
  "valid_artifact_reference r \<longleftrightarrow>
     is_text (ar_type r) \<and> is_identifier (ar_id r) \<and> is_schema_id (ar_schema r) \<and> 1 \<le> ar_version r
     \<and> is_sha256_hex (ar_sha256 r)"

record file_reference =
  fr_id :: string
  fr_path :: string
  fr_media_type :: string
  fr_sha256 :: string

definition is_contained_path :: "string \<Rightarrow> bool" where
  "is_contained_path s \<longleftrightarrow>
     (let components = split_at (CHR ''/'') (map (\<lambda>c. if c = CHR 0x5C then CHR ''/'' else c) s)
      in \<not> (s \<noteq> [] \<and> (hd s = CHR ''/'' \<or> hd s = CHR 0x5C)) \<and> ''..'' \<notin> set components)"

definition valid_file_reference :: "file_reference \<Rightarrow> bool" where
  "valid_file_reference r \<longleftrightarrow>
     is_identifier (fr_id r) \<and> is_text (fr_path r) \<and> is_text (fr_media_type r) \<and> is_sha256_hex (fr_sha256 r)
     \<and> is_contained_path (fr_path r)"

text \<open>A value of \<open>int | float\<close>.\<close>

datatype number = Whole_Number int | Float_Number double

definition number_less :: "number \<Rightarrow> int \<Rightarrow> bool" where
  "number_less x n = (case x of Whole_Number i \<Rightarrow> i < n | Float_Number d \<Rightarrow> double_less d (Finite (of_int n)))"

section \<open>Audit events\<close>

datatype event_type =
    E_Logical_Requested | E_Cache_Decided | E_Single_Flight_Decided | E_Queued | E_Gates_Evaluated
  | E_Physical_Started | E_Physical_Succeeded | E_Physical_Failed | E_Session_Started
  | E_Cooldown_Recorded | E_Cancelled

datatype observability = Physical_Request | Agent_Session_Only

datatype gate_result_outcome = G_Acquired | G_Blocked | G_Cooldown

datatype audit_cache = Not_Applicable | Miss | Hit | Stale_Rejected | Policy_Rejected

datatype audit_flight = Flight_Not_Applicable | Flight_Leader | Flight_Follower

datatype audit_outcome = Out_Pending | Out_Succeeded | Out_Failed | Out_Cancelled | Out_Unknown

datatype usage_availability = Usage_Retrieved | Usage_Unknown | Usage_Unsupported | Usage_Not_Retrieved

datatype agent_role = Orchestrator | Codex_Worker | Claude_Worker | Primary_Reviewer | Antigravity_Auditor

record gate_result =
  gt_scope_of :: gate_scope
  gt_alias :: string
  gt_outcome :: gate_result_outcome
  gt_waited_ms :: int
  gt_detail :: string

definition valid_gate_result :: "gate_result \<Rightarrow> bool" where
  "valid_gate_result g \<longleftrightarrow> is_identifier (gt_alias g) \<and> 0 \<le> gt_waited_ms g \<and> is_text (gt_detail g)"

record request_usage =
  us_metric :: string
  us_unit :: string
  us_availability :: usage_availability
  us_value :: "number option"

definition valid_request_usage :: "request_usage \<Rightarrow> bool" where
  "valid_request_usage u \<longleftrightarrow>
     is_identifier (us_metric u) \<and> is_identifier (us_unit u)
     \<and> \<not> (us_availability u = Usage_Retrieved \<and> us_value u = None)
     \<and> \<not> (us_availability u \<noteq> Usage_Retrieved \<and> us_value u \<noteq> None)
     \<and> unless_None (\<lambda>v. \<not> number_less v 0) (us_value u)"

record request_error =
  er_class :: string
  er_message :: string
  er_retry_after :: "double option"
  er_cooldown_until :: "string option"
  er_status_code :: "int option"

definition valid_request_error :: "request_error \<Rightarrow> bool" where
  "valid_request_error e \<longleftrightarrow>
     is_identifier (er_class e) \<and> is_text (er_message e)
     \<and> unless_None (\<lambda>r. \<not> double_less r (Finite 0)) (er_retry_after e)
     \<and> unless_None is_timestamp (er_cooldown_until e)
     \<and> unless_None (\<lambda>c. 100 \<le> c \<and> c \<le> 599) (er_status_code e)"

record request_event =
  ex_id :: string
  ex_occurred_at :: string
  ex_type :: event_type
  ex_task :: string
  ex_logical :: string
  ex_attempt :: "string option"
  ex_observability :: observability
  ex_role :: agent_role
  ex_provider :: string
  ex_operation :: string
  ex_origin :: string
  ex_credential :: "string option"
  ex_approval :: artifact_reference
  ex_profile :: artifact_reference
  ex_fingerprint :: string
  ex_cache :: audit_cache
  ex_cache_artifact :: "artifact_reference option"
  ex_flight :: audit_flight
  ex_leader :: "string option"
  ex_queue_wait_ms :: int
  ex_gates :: "gate_result list"
  ex_outcome :: audit_outcome
  ex_error :: "request_error option"
  ex_usage :: "request_usage list"

definition is_physical_event :: "event_type \<Rightarrow> bool" where
  "is_physical_event t \<longleftrightarrow>
     t \<in> {E_Physical_Started, E_Physical_Succeeded, E_Physical_Failed, E_Cooldown_Recorded}"

text \<open>The fields one by one, and then \<open>validate_request_event\<close>.\<close>

definition event_fields_ok :: "request_event \<Rightarrow> bool" where
  "event_fields_ok e \<longleftrightarrow>
     is_identifier (ex_id e) \<and> is_timestamp (ex_occurred_at e) \<and> is_identifier (ex_task e)
     \<and> is_identifier (ex_logical e) \<and> unless_None is_identifier (ex_attempt e)
     \<and> is_identifier (ex_provider e) \<and> is_identifier (ex_operation e) \<and> is_text (ex_origin e)
     \<and> unless_None is_identifier (ex_credential e) \<and> valid_artifact_reference (ex_approval e)
     \<and> valid_artifact_reference (ex_profile e) \<and> is_sha256_hex (ex_fingerprint e)
     \<and> unless_None valid_artifact_reference (ex_cache_artifact e)
     \<and> unless_None is_identifier (ex_leader e) \<and> 0 \<le> ex_queue_wait_ms e
     \<and> list_all valid_gate_result (ex_gates e) \<and> unless_None valid_request_error (ex_error e)
     \<and> list_all valid_request_usage (ex_usage e)"

definition event_boundaries_ok :: "request_event \<Rightarrow> bool" where
  "event_boundaries_ok e \<longleftrightarrow>
     ar_schema (ex_approval e) = ''detailed-analysis.source-approval''
     \<and> ar_schema (ex_profile e) = ''detailed-analysis.source-profile''
     \<and> (if ex_observability e = Physical_Request
        then \<not> (is_physical_event (ex_type e) \<and> ex_attempt e = None)
        else ex_attempt e = None \<and> \<not> list_ex (\<lambda>g. gt_scope_of g = S_Origin) (ex_gates e))
     \<and> \<not> (ex_cache e = Hit \<and> ex_cache_artifact e = None)
     \<and> \<not> (ex_cache e \<noteq> Hit \<and> ex_cache_artifact e \<noteq> None)
     \<and> (if ex_flight e = Flight_Follower then ex_leader e \<noteq> None else ex_leader e = None)
     \<and> \<not> (ex_outcome e = Out_Failed \<and> ex_error e = None)
     \<and> \<not> (ex_outcome e \<noteq> Out_Failed \<and> ex_error e \<noteq> None)
     \<and> distinct (map us_metric (ex_usage e))"

definition valid_request_event :: "request_event \<Rightarrow> bool" where
  "valid_request_event e \<longleftrightarrow> event_fields_ok e \<and> event_boundaries_ok e"

end
