(* ===== verification/Policies.thy ===== *)
theory Policies
  imports Contracts
begin

text \<open>
  The configuration contracts of \<open>contracts/detailed_analysis/v1/policies.py\<close>: source approvals,
  source profiles with their quantitative settings, and market profiles. The four policy
  documents have almost only fixed fields; the fields that are free, and what their validators
  require of them, are kept.
\<close>

section \<open>Calendar dates\<close>

text \<open>
  \<open>date.fromisoformat\<close>: \<open>YYYY-MM-DD\<close>, \<open>YYYYMMDD\<close>, and a week date \<open>YYYY-Www[-D]\<close> or \<open>YYYYWww[D]\<close>.
  A date is its day number, day 0 being 0001-01-01.
\<close>

definition calendar_day :: "string \<Rightarrow> string \<Rightarrow> string \<Rightarrow> int option" where
  "calendar_day ys ms ds =
     (if list_all is_digit (ys @ ms @ ds)
      then (let y = decimal ys; m = decimal ms; d = decimal ds
            in if 1 \<le> y \<and> 1 \<le> m \<and> m \<le> 12 \<and> 1 \<le> d \<and> d \<le> month_length y m
               then Some (int (day_number y m d)) else None)
      else None)"

text \<open>The Monday of week 1 is the Monday of the week that holds January 4.\<close>

definition first_monday :: "nat \<Rightarrow> int" where
  "first_monday y = (let jan1 = int (day_number y 1 1); weekday = jan1 mod 7
     in if 3 < weekday then jan1 - weekday + 7 else jan1 - weekday)"

definition weeks_of_year :: "nat \<Rightarrow> nat" where
  "weeks_of_year y = (let weekday = int (day_number y 1 1) mod 7
     in if weekday = 3 \<or> weekday = 2 \<and> is_leap y then 53 else 52)"

definition week_day :: "string \<Rightarrow> string \<Rightarrow> string \<Rightarrow> int option" where
  "week_day ys ws ds =
     (if list_all is_digit (ys @ ws @ ds)
      then (let y = decimal ys; w = decimal ws; d = (if ds = [] then 1 else decimal ds);
                n = first_monday y + 7 * (int w - 1) + (int d - 1)
            in if 1 \<le> y \<and> 1 \<le> w \<and> w \<le> weeks_of_year y \<and> 1 \<le> d \<and> d \<le> 7 \<and> 0 \<le> n \<and> n < 3652059
               then Some n else None)
      else None)"

definition parse_date :: "string \<Rightarrow> int option" where
  "parse_date s =
     (let y = take 4 s; r = drop 4 s
      in case r of
           [a, b, c, e, f, g] \<Rightarrow>
             if a = CHR ''-'' \<and> b = CHR ''W'' \<and> f = CHR ''-'' then week_day y [c, e] [g]
             else if a = CHR ''-'' \<and> e = CHR ''-'' then calendar_day y [b, c] [f, g]
             else None
         | [a, w, w1, w2] \<Rightarrow>
             if a = CHR ''-'' \<and> w = CHR ''W'' then week_day y [w1, w2] []
             else if a = CHR ''W'' then week_day y [w, w1] [w2]
             else calendar_day y [a, w] [w1, w2]
         | [w, w1, w2] \<Rightarrow> if w = CHR ''W'' then week_day y [w1, w2] [] else None
         | _ \<Rightarrow> None)"

definition is_date :: "string \<Rightarrow> bool" where
  "is_date s \<longleftrightarrow> parse_date s \<noteq> None"

section \<open>Source approvals\<close>

datatype approval_status = Draft | Approved | Suspended | Expired | Rejected

datatype knowledge_status = Known | Unknown | Unsupported | Not_Retrieved

datatype condition_category =
    Terms | Pricing | Authentication | Redistribution | Derived_Output | External_Processing
  | Provider_Retention | Provider_Training | Freshness | Available_Period | Rate_Limit | Failure_Behavior

definition all_categories :: "condition_category list" where
  "all_categories = [Terms, Pricing, Authentication, Redistribution, Derived_Output, External_Processing,
     Provider_Retention, Provider_Training, Freshness, Available_Period, Rate_Limit, Failure_Behavior]"

record official_reference =
  of_id :: string
  of_document_type :: string
  of_url :: string
  of_document_version :: string
  of_reviewed_on :: string

definition valid_official_reference :: "official_reference \<Rightarrow> bool" where
  "valid_official_reference r \<longleftrightarrow>
     is_identifier (of_id r) \<and> is_identifier (of_document_type r) \<and> is_text (of_url r)
     \<and> is_text (of_document_version r) \<and> is_date (of_reviewed_on r)"

record source_condition =
  sc_category :: condition_category
  sc_status :: knowledge_status
  sc_summary :: string
  sc_references :: "string list"

definition valid_source_condition :: "source_condition \<Rightarrow> bool" where
  "valid_source_condition c \<longleftrightarrow> is_text (sc_summary c) \<and> list_all is_identifier (sc_references c)"

record source_approval =
  sa_artifact :: string
  sa_approval :: string
  sa_version :: int
  sa_source :: string
  sa_status :: approval_status
  sa_provider :: string
  sa_service :: string
  sa_dataset :: string
  sa_reviewer :: string
  sa_reviewed_on :: string
  sa_approved_by :: "string option"
  sa_effective_on :: "string option"
  sa_recheck_due_on :: "string option"
  sa_status_reason :: string
  sa_usage_entity :: string
  sa_usage_purposes :: "string list"
  sa_contract_plan :: string
  sa_credential :: "string option"
  sa_online_use :: bool
  sa_agent_transfer :: bool
  sa_references :: "official_reference list"
  sa_conditions :: "source_condition list"

definition approval_fields_ok :: "source_approval \<Rightarrow> bool" where
  "approval_fields_ok a \<longleftrightarrow>
     is_identifier (sa_artifact a) \<and> is_identifier (sa_approval a) \<and> 1 \<le> sa_version a
     \<and> is_identifier (sa_source a) \<and> is_text (sa_provider a) \<and> is_text (sa_service a)
     \<and> is_text (sa_dataset a) \<and> is_text (sa_reviewer a) \<and> is_date (sa_reviewed_on a)
     \<and> unless_None is_text (sa_approved_by a) \<and> unless_None is_date (sa_effective_on a)
     \<and> unless_None is_date (sa_recheck_due_on a) \<and> is_text (sa_status_reason a)
     \<and> is_text (sa_usage_entity a) \<and> sa_usage_purposes a \<noteq> [] \<and> list_all is_text (sa_usage_purposes a)
     \<and> is_text (sa_contract_plan a) \<and> unless_None is_identifier (sa_credential a)
     \<and> sa_references a \<noteq> [] \<and> list_all valid_official_reference (sa_references a)
     \<and> sa_conditions a \<noteq> [] \<and> list_all valid_source_condition (sa_conditions a)"

definition conditions_complete :: "source_approval \<Rightarrow> bool" where
  "conditions_complete a \<longleftrightarrow> \<not> list_ex (\<lambda>c. sc_status c \<in> {Unknown, Not_Retrieved}) (sa_conditions a)"

definition approval_rules_ok :: "source_approval \<Rightarrow> bool" where
  "approval_rules_ok a \<longleftrightarrow>
     (let ids = map of_id (sa_references a); categories = map sc_category (sa_conditions a)
      in distinct ids \<and> distinct categories \<and> set categories = set all_categories
        \<and> list_all (\<lambda>c. set (sc_references c) \<subseteq> set ids) (sa_conditions a))
     \<and> (sa_status a = Approved \<longrightarrow>
          sa_approved_by a \<noteq> None \<and> sa_effective_on a \<noteq> None \<and> sa_recheck_due_on a \<noteq> None
          \<and> conditions_complete a)
     \<and> \<not> (sa_online_use a \<and> sa_status a \<noteq> Approved) \<and> \<not> (sa_agent_transfer a \<and> \<not> sa_online_use a)"

definition valid_source_approval :: "source_approval \<Rightarrow> bool" where
  "valid_source_approval a \<longleftrightarrow> approval_fields_ok a \<and> approval_rules_ok a"

section \<open>Source profiles\<close>

record quantitative_setting =
  qs_status :: knowledge_status
  qs_value :: "number option"
  qs_unit :: string
  qs_references :: "string list"

definition valid_setting :: "quantitative_setting \<Rightarrow> bool" where
  "valid_setting q \<longleftrightarrow>
     is_identifier (qs_unit q) \<and> list_all is_identifier (qs_references q)
     \<and> (if qs_status q = Known then (case qs_value q of None \<Rightarrow> False | Some v \<Rightarrow> \<not> number_less v 0)
         else qs_value q = None)"

record source_profile =
  sp_artifact :: string
  sp_source :: string
  sp_profile_version :: int
  sp_policy_version :: int
  sp_approval_reference :: artifact_reference
  sp_approval_status :: approval_status
  sp_enabled :: bool
  sp_rate_domain :: string
  sp_credential :: "string option"
  sp_egress :: string
  sp_max_concurrency :: int
  sp_min_interval :: quantitative_setting
  sp_rate_requests :: quantitative_setting
  sp_rate_window :: quantitative_setting
  sp_burst :: int
  sp_cache_enabled :: bool
  sp_cache_ttl :: quantitative_setting
  sp_batch_support :: knowledge_status
  sp_batch_size :: quantitative_setting
  sp_cooldown :: quantitative_setting

definition profile_fields_ok :: "source_profile \<Rightarrow> bool" where
  "profile_fields_ok p \<longleftrightarrow>
     is_identifier (sp_artifact p) \<and> is_identifier (sp_source p) \<and> 1 \<le> sp_profile_version p
     \<and> 1 \<le> sp_policy_version p \<and> valid_artifact_reference (sp_approval_reference p)
     \<and> is_identifier (sp_rate_domain p) \<and> unless_None is_identifier (sp_credential p)
     \<and> is_identifier (sp_egress p) \<and> 1 \<le> sp_max_concurrency p \<and> 1 \<le> sp_burst p
     \<and> list_all valid_setting [sp_min_interval p, sp_rate_requests p, sp_rate_window p, sp_cache_ttl p,
         sp_batch_size p, sp_cooldown p]"

text \<open>A NaN is not \<open><= 0\<close> either, so the validator lets it pass.\<close>

definition not_positive :: "number \<Rightarrow> bool" where
  "not_positive v =
     (case v of Whole_Number i \<Rightarrow> i \<le> 0
      | Float_Number d \<Rightarrow> d = Finite 0 \<or> double_less d (Finite 0))"

definition profile_rules_ok :: "source_profile \<Rightarrow> bool" where
  "profile_rules_ok p \<longleftrightarrow>
     ar_schema (sp_approval_reference p) = ''detailed-analysis.source-approval''
     \<and> (if sp_enabled p
        then sp_approval_status p = Approved
          \<and> \<not> (qs_status (sp_min_interval p) \<noteq> Known
              \<or> (case qs_value (sp_min_interval p) of None \<Rightarrow> True | Some v \<Rightarrow> not_positive v))
        else qs_status (sp_min_interval p) \<noteq> Known \<longrightarrow> sp_max_concurrency p = 1 \<and> sp_burst p = 1)"

definition valid_source_profile :: "source_profile \<Rightarrow> bool" where
  "valid_source_profile p \<longleftrightarrow> profile_fields_ok p \<and> profile_rules_ok p"

section \<open>Market profiles and policies\<close>

record market_profile =
  mp_artifact :: string
  mp_version :: int
  mp_calendar_reference :: string
  mp_reviewed_on :: string
  mp_calendar_status :: knowledge_status
  mp_enabled :: bool

definition valid_market_profile :: "market_profile \<Rightarrow> bool" where
  "valid_market_profile m \<longleftrightarrow>
     is_identifier (mp_artifact m) \<and> 1 \<le> mp_version m \<and> is_text (mp_calendar_reference m)
     \<and> is_date (mp_reviewed_on m) \<and> \<not> (mp_enabled m \<and> mp_calendar_status m \<noteq> Known)"

record horizon_policy =
  hp_name :: string
  hp_minimum_months :: int
  hp_maximum_months :: int
  hp_maximum_inclusive :: bool

definition valid_horizon :: "horizon_policy \<Rightarrow> bool" where
  "valid_horizon h \<longleftrightarrow>
     hp_name h \<in> {''medium_term'', ''long_term''} \<and> 1 \<le> hp_minimum_months h \<and> 1 \<le> hp_maximum_months h
     \<and> \<not> hp_maximum_months h < hp_minimum_months h"

record analysis_policy =
  ap_artifact :: string
  ap_version :: int
  ap_effective_at :: string
  ap_horizons :: "horizon_policy list"
  ap_completion :: "string list"

definition valid_analysis_policy :: "analysis_policy \<Rightarrow> bool" where
  "valid_analysis_policy p \<longleftrightarrow>
     is_identifier (ap_artifact p) \<and> 1 \<le> ap_version p \<and> is_timestamp (ap_effective_at p)
     \<and> length (ap_horizons p) = 2 \<and> list_all valid_horizon (ap_horizons p)
     \<and> ap_completion p \<noteq> [] \<and> list_all is_text (ap_completion p)
     \<and> map (\<lambda>h. (hp_name h, hp_minimum_months h, hp_maximum_months h, hp_maximum_inclusive h)) (ap_horizons p) =
       [(''medium_term'', 12, 24, False), (''long_term'', 24, 60, True)]"

record web_research_policy =
  wp_artifact :: string
  wp_version :: int
  wp_effective_at :: string
  wp_roles :: "agent_role list"
  wp_recipients :: "agent_role list"
  wp_completion :: "string list"

definition valid_web_research_policy :: "web_research_policy \<Rightarrow> bool" where
  "valid_web_research_policy p \<longleftrightarrow>
     is_identifier (wp_artifact p) \<and> 1 \<le> wp_version p \<and> is_timestamp (wp_effective_at p)
     \<and> length (wp_roles p) = 5 \<and> length (wp_recipients p) = 2
     \<and> list_all (\<lambda>r. r \<in> {Codex_Worker, Claude_Worker}) (wp_recipients p)
     \<and> wp_completion p \<noteq> [] \<and> list_all is_text (wp_completion p)
     \<and> wp_roles p = [Orchestrator, Codex_Worker, Claude_Worker, Primary_Reviewer, Antigravity_Auditor]
     \<and> wp_recipients p = [Codex_Worker, Claude_Worker]"

end
