(* ===== verification/Configuration.thy ===== *)
theory Configuration
  imports Policies Json
begin

text \<open>
  \<open>configuration.py\<close>: the versioned YAML files below a configuration root. Finding and reading
  the files and the YAML parser with its schema dispatch (\<open>validate_text\<close>) are parameters; the
  layout rules, the inventory of logical identities and the agreement of every source profile
  with its approval are modelled, with the exit code of the error that each check raises.
\<close>

section \<open>Artifacts\<close>

text \<open>\<open>Document\<close> is any contract without rules of its own here; some have no \<open>artifact_id\<close>.\<close>

datatype config_model =
    Approval source_approval
  | Profile source_profile
  | Market market_profile
  | Document string int "string option"

definition schema_identity :: "config_model \<Rightarrow> string \<times> int" where
  "schema_identity m =
     (case m of
        Approval _ \<Rightarrow> (''detailed-analysis.source-approval'', 1)
      | Profile _ \<Rightarrow> (''detailed-analysis.source-profile'', 1)
      | Market _ \<Rightarrow> (''detailed-analysis.market-profile'', 1)
      | Document schema version _ \<Rightarrow> (schema, version))"

definition model_artifact_id :: "config_model \<Rightarrow> string option" where
  "model_artifact_id m =
     (case m of
        Approval a \<Rightarrow> Some (sa_artifact a) | Profile p \<Rightarrow> Some (sp_artifact p)
      | Market k \<Rightarrow> Some (mp_artifact k) | Document _ _ i \<Rightarrow> i)"

record config_artifact =
  ca_path :: "string list"
  ca_model :: config_model
  ca_sha256 :: string

datatype config_error =
    Root_Missing | Root_Not_Directory | Not_Enumerated | No_Artifacts | File_Missing | Path_Escapes
  | Not_A_File | Not_Text | Artifact_Invalid | Unsupported_Layout | Schema_Mismatch | Identity_Mismatch
  | Identity_Missing | Duplicate_Identity | Approval_Missing | Approval_Inconsistent

datatype exit_code = Invalid_Configuration | Configuration_IO

definition exit_code_of :: "config_error \<Rightarrow> exit_code" where
  "exit_code_of e =
     (if e \<in> {Root_Missing, Root_Not_Directory, Not_Enumerated, File_Missing, Path_Escapes, Not_A_File, Not_Text}
      then Configuration_IO else Invalid_Configuration)"

section \<open>Layout\<close>

text \<open>The pattern \<^verbatim>\<open>^v([1-9][0-9]*)\.yaml$\<close> and the number it captures.\<close>

definition version_of_name :: "string \<Rightarrow> nat option" where
  "version_of_name s =
     (case s of
        [] \<Rightarrow> None
      | v # r \<Rightarrow>
          (let ds = takeWhile is_digit r
           in if v = CHR ''v'' \<and> ds \<noteq> [] \<and> hd ds \<noteq> CHR ''0'' \<and> dropWhile is_digit r = ''.yaml''
              then Some (decimal ds) else None))"

definition layout_schema :: "string list \<Rightarrow> (string \<times> string option) option" where
  "layout_schema parts =
     (case parts of
        [dir, name, _] \<Rightarrow>
          if dir = ''policies''
          then map_option (\<lambda>s. (s, None)) (map_of
            [(''detailed-analysis'', ''detailed-analysis.detailed-analysis-policy''),
             (''web-research'', ''detailed-analysis.web-research-policy''),
             (''review-audit'', ''detailed-analysis.review-audit-policy''),
             (''session-continuation'', ''detailed-analysis.session-continuation-policy'')] name)
          else map_option (\<lambda>s. (s, Some name)) (map_of
            [(''market-profiles'', ''detailed-analysis.market-profile''),
             (''source-approvals'', ''detailed-analysis.source-approval''),
             (''source-profiles'', ''detailed-analysis.source-profile'')] dir)
      | _ \<Rightarrow> None)"

definition artifact_version :: "config_model \<Rightarrow> int" where
  "artifact_version m =
     (case m of Approval a \<Rightarrow> sa_version a | Profile p \<Rightarrow> sp_profile_version p | Market k \<Rightarrow> mp_version k
      | Document _ version _ \<Rightarrow> version)"

text \<open>The field that must name the directory: \<open>mic\<close> below \<open>market-profiles\<close>, else \<open>source_id\<close>.\<close>

definition identity_field :: "string \<Rightarrow> config_model \<Rightarrow> string option" where
  "identity_field dir m =
     (case m of
        Approval a \<Rightarrow> if dir = ''market-profiles'' then None else Some (sa_source a)
      | Profile p \<Rightarrow> if dir = ''market-profiles'' then None else Some (sp_source p)
      | Market _ \<Rightarrow> if dir = ''market-profiles'' then Some ''XTKS'' else None
      | Document _ _ _ \<Rightarrow> None)"

definition validate_layout :: "string list \<Rightarrow> config_model \<Rightarrow> config_error + unit" where
  "validate_layout parts m =
     (case (layout_schema parts, if parts = [] then None else version_of_name (last parts)) of
        (Some (schema, identity), Some version) \<Rightarrow>
          if fst (schema_identity m) \<noteq> schema \<or> artifact_version m \<noteq> int version then Inl Schema_Mismatch
          else (case identity of
              None \<Rightarrow> Inr ()
            | Some name \<Rightarrow>
                (case identity_field (hd parts) m of
                   None \<Rightarrow> Inl Identity_Mismatch
                 | Some value \<Rightarrow> if lower value \<noteq> lower name then Inl Identity_Mismatch else Inr ()))
      | _ \<Rightarrow> Inl Unsupported_Layout)"

section \<open>Reading one file\<close>

text \<open>What the file system says of a path.\<close>

datatype config_file = Missing_File | Escaping_File | Special_File | Unreadable_File | Contents bytes

text \<open>\<open>bytes.decode("utf-8")\<close>, which refuses the surrogates.\<close>

definition decode_strictly :: "bytes \<Rightarrow> nat list option" where
  "decode_strictly b =
     (case decode_utf8 (map unat b) of
        None \<Rightarrow> None
      | Some t \<Rightarrow> if list_ex (\<lambda>c. 55296 \<le> c \<and> c \<le> 57343) t then None else Some t)"

definition load_artifact ::
  "(nat list \<Rightarrow> config_model option) \<Rightarrow> string list \<Rightarrow> config_file \<Rightarrow> config_error + config_artifact" where
  "load_artifact validate_text parts f =
     (case f of
        Missing_File \<Rightarrow> Inl File_Missing
      | Escaping_File \<Rightarrow> Inl Path_Escapes
      | Special_File \<Rightarrow> Inl Not_A_File
      | Unreadable_File \<Rightarrow> Inl Not_Text
      | Contents raw \<Rightarrow>
          (case decode_strictly raw of
             None \<Rightarrow> Inl Not_Text
           | Some text \<Rightarrow>
               (case validate_text text of
                  None \<Rightarrow> Inl Artifact_Invalid
                | Some m \<Rightarrow>
                    (case validate_layout parts m of
                       Inl e \<Rightarrow> Inl e
                     | Inr _ \<Rightarrow> Inr \<lparr>ca_path = parts, ca_model = m, ca_sha256 = sha256_hex raw\<rparr>))))"

section \<open>Inventory\<close>

text \<open>One turn of the loop over the artifacts: the identities seen, the approvals, the profiles.\<close>

definition add_artifact ::
  "config_artifact \<Rightarrow> string set \<times> (string \<rightharpoonup> config_artifact) \<times> config_artifact list
    \<Rightarrow> config_error + string set \<times> (string \<rightharpoonup> config_artifact) \<times> config_artifact list" where
  "add_artifact a seen =
     (case seen of (ids, approvals, profiles) \<Rightarrow>
        (case model_artifact_id (ca_model a) of
           None \<Rightarrow> Inl Identity_Missing
         | Some i \<Rightarrow>
             if i \<in> ids then Inl Duplicate_Identity
             else Inr (insert i ids,
               (case ca_model a of Approval _ \<Rightarrow> approvals(i \<mapsto> a) | _ \<Rightarrow> approvals),
               (case ca_model a of Profile _ \<Rightarrow> profiles @ [a] | _ \<Rightarrow> profiles))))"

primrec add_artifacts ::
  "config_artifact list \<Rightarrow> string set \<times> (string \<rightharpoonup> config_artifact) \<times> config_artifact list
    \<Rightarrow> config_error + string set \<times> (string \<rightharpoonup> config_artifact) \<times> config_artifact list" where
  "add_artifacts [] seen = Inr seen"
| "add_artifacts (a # as) seen =
     (case add_artifact a seen of Inl e \<Rightarrow> Inl e | Inr seen' \<Rightarrow> add_artifacts as seen')"

definition consistent_source :: "source_profile \<Rightarrow> source_approval \<Rightarrow> string \<Rightarrow> bool" where
  "consistent_source p a sha \<longleftrightarrow>
     (let r = sp_approval_reference p
      in ar_type r = ''source_approval'' \<and> ar_schema r = ''detailed-analysis.source-approval''
        \<and> ar_version r = 1 \<and> ar_sha256 r = sha)
     \<and> sp_source p = sa_source a \<and> sp_approval_status p = sa_status a \<and> sp_credential p = sa_credential a
     \<and> (\<not> sp_enabled p \<or> sa_status a = Approved \<and> sa_online_use a)"

definition validate_source_reference ::
  "(string \<rightharpoonup> config_artifact) \<Rightarrow> config_artifact \<Rightarrow> config_error + unit" where
  "validate_source_reference approvals c =
     (case ca_model c of
        Profile p \<Rightarrow>
          (case approvals (ar_id (sp_approval_reference p)) of
             None \<Rightarrow> Inl Approval_Missing
           | Some b \<Rightarrow>
               (case ca_model b of
                  Approval a \<Rightarrow>
                    if consistent_source p a (ca_sha256 b) then Inr () else Inl Approval_Inconsistent
                | _ \<Rightarrow> Inl Approval_Missing))
      | _ \<Rightarrow> Inr ())"

primrec first_failure :: "('a \<Rightarrow> 'e + unit) \<Rightarrow> 'a list \<Rightarrow> 'e + unit" where
  "first_failure f [] = Inr ()"
| "first_failure f (x # xs) = (case f x of Inl e \<Rightarrow> Inl e | Inr _ \<Rightarrow> first_failure f xs)"

definition validate_inventory :: "config_artifact list \<Rightarrow> config_error + unit" where
  "validate_inventory artifacts =
     (case add_artifacts artifacts ({}, Map.empty, []) of
        Inl e \<Rightarrow> Inl e
      | Inr (_, approvals, profiles) \<Rightarrow> first_failure (validate_source_reference approvals) profiles)"

section \<open>The configuration\<close>

definition posix_path :: "string list \<Rightarrow> string" where
  "posix_path parts = concat (map (\<lambda>p. p @ ''/'') (butlast parts)) @ (if parts = [] then [] else last parts)"

primrec load_all ::
  "(nat list \<Rightarrow> config_model option) \<Rightarrow> (string list \<times> config_file) list
    \<Rightarrow> config_error + config_artifact list" where
  "load_all validate_text [] = Inr []"
| "load_all validate_text (f # fs) =
     (case load_artifact validate_text (fst f) (snd f) of
        Inl e \<Rightarrow> Inl e
      | Inr a \<Rightarrow>
          (case load_all validate_text fs of Inl e \<Rightarrow> Inl e | Inr as \<Rightarrow> Inr (a # as)))"

text \<open>\<open>files\<close> is what the search below the root finds, or the error of the search.\<close>

definition validate_configuration ::
  "(nat list \<Rightarrow> config_model option) \<Rightarrow> config_error + (string list \<times> config_file) list
    \<Rightarrow> config_error + config_artifact list" where
  "validate_configuration validate_text files =
     (case files of
        Inl e \<Rightarrow> Inl e
      | Inr fs \<Rightarrow>
          if fs = [] then Inl No_Artifacts
          else (case load_all validate_text (sort_key (\<lambda>f. posix_path (fst f)) fs) of
              Inl e \<Rightarrow> Inl e
            | Inr as \<Rightarrow> (case validate_inventory as of Inl e \<Rightarrow> Inl e | Inr _ \<Rightarrow> Inr as)))"

end
