(* ===== verification/Sources.thy ===== *)
theory Sources
  imports Configuration
begin

text \<open>
  \<open>requests/models.py\<close>: the requests and responses of the offline coordinator, the binding of a
  source to one approved configuration (\<open>bind_source\<close>), the limits it supports and the
  fingerprint of a request.
\<close>

section \<open>Requests and responses\<close>

record coordinator_request =
  cq_task :: string
  cq_role :: agent_role
  cq_operation :: string
  cq_origin :: string
  cq_resource :: string
  cq_logical :: string
  cq_period :: string
  cq_freshness :: string

definition valid_coordinator_request :: "coordinator_request \<Rightarrow> bool" where
  "valid_coordinator_request q \<longleftrightarrow>
     is_identifier (cq_task q) \<and> is_identifier (cq_operation q) \<and> is_identifier (cq_origin q)
     \<and> is_identifier (cq_resource q) \<and> is_identifier (cq_logical q) \<and> is_identifier (cq_period q)
     \<and> is_identifier (cq_freshness q)"

datatype status_category = Cat_Ok | Cat_Provider_Error | Cat_Rate_Limited

primrec category_text :: "status_category \<Rightarrow> string" where
  "category_text Cat_Ok = ''ok''"
| "category_text Cat_Provider_Error = ''provider_error''"
| "category_text Cat_Rate_Limited = ''rate_limited''"

record offline_response =
  ol_succeeded :: bool
  ol_payload :: "bytes option"
  ol_category :: status_category
  ol_retry_after :: "double option"

definition response_is_valid :: "offline_response \<Rightarrow> bool" where
  "response_is_valid r \<longleftrightarrow>
     (case ol_retry_after r of
        None \<Rightarrow> True
      | Some d \<Rightarrow> is_finite d \<and> \<not> double_less d (Finite 0))
     \<and> (if ol_succeeded r
        then ol_payload r \<noteq> None \<and> ol_category r = Cat_Ok \<and> ol_retry_after r = None
        else ol_payload r = None \<and> ol_category r \<in> {Cat_Provider_Error, Cat_Rate_Limited})"

datatype attempt_status = At_Succeeded | At_Failed | At_Blocked | At_Rejected

record attempt_result =
  at_status :: attempt_status
  at_reason :: string
  at_payload :: "bytes option"
  at_retry_after :: "double option"
  at_events :: "request_event list"

definition rejected :: "string \<Rightarrow> attempt_result" where
  "rejected reason =
     \<lparr>at_status = At_Rejected, at_reason = reason, at_payload = None, at_retry_after = None, at_events = []\<rparr>"

section \<open>Bindings\<close>

text \<open>\<open>bd_token\<close>: built by \<open>bind_source\<close>, which alone has the token.\<close>

record source_binding =
  bd_approval :: source_approval
  bd_profile :: source_profile
  bd_approval_reference :: artifact_reference
  bd_profile_reference :: artifact_reference
  bd_date :: int
  bd_token :: bool

text \<open>Of the six components of the tuple two are always 1.\<close>

record limits =
  lm_interval :: double
  lm_count :: int
  lm_window :: double
  lm_status :: knowledge_status

definition in_force :: "source_approval \<Rightarrow> int \<Rightarrow> bool" where
  "in_force a today =
     (case (sa_effective_on a, sa_recheck_due_on a) of
        (Some e, Some r) \<Rightarrow>
          (case (parse_date e, parse_date r) of
             (Some from, Some until) \<Rightarrow> from \<le> today \<and> today < until
           | _ \<Rightarrow> False)
      | _ \<Rightarrow> False)"

definition supported :: "source_binding \<Rightarrow> bool" where
  "supported b =
     (let a = bd_approval b; p = bd_profile b
      in bd_token b \<and> sa_status a = Approved \<and> sa_online_use a \<and> sp_enabled p \<and> in_force a (bd_date b)
        \<and> sp_source p = sa_source a \<and> sp_approval_status p = sa_status a \<and> sp_credential p = sa_credential a
        \<and> sp_approval_reference p = bd_approval_reference b
        \<and> ar_id (bd_profile_reference b) = sp_artifact p \<and> ar_id (bd_approval_reference b) = sa_artifact a
        \<and> sp_max_concurrency p = 1 \<and> sp_burst p = 1 \<and> \<not> sp_cache_enabled p
        \<and> sp_batch_support p = Unsupported \<and> qs_status (sp_batch_size p) = Unsupported
        \<and> qs_status (sp_cooldown p) \<noteq> Known)"

text \<open>
  \<open>_positive\<close>: \<open>math.isfinite\<close> and \<open>float\<close> of an integer beyond the doubles raise \<open>OverflowError\<close>.
\<close>

definition positive_setting :: "quantitative_setting \<Rightarrow> string \<Rightarrow> exn + double" where
  "positive_setting q u =
     (if qs_status q \<noteq> Known \<or> qs_unit q \<noteq> u then Inl ValueError
      else case qs_value q of
          None \<Rightarrow> Inl ValueError
        | Some (Whole_Number i) \<Rightarrow>
            if \<not> is_finite (to_double (of_int i)) then Inl OverflowError
            else if i \<le> 0 then Inl ValueError else Inr (to_double (of_int i))
        | Some (Float_Number d) \<Rightarrow>
            if \<not> is_finite d \<or> \<not> double_less (Finite 0) d then Inl ValueError else Inr d)"

definition is_whole_number :: "number option \<Rightarrow> bool" where
  "is_whole_number v = (case v of Some (Whole_Number _) \<Rightarrow> True | _ \<Rightarrow> False)"

definition int_of_double :: "double \<Rightarrow> int" where
  "int_of_double d = (case d of Finite x \<Rightarrow> whole x | _ \<Rightarrow> 0)"

definition binding_limits :: "source_binding \<Rightarrow> exn + limits" where
  "binding_limits b =
     (let p = bd_profile b
      in if \<not> supported b then Inl ValueError
         else case positive_setting (sp_min_interval p) ''second'' of
             Inl e \<Rightarrow> Inl e
           | Inr interval \<Rightarrow>
               (case positive_setting (sp_rate_window p) ''second'' of
                  Inl e \<Rightarrow> Inl e
                | Inr window \<Rightarrow>
                    (case positive_setting (sp_rate_requests p) ''request'' of
                       Inl e \<Rightarrow> Inl e
                     | Inr count \<Rightarrow>
                         if \<not> is_whole_number (qs_value (sp_rate_requests p)) then Inl ValueError
                         else Inr \<lparr>lm_interval = interval, lm_count = int_of_double count, lm_window = window,
                                lm_status = qs_status (sp_cooldown p)\<rparr>)))"

section \<open>Fingerprints\<close>

text \<open>
  \<open>json.dumps(..., sort_keys=True, separators=(",", ":"), ensure_ascii=False)\<close> of nested
  dictionaries of texts, integers and \<open>None\<close>.
\<close>

datatype doc = Doc_Text string | Doc_Int int | Doc_None | Doc_Dict "(string \<times> doc) list"

definition plain_escape :: "nat \<Rightarrow> nat list" where
  "plain_escape c =
     (case map_of short_escapes c of
        Some l \<Rightarrow> [92, l]
      | None \<Rightarrow> if c < 32 then escape_unit c else [c])"

definition print_plain :: "string \<Rightarrow> nat list" where
  "print_plain s = 34 # concat (map plain_escape (code_points s)) @ [34]"

definition join_members :: "(string \<times> nat list) list \<Rightarrow> nat list" where
  "join_members ms =
     tl (concat (map (\<lambda>(k, v). 44 # print_plain k @ [58] @ v) (sort_key fst ms)))"

fun print_doc :: "doc \<Rightarrow> nat list" where
  "print_doc (Doc_Text s) = print_plain s"
| "print_doc (Doc_Int i) = print_int i"
| "print_doc Doc_None = code_points ''null''"
| "print_doc (Doc_Dict ms) = 123 # join_members (map (\<lambda>(k, v). (k, print_doc v)) ms) @ [125]"

text \<open>\<open>str.encode()\<close> of code points below 256.\<close>

definition encode_utf8 :: "nat list \<Rightarrow> bytes" where
  "encode_utf8 t =
     map word_of_nat (concat (map (\<lambda>c. if c < 128 then [c] else [192 + c div 64, 128 + c mod 64]) t))"

definition reference_doc :: "artifact_reference \<Rightarrow> doc" where
  "reference_doc r = Doc_Dict
     [(''artifact_type'', Doc_Text (ar_type r)), (''artifact_id'', Doc_Text (ar_id r)),
      (''schema_id'', Doc_Text (ar_schema r)), (''schema_version'', Doc_Int (ar_version r)),
      (''sha256'', Doc_Text (ar_sha256 r))]"

primrec role_text :: "agent_role \<Rightarrow> string" where
  "role_text Orchestrator = ''orchestrator''"
| "role_text Codex_Worker = ''codex_worker''"
| "role_text Claude_Worker = ''claude_worker''"
| "role_text Primary_Reviewer = ''primary_reviewer''"
| "role_text Antigravity_Auditor = ''antigravity_auditor''"

definition request_identity :: "source_binding \<Rightarrow> coordinator_request \<Rightarrow> doc" where
  "request_identity b q = Doc_Dict
     [(''task_id'', Doc_Text (cq_task q)), (''consumer_role'', Doc_Text (role_text (cq_role q))),
      (''operation'', Doc_Text (cq_operation q)), (''origin'', Doc_Text (cq_origin q)),
      (''resource_key'', Doc_Text (cq_resource q)), (''applicable_period'', Doc_Text (cq_period q)),
      (''freshness_identity'', Doc_Text (cq_freshness q)), (''version'', Doc_Text ''offline-request-v1''),
      (''source_id'', Doc_Text (sp_source (bd_profile b))), (''approval'', reference_doc (bd_approval_reference b)),
      (''profile'', reference_doc (bd_profile_reference b)),
      (''profile_version'', Doc_Int (sp_profile_version (bd_profile b))),
      (''policy_version'', Doc_Int (sp_policy_version (bd_profile b))),
      (''credential_scope_alias'',
       case sp_credential (bd_profile b) of None \<Rightarrow> Doc_None | Some c \<Rightarrow> Doc_Text c)]"

definition fingerprint :: "source_binding \<Rightarrow> coordinator_request \<Rightarrow> string" where
  "fingerprint b q = sha256_hex (encode_utf8 (print_doc (request_identity b q)))"

section \<open>Selection\<close>

definition selects_profile :: "string \<Rightarrow> int \<Rightarrow> int \<Rightarrow> config_artifact \<Rightarrow> bool" where
  "selects_profile source profile_version policy_version c =
     (case ca_model c of
        Profile p \<Rightarrow> sp_source p = source \<and> sp_profile_version p = profile_version
          \<and> sp_policy_version p = policy_version
      | _ \<Rightarrow> False)"

definition approves :: "string \<Rightarrow> config_artifact \<Rightarrow> bool" where
  "approves i c = (case ca_model c of Approval a \<Rightarrow> sa_artifact a = i | _ \<Rightarrow> False)"

definition approval_ref :: "source_approval \<Rightarrow> string \<Rightarrow> artifact_reference" where
  "approval_ref a sha =
     \<lparr>ar_type = ''source_approval'', ar_id = sa_artifact a, ar_schema = ''detailed-analysis.source-approval'',
      ar_version = 1, ar_sha256 = sha\<rparr>"

definition profile_ref :: "source_profile \<Rightarrow> string \<Rightarrow> artifact_reference" where
  "profile_ref p sha =
     \<lparr>ar_type = ''source_profile'', ar_id = sp_artifact p, ar_schema = ''detailed-analysis.source-profile'',
      ar_version = 1, ar_sha256 = sha\<rparr>"

definition new_binding ::
  "source_approval \<Rightarrow> string \<Rightarrow> source_profile \<Rightarrow> string \<Rightarrow> int \<Rightarrow> source_binding" where
  "new_binding a asha p psha today =
     \<lparr>bd_approval = a, bd_profile = p, bd_approval_reference = approval_ref a asha,
      bd_profile_reference = profile_ref p psha, bd_date = today, bd_token = True\<rparr>"

text \<open>The \<open>try\<close> block: the binding or the exception it raises.\<close>

definition try_bind :: "config_artifact list \<Rightarrow> string \<Rightarrow> int \<Rightarrow> int \<Rightarrow> int \<Rightarrow> exn + source_binding" where
  "try_bind artifacts source profile_version policy_version today =
     (case filter (selects_profile source profile_version policy_version) artifacts of
        [c] \<Rightarrow>
          (case ca_model c of
             Profile p \<Rightarrow>
               if \<not> valid_source_profile p then Inl ValidationError
               else (case filter (approves (ar_id (sp_approval_reference p))) artifacts of
                   [d] \<Rightarrow>
                     (case ca_model d of
                        Approval a \<Rightarrow>
                          if \<not> valid_source_approval a then Inl ValidationError
                          else (let b = new_binding a (ca_sha256 d) p (ca_sha256 c) today
                            in if \<not> valid_artifact_reference (bd_approval_reference b)
                                 \<or> \<not> valid_artifact_reference (bd_profile_reference b) then Inl ValidationError
                               else (case binding_limits b of Inl e \<Rightarrow> Inl e | Inr _ \<Rightarrow> Inr b))
                      | _ \<Rightarrow> Inl ValueError)
                 | _ \<Rightarrow> Inl ValueError)
           | _ \<Rightarrow> Inl ValueError)
      | _ \<Rightarrow> Inl ValueError)"

text \<open>
  \<open>except ValueError, TypeError, AttributeError\<close> (a \<open>ValidationError\<close> is a \<open>ValueError\<close>): any other
  exception leaves \<open>bind_source\<close>.
\<close>

definition bind_source ::
  "config_artifact list \<Rightarrow> string \<Rightarrow> int \<Rightarrow> int \<Rightarrow> int \<Rightarrow> exn + (attempt_result + source_binding)" where
  "bind_source artifacts source profile_version policy_version today =
     (case try_bind artifacts source profile_version policy_version today of
        Inr b \<Rightarrow> Inr (Inr b)
      | Inl e \<Rightarrow> if e \<in> {ValueError, ValidationError} then Inr (Inl (rejected ''invalid_source_binding'')) else Inl e)"

end
