(* ===== verification/Coordinator.thy ===== *)
theory Coordinator
  imports Sources Effects
begin

text \<open>
  \<open>requests/coordinator.py\<close>: one attempt of the in-memory coordinator. It validates the request and
  the binding, evaluates the four restrictions of the provider's rate domain in \<open>float\<close>
  arithmetic, draws the event and attempt ids, builds and validates the audit events, and only
  then changes its own state and calls the transport.

  The clocks and id factories act on the caller's part of the state and return a value or raise.
  The transport may in addition call the coordinator again: it acts on the whole state.
\<close>

section \<open>State\<close>

record domain =
  dm_limits :: limits
  dm_occupied :: bool
  dm_last_start :: "double option"
  dm_starts :: "double list"
  dm_cooldown :: double

record 'w coordinator =
  cd_domains :: "(string \<times> domain) list"
  cd_last_clock :: "double option"
  cd_world :: 'w

record 'w providers =
  pv_monotonic :: "'w \<Rightarrow> 'w \<times> (exn + double)"
  pv_utcnow :: "'w \<Rightarrow> 'w \<times> (exn + py_datetime)"
  pv_event_id :: "'w \<Rightarrow> 'w \<times> (exn + string)"
  pv_physical_id :: "'w \<Rightarrow> 'w \<times> (exn + string)"

type_synonym 'w offline_transport =
  "string \<Rightarrow> 'w coordinator \<Rightarrow> 'w coordinator \<times> (exn + offline_response)"

definition provided :: "('w \<Rightarrow> 'w \<times> (exn + 'a)) \<Rightarrow> ('w coordinator, 'a) prog" where
  "provided f = on_part cd_world cd_world_update f"

definition fresh_domain :: "limits \<Rightarrow> domain" where
  "fresh_domain l =
     \<lparr>dm_limits = l, dm_occupied = False, dm_last_start = None, dm_starts = [], dm_cooldown = Finite 0\<rparr>"

definition domain_of :: "string \<Rightarrow> limits \<Rightarrow> 'w coordinator \<Rightarrow> domain" where
  "domain_of k l s = (case map_of (cd_domains s) k of None \<Rightarrow> fresh_domain l | Some d \<Rightarrow> d)"

definition set_domain :: "string \<Rightarrow> domain \<Rightarrow> 'w coordinator \<Rightarrow> 'w coordinator" where
  "set_domain k d s = s\<lparr>cd_domains := (k, d) # filter (\<lambda>(j, _). j \<noteq> k) (cd_domains s)\<rparr>"

section \<open>The clock\<close>

text \<open>
  A reading is a \<open>float\<close>. For the text of a \<open>datetime\<close> the surface pattern of \<open>Timestamp\<close> and the
  full check agree.
\<close>

definition clock_ok :: "double \<Rightarrow> py_datetime \<Rightarrow> double option \<Rightarrow> bool" where
  "clock_ok now t before \<longleftrightarrow>
     is_finite now \<and> \<not> double_less now (Finite 0)
     \<and> (case before of None \<Rightarrow> True | Some b \<Rightarrow> \<not> double_less now b)
     \<and> utcoffset t = Some 0 \<and> is_timestamp (isoformat_of t)"

definition clock :: "'w providers \<Rightarrow> ('w coordinator, double \<times> py_datetime) prog" where
  "clock p =
     prog_bind (provided (pv_monotonic p)) (\<lambda>raw.
     prog_bind (provided (pv_utcnow p)) (\<lambda>t.
       prog_then (prog_check (\<lambda>s. clock_ok (as_double raw) t (cd_last_clock s)) ValueError)
         (prog_return (as_double raw, t))))"

section \<open>Gates\<close>

definition active_starts :: "domain \<Rightarrow> double \<Rightarrow> double list" where
  "active_starts d now = filter (\<lambda>s. double_less (double_minus now s) (lm_window (dm_limits d))) (dm_starts d)"

definition interval_left :: "domain \<Rightarrow> double \<Rightarrow> double" where
  "interval_left d now =
     (case dm_last_start d of
        None \<Rightarrow> Finite 0
      | Some s \<Rightarrow> double_max (Finite 0) (double_minus (double_plus s (lm_interval (dm_limits d))) now))"

text \<open>\<open>active[-count]\<close> is the first of the last \<open>count\<close> starts.\<close>

definition window_left :: "domain \<Rightarrow> double \<Rightarrow> double" where
  "window_left d now =
     (let active = active_starts d now; n = nat (lm_count (dm_limits d))
      in if lm_count (dm_limits d) \<le> int (length active)
         then double_max (Finite 0)
           (double_minus (double_plus (active ! (length active - n)) (lm_window (dm_limits d))) now)
         else Finite 0)"

definition remaining :: "domain \<Rightarrow> double \<Rightarrow> double list" where
  "remaining d now =
     [double_max (Finite 0) (double_minus (dm_cooldown d) now), if dm_occupied d then Finite 1 else Finite 0,
      interval_left d now, window_left d now]"

definition is_nonzero :: "double \<Rightarrow> bool" where
  "is_nonzero d \<longleftrightarrow> d \<noteq> Finite 0"

definition blocked :: "domain \<Rightarrow> double \<Rightarrow> bool" where
  "blocked d now \<longleftrightarrow> list_ex is_nonzero (remaining d now)"

definition gate_reports :: "string \<Rightarrow> double list \<Rightarrow> gate_result list" where
  "gate_reports k rs =
     map (\<lambda>(i, name, v). \<lparr>gt_scope_of = S_Provider, gt_alias = k,
         gt_outcome = (if is_nonzero v then (if i = 0 then G_Cooldown else G_Blocked) else G_Acquired),
         gt_waited_ms = 0, gt_detail = name\<rparr>)
       (zip [0 ..< 4 :: nat] (zip [''cooldown'', ''occupancy'', ''minimum_interval'', ''rolling_window''] rs))"

section \<open>Audit events\<close>

text \<open>What an attempt has drawn and decided before it touches the shared state.\<close>

record prepared =
  pp_binding :: source_binding
  pp_request :: coordinator_request
  pp_limits :: limits
  pp_now :: double
  pp_utc :: py_datetime
  pp_active :: "double list"
  pp_gates :: "gate_result list"
  pp_ids :: "string list"
  pp_physical :: "string option"

definition audit_event ::
  "prepared \<Rightarrow> nat \<Rightarrow> event_type \<Rightarrow> audit_outcome \<Rightarrow> request_error option \<Rightarrow> py_datetime \<Rightarrow> request_event" where
  "audit_event c i kind outcome error t =
     (let b = pp_binding c; q = pp_request c; p = bd_profile b in
      \<lparr>ex_id = pp_ids c ! i, ex_occurred_at = isoformat_of t, ex_type = kind, ex_task = cq_task q,
       ex_logical = cq_logical q, ex_attempt = (if 2 \<le> i then pp_physical c else None),
       ex_observability = Physical_Request, ex_role = cq_role q, ex_provider = sp_rate_domain p,
       ex_operation = cq_operation q, ex_origin = cq_origin q, ex_credential = sp_credential p,
       ex_approval = bd_approval_reference b, ex_profile = bd_profile_reference b,
       ex_fingerprint = fingerprint b q, ex_cache = Not_Applicable, ex_cache_artifact = None,
       ex_flight = Flight_Not_Applicable, ex_leader = None, ex_queue_wait_ms = 0,
       ex_gates = (if i = 0 then [] else pp_gates c), ex_outcome = outcome, ex_error = error, ex_usage = []\<rparr>)"

text \<open>Building the pydantic model validates it.\<close>

definition emit :: "request_event \<Rightarrow> ('s, request_event) prog" where
  "emit e = prog_then (prog_check (\<lambda>_. valid_request_event e) ValidationError) (prog_return e)"

section \<open>Before the transport\<close>

definition prog_lift :: "exn + 'a \<Rightarrow> ('s, 'a) prog" where
  "prog_lift r = (\<lambda>s. (s, r))"

definition draw :: "('w \<Rightarrow> 'w \<times> (exn + string)) \<Rightarrow> ('w coordinator, string) prog" where
  "draw factory =
     prog_bind (provided factory) (\<lambda>i.
       prog_then (prog_check (\<lambda>_. is_identifier i) ValidationError) (prog_return i))"

primrec draw_ids :: "'w providers \<Rightarrow> nat \<Rightarrow> ('w coordinator, string list) prog" where
  "draw_ids p 0 = prog_return []"
| "draw_ids p (Suc n) =
     prog_bind (draw (pv_event_id p)) (\<lambda>i. prog_bind (draw_ids p n) (\<lambda>is. prog_return (i # is)))"

definition rate_key :: "source_binding \<Rightarrow> string" where
  "rate_key b = sp_rate_domain (bd_profile b)"

definition blocked_result :: "domain \<Rightarrow> double \<Rightarrow> request_event list \<Rightarrow> attempt_result" where
  "blocked_result d now events =
     \<lparr>at_status = At_Blocked, at_reason = ''rate_gate_blocked'', at_payload = None,
      at_retry_after = (if dm_occupied d then None else Some (foldl double_max (hd (remaining d now)) (tl (remaining d now)))),
      at_events = events\<rparr>"

definition draw_prepared ::
  "'w providers \<Rightarrow> coordinator_request \<Rightarrow> source_binding \<Rightarrow> domain \<Rightarrow> double \<Rightarrow> py_datetime
    \<Rightarrow> ('w coordinator, prepared) prog" where
  "draw_prepared p q b d now t =
     (let gates = gate_reports (rate_key b) (remaining d now) in
      prog_then (prog_check (\<lambda>_. list_all valid_gate_result gates) ValidationError)
      (prog_bind (draw_ids p (if blocked d now then 2 else 5)) (\<lambda>ids.
       prog_then (prog_check (\<lambda>_. distinct ids) ValueError)
      (prog_bind (if blocked d now then prog_return None
           else prog_bind (draw (pv_physical_id p)) (\<lambda>i. prog_return (Some i))) (\<lambda>physical.
       prog_return
         \<lparr>pp_binding = b, pp_request = q, pp_limits = dm_limits d, pp_now = now, pp_utc = t, pp_active = active_starts d now,
          pp_gates = gates, pp_ids = ids, pp_physical = physical\<rparr>)))))"

text \<open>The \<open>try\<close> block: a result without a request, or all that is needed to send.\<close>

definition decide ::
  "'w providers \<Rightarrow> coordinator_request \<Rightarrow> source_binding \<Rightarrow> limits \<Rightarrow> double \<Rightarrow> py_datetime \<Rightarrow> domain
    \<Rightarrow> ('w coordinator, attempt_result + prepared \<times> request_event list) prog" where
  "decide p q b l now t d =
     (if dm_limits d \<noteq> l then prog_return (Inl (rejected ''conflicting_rate_domain''))
      else
        prog_bind (draw_prepared p q b d now t) (\<lambda>c.
        prog_bind (emit (audit_event c 0 E_Logical_Requested Out_Pending None t)) (\<lambda>e0.
        prog_bind (emit (audit_event c 1 E_Gates_Evaluated Out_Pending None t)) (\<lambda>e1.
          if blocked d now then prog_return (Inl (blocked_result d now [e0, e1]))
          else prog_bind (emit (audit_event c 2 E_Physical_Started Out_Pending None t)) (\<lambda>e2.
            prog_return (Inr (c, [e0, e1, e2])))))))"

definition prepare ::
  "'w providers \<Rightarrow> coordinator_request \<Rightarrow> source_binding
    \<Rightarrow> ('w coordinator, attempt_result + prepared \<times> request_event list) prog" where
  "prepare p q b =
     prog_then (prog_check (\<lambda>_. valid_coordinator_request q) ValidationError)
     (prog_bind (prog_lift (binding_limits b)) (\<lambda>l.
      prog_bind (clock p) (\<lambda>(now, t).
      prog_bind (prog_gets (domain_of (rate_key b) l)) (decide p q b l now t))))"

section \<open>The transport and after\<close>

definition occupy :: "prepared \<Rightarrow> 'w coordinator \<Rightarrow> 'w coordinator" where
  "occupy c s =
     (let k = rate_key (pp_binding c); l = pp_limits c
      in (set_domain k ((domain_of k l s)
            \<lparr>dm_occupied := True, dm_last_start := Some (pp_now c), dm_starts := pp_active c @ [pp_now c]\<rparr>) s)
         \<lparr>cd_last_clock := Some (pp_now c)\<rparr>)"

record transmission =
  tn_response :: "offline_response option"
  tn_reason :: string
  tn_retry :: "double option"
  tn_cooldown_until :: "string option"
  tn_received :: py_datetime

definition checked_send ::
  "'w offline_transport \<Rightarrow> string \<Rightarrow> ('w coordinator, offline_response option \<times> string) prog" where
  "checked_send send key =
     prog_try
       (prog_bind (send key) (\<lambda>r. prog_return
          (if response_is_valid r then (Some r, category_text (ol_category r))
           else (None, ''invalid_transport_response''))))
       (\<lambda>_. prog_return (None, ''transport_exception''))"

definition record_clock :: "double \<Rightarrow> ('w coordinator, unit) prog" where
  "record_clock now = (\<lambda>s. (s\<lparr>cd_last_clock := Some now\<rparr>, Inr ()))"

definition change_domain :: "string \<Rightarrow> limits \<Rightarrow> (domain \<Rightarrow> domain) \<Rightarrow> ('w coordinator, unit) prog" where
  "change_domain k l f = (\<lambda>s. (set_domain k (f (domain_of k l s)) s, Inr ()))"

definition received_nothing :: "string \<Rightarrow> py_datetime \<Rightarrow> transmission" where
  "received_nothing reason t =
     \<lparr>tn_response = None, tn_reason = reason, tn_retry = None, tn_cooldown_until = None, tn_received = t\<rparr>"

definition record_cooldown_of ::
  "string \<Rightarrow> limits \<Rightarrow> double \<Rightarrow> py_datetime \<Rightarrow> double \<Rightarrow> ('w coordinator, string) prog" where
  "record_cooldown_of k l received t retry =
     prog_bind (prog_gets (domain_of k l)) (\<lambda>d.
       let deadline = double_max (dm_cooldown d) (double_plus received retry)
       in if \<not> is_finite deadline then prog_raise ValueError
          else case double_minus deadline received of
            Finite secs \<Rightarrow>
              (case plus_us (wall t) (timedelta_us secs) of
                  Inl e \<Rightarrow> prog_raise e
                | Inr u \<Rightarrow> prog_then (change_domain k l (\<lambda>d. d\<lparr>dm_cooldown := deadline\<rparr>))
                    (prog_return (isoformat_of (t\<lparr>wall := u\<rparr>))))
          | _ \<Rightarrow> prog_raise OverflowError)"

definition record_response ::
  "string \<Rightarrow> limits \<Rightarrow> offline_response option \<times> string \<Rightarrow> double \<Rightarrow> py_datetime
    \<Rightarrow> ('w coordinator, transmission) prog" where
  "record_response k l r received t =
     prog_then (record_clock received)
     (case fst r of
        None \<Rightarrow> prog_return (received_nothing (snd r) t)
      | Some x \<Rightarrow>
          (case ol_retry_after x of
             None \<Rightarrow> prog_return
               \<lparr>tn_response = Some x, tn_reason = snd r, tn_retry = None, tn_cooldown_until = None,
                tn_received = t\<rparr>
           | Some retry \<Rightarrow>
               prog_bind (record_cooldown_of k l received t retry) (\<lambda>until. prog_return
                 \<lparr>tn_response = Some x, tn_reason = snd r, tn_retry = Some retry,
                  tn_cooldown_until = Some until, tn_received = t\<rparr>)))"

definition receive ::
  "'w providers \<Rightarrow> string \<Rightarrow> limits \<Rightarrow> py_datetime \<Rightarrow> offline_response option \<times> string
    \<Rightarrow> ('w coordinator, transmission) prog" where
  "receive p k l started r =
     prog_try
       (prog_bind (clock p) (\<lambda>(received, t). record_response k l r received t))
       (\<lambda>_. prog_return (received_nothing ''invalid_response_clock_or_cooldown'' started))"

definition fail_attempt ::
  "prepared \<Rightarrow> request_event list \<Rightarrow> transmission \<Rightarrow> ('s, attempt_result) prog" where
  "fail_attempt c events x =
     (let error = \<lparr>er_class = tn_reason x, er_message = ''Offline physical attempt failed.'',
            er_retry_after = tn_retry x, er_cooldown_until = tn_cooldown_until x, er_status_code = None\<rparr>
      in prog_then (prog_check (\<lambda>_. valid_request_error error) ValidationError)
        (prog_bind (emit (audit_event c 3 E_Physical_Failed Out_Failed (Some error) (tn_received x))) (\<lambda>e3.
         prog_bind (case tn_cooldown_until x of
             None \<Rightarrow> prog_return []
           | Some _ \<Rightarrow> prog_bind
               (emit (audit_event c 4 E_Cooldown_Recorded Out_Failed (Some error) (tn_received x)))
               (\<lambda>e4. prog_return [e4])) (\<lambda>more.
         prog_return \<lparr>at_status = At_Failed, at_reason = tn_reason x, at_payload = None,
           at_retry_after = tn_retry x, at_events = events @ [e3] @ more\<rparr>))))"

definition conclude_attempt ::
  "prepared \<Rightarrow> request_event list \<Rightarrow> transmission \<Rightarrow> ('s, attempt_result) prog" where
  "conclude_attempt c events x =
     (case tn_response x of
        Some r \<Rightarrow>
          if ol_succeeded r then
            prog_bind (emit (audit_event c 3 E_Physical_Succeeded Out_Succeeded None (tn_received x))) (\<lambda>e.
              prog_return \<lparr>at_status = At_Succeeded, at_reason = ''ok'', at_payload = ol_payload r,
                at_retry_after = None, at_events = events @ [e]\<rparr>)
          else fail_attempt c events x
      | None \<Rightarrow> fail_attempt c events x)"

definition attempt ::
  "'w providers \<Rightarrow> 'w offline_transport \<Rightarrow> coordinator_request \<Rightarrow> attempt_result + source_binding
    \<Rightarrow> ('w coordinator, attempt_result) prog" where
  "attempt p send q binding =
     (case binding of
        Inl _ \<Rightarrow> prog_return (rejected ''invalid_source_binding'')
      | Inr b \<Rightarrow>
          prog_bind (prog_try (prepare p q b) (\<lambda>_. prog_return (Inl (rejected ''invalid_attempt_input'')))) (\<lambda>x.
            case x of
              Inl r \<Rightarrow> prog_return r
            | Inr (c, events) \<Rightarrow>
                (let k = rate_key b; l = pp_limits c in
                 prog_then (\<lambda>s. (occupy c s, Inr ()))
                (prog_bind (checked_send send (cq_resource q)) (\<lambda>r.
                 prog_bind (receive p k l (pp_utc c) r) (\<lambda>y.
                 prog_then (change_domain k l (\<lambda>d. d\<lparr>dm_occupied := False\<rparr>))
                   (conclude_attempt c events y)))))))"

end
