(* ===== verification/Coordination.thy ===== *)
theory Coordination
  imports Coordinator
begin

text \<open>
  What the offline coordinator guarantees: an attempt always answers, sends at most one request per
  rate domain at a time, and keeps the interval, the rolling window and the cooldown of the domain
  in the \<open>float\<close> arithmetic it computes with; transports that call the coordinator again included.
\<close>

section \<open>Comparing doubles\<close>

definition is_double :: "double \<Rightarrow> bool" where
  "is_double d = (case d of Finite x \<Rightarrow> on_grid x | Not_A_Number \<Rightarrow> False | _ \<Rightarrow> True)"

lemma is_double_to_double [simp]: "is_double (to_double x)"
  by (simp add: is_double_def to_double_def)

lemma is_double_as_double: "is_finite (as_double d) \<Longrightarrow> is_double (as_double d)"
  by (cases d) (simp_all add: as_double_def is_finite_def)

lemma double_less_irrefl [simp]: "\<not> double_less a a"
  by (cases a) (simp_all add: double_less_def)

lemma double_less_trans: "double_less a b \<Longrightarrow> double_less b c \<Longrightarrow> double_less a c"
  by (cases a; cases b; cases c) (simp_all add: double_less_def)

lemma double_less_linear: "a \<noteq> Not_A_Number \<Longrightarrow> b \<noteq> Not_A_Number \<Longrightarrow> double_less a b \<or> a = b \<or> double_less b a"
  by (cases a; cases b) (auto simp: double_less_def)

text \<open>\<open>a \<le> b\<close>, as the negation of \<open>b < a\<close>.\<close>

lemma not_less_trans:
  "b \<noteq> Not_A_Number \<Longrightarrow> \<not> double_less b a \<Longrightarrow> \<not> double_less c b \<Longrightarrow> \<not> double_less c a"
  by (cases a; cases b; cases c) (auto simp: double_less_def)

lemma to_double_mono:
  assumes "x \<le> y"
  shows "\<not> double_less (to_double y) (to_double x)"
proof -
  have le: "nearest x \<le> nearest y" using assms by (rule nearest_mono)
  have sign: "(0 < z \<longrightarrow> 0 \<le> nearest z) \<and> (z \<le> 0 \<longrightarrow> nearest z \<le> 0)" for z
    using nearest_nonneg [of z] nearest_nonneg [of "- z"] by (auto simp: nearest_minus)
  let ?m = "2 ^ 53 * power2 971"
  have m: "0 < ?m" by simp
  consider "\<bar>nearest x\<bar> < ?m" "\<bar>nearest y\<bar> < ?m" | "\<not> \<bar>nearest x\<bar> < ?m" "0 < x"
    | "\<not> \<bar>nearest x\<bar> < ?m" "\<not> 0 < x" | "\<bar>nearest x\<bar> < ?m" "\<not> \<bar>nearest y\<bar> < ?m" by blast
  then show ?thesis
  proof cases
    case 1
    then show ?thesis using le by (simp add: to_double_def double_less_def)
  next
    case 2
    then have "?m \<le> nearest x" using sign [of x] by (auto simp: abs_if split: if_splits)
    then have "\<not> \<bar>nearest y\<bar> < ?m" "0 < y" using le m assms 2(2) by linarith+
    then show ?thesis using 2 by (simp add: to_double_def double_less_def)
  next
    case 3
    then show ?thesis by (auto simp: to_double_def double_less_def split: double.splits)
  next
    case 4
    have "0 < y"
    proof (rule ccontr)
      assume "\<not> 0 < y"
      then have "nearest y \<le> - ?m" using sign [of y] 4(2) by linarith
      with le 4(1) show False by linarith
    qed
    then show ?thesis using 4 by (simp add: to_double_def double_less_def)
  qed
qed

text \<open>A positive difference of doubles rounds to a positive one.\<close>

lemma max_zero_minus:
  assumes "is_double a" "is_double b" "is_finite b"
  shows "double_max (Finite 0) (double_minus a b) = Finite 0 \<longleftrightarrow> \<not> double_less b a"
proof -
  obtain y where b: "b = Finite y" "on_grid y"
    using assms(2,3) by (cases b) (auto simp: is_double_def is_finite_def)
  show ?thesis
  proof (cases a)
    case (Finite x)
    then have "on_grid (x - y)" using assms(1) b(2) by (simp add: is_double_def on_grid_diff)
    moreover have "nearest (x - y) \<le> 0" if "x \<le> y"
      using nearest_nonneg [of "y - x"] nearest_minus [of "x - y"] that by simp
    ultimately show ?thesis
      using nearest_positive [of "x - y"] Finite b(1)
      by (auto simp: double_max_def double_minus_def double_plus_def double_uminus_def double_less_def to_double_def)
  qed (use assms(1) b in \<open>auto simp: is_double_def double_max_def double_minus_def double_plus_def
        double_uminus_def double_less_def\<close>)
qed

lemma double_minus_mono:
  assumes "is_finite b" "is_finite c" "\<not> double_less c b" "double_less (double_minus c s) w"
  shows "double_less (double_minus b s) w"
proof -
  obtain y z where b: "b = Finite y" and c: "c = Finite z" and "y \<le> z"
    using assms(1-3) by (cases b; cases c) (auto simp: is_finite_def double_less_def)
  show ?thesis
  proof (cases s)
    case (Finite x)
    have "to_double (z - x) \<noteq> Not_A_Number" for x by (simp add: to_double_def)
    moreover have "\<not> double_less (to_double (z - x)) (to_double (y - x))"
      by (rule to_double_mono) (simp add: \<open>y \<le> z\<close>)
    moreover have "double_minus c s = to_double (z - x)" "double_minus b s = to_double (y - x)"
      by (simp_all add: b c Finite double_minus_def double_plus_def double_uminus_def)
    ultimately show ?thesis
      using assms(4) double_less_linear [of "to_double (z - x)" "to_double (y - x)"] double_less_trans
      by (metis double_less_linear double.distinct to_double_def)
  qed (use assms(4) b c in \<open>auto simp: double_minus_def double_plus_def double_uminus_def\<close>)
qed

lemma double_plus_mono:
  assumes "is_finite a" "is_finite b" "\<not> double_less b a" "double_less t (double_plus a w)"
  shows "double_less t (double_plus b w)"
proof -
  obtain x y where a: "a = Finite x" and b: "b = Finite y" and "x \<le> y"
    using assms(1-3) by (cases a; cases b) (auto simp: is_finite_def double_less_def)
  show ?thesis
  proof (cases w)
    case (Finite z)
    have "\<not> double_less (to_double (y + z)) (to_double (x + z))"
      by (rule to_double_mono) (simp add: \<open>x \<le> y\<close>)
    moreover have "to_double u \<noteq> Not_A_Number" for u by (simp add: to_double_def)
    moreover have "double_plus a w = to_double (x + z)" "double_plus b w = to_double (y + z)"
      by (simp_all add: a b Finite double_plus_def)
    ultimately show ?thesis using assms(4) double_less_linear double_less_trans by metis
  qed (use assms(4) a b in \<open>auto simp: double_plus_def\<close>)
qed

section \<open>Inversion of a program that returns\<close>

lemma prog_Inr:
  "prog_return a s = (s', Inr b) \<longleftrightarrow> s' = s \<and> b = a"
  "prog_raise e s \<noteq> (s', Inr b)"
  "prog_gets g s = (s', Inr c) \<longleftrightarrow> s' = s \<and> c = g s"
  "prog_check q e s = (s', Inr u) \<longleftrightarrow> s' = s \<and> q s"
  "prog_lift r s = (s', Inr d) \<longleftrightarrow> s' = s \<and> r = Inr d"
  "prog_bind m f s = (s', Inr y) \<longleftrightarrow> (\<exists>s1 x. m s = (s1, Inr x) \<and> f x s1 = (s', Inr y))"
  "prog_then m1 n s = (s', Inr y) \<longleftrightarrow> (\<exists>s1. m1 s = (s1, Inr ()) \<and> n s1 = (s', Inr y))"
  "emit ev s = (s', Inr ev') \<longleftrightarrow> s' = s \<and> ev' = ev \<and> valid_request_event ev"
  by (auto simp: prog_simps prog_lift_def emit_def split: prod.splits sum.splits)

lemma prog_InrE:
  assumes "prog_bind m f s = (s', Inr y)"
  obtains s1 x where "m s = (s1, Inr x)" "f x s1 = (s', Inr y)"
  using assms unfolding prog_Inr by blast

lemma then_InrE:
  assumes "prog_then m n s = (s', Inr y)"
  obtains s1 where "m s = (s1, Inr ())" "n s1 = (s', Inr y)"
  using assms unfolding prog_Inr by blast

definition shared :: "'w coordinator \<Rightarrow> (string \<times> domain) list \<times> double option" where
  "shared s = (cd_domains s, cd_last_clock s)"

lemma sharedD: "shared s' = shared s \<Longrightarrow> cd_domains s' = cd_domains s \<and> cd_last_clock s' = cd_last_clock s"
  by (simp add: shared_def)

lemma domain_of_shared: "shared s' = shared s \<Longrightarrow> domain_of k l s' = domain_of k l s"
  by (simp add: shared_def domain_of_def)

text \<open>What is done before the transport leaves the shared state alone.\<close>

interpretation before: program_preorder "\<lambda>s s'. shared s' = shared s"
  by unfold_locales simp_all

abbreviation "quiet m \<equiv> prog_rel (\<lambda>s s'. shared s' = shared s) m"

lemma quiet_provided: "quiet (provided f)"
  by (rule prog_relI) (simp add: provided_def shared_def prog_simps split: prod.splits)

lemma quiet_clock: "quiet (clock p)"
  unfolding clock_def by (intro before.prog_steps quiet_provided)

lemma quiet_draw: "quiet (draw f)"
  unfolding draw_def by (intro before.prog_steps quiet_provided)

lemma quiet_draw_ids: "quiet (draw_ids p n)"
  by (induction n) (auto intro!: before.prog_steps quiet_draw)

lemma quiet_emit: "quiet (emit e)"
  unfolding emit_def by (intro before.prog_steps)

lemma quiet_draw_prepared: "quiet (draw_prepared p q b d now t)"
  unfolding draw_prepared_def Let_def by (intro before.prog_steps quiet_draw_ids quiet_draw)

lemma quiet_lift: "quiet (prog_lift r)"
  by (rule prog_relI) (simp add: prog_lift_def)

lemma quiet_prepare: "quiet (prepare p q b)"
  unfolding prepare_def decide_def split_def
  by (intro before.prog_steps quiet_clock quiet_draw_prepared quiet_emit quiet_lift)

lemma clock_returns:
  assumes "clock p s = (s', Inr (now, t))"
  shows "clock_ok now t (cd_last_clock s) \<and> is_double now \<and> is_finite now \<and> now \<noteq> Not_A_Number"
proof -
  obtain s1 raw where raw: "provided (pv_monotonic p) s = (s1, Inr raw)"
    and rest: "prog_bind (provided (pv_utcnow p)) (\<lambda>t. prog_then
        (prog_check (\<lambda>s. clock_ok (as_double raw) t (cd_last_clock s)) ValueError)
        (prog_return (as_double raw, t))) s1 = (s', Inr (now, t))"
    using assms unfolding clock_def prog_Inr by blast
  obtain s2 where s2: "provided (pv_utcnow p) s1 = (s2, Inr t)" "now = as_double raw"
    "clock_ok (as_double raw) t (cd_last_clock s2)"
    using rest unfolding prog_Inr by auto
  have "shared s1 = shared s" "shared s2 = shared s1"
    using prog_relD [OF quiet_provided raw] prog_relD [OF quiet_provided s2(1)] by simp_all
  then have "cd_last_clock s2 = cd_last_clock s" by (simp add: shared_def)
  moreover have "is_finite now" using s2(2,3) by (simp add: clock_ok_def)
  ultimately show ?thesis using s2 is_double_as_double [of raw] by (auto simp: is_finite_def)
qed

lemma draw_ids_returns: "draw_ids p n s = (s', Inr ids) \<Longrightarrow> length ids = n \<and> list_all is_identifier ids"
proof (induction n arbitrary: s ids)
  case (Suc n)
  then show ?case by (fastforce simp: prog_Inr draw_def)
qed (simp add: prog_Inr)

definition ready :: "source_binding \<Rightarrow> coordinator_request \<Rightarrow> domain \<Rightarrow> prepared \<Rightarrow> request_event list \<Rightarrow> bool" where
  "ready b q d c es \<longleftrightarrow>
     pp_binding c = b \<and> pp_request c = q \<and> pp_limits c = dm_limits d \<and> pp_active c = active_starts d (pp_now c)
     \<and> length (pp_ids c) = 5 \<and> distinct (pp_ids c) \<and> list_all is_identifier (pp_ids c)
     \<and> (\<exists>i. pp_physical c = Some i \<and> is_identifier i)
     \<and> es = [audit_event c 0 E_Logical_Requested Out_Pending None (pp_utc c),
         audit_event c 1 E_Gates_Evaluated Out_Pending None (pp_utc c),
         audit_event c 2 E_Physical_Started Out_Pending None (pp_utc c)]
     \<and> list_all valid_request_event es"

lemma draw_prepared_returns:
  assumes "draw_prepared p q b d now t s = (s', Inr c)"
  shows "pp_binding c = b \<and> pp_request c = q \<and> pp_limits c = dm_limits d \<and> pp_now c = now \<and> pp_utc c = t
    \<and> pp_active c = active_starts d now \<and> distinct (pp_ids c) \<and> list_all is_identifier (pp_ids c)
    \<and> length (pp_ids c) = (if blocked d now then 2 else 5)
    \<and> (\<not> blocked d now \<longrightarrow> (\<exists>i. pp_physical c = Some i \<and> is_identifier i))"
proof -
  obtain s1 ids where ids: "draw_ids p (if blocked d now then 2 else 5) s = (s1, Inr ids)" "distinct ids"
    and rest: "prog_bind (if blocked d now then prog_return None
        else prog_bind (draw (pv_physical_id p)) (\<lambda>i. prog_return (Some i))) (\<lambda>physical. prog_return
         \<lparr>pp_binding = b, pp_request = q, pp_limits = dm_limits d, pp_now = now, pp_utc = t,
          pp_active = active_starts d now, pp_gates = gate_reports (rate_key b) (remaining d now),
          pp_ids = ids, pp_physical = physical\<rparr>) s1 = (s', Inr c)"
    using assms unfolding draw_prepared_def Let_def prog_Inr by blast
  obtain s2 physical where physical: "(if blocked d now then prog_return None
        else prog_bind (draw (pv_physical_id p)) (\<lambda>i. prog_return (Some i))) s1 = (s2, Inr physical)"
    and c: "c = \<lparr>pp_binding = b, pp_request = q, pp_limits = dm_limits d, pp_now = now, pp_utc = t,
          pp_active = active_starts d now, pp_gates = gate_reports (rate_key b) (remaining d now),
          pp_ids = ids, pp_physical = physical\<rparr>"
    using rest unfolding prog_Inr by blast
  have "\<not> blocked d now \<longrightarrow> (\<exists>i. physical = Some i \<and> is_identifier i)"
    using physical by (auto simp: prog_Inr draw_def)
  with draw_ids_returns [OF ids(1)] ids(2) show ?thesis by (simp add: c)
qed

lemma prepare_returns:
  assumes "prepare p q b s = (s', Inr (Inr (c, es)))"
  obtains l where "binding_limits b = Inr l" "dm_limits (domain_of (rate_key b) l s) = l"
    "\<not> blocked (domain_of (rate_key b) l s) (pp_now c)"
    "clock_ok (pp_now c) (pp_utc c) (cd_last_clock s)" "is_double (pp_now c)" "is_finite (pp_now c)"
    "ready b q (domain_of (rate_key b) l s) c es" "shared s' = shared s"
proof -
  let ?k = "rate_key b"
  obtain l s1 now t where l: "binding_limits b = Inr l" and clock: "clock p s = (s1, Inr (now, t))"
    and rest: "decide p q b l now t (domain_of ?k l s1) s1 = (s', Inr (Inr (c, es)))"
    using assms unfolding prepare_def by (auto simp: prog_Inr)
  have same: "shared s1 = shared s" using prog_relD [OF quiet_clock clock] .
  let ?d = "domain_of ?k l s"
  have d: "domain_of ?k l s1 = ?d" by (rule domain_of_shared [OF same])
  have limits: "dm_limits ?d = l" using rest by (auto simp: decide_def prog_Inr d split: if_splits)
  obtain s2 c0 where c0: "draw_prepared p q b ?d now t s1 = (s2, Inr c0)"
    and emitted: "prog_bind (emit (audit_event c0 0 E_Logical_Requested Out_Pending None t)) (\<lambda>e0.
          prog_bind (emit (audit_event c0 1 E_Gates_Evaluated Out_Pending None t)) (\<lambda>e1.
            if blocked ?d now then prog_return (Inl (blocked_result ?d now [e0, e1]))
            else prog_bind (emit (audit_event c0 2 E_Physical_Started Out_Pending None t)) (\<lambda>e2.
              prog_return (Inr (c0, [e0, e1, e2]))))) s2 = (s', Inr (Inr (c, es)))"
    using rest limits by (auto simp: decide_def prog_Inr d simp del: One_nat_def)
  have free: "\<not> blocked ?d now" using emitted by (auto simp: prog_Inr split: if_splits)
  with emitted have c: "c = c0" and es: "es = [audit_event c0 0 E_Logical_Requested Out_Pending None t,
      audit_event c0 1 E_Gates_Evaluated Out_Pending None t, audit_event c0 2 E_Physical_Started Out_Pending None t]"
    "list_all valid_request_event es"
    by (auto simp: prog_Inr)
  note drawn = draw_prepared_returns [OF c0]
  have "ready b q ?d c es" using drawn free es by (simp add: ready_def c)
  moreover have "shared s' = shared s" using prog_relD [OF quiet_prepare assms] .
  ultimately show thesis
    using that [OF l limits] clock_returns [OF clock] drawn free by (simp add: c)
qed

section \<open>An attempt always answers\<close>

definition events_ok :: "request_event list \<Rightarrow> bool" where
  "events_ok es \<longleftrightarrow> list_all valid_request_event es \<and> distinct (map ex_id es)"

lemma audit_event_id: "ex_id (audit_event c i kind out err t) = pp_ids c ! i"
  by (simp add: audit_event_def Let_def)

lemma prepare_answers:
  assumes "prepare p q b s = (s', Inr (Inl r))"
  shows "events_ok (at_events r)"
proof -
  obtain l s1 now t where "decide p q b l now t (domain_of (rate_key b) l s1) s1 = (s', Inr (Inl r))"
    using assms unfolding prepare_def by (auto simp: prog_Inr)
  then show ?thesis
    by (auto simp: decide_def prog_Inr events_ok_def rejected_def blocked_result_def audit_event_id
        nth_eq_iff_index_eq dest!: draw_prepared_returns split: if_splits)
qed

text \<open>The event of the start was valid, so the later events of the same attempt are.\<close>

lemma later_event_valid:
  assumes "valid_request_event (audit_event c 2 kind0 out0 err0 t0)" "pp_physical c \<noteq> None" "2 \<le> i"
    and "is_identifier (pp_ids c ! i)" "is_timestamp (isoformat_of t)"
    and "unless_None valid_request_error err" "out = Out_Failed \<longleftrightarrow> err \<noteq> None"
  shows "valid_request_event (audit_event c i kind out err t)"
  using assms
  by (auto simp: valid_request_event_def event_fields_ok_def event_boundaries_ok_def audit_event_def Let_def)

lemma category_identifier: "is_identifier (category_text k)"
proof -
  have "is_identifier ''ok''" "is_identifier ''provider_error''" "is_identifier ''rate_limited''" by code_simp+
  then show ?thesis by (cases k) simp_all
qed

lemma checked_send_answers:
  "\<exists>s' x reason. checked_send send key s = (s', Inr (x, reason)) \<and> is_identifier reason
     \<and> unless_None response_is_valid x"
proof -
  obtain s' r where run: "send key s = (s', r)" by fastforce
  have "is_identifier ''invalid_transport_response''" "is_identifier ''transport_exception''" by code_simp+
  then show ?thesis
    using run category_identifier by (cases r) (auto simp: checked_send_def prog_simps unless_None_def)
qed

lemma append_ends: "x = a @ b \<Longrightarrow> \<exists>ds. x = ds @ b"
  by blast

lemma iso_text_ends: "\<exists>ds. iso_text [y, m, d, h, mi, sec, us] = ds @ ''+00:00''"
proof -
  have "iso_text [y, m, d, h, mi, sec, us]
    = (pad 4 y @ ''-'' @ pad 2 m @ ''-'' @ pad 2 d @ ''T'' @ pad 2 h @ '':'' @ pad 2 mi @ '':'' @ pad 2 sec
      @ (if us = 0 then [] else ''.'' @ pad 6 us)) @ ''+00:00''"
    unfolding iso_text.simps(1) append_assoc by (rule refl)
  then show ?thesis by (rule append_ends)
qed

lemma isoformat_of_utc: "isoformat_of \<lparr>wall = u, utcoffset = Some 0\<rparr> = isoformat u"
proof -
  obtain y m d where "ord2ymd (nat (u div 86400000000)) = (y, m, d)" by (rule prod_cases3)
  then have "iso_fields u = [y, m, d, nat (u mod 86400000000 div 3600000000),
      nat (u mod 86400000000 mod 3600000000 div 60000000), nat (u mod 86400000000 mod 60000000 div 1000000),
      nat (u mod 86400000000 mod 1000000)]"
    unfolding iso_fields_def Let_def by (simp only: prod.case)
  then have "\<exists>ds. isoformat u = ds @ ''+00:00''"
    unfolding isoformat_def by (simp only: iso_text_ends)
  then obtain ds where "isoformat u = ds @ ''+00:00''" by (rule exE)
  moreover have "digit 0 = CHR ''0''" by code_simp
  then have "offset_text 0 = ''+00:00''" by (simp add: offset_text_def numeral_2_eq_2)
  ultimately show ?thesis by (simp add: isoformat_of_def)
qed

lemma cooldown_text:
  assumes "record_cooldown_of k l received t retry s = (s', Inr text)" "utcoffset t = Some 0"
  shows "is_timestamp text"
proof -
  obtain u where "valid_instant u" "text = isoformat_of (t\<lparr>wall := u\<rparr>)"
    using assms(1) by (auto simp: record_cooldown_of_def Let_def prog_Inr plus_us_Inr
        split: double.splits sum.splits if_splits)
  moreover have "t\<lparr>wall := u\<rparr> = \<lparr>wall = u, utcoffset = Some 0\<rparr>" for u
    using assms(2) by (cases t) simp
  ultimately show ?thesis by (simp add: isoformat_of_utc isoformat_timestamp)
qed

definition answer_ok :: "transmission \<Rightarrow> bool" where
  "answer_ok y \<longleftrightarrow> is_timestamp (isoformat_of (tn_received y)) \<and> is_identifier (tn_reason y)
     \<and> unless_None is_timestamp (tn_cooldown_until y) \<and> unless_None (\<lambda>d. \<not> double_less d (Finite 0)) (tn_retry y)"

lemma receive_answers:
  assumes "is_timestamp (isoformat_of t0)" "is_identifier (snd r)" "unless_None response_is_valid (fst r)"
  shows "\<exists>s' y. receive p k l t0 r s = (s', Inr y) \<and> answer_ok y"
proof -
  let ?body = "prog_bind (clock p) (\<lambda>(received, t). record_response k l r received t)"
  have ok: "answer_ok y" if run: "?body s = (s', Inr y)" for s' y
  proof -
    obtain s1 received t where clock: "clock p s = (s1, Inr (received, t))"
      and rest: "record_response k l r received t s1 = (s', Inr y)"
      using run unfolding prog_Inr by auto
    have t: "utcoffset t = Some 0" "is_timestamp (isoformat_of t)"
      using clock_returns [OF clock] by (auto simp: clock_ok_def)
    show ?thesis
    proof (cases "\<exists>x retry. fst r = Some x \<and> ol_retry_after x = Some retry")
      case True
      then obtain x retry where x: "fst r = Some x" "ol_retry_after x = Some retry" by blast
      then show ?thesis
        using rest t assms(2,3) cooldown_text [OF _ t(1)] 
        by (auto simp: record_response_def answer_ok_def prog_Inr response_is_valid_def unless_None_def)
    next
      case False
      then show ?thesis
        using rest t assms(2,3)
        by (auto simp: record_response_def answer_ok_def prog_Inr received_nothing_def unless_None_def
            split: option.splits)
    qed
  qed
  have failed: "answer_ok (received_nothing ''invalid_response_clock_or_cooldown'' t0)"
  proof -
    have "is_identifier ''invalid_response_clock_or_cooldown''" by code_simp
    then show ?thesis using assms(1) by (simp add: answer_ok_def received_nothing_def unless_None_def)
  qed
  obtain s' v where run: "?body s = (s', v)" by fastforce
  then show ?thesis
    using ok failed by (cases v) (auto simp: receive_def prog_simps(7) prog_simps(1))
qed

lemma conclude_answers:
  assumes "ready b q d c es" "answer_ok y"
  shows "\<exists>r. conclude_attempt c es y s = (s, Inr r) \<and> events_ok (at_events r)"
proof -
  obtain i0 i1 i2 i3 i4 where ids: "pp_ids c = [i0, i1, i2, i3, i4]"
    using assms(1) unfolding ready_def by (auto simp: numeral_eq_Suc length_Suc_conv)
  have distinct: "distinct [i0, i1, i2, i3, i4]" and idents: "is_identifier i3" "is_identifier i4"
    using assms(1) by (auto simp: ready_def ids)
  let ?e0 = "audit_event c 0 E_Logical_Requested Out_Pending None (pp_utc c)"
  let ?e1 = "audit_event c 1 E_Gates_Evaluated Out_Pending None (pp_utc c)"
  let ?e2 = "audit_event c 2 E_Physical_Started Out_Pending None (pp_utc c)"
  have es: "es = [?e0, ?e1, ?e2]" "list_all valid_request_event es" "pp_physical c \<noteq> None"
    using assms(1) by (auto simp: ready_def)
  have later: "valid_request_event (audit_event c n kind out err (tn_received y))"
    if "n \<in> {3, 4}" "unless_None valid_request_error err" "out = Out_Failed \<longleftrightarrow> err \<noteq> None" for n kind out err
    by (rule later_event_valid [OF _ es(3)]) (use es assms(2) idents that in \<open>auto simp: answer_ok_def ids\<close>)
  let ?err = "\<lparr>er_class = tn_reason y, er_message = ''Offline physical attempt failed.'',
            er_retry_after = tn_retry y, er_cooldown_until = tn_cooldown_until y, er_status_code = None\<rparr>"
  have "is_text ''Offline physical attempt failed.''" by code_simp
  then have err: "valid_request_error ?err"
    using assms(2) by (simp add: valid_request_error_def answer_ok_def unless_None_def)
  note ok3 = later [where n = 3 and kind = E_Physical_Failed and err = "Some ?err" and out = Out_Failed]
  note ok4 = later [where n = 4 and kind = E_Cooldown_Recorded and err = "Some ?err" and out = Out_Failed]
  note ok5 = later [where n = 3 and kind = E_Physical_Succeeded and err = None and out = Out_Succeeded]
  have "\<exists>r. fail_attempt c es y s = (s, Inr r) \<and> events_ok (at_events r)"
    using ok3 ok4 err es distinct
    by (cases "tn_cooldown_until y")
      (auto simp: fail_attempt_def Let_def prog_simps emit_def events_ok_def audit_event_id ids unless_None_def)
  moreover have "\<exists>r. conclude_attempt c es y s = (s, Inr r) \<and> events_ok (at_events r)"
    if "tn_response y = Some z" "ol_succeeded z" for z
    using ok5 es distinct that
    by (auto simp: conclude_attempt_def prog_simps emit_def events_ok_def audit_event_id ids unless_None_def)
  ultimately show ?thesis by (auto simp: conclude_attempt_def split: option.split)
qed

text \<open>An attempt that reaches the transport, step by step.\<close>

definition released :: "string \<Rightarrow> limits \<Rightarrow> 'w coordinator \<Rightarrow> 'w coordinator" where
  "released k l s = set_domain k ((domain_of k l s)\<lparr>dm_occupied := False\<rparr>) s"

lemma attempt_sent:
  assumes "prepare p q b s = (s1, Inr (Inr (c, es)))"
    and "checked_send send (cq_resource q) (occupy c s1) = (s2, Inr r)"
    and "receive p (rate_key b) (pp_limits c) (pp_utc c) r s2 = (s3, Inr y)"
  shows "attempt p send q (Inr b) s = conclude_attempt c es y (released (rate_key b) (pp_limits c) s3)"
proof -
  have first: "prog_try (prepare p q b) h s = (s1, Inr (Inr (c, es)))" for h
    using assms(1) by (simp add: prog_run(7))
  show ?thesis
    unfolding attempt_def sum.case Let_def prog_run(5) first prod.case prog_run(6) assms(2,3) change_domain_def
      released_def ..
qed

lemma attempt_unsent:
  "attempt p send q (Inl r) s = (s, Inr (rejected ''invalid_source_binding''))"
  "prepare p q b s = (s1, Inl e) \<Longrightarrow> attempt p send q (Inr b) s = (s1, Inr (rejected ''invalid_attempt_input''))"
  "prepare p q b s = (s1, Inr (Inl z)) \<Longrightarrow> attempt p send q (Inr b) s = (s1, Inr z)"
  by (simp_all add: attempt_def prog_simps)

lemma sent_attempt:
  assumes prep: "prepare p q b s = (s1, Inr (Inr (c, es)))"
  obtains s2 z s3 y r where "checked_send send (cq_resource q) (occupy c s1) = (s2, Inr z)"
    "receive p (rate_key b) (pp_limits c) (pp_utc c) z s2 = (s3, Inr y)"
    "conclude_attempt c es y (released (rate_key b) (pp_limits c) s3)
      = (released (rate_key b) (pp_limits c) s3, Inr r)"
    "events_ok (at_events r)" "attempt p send q (Inr b) s = (released (rate_key b) (pp_limits c) s3, Inr r)"
proof -
  obtain d where ready: "ready b q d c es" and t: "is_timestamp (isoformat_of (pp_utc c))"
    using prepare_returns [OF prep] by (metis clock_ok_def)
  obtain s2 z where sent: "checked_send send (cq_resource q) (occupy c s1) = (s2, Inr z)"
    and reply: "is_identifier (snd z)" "unless_None response_is_valid (fst z)"
    using checked_send_answers [of send "cq_resource q" "occupy c s1"] by auto
  obtain s3 y where received: "receive p (rate_key b) (pp_limits c) (pp_utc c) z s2 = (s3, Inr y)"
    and y: "answer_ok y"
    using receive_answers [OF t reply] by blast
  obtain r where r: "conclude_attempt c es y (released (rate_key b) (pp_limits c) s3)
      = (released (rate_key b) (pp_limits c) s3, Inr r)" "events_ok (at_events r)"
    using conclude_answers [OF ready y, of "released (rate_key b) (pp_limits c) s3"] by (elim exE conjE)
  show thesis
    using that [OF sent received r] attempt_sent [OF prep sent received] r(1) by simp
qed

text \<open>
  C29: An attempt of the offline coordinator always returns a result and never raises, whatever the
  clocks, the id factories and the transport do, a transport that raises, answers nonsense or calls
  the coordinator again included. The audit events of the result are valid and have different ids.
\<close>

theorem attempt_always_answers:
  "\<exists>s' r. attempt p send q binding s = (s', Inr r) \<and> events_ok (at_events r)"
proof (cases binding)
  case (Inl r)
  then show ?thesis by (simp add: attempt_unsent rejected_def events_ok_def)
next
  case (Inr b)
  obtain s1 v where prep: "prepare p q b s = (s1, v)" by fastforce
  consider e where "v = Inl e" | r where "v = Inr (Inl r)" | c es where "v = Inr (Inr (c, es))"
    by (metis old.sum.exhaust surj_pair)
  then show ?thesis
  proof cases
    case 1
    then show ?thesis using prep Inr by (simp add: attempt_unsent(2) rejected_def events_ok_def)
  next
    case 2
    then show ?thesis using prep Inr prepare_answers by (auto simp: attempt_unsent(3))
  next
    case 3
    then obtain s4 r where "attempt p send q (Inr b) s = (s4, Inr r)" "events_ok (at_events r)"
      using sent_attempt [of p q b s s1 c es send] prep by metis
    then show ?thesis using Inr by blast
  qed
qed

section \<open>Domains\<close>

abbreviation "domains s \<equiv> map_of (cd_domains s)"

lemma map_of_without: "map_of (filter (\<lambda>(j, _). j \<noteq> k) xs) = (map_of xs)(k := None)"
  by (induction xs) (auto simp: fun_eq_iff)

lemma domains_set: "domains (set_domain k d s) = (domains s)(k \<mapsto> d)"
  by (simp add: set_domain_def map_of_without)

lemma set_domain_clock [simp]: "cd_last_clock (set_domain k d s) = cd_last_clock s"
  by (simp add: set_domain_def)

lemma domain_of_cases: "domain_of k l s = (case domains s k of None \<Rightarrow> fresh_domain l | Some d \<Rightarrow> d)"
  by (simp add: domain_of_def)

lemma occupy_effect:
  assumes "k = rate_key (pp_binding c)" "l = pp_limits c"
  shows "domains (occupy c s) = (domains s)(k \<mapsto> (domain_of k l s)
      \<lparr>dm_occupied := True, dm_last_start := Some (pp_now c), dm_starts := pp_active c @ [pp_now c]\<rparr>)"
    "cd_last_clock (occupy c s) = Some (pp_now c)"
proof -
  have "domains (s\<lparr>cd_last_clock := x\<rparr>) = domains s" for s :: "'w coordinator" and x by simp
  then show "domains (occupy c s) = (domains s)(k \<mapsto> (domain_of k l s)
      \<lparr>dm_occupied := True, dm_last_start := Some (pp_now c), dm_starts := pp_active c @ [pp_now c]\<rparr>)"
    by (simp add: occupy_def Let_def assms domains_set)
qed (simp add: occupy_def Let_def)

text \<open>The clock of the coordinator never goes back.\<close>

definition clock_kept :: "'w coordinator \<Rightarrow> 'w coordinator \<Rightarrow> bool" where
  "clock_kept s s' \<longleftrightarrow> cd_last_clock s' = cd_last_clock s
     \<or> (\<exists>c. cd_last_clock s' = Some c \<and> is_finite c
          \<and> (case cd_last_clock s of None \<Rightarrow> True | Some b \<Rightarrow> \<not> double_less c b))"

lemma record_cooldown_effect:
  assumes "record_cooldown_of k l received t retry s = (s', v)"
  shows "cd_last_clock s' = cd_last_clock s \<and> (domains s' = domains s
    \<or> (let deadline = double_max (dm_cooldown (domain_of k l s)) (double_plus received retry)
       in is_finite deadline \<and> domains s' = (domains s)(k \<mapsto> (domain_of k l s)\<lparr>dm_cooldown := deadline\<rparr>)))"
  using assms
  by (auto simp: record_cooldown_of_def Let_def prog_simps change_domain_def domains_set
      split: if_splits double.splits sum.splits)

lemma receive_effect:
  assumes "receive p k l t0 r s = (s', v)"
  shows "clock_kept s s' \<and> (domains s' = domains s
    \<or> (\<exists>received retry. let deadline = double_max (dm_cooldown (domain_of k l s)) (double_plus received retry)
         in is_finite deadline \<and> domains s' = (domains s)(k \<mapsto> (domain_of k l s)\<lparr>dm_cooldown := deadline\<rparr>)))"
proof -
  let ?body = "prog_bind (clock p) (\<lambda>(received, t). record_response k l r received t)"
  obtain w where run: "?body s = (s', w)"
    using assms by (auto simp: receive_def prog_simps(7,1) split: prod.splits sum.splits)
  obtain s1 x where clock: "clock p s = (s1, x)" by fastforce
  have same: "shared s1 = shared s" using prog_relD [OF quiet_clock clock] .
  show ?thesis
  proof (cases x)
    case (Inl e)
    then have "s' = s1" using run clock by (simp add: prog_simps)
    then show ?thesis using sharedD [OF same] by (simp add: clock_kept_def)
  next
    case (Inr y)
    then obtain received t where clock': "clock p s = (s1, Inr (received, t))" using clock by (cases y) simp
    let ?s2 = "s1\<lparr>cd_last_clock := Some received\<rparr>"
    have kept: "clock_kept s s'" if "cd_last_clock s' = Some received"
      using clock_returns [OF clock'] that by (simp add: clock_kept_def clock_ok_def)
    have d: "domain_of k l ?s2 = domain_of k l s" "domains ?s2 = domains s"
      using sharedD [OF same] by (simp_all add: domain_of_def)
    have rest: "record_response k l r received t s1 = (s', w)" using run clock' by (simp add: prog_simps)
    show ?thesis
    proof (cases "\<exists>z retry. fst r = Some z \<and> ol_retry_after z = Some retry")
      case True
      then obtain z retry u where "record_cooldown_of k l received t retry ?s2 = (s', u)"
        using rest by (auto simp: record_response_def record_clock_def prog_simps split: prod.splits sum.splits)
      then show ?thesis using record_cooldown_effect kept d by fastforce
    next
      case False
      then have "s' = ?s2"
        using rest by (auto simp: record_response_def record_clock_def prog_simps split: option.splits)
      then show ?thesis using kept d by simp
    qed
  qed
qed

end
