(* ===== verification/Samples.thy ===== *)
theory Samples
  imports Coordination
begin

text \<open>
  A source with an interval of 5 seconds and 3 requests per minute, providers that read a clock
  which advances by 10 seconds a reading and take their ids from a list, and an attempt with them.
\<close>

section \<open>Small whole numbers are doubles\<close>

lemma to_double_small:
  assumes "\<bar>m\<bar> < 2 ^ 53"
  shows "to_double (of_int m) = Finite (of_int m)"
proof -
  have "\<bar>of_int m :: rat\<bar> < 2 ^ 53" using assms by (metis of_int_abs of_int_less_iff of_int_numeral of_int_power)
  moreover have "(2 :: rat) ^ 53 \<le> 2 ^ 53 * power2 971" using power2_mono [of 0 971] by (simp add: power2_def)
  ultimately show ?thesis by (simp add: to_double_def nearest_of_int [OF assms])
qed

lemma to_double_numeral [simp]:
  "(numeral k :: int) < 2 ^ 53 \<Longrightarrow> to_double (numeral k) = Finite (numeral k)"
  "(numeral k :: int) < 2 ^ 53 \<Longrightarrow> to_double (- numeral k) = Finite (- numeral k)"
  "to_double 0 = Finite 0" "to_double 1 = Finite 1"
  using to_double_small [of "numeral k"] to_double_small [of "- numeral k"] to_double_small [of 0]
    to_double_small [of 1] by simp_all

section \<open>The source\<close>

definition demo_sha :: string where
  "demo_sha = replicate 64 (CHR ''a'')"

definition demo_condition :: "condition_category \<Rightarrow> source_condition" where
  "demo_condition k = \<lparr>sc_category = k, sc_status = Known, sc_summary = ''ok'', sc_references = [''r'']\<rparr>"

definition demo_approval :: source_approval where
  "demo_approval =
     \<lparr>sa_artifact = ''approval'', sa_approval = ''a'', sa_version = 1, sa_source = ''s'', sa_status = Approved,
      sa_provider = ''p'', sa_service = ''v'', sa_dataset = ''d'', sa_reviewer = ''w'',
      sa_reviewed_on = ''2026-01-05'', sa_approved_by = Some ''w'', sa_effective_on = Some ''2026-01-05'',
      sa_recheck_due_on = Some ''2027-01-05'', sa_status_reason = ''ok'', sa_usage_entity = ''e'',
      sa_usage_purposes = [''u''], sa_contract_plan = ''c'', sa_credential = None, sa_online_use = True,
      sa_agent_transfer = False,
      sa_references = [\<lparr>of_id = ''r'', of_document_type = ''terms'', of_url = ''u'', of_document_version = ''1'',
        of_reviewed_on = ''2026-01-05''\<rparr>],
      sa_conditions = map demo_condition all_categories\<rparr>"

definition setting_of :: "int \<Rightarrow> string \<Rightarrow> quantitative_setting" where
  "setting_of i u = \<lparr>qs_status = Known, qs_value = Some (Whole_Number i), qs_unit = u, qs_references = []\<rparr>"

definition no_setting :: "knowledge_status \<Rightarrow> string \<Rightarrow> quantitative_setting" where
  "no_setting k u = \<lparr>qs_status = k, qs_value = None, qs_unit = u, qs_references = []\<rparr>"

definition demo_profile :: source_profile where
  "demo_profile =
     \<lparr>sp_artifact = ''profile'', sp_source = ''s'', sp_profile_version = 1, sp_policy_version = 1,
      sp_approval_reference = approval_ref demo_approval demo_sha, sp_approval_status = Approved,
      sp_enabled = True, sp_rate_domain = ''d'', sp_credential = None, sp_egress = ''e'', sp_max_concurrency = 1,
      sp_min_interval = setting_of 5 ''second'', sp_rate_requests = setting_of 3 ''request'',
      sp_rate_window = setting_of 60 ''second'', sp_burst = 1, sp_cache_enabled = False,
      sp_cache_ttl = no_setting Unknown ''second'', sp_batch_support = Unsupported,
      sp_batch_size = no_setting Unsupported ''item'', sp_cooldown = no_setting Unknown ''second''\<rparr>"

text \<open>2026-06-01.\<close>

definition demo_day :: int where
  "demo_day = 739767"

definition demo_binding :: source_binding where
  "demo_binding = new_binding demo_approval demo_sha demo_profile demo_sha demo_day"

text \<open>The same source in another rate domain.\<close>

definition demo_binding_in :: "string \<Rightarrow> source_binding" where
  "demo_binding_in k = new_binding demo_approval demo_sha (demo_profile\<lparr>sp_rate_domain := k\<rparr>) demo_sha demo_day"

lemma demo_binding_in_d: "demo_binding_in ''d'' = demo_binding"
  by (simp add: demo_binding_in_def demo_binding_def demo_profile_def)

definition demo_limits :: limits where
  "demo_limits = \<lparr>lm_interval = Finite 5, lm_count = 3, lm_window = Finite 60, lm_status = Unknown\<rparr>"

definition demo_request :: coordinator_request where
  "demo_request =
     \<lparr>cq_task = ''t'', cq_role = Codex_Worker, cq_operation = ''o'', cq_origin = ''g'', cq_resource = ''x'',
      cq_logical = ''l'', cq_period = ''2026'', cq_freshness = ''f''\<rparr>"

lemma demo_dates: "parse_date ''2026-01-05'' = Some 739620" "parse_date ''2027-01-05'' = Some 739985"
  by (simp_all add: parse_date_def calendar_day_def Let_def is_digit_def decimal_def month_length_def day_number_def
      month_starts_def days_in_month_def days_before_year_def is_leap_def less_eq_char_def)

lemma demo_supported_in: "supported (demo_binding_in k)"
  by (simp add: supported_def in_force_def demo_binding_in_def new_binding_def demo_approval_def demo_dates
      demo_profile_def demo_day_def profile_ref_def approval_ref_def no_setting_def)

lemma demo_binding_limits_in: "binding_limits (demo_binding_in k) = Inr demo_limits"
proof -
  have "positive_setting (setting_of 5 ''second'') ''second'' = Inr (Finite 5)"
    "positive_setting (setting_of 60 ''second'') ''second'' = Inr (Finite 60)"
    "positive_setting (setting_of 3 ''request'') ''request'' = Inr (Finite 3)"
    by (simp_all add: positive_setting_def setting_of_def is_finite_def)
  then show ?thesis
    using demo_supported_in [of k]
    by (simp add: binding_limits_def demo_binding_in_def new_binding_def demo_profile_def demo_limits_def
        no_setting_def is_whole_number_def setting_of_def int_of_double_def whole_def)
qed

lemma demo_supported: "supported demo_binding"
  using demo_supported_in [of "''d''"] by (simp add: demo_binding_in_d)

lemma demo_binding_limits: "binding_limits demo_binding = Inr demo_limits"
  using demo_binding_limits_in [of "''d''"] by (simp add: demo_binding_in_d)

section \<open>The providers\<close>

definition demo_time :: py_datetime where
  "demo_time = utc 63925632000500000"

type_synonym tape = "int \<times> string list"

fun take_id :: "tape \<Rightarrow> tape \<times> (exn + string)" where
  "take_id (n, i # is) = ((n, is), Inr i)"
| "take_id (n, []) = ((n, []), Inl ValueError)"

definition demo_providers :: "tape providers" where
  "demo_providers =
     \<lparr>pv_monotonic = (\<lambda>(n, is). ((n + 10, is), Inr (Finite (of_int n)))), pv_utcnow = (\<lambda>w. (w, Inr demo_time)),
      pv_event_id = take_id, pv_physical_id = take_id\<rparr>"

lemma demo_time_ok: "is_timestamp (isoformat_of demo_time)" "utcoffset demo_time = Some 0"
proof -
  have "valid_instant 63925632000500000" by (simp add: valid_instant_def max_instant_def)
  then show "is_timestamp (isoformat_of demo_time)" "utcoffset demo_time = Some 0"
    using isoformat_timestamp isoformat_of_utc by (simp_all add: demo_time_def utc_def)
qed

lemma demo_clock:
  assumes "cd_world s = (n, is)" "0 \<le> n" "n < 2 ^ 53"
    "case cd_last_clock s of None \<Rightarrow> True | Some b \<Rightarrow> \<not> double_less (Finite (of_int n)) b"
  shows "clock demo_providers s = (s\<lparr>cd_world := (n + 10, is)\<rparr>, Inr (Finite (of_int n), demo_time))"
  using assms to_double_small [of n] demo_time_ok
  by (simp add: clock_def provided_def prog_simps demo_providers_def as_double_def clock_ok_def is_finite_def
      double_less_def split: option.splits)

section \<open>An attempt that is sent\<close>

lemma demo_draw:
  assumes "cd_world s = (n, i # is)" "is_identifier i"
  shows "draw take_id s = (s\<lparr>cd_world := (n, is)\<rparr>, Inr i)"
  using assms by (simp add: draw_def provided_def prog_simps)

definition demo_ids :: "string list" where
  "demo_ids = [''e0'', ''e1'', ''e2'', ''e3'', ''e4'']"

lemma demo_identifiers_ok:
  "is_identifier ''e0''" "is_identifier ''e1''" "is_identifier ''e2''" "is_identifier ''e3''" "is_identifier ''e4''"
  "is_identifier ''a0''" "is_identifier ''t''" "is_identifier ''o''" "is_identifier ''g''" "is_identifier ''x''"
  "is_identifier ''l''" "is_identifier ''2026''" "is_identifier ''f''" "is_identifier ''d''"
  "is_identifier ''approval''" "is_identifier ''profile''"
  by code_simp+

lemma demo_draws:
  assumes "cd_world s = (n, demo_ids @ ''a0'' # is)"
  shows "draw_ids demo_providers 5 s = (s\<lparr>cd_world := (n, ''a0'' # is)\<rparr>, Inr demo_ids)"
  using assms by (simp add: demo_draw demo_identifiers_ok prog_simps numeral_eq_Suc demo_ids_def
      demo_providers_def)

lemma demo_reference_valid:
  "valid_artifact_reference (approval_ref a demo_sha) \<longleftrightarrow> is_identifier (sa_artifact a)"
  "valid_artifact_reference (profile_ref p demo_sha) \<longleftrightarrow> is_identifier (sp_artifact p)"
proof -
  have "is_sha256_hex demo_sha" "is_schema_id ''detailed-analysis.source-approval''"
    "is_schema_id ''detailed-analysis.source-profile''"
    by code_simp+
  then show "valid_artifact_reference (approval_ref a demo_sha) \<longleftrightarrow> is_identifier (sa_artifact a)"
    "valid_artifact_reference (profile_ref p demo_sha) \<longleftrightarrow> is_identifier (sp_artifact p)"
    by (simp_all add: valid_artifact_reference_def approval_ref_def profile_ref_def is_text_def)
qed

lemma demo_binding_parts:
  "valid_artifact_reference (bd_approval_reference (demo_binding_in k))"
  "valid_artifact_reference (bd_profile_reference (demo_binding_in k))"
  "ar_schema (bd_approval_reference (demo_binding_in k)) = ''detailed-analysis.source-approval''"
  "ar_schema (bd_profile_reference (demo_binding_in k)) = ''detailed-analysis.source-profile''"
  "sp_rate_domain (bd_profile (demo_binding_in k)) = k" "sp_credential (bd_profile (demo_binding_in k)) = None"
proof -
  show "valid_artifact_reference (bd_approval_reference (demo_binding_in k))"
    "valid_artifact_reference (bd_profile_reference (demo_binding_in k))"
    unfolding demo_binding_in_def new_binding_def
    by (simp_all add: demo_reference_valid demo_identifiers_ok demo_approval_def demo_profile_def)
qed (simp_all add: demo_binding_in_def new_binding_def approval_ref_def profile_ref_def demo_profile_def)

lemma demo_request_parts:
  "is_identifier (cq_task demo_request)" "is_identifier (cq_logical demo_request)"
  "is_identifier (cq_operation demo_request)" "is_text (cq_origin demo_request)"
  "valid_coordinator_request demo_request" "cq_resource demo_request = ''x''"
  by (simp_all add: demo_request_def demo_identifiers_ok is_text_def valid_coordinator_request_def)

lemma demo_gates_valid:
  assumes "is_identifier k" "is_text k"
  shows "list_all valid_gate_result (gate_reports k (remaining d now))"
proof -
  have "[0 ..< 4 :: nat] = [0, 1, 2, 3]" by (simp add: upt_rec)
  then show ?thesis
    using assms by (simp add: gate_reports_def remaining_def valid_gate_result_def demo_identifiers_ok is_text_def)
qed

lemma demo_event_valid:
  assumes "pp_binding c = demo_binding_in k" "is_identifier k" "is_text k" "pp_request c = demo_request" "pp_gates c = gate_reports k (remaining d now)"
    and "is_identifier (pp_ids c ! i)" "i < 2 \<or> pp_physical c = Some ''a0''" "is_physical_event kind \<longrightarrow> 2 \<le> i"
  shows "valid_request_event (audit_event c i kind Out_Pending None demo_time)"
proof -
  note demo_time_ok
  then show ?thesis
    using assms demo_gates_valid [of k d now]
    by (auto simp: valid_request_event_def event_fields_ok_def event_boundaries_ok_def audit_event_def Let_def
        demo_binding_parts demo_request_parts demo_identifiers_ok fingerprint_def sha256_hex_valid
        unless_None_def)
qed

text \<open>With a free domain the sample attempt goes on to the transport.\<close>

lemma demo_prepare:
  assumes k: "is_identifier k" "is_text k" and world: "cd_world s = (n, demo_ids @ ''a0'' # rest)" and n: "0 \<le> n" "n < 2 ^ 53"
    and before: "case cd_last_clock s of None \<Rightarrow> True | Some b \<Rightarrow> \<not> double_less (Finite (of_int n)) b"
    and d: "domain_of k demo_limits s = d" "dm_limits d = demo_limits" "\<not> blocked d (Finite (of_int n))"
  shows "\<exists>c es. prepare demo_providers demo_request (demo_binding_in k) s
      = (s\<lparr>cd_world := (n + 10, rest)\<rparr>, Inr (Inr (c, es)))
    \<and> pp_binding c = (demo_binding_in k) \<and> pp_limits c = demo_limits \<and> pp_now c = Finite (of_int n)
    \<and> pp_utc c = demo_time \<and> pp_active c = active_starts d (Finite (of_int n))"
proof -
  let ?now = "Finite (of_int n)" and ?s1 = "s\<lparr>cd_world := (n + 10, demo_ids @ ''a0'' # rest)\<rparr>"
  let ?c = "\<lparr>pp_binding = demo_binding_in k, pp_request = demo_request, pp_limits = demo_limits, pp_now = ?now,
      pp_utc = demo_time, pp_active = active_starts d ?now, pp_gates = gate_reports k (remaining d ?now),
      pp_ids = demo_ids, pp_physical = Some ''a0''\<rparr>"
  have clock: "clock demo_providers s = (?s1, Inr (?now, demo_time))"
    by (rule demo_clock [OF world n before])
  have same: "domain_of k demo_limits ?s1 = d" using d(1) by (simp add: domain_of_def)
  have ids: "draw_ids demo_providers 5 ?s1 = (?s1\<lparr>cd_world := (n + 10, ''a0'' # rest)\<rparr>, Inr demo_ids)"
    by (rule demo_draws) simp
  have "distinct demo_ids" by (simp add: demo_ids_def)
  moreover have "draw take_id (?s1\<lparr>cd_world := (n + 10, ''a0'' # rest)\<rparr>)
      = (s\<lparr>cd_world := (n + 10, rest)\<rparr>, Inr ''a0'')"
    by (simp add: demo_draw demo_identifiers_ok)
  ultimately have drawn: "draw_prepared demo_providers demo_request (demo_binding_in k) d ?now demo_time ?s1
      = (s\<lparr>cd_world := (n + 10, rest)\<rparr>, Inr ?c)"
    using d(2,3) ids
    by (simp add: draw_prepared_def prog_simps rate_key_def demo_binding_parts demo_gates_valid [OF k]
        demo_providers_def)
  have event: "valid_request_event (audit_event ?c i kind Out_Pending None demo_time)"
    if "i < 3" "is_physical_event kind \<longrightarrow> 2 \<le> i" for i kind
    using that demo_event_valid [of ?c k d ?now i kind] k demo_identifiers_ok
    by (auto simp: demo_ids_def less_Suc_eq numeral_eq_Suc)
  have events: "valid_request_event (audit_event ?c 0 E_Logical_Requested Out_Pending None demo_time)"
    "valid_request_event (audit_event ?c 1 E_Gates_Evaluated Out_Pending None demo_time)"
    "valid_request_event (audit_event ?c 2 E_Physical_Started Out_Pending None demo_time)"
    using event [of 0] event [of 1] event [of 2] by (simp_all add: is_physical_event_def)
  have "decide demo_providers demo_request (demo_binding_in k) demo_limits ?now demo_time d ?s1
      = (s\<lparr>cd_world := (n + 10, rest)\<rparr>, Inr (Inr (?c,
          [audit_event ?c 0 E_Logical_Requested Out_Pending None demo_time,
           audit_event ?c 1 E_Gates_Evaluated Out_Pending None demo_time,
           audit_event ?c 2 E_Physical_Started Out_Pending None demo_time])))"
    using d(2,3) drawn events by (simp add: decide_def prog_simps emit_def)
  then have "prepare demo_providers demo_request (demo_binding_in k) s
      = (s\<lparr>cd_world := (n + 10, rest)\<rparr>, Inr (Inr (?c,
          [audit_event ?c 0 E_Logical_Requested Out_Pending None demo_time,
           audit_event ?c 1 E_Gates_Evaluated Out_Pending None demo_time,
           audit_event ?c 2 E_Physical_Started Out_Pending None demo_time])))"
    using clock same
    by (simp add: prepare_def prog_simps prog_lift_def demo_request_parts demo_binding_limits_in rate_key_def
        demo_binding_parts)
  then show ?thesis by fastforce
qed

text \<open>With a busy domain it is blocked, after two events.\<close>

lemma demo_blocked:
  assumes k: "is_identifier k" "is_text k"
    and world: "cd_world s = (n, ''e0'' # ''e1'' # rest)" and n: "0 \<le> n" "n < 2 ^ 53"
    and before: "case cd_last_clock s of None \<Rightarrow> True | Some b \<Rightarrow> \<not> double_less (Finite (of_int n)) b"
    and d: "domain_of k demo_limits s = d" "dm_limits d = demo_limits" "blocked d (Finite (of_int n))"
  shows "\<exists>r. prepare demo_providers demo_request (demo_binding_in k) s
      = (s\<lparr>cd_world := (n + 10, rest)\<rparr>, Inr (Inl r)) \<and> at_status r = At_Blocked"
proof -
  let ?now = "Finite (of_int n)" and ?s1 = "s\<lparr>cd_world := (n + 10, ''e0'' # ''e1'' # rest)\<rparr>"
  let ?c = "\<lparr>pp_binding = demo_binding_in k, pp_request = demo_request, pp_limits = demo_limits, pp_now = ?now,
      pp_utc = demo_time, pp_active = active_starts d ?now, pp_gates = gate_reports k (remaining d ?now),
      pp_ids = [''e0'', ''e1''], pp_physical = None\<rparr>"
  have clock: "clock demo_providers s = (?s1, Inr (?now, demo_time))"
    by (rule demo_clock [OF world n before])
  have same: "domain_of k demo_limits ?s1 = d" using d(1) by (simp add: domain_of_def)
  have drawn: "draw_prepared demo_providers demo_request (demo_binding_in k) d ?now demo_time ?s1
      = (s\<lparr>cd_world := (n + 10, rest)\<rparr>, Inr ?c)"
    using d(2,3)
    by (simp add: draw_prepared_def prog_simps rate_key_def demo_binding_parts demo_gates_valid [OF k]
        demo_providers_def demo_draw demo_identifiers_ok numeral_eq_Suc)
  have events: "valid_request_event (audit_event ?c 0 E_Logical_Requested Out_Pending None demo_time)"
    "valid_request_event (audit_event ?c 1 E_Gates_Evaluated Out_Pending None demo_time)"
    using demo_event_valid [of ?c k d ?now 0] demo_event_valid [of ?c k d ?now 1] k demo_identifiers_ok
    by (simp_all add: is_physical_event_def)
  have "decide demo_providers demo_request (demo_binding_in k) demo_limits ?now demo_time d ?s1
      = (s\<lparr>cd_world := (n + 10, rest)\<rparr>, Inr (Inl (blocked_result d ?now
          [audit_event ?c 0 E_Logical_Requested Out_Pending None demo_time,
           audit_event ?c 1 E_Gates_Evaluated Out_Pending None demo_time])))"
    using d(2,3) drawn events by (simp add: decide_def prog_simps emit_def)
  then show ?thesis
    using clock same
    by (simp add: prepare_def prog_simps prog_lift_def demo_request_parts demo_binding_limits_in rate_key_def
        demo_binding_parts blocked_result_def)
qed

end
