(* ===== verification/Spacing.thy ===== *)
theory Spacing
  imports Samples
begin

text \<open>
  The restrictions of a rate domain over a whole history of the coordinator: the interval between
  two starts, the rolling window, one request at a time and the cooldown, in the \<open>float\<close> arithmetic
  the coordinator computes with. A history is any nesting and sequence of attempts, so that a
  transport that calls the coordinator again is covered.
\<close>

section \<open>Histories\<close>

type_synonym starts_log = "(string \<times> double) list"

text \<open>
  \<open>coordination p s trace s'\<close>: the coordinator goes from \<open>s\<close> to \<open>s'\<close> and calls the transport for the
  domains and at the times of \<open>trace\<close>. In \<open>sent\<close> the inner history is what the transport does.
\<close>

inductive coordination ::
  "'w providers \<Rightarrow> 'w coordinator \<Rightarrow> starts_log \<Rightarrow> 'w coordinator \<Rightarrow> bool" for p where
  elsewhere: "shared s' = shared s \<Longrightarrow> coordination p s [] s'"
| in_sequence: "coordination p s xs s1 \<Longrightarrow> coordination p s1 ys s2 \<Longrightarrow> coordination p s (xs @ ys) s2"
| sent: "prepare p q b s = (s1, Inr (Inr (c, es)))
    \<Longrightarrow> coordination p (occupy c s1) xs s2
    \<Longrightarrow> receive p (rate_key b) (pp_limits c) (pp_utc c) r s2 = (s3, Inr y)
    \<Longrightarrow> coordination p s ((rate_key b, pp_now c) # xs) (released (rate_key b) (pp_limits c) s3)"

definition starts_of :: "string \<Rightarrow> starts_log \<Rightarrow> double list" where
  "starts_of k trace = map snd (filter (\<lambda>(j, _). j = k) trace)"

lemma starts_of_simps [simp]:
  "starts_of k [] = []" "starts_of k (xs @ ys) = starts_of k xs @ starts_of k ys"
  "starts_of k ((j, t) # xs) = (if j = k then t # starts_of k xs else starts_of k xs)"
  by (simp_all add: starts_of_def)

text \<open>An attempt is such a history, given that what the transport does to the coordinator is one.\<close>

lemma sent_transport:
  "checked_send send key s = (s', Inr z) \<Longrightarrow> s' = fst (send key s)"
  by (auto simp: checked_send_def prog_simps split: prod.splits sum.splits)

lemma coordination_attempt:
  assumes transport: "\<And>key s. \<exists>trace. coordination p s trace (fst (send key s))"
    and run: "attempt p send q binding s = (s', v)"
  shows "\<exists>trace. coordination p s trace s'"
proof (cases binding)
  case (Inl r)
  then have "s' = s" using run by (simp add: attempt_unsent)
  then show ?thesis using elsewhere by blast
next
  case (Inr b)
  obtain s1 x where prep: "prepare p q b s = (s1, x)" by fastforce
  have same: "shared s1 = shared s" using prog_relD [OF quiet_prepare prep] .
  consider e where "x = Inl e" | r where "x = Inr (Inl r)" | c es where "x = Inr (Inr (c, es))"
    by (metis old.sum.exhaust surj_pair)
  then show ?thesis
  proof cases
    case 1
    then have "s' = s1" using run prep Inr by (simp add: attempt_unsent(2))
    then show ?thesis using elsewhere [OF same] by blast
  next
    case 2
    then have "s' = s1" using run prep Inr by (simp add: attempt_unsent(3))
    then show ?thesis using elsewhere [OF same] by blast
  next
    case 3
    then have prep: "prepare p q b s = (s1, Inr (Inr (c, es)))" using prep by simp
    obtain s2 z s3 y r where sent: "checked_send send (cq_resource q) (occupy c s1) = (s2, Inr z)"
      and received: "receive p (rate_key b) (pp_limits c) (pp_utc c) z s2 = (s3, Inr y)"
      and result: "attempt p send q (Inr b) s = (released (rate_key b) (pp_limits c) s3, Inr r)"
      using sent_attempt [OF prep] by metis
    obtain xs where "coordination p (occupy c s1) xs s2" using transport sent_transport [OF sent] by blast
    then show ?thesis using coordination.sent [OF prep _ received] result run Inr by auto
  qed
qed

section \<open>What the limits of a binding are\<close>

lemma to_double_of_int:
  assumes "0 < i" "is_finite (to_double (of_int i))"
  obtains x where "to_double (of_int i) = Finite x" "1 \<le> x"
proof -
  have "nearest 1 \<le> nearest (of_int i)" using assms(1) by (intro nearest_mono) simp
  moreover have "nearest 1 = 1" using nearest_of_int [of 1] by simp
  ultimately have "1 \<le> nearest (of_int i)" by simp
  then show thesis using assms(2) that by (auto simp: to_double_def is_finite_def split: if_splits)
qed

lemma positive_setting_finite:
  assumes "positive_setting q u = Inr d"
  shows "is_finite d"
  using assms by (auto simp: positive_setting_def split: if_splits option.splits number.splits)

lemma positive_setting_whole:
  assumes "positive_setting q u = Inr d" "is_whole_number (qs_value q)"
  shows "1 \<le> int_of_double d"
proof -
  obtain i where i: "qs_value q = Some (Whole_Number i)"
    using assms(2) by (auto simp: is_whole_number_def split: option.splits number.splits)
  then have "d = to_double (of_int i)" "0 < i" "is_finite d"
    using assms(1) by (auto simp: positive_setting_def split: if_splits)
  then obtain x where "d = Finite x" "1 \<le> x" using to_double_of_int by metis
  then show ?thesis by (simp add: int_of_double_def whole_def)
qed

lemma binding_limits_bounds:
  assumes "binding_limits b = Inr l"
  shows "is_finite (lm_window l) \<and> is_finite (lm_interval l) \<and> 1 \<le> lm_count l"
  using assms positive_setting_finite positive_setting_whole
  by (auto simp: binding_limits_def Let_def split: if_splits sum.splits)

section \<open>The invariant of a domain\<close>

definition within_window :: "limits \<Rightarrow> double \<Rightarrow> double \<Rightarrow> bool" where
  "within_window l t s \<longleftrightarrow> double_less (double_minus t s) (lm_window l)"

text \<open>The starts of the window of \<open>t\<close> in both of the computed senses.\<close>

definition recent :: "limits \<Rightarrow> double \<Rightarrow> double \<Rightarrow> bool" where
  "recent l t s \<longleftrightarrow> within_window l t s \<and> double_less t (double_plus s (lm_window l))"

text \<open>Counted from the latest start, which has the earlier ones behind it.\<close>

fun sparse :: "limits \<Rightarrow> double list \<Rightarrow> bool" where
  "sparse l [] \<longleftrightarrow> True"
| "sparse l (t # ts) \<longleftrightarrow> int (length (filter (recent l t) ts)) < lm_count l \<and> sparse l ts"

lemma active_starts_window: "active_starts d now = filter (within_window (dm_limits d) now) (dm_starts d)"
  unfolding active_starts_def within_window_def ..

lemma unblocked:
  assumes "\<not> blocked d now" "is_double now" "is_finite now" "is_double (dm_cooldown d)"
  shows "\<not> double_less now (dm_cooldown d)" "\<not> dm_occupied d"
    "interval_left d now = Finite 0" "window_left d now = Finite 0"
  using assms max_zero_minus [of "dm_cooldown d" now]
  by (auto simp: blocked_def remaining_def is_nonzero_def split: if_splits)

text \<open>What \<open>prepare\<close> found out about the domain, and what the start makes of it.\<close>

lemma prepare_start:
  assumes "prepare p q b s = (s1, Inr (Inr (c, es)))"
  obtains l where "pp_limits c = l" "dm_limits (domain_of (rate_key b) l s) = l"
    "is_finite (lm_window l)" "is_finite (lm_interval l)" "1 \<le> lm_count l"
    "\<not> blocked (domain_of (rate_key b) l s) (pp_now c)" "is_double (pp_now c)" "is_finite (pp_now c)"
    "clock_kept s (occupy c s1)" "cd_last_clock (occupy c s1) = Some (pp_now c)"
    "domains (occupy c s1) = (domains s)(rate_key b \<mapsto> (domain_of (rate_key b) l s)
      \<lparr>dm_occupied := True, dm_last_start := Some (pp_now c),
       dm_starts := active_starts (domain_of (rate_key b) l s) (pp_now c) @ [pp_now c]\<rparr>)"
proof -
  obtain l where l: "binding_limits b = Inr l" "dm_limits (domain_of (rate_key b) l s) = l"
    "\<not> blocked (domain_of (rate_key b) l s) (pp_now c)"
    and clock: "clock_ok (pp_now c) (pp_utc c) (cd_last_clock s)" "is_double (pp_now c)" "is_finite (pp_now c)"
    and ready: "ready b q (domain_of (rate_key b) l s) c es" and same: "shared s1 = shared s"
    using prepare_returns [OF assms] .
  have c: "pp_binding c = b" "pp_limits c = l" "pp_active c = active_starts (domain_of (rate_key b) l s) (pp_now c)"
    using ready l(2) by (simp_all add: ready_def)
  note occupied = occupy_effect [OF refl refl, of c s1, unfolded c]
  have "domains s1 = domains s" "domain_of (rate_key b) l s1 = domain_of (rate_key b) l s"
    using sharedD [OF same] by (simp_all add: domain_of_shared [OF same])
  note occupied = occupied [unfolded this]
  have "clock_kept s (occupy c s1)" using clock occupied(2) by (simp add: clock_kept_def clock_ok_def)
  then show thesis using that [OF c(2) l(2)] binding_limits_bounds [OF l(1)] l(3) clock occupied by simp
qed

lemma released_effect:
  "domains (released k l s) = (domains s)(k \<mapsto> (domain_of k l s)\<lparr>dm_occupied := False\<rparr>)"
  "cd_last_clock (released k l s) = cd_last_clock s"
  by (simp_all add: released_def domains_set)

section \<open>One request at a time\<close>

lemma occupied_domain_idle:
  assumes "coordination p s trace s'" "domains s k = Some d" "dm_occupied d"
  shows "starts_of k trace = [] \<and> domains s' k = Some d"
  using assms
proof (induction rule: coordination.induct)
  case (elsewhere s' s)
  then show ?case using sharedD by fastforce
next
  case (in_sequence s xs s1 ys s2)
  then show ?case by simp
next
  case (sent q b s s1 c es xs s2 r s3 y)
  obtain l where l: "pp_limits c = l" and free: "\<not> blocked (domain_of (rate_key b) l s) (pp_now c)"
    and occupied: "domains (occupy c s1) = (domains s)(rate_key b \<mapsto> (domain_of (rate_key b) l s)
      \<lparr>dm_occupied := True, dm_last_start := Some (pp_now c),
       dm_starts := active_starts (domain_of (rate_key b) l s) (pp_now c) @ [pp_now c]\<rparr>)"
    using prepare_start [OF sent.hyps(1)] .
  have other: "rate_key b \<noteq> k"
    using free sent.prems by (auto simp: blocked_def remaining_def is_nonzero_def domain_of_cases)
  then have "starts_of k xs = [] \<and> domains s2 k = Some d"
    using sent.IH sent.prems occupied by simp
  then show ?case
    using other receive_effect [OF sent.hyps(3)] by (auto simp: released_effect Let_def)
qed

section \<open>Cooldown\<close>

text \<open>No start of the domain is before the cooldown, and the cooldown only grows.\<close>

definition cooled :: "double \<Rightarrow> domain \<Rightarrow> bool" where
  "cooled t d \<longleftrightarrow> is_double (dm_cooldown d) \<and> \<not> double_less (dm_cooldown d) t"

lemma is_double_plus: "is_finite (double_plus a b) \<Longrightarrow> is_double (double_plus a b)"
  by (cases a; cases b) (simp_all add: double_plus_def is_finite_def)

lemma cooled_later:
  assumes "cooled t d" "is_finite (double_max (dm_cooldown d) (double_plus a b))"
  shows "cooled t (d\<lparr>dm_cooldown := double_max (dm_cooldown d) (double_plus a b)\<rparr>)"
  using assms is_double_plus double_less_trans
  by (auto simp: cooled_def double_max_def split: if_splits)

lemma cooldown_kept:
  assumes "coordination p s trace s'" "\<exists>d. domains s k = Some d \<and> cooled t d"
  shows "(\<forall>u \<in> set (starts_of k trace). \<not> double_less u t) \<and> (\<exists>d. domains s' k = Some d \<and> cooled t d)"
  using assms
proof (induction rule: coordination.induct)
  case (elsewhere s' s)
  then show ?case using sharedD by fastforce
next
  case (in_sequence s xs s1 ys s2)
  then show ?case by auto
next
  case (sent q b s s1 c es xs s2 r s3 y)
  obtain l where l: "pp_limits c = l" and free: "\<not> blocked (domain_of (rate_key b) l s) (pp_now c)"
    and now: "is_double (pp_now c)" "is_finite (pp_now c)"
    and occupied: "domains (occupy c s1) = (domains s)(rate_key b \<mapsto> (domain_of (rate_key b) l s)
      \<lparr>dm_occupied := True, dm_last_start := Some (pp_now c),
       dm_starts := active_starts (domain_of (rate_key b) l s) (pp_now c) @ [pp_now c]\<rparr>)"
    using prepare_start [OF sent.hyps(1)] .
  obtain d where d: "domains s k = Some d" "cooled t d" using sent.prems by blast
  have start: "\<not> double_less (pp_now c) t" if "rate_key b = k"
  proof -
    have "domain_of (rate_key b) l s = d" using d(1) that by (simp add: domain_of_cases)
    then have "\<not> double_less (pp_now c) (dm_cooldown d)"
      using unblocked(1) free now d(2) by (simp add: cooled_def)
    moreover have "dm_cooldown d \<noteq> Not_A_Number" using d(2) by (auto simp: cooled_def is_double_def)
    ultimately show ?thesis using d(2) not_less_trans cooled_def by blast
  qed
  have "\<exists>d. domains (occupy c s1) k = Some d \<and> cooled t d"
    using d by (auto simp: occupied domain_of_cases cooled_def)
  then have inner: "\<forall>u \<in> set (starts_of k xs). \<not> double_less u t" "\<exists>d. domains s2 k = Some d \<and> cooled t d"
    using sent.IH by auto
  then have "\<exists>d. domains s3 k = Some d \<and> cooled t d"
    using receive_effect [OF sent.hyps(3)] cooled_later by (fastforce simp: Let_def domain_of_cases)
  then show ?case
    using start inner(1) by (auto simp: released_effect domain_of_cases cooled_def)
qed

section \<open>Interval and rolling window\<close>

text \<open>All starts of a domain, the latest first, and what the domain remembers of them.\<close>

definition remembers :: "double list \<Rightarrow> double option \<Rightarrow> domain \<Rightarrow> bool" where
  "remembers ts latest d \<longleftrightarrow>
     dm_last_start d = (case ts of [] \<Rightarrow> None | t # _ \<Rightarrow> Some t)
     \<and> (\<forall>now. is_finite now \<longrightarrow> (\<forall>c. latest = Some c \<longrightarrow> \<not> double_less now c)
          \<longrightarrow> active_starts d now = filter (within_window (dm_limits d) now) (rev ts))"

definition before_clock :: "double list \<Rightarrow> double option \<Rightarrow> bool" where
  "before_clock ts latest \<longleftrightarrow>
     (\<forall>t \<in> set ts. is_finite t \<and> (\<exists>c. latest = Some c \<and> is_finite c \<and> \<not> double_less c t))
     \<and> sorted_wrt (\<lambda>t s. \<not> double_less t s) ts"

fun apart :: "limits \<Rightarrow> double list \<Rightarrow> bool" where
  "apart l (t # s # ts) \<longleftrightarrow> \<not> double_less t (double_plus s (lm_interval l)) \<and> apart l (s # ts)"
| "apart l _ \<longleftrightarrow> True"

definition kept_apart :: "string \<Rightarrow> double list \<Rightarrow> 'w coordinator \<Rightarrow> bool" where
  "kept_apart k ts s \<longleftrightarrow> before_clock ts (cd_last_clock s)
     \<and> (case domains s k of
          None \<Rightarrow> ts = []
        | Some d \<Rightarrow> remembers ts (cd_last_clock s) d \<and> apart (dm_limits d) ts \<and> sparse (dm_limits d) ts
            \<and> is_double (dm_cooldown d))"

lemma finite_number: "is_finite d \<Longrightarrow> d \<noteq> Not_A_Number"
  by (auto simp: is_finite_def)

lemma clock_kept_before:
  assumes "clock_kept s s'" "before_clock ts (cd_last_clock s)"
  shows "before_clock ts (cd_last_clock s')"
proof (cases "cd_last_clock s' = cd_last_clock s \<or> ts = []")
  case False
  then obtain b where b: "cd_last_clock s = Some b" "is_finite b"
    using assms(2) by (cases ts) (auto simp: before_clock_def)
  then obtain c where c: "cd_last_clock s' = Some c" "is_finite c" "\<not> double_less c b"
    using False assms(1) by (auto simp: clock_kept_def)
  have "\<not> double_less c t" if "t \<in> set ts" for t
    using not_less_trans [of b t c] finite_number [OF b(2)] b(1) c(3) that assms(2) by (auto simp: before_clock_def)
  then show ?thesis using assms(2) c by (simp add: before_clock_def)
qed (use assms(2) in \<open>auto simp: before_clock_def\<close>)

lemma clock_kept_remembers:
  assumes "clock_kept s s'" "remembers ts (cd_last_clock s) d"
  shows "remembers ts (cd_last_clock s') d"
proof (cases "cd_last_clock s' = cd_last_clock s")
  case False
  then obtain c where c: "cd_last_clock s' = Some c" "is_finite c"
    "case cd_last_clock s of None \<Rightarrow> True | Some b \<Rightarrow> \<not> double_less c b"
    using assms(1) by (auto simp: clock_kept_def)
  have "\<not> double_less now b" if "cd_last_clock s = Some b" "\<not> double_less now c" for now b
    using not_less_trans [of c b now] finite_number [OF c(2)] c(3) that by auto
  then show ?thesis using assms(2) c(1) by (auto simp: remembers_def)
qed (use assms(2) in simp)

lemma filter_after_index:
  assumes "sorted_wrt R xs" "i < length xs" "\<not> P (xs ! i)"
    and mono: "\<And>x y. R x y \<Longrightarrow> x \<in> set xs \<Longrightarrow> y \<in> set xs \<Longrightarrow> P x \<Longrightarrow> P y"
  shows "length (filter P xs) \<le> length xs - Suc i"
proof -
  have "\<not> P x" if x: "x \<in> set (take (Suc i) xs)" for x
  proof -
    obtain j where j: "j < length (take (Suc i) xs)" "x = take (Suc i) xs ! j"
      using x [unfolded in_set_conv_nth] by blast
    then have j: "j < length xs" "j < Suc i" "x = xs ! j" by simp_all
    then show ?thesis
      using assms(2,3) sorted_wrt_nth_less [OF assms(1), of j i] mono [of x "xs ! i"]
      by (cases "j = i") auto
  qed
  then have "filter P (take (Suc i) xs) = []" by (simp add: filter_empty_conv)
  then have "filter P xs = filter P (drop (Suc i) xs)"
    using filter_append [of P "take (Suc i) xs" "drop (Suc i) xs"] by simp
  then show ?thesis using length_filter_le [of P "drop (Suc i) xs"] by simp
qed

lemma window_count:
  assumes "window_left d now = Finite 0" "active_starts d now = filter (within_window l now) (rev ts)"
    and l: "dm_limits d = l" "is_finite (lm_window l)" "1 \<le> lm_count l" and now: "is_finite now" "is_double now"
    and ts: "\<forall>t \<in> set ts. is_finite t" "sorted_wrt (\<lambda>t s. \<not> double_less t s) ts"
  shows "int (length (filter (recent l now) ts)) < lm_count l"
proof -
  let ?active = "filter (within_window l now) (rev ts)" and ?n = "nat (lm_count l)"
  let ?P = "\<lambda>s. double_less now (double_plus s (lm_window l))"
  have "filter (recent l now) (rev ts) = filter ?P ?active"
    unfolding filter_filter recent_def by (simp add: conj_commute)
  then have count: "length (filter (recent l now) ts) = length (filter ?P ?active)"
    by (metis rev_filter length_rev)
  show ?thesis
  proof (cases "lm_count l \<le> int (length ?active)")
    case False
    then show ?thesis using count length_filter_le [of ?P ?active] by linarith
  next
    case True
    let ?i = "length ?active - ?n"
    have i: "?i < length ?active" using True l(3) by linarith
    have member: "x \<in> set ts" if "x \<in> set ?active" for x using that by simp
    have first: "is_finite (?active ! ?i)" using ts(1) nth_mem [OF i] by simp
    then have "is_double (double_plus (?active ! ?i) (lm_window l))"
      using l(2) by (cases "?active ! ?i"; cases "lm_window l") (simp_all add: is_finite_def double_plus_def)
    moreover have "double_max (Finite 0) (double_minus (double_plus (?active ! ?i) (lm_window l)) now) = Finite 0"
      using assms(1) True l(1) by (simp add: window_left_def assms(2) Let_def)
    ultimately have ended: "\<not> ?P (?active ! ?i)" using max_zero_minus now by blast
    have sorted: "sorted_wrt (\<lambda>s t. \<not> double_less t s) ?active"
      using ts(2) by (intro sorted_wrt_filter) (simp add: sorted_wrt_rev)
    have grows: "?P y" if "\<not> double_less y x" "x \<in> set ts" "y \<in> set ts" "?P x" for x y
      using double_plus_mono [of x y now "lm_window l"] that ts(1) by blast
    have "length (filter ?P ?active) \<le> length ?active - Suc ?i"
      by (rule filter_after_index [where P = ?P, OF sorted i ended]) (blast intro: grows member)
    then show ?thesis using count True l(3) i by linarith
  qed
qed

lemma interval_apart:
  assumes "interval_left d now = Finite 0" "dm_last_start d = Some t" "is_finite t" "is_finite now" "is_double now"
    and "is_finite (lm_interval (dm_limits d))"
  shows "\<not> double_less now (double_plus t (lm_interval (dm_limits d)))"
proof -
  have "is_double (double_plus t (lm_interval (dm_limits d)))"
    using assms(3,6) by (cases t; cases "lm_interval (dm_limits d)") (simp_all add: is_finite_def double_plus_def)
  then show ?thesis using assms(1,2,4,5) max_zero_minus by (simp add: interval_left_def)
qed

text \<open>A start of the domain itself.\<close>

lemma start_kept_apart:
  assumes prep: "prepare p q b s = (s1, Inr (Inr (c, es)))" and kept: "kept_apart (rate_key b) ts s"
  shows "kept_apart (rate_key b) (pp_now c # ts) (occupy c s1)"
proof -
  let ?k = "rate_key b" and ?now = "pp_now c"
  obtain l where l: "pp_limits c = l" "dm_limits (domain_of ?k l s) = l"
    "is_finite (lm_window l)" "is_finite (lm_interval l)" "1 \<le> lm_count l"
    and free: "\<not> blocked (domain_of ?k l s) ?now" and now: "is_double ?now" "is_finite ?now"
    and clock: "clock_kept s (occupy c s1)" "cd_last_clock (occupy c s1) = Some ?now"
    and occupied: "domains (occupy c s1) = (domains s)(?k \<mapsto> (domain_of ?k l s)
      \<lparr>dm_occupied := True, dm_last_start := Some ?now,
       dm_starts := active_starts (domain_of ?k l s) ?now @ [?now]\<rparr>)"
    using prepare_start [OF prep] .
  let ?d = "domain_of ?k l s"
  let ?e = "?d\<lparr>dm_occupied := True, dm_last_start := Some ?now, dm_starts := active_starts ?d ?now @ [?now]\<rparr>"
  have d: "remembers ts (cd_last_clock s) ?d" "apart l ts" "sparse l ts" "is_double (dm_cooldown ?d)"
    using kept l(2)
    by (auto simp: kept_apart_def domain_of_cases fresh_domain_def remembers_def active_starts_def is_double_def
        on_grid_def split: option.splits)
  have ordered: "before_clock ts (cd_last_clock s)" using kept by (simp add: kept_apart_def)
  have later: "before_clock ts (Some ?now)" using clock_kept_before [OF clock(1) ordered] clock(2) by simp
  have remembered: "remembers ts (Some ?now) ?d" using clock_kept_remembers [OF clock(1) d(1)] clock(2) by simp
  have active: "active_starts ?d u = filter (within_window l u) (rev ts)" if "is_finite u" "\<not> double_less u ?now" for u
    using remembered that l(2) by (simp add: remembers_def)
  have ts: "\<forall>t \<in> set ts. is_finite t" "sorted_wrt (\<lambda>t s. \<not> double_less t s) ts"
    using ordered by (auto simp: before_clock_def)
  note idle = unblocked [OF free now d(4)]
  have "before_clock (?now # ts) (Some ?now)"
    using later now(2) by (auto simp: before_clock_def)
  moreover have "apart l (?now # ts)"
  proof (cases ts)
    case (Cons t ts')
    have "\<not> double_less ?now (double_plus t (lm_interval l))"
      using interval_apart [OF idle(3), of t] Cons d(1) ts(1) now l(2,4) by (simp add: remembers_def)
    then show ?thesis using Cons d(2) by simp
  qed simp
  moreover have "sparse l (?now # ts)"
    using window_count [OF idle(4) active l(2,3,5) now(2,1) ts] now(2) d(3) by simp
  moreover have "remembers (?now # ts) (Some ?now) ?e"
  proof -
    have "active_starts ?e u = filter (within_window l u) (rev (?now # ts))" if u: "is_finite u" "\<not> double_less u ?now" for u
    proof -
      have "within_window l u x \<Longrightarrow> within_window l ?now x" for x
        using double_minus_mono [OF now(2) u(1) u(2)] by (simp add: within_window_def)
      then have "filter (within_window l u) (filter (within_window l ?now) xs) = filter (within_window l u) xs" for xs
        by (simp add: filter_filter) (metis (mono_tags, lifting) filter_cong)
      then show ?thesis
        using active [of ?now] now(2) l(2) by (simp add: active_starts_window)
    qed
    then show ?thesis using l(2) by (simp add: remembers_def)
  qed
  ultimately show ?thesis using d(4) l(2) occupied clock(2) by (simp add: kept_apart_def)
qed

text \<open>What does not start a request of the domain.\<close>

definition same_starts :: "domain option \<Rightarrow> domain option \<Rightarrow> bool" where
  "same_starts m m' \<longleftrightarrow> m' = m
     \<or> (\<exists>d'. m' = Some d' \<and> is_double (dm_cooldown d')
          \<and> (case m of
               None \<Rightarrow> dm_last_start d' = None \<and> dm_starts d' = []
             | Some d \<Rightarrow> dm_limits d' = dm_limits d \<and> dm_last_start d' = dm_last_start d
                 \<and> dm_starts d' = dm_starts d))"

lemma later_kept_apart:
  assumes "kept_apart k ts s" "clock_kept s s'" and same: "same_starts (domains s k) (domains s' k)"
  shows "kept_apart k ts s'"
proof -
  have ordered: "before_clock ts (cd_last_clock s')"
    using clock_kept_before [OF assms(2)] assms(1) by (simp add: kept_apart_def)
  have remembered: "remembers ts (cd_last_clock s') d" if "domains s k = Some d" for d
    using clock_kept_remembers [OF assms(2)] assms(1) that by (simp add: kept_apart_def)
  consider "domains s' k = domains s k"
    | d' where "domains s' k = Some d'" "is_double (dm_cooldown d')" "domains s k = None"
        "dm_last_start d' = None" "dm_starts d' = []"
    | d d' where "domains s' k = Some d'" "is_double (dm_cooldown d')" "domains s k = Some d"
        "dm_limits d' = dm_limits d" "dm_last_start d' = dm_last_start d" "dm_starts d' = dm_starts d"
    using same by (auto simp: same_starts_def split: option.splits)
  then show ?thesis
  proof cases
    case 1
    then show ?thesis using assms(1) ordered remembered by (auto simp: kept_apart_def split: option.splits)
  next
    case 2
    then show ?thesis using assms(1) ordered by (auto simp: kept_apart_def remembers_def active_starts_def)
  next
    case 3
    have "remembers ts (cd_last_clock s') d'"
      using remembered [OF 3(3)] 3(4-6) by (simp add: remembers_def active_starts_def)
    then show ?thesis using assms(1) ordered 3 by (simp add: kept_apart_def)
  qed
qed

lemma cooldown_is_double: "kept_apart k ts s \<Longrightarrow> is_double (dm_cooldown (domain_of k l s))"
  by (auto simp: kept_apart_def domain_of_cases fresh_domain_def is_double_def on_grid_def split: option.splits)

lemma max_is_double:
  "is_double a \<Longrightarrow> is_finite (double_max a (double_plus b c)) \<Longrightarrow> is_double (double_max a (double_plus b c))"
  by (auto simp: double_max_def is_double_plus)

lemma received_same_starts:
  assumes "kept_apart k ts s" "receive p j l t r s = (s', v)"
  shows "same_starts (domains s k) (domains s' k)"
proof (cases "k = j \<and> domains s' \<noteq> domains s")
  case True
  then obtain received retry where
    "is_finite (double_max (dm_cooldown (domain_of k l s)) (double_plus received retry))"
    "domains s' k = Some ((domain_of k l s)
       \<lparr>dm_cooldown := double_max (dm_cooldown (domain_of k l s)) (double_plus received retry)\<rparr>)"
    using receive_effect [OF assms(2)] by (auto simp: Let_def)
  then show ?thesis
    using max_is_double [OF cooldown_is_double [OF assms(1)]]
    by (auto simp: same_starts_def domain_of_cases fresh_domain_def split: option.splits)
next
  case False
  then have "domains s' k = domains s k" using receive_effect [OF assms(2)] by (auto simp: Let_def)
  then show ?thesis by (simp add: same_starts_def)
qed

lemma released_same_starts:
  assumes "kept_apart k ts s"
  shows "same_starts (domains s k) (domains (released j l s) k)"
  using cooldown_is_double [OF assms, of l]
  by (auto simp: same_starts_def released_effect domain_of_cases fresh_domain_def split: option.splits)

lemma history_kept_apart:
  assumes "coordination p s trace s'" "kept_apart k ts s"
  shows "kept_apart k (rev (starts_of k trace) @ ts) s'"
  using assms
proof (induction arbitrary: ts rule: coordination.induct)
  case (elsewhere s' s)
  then show ?case
    using later_kept_apart [of k ts s s'] sharedD [OF elsewhere.hyps] by (simp add: clock_kept_def same_starts_def)
next
  case (in_sequence s xs s1 ys s2)
  then show ?case by simp
next
  case (sent q b s s1 c es xs s2 r s3 y)
  let ?k = "rate_key b" and ?ts = "if rate_key b = k then pp_now c # ts else ts"
  obtain l where clock: "clock_kept s (occupy c s1)" "cd_last_clock (occupy c s1) = Some (pp_now c)"
    and occupied: "domains (occupy c s1) = (domains s)(?k \<mapsto> (domain_of ?k l s)
      \<lparr>dm_occupied := True, dm_last_start := Some (pp_now c),
       dm_starts := active_starts (domain_of ?k l s) (pp_now c) @ [pp_now c]\<rparr>)"
    using prepare_start [OF sent.hyps(1)] .
  have "kept_apart k ?ts (occupy c s1)"
  proof (cases "?k = k")
    case True
    then show ?thesis using start_kept_apart [OF sent.hyps(1)] sent.prems by simp
  next
    case False
    then show ?thesis using later_kept_apart [OF sent.prems clock(1)] occupied by (simp add: same_starts_def)
  qed
  then have inner: "kept_apart k (rev (starts_of k xs) @ ?ts) s2" by (rule sent.IH)
  have "clock_kept s2 s3" using receive_effect [OF sent.hyps(3)] by simp
  then have received: "kept_apart k (rev (starts_of k xs) @ ?ts) s3"
    using later_kept_apart [OF inner] received_same_starts [OF inner sent.hyps(3)] by blast
  have "clock_kept s3 (released ?k (pp_limits c) s3)" by (simp add: clock_kept_def released_effect)
  then have "kept_apart k (rev (starts_of k xs) @ ?ts) (released ?k (pp_limits c) s3)"
    using later_kept_apart [OF received] released_same_starts [OF received] by blast
  then show ?case by (cases "?k = k") simp_all
qed

lemma fresh_kept_apart: "cd_domains s = [] \<Longrightarrow> kept_apart k [] s"
  by (simp add: kept_apart_def before_clock_def)

lemma apart_append: "apart l (xs @ t # s # ts) \<Longrightarrow> \<not> double_less t (double_plus s (lm_interval l))"
proof (induction xs)
  case (Cons x xs)
  then show ?case by (cases "xs @ t # s # ts") auto
qed simp

lemma sparse_append: "sparse l (xs @ t # ts) \<Longrightarrow> int (length (filter (recent l t) ts)) < lm_count l"
  by (induction xs) auto

text \<open>
  C30: Two successive requests of a rate domain are never closer than the minimum interval of its
  limits: the second does not start before the start of the first plus the interval, in the
  \<open>float\<close> arithmetic the coordinator computes with, over any history of a coordinator that starts
  empty, nested attempts of the transport and attempts on other domains included.
\<close>

theorem requests_keep_the_interval:
  assumes "coordination p s trace s'" "cd_domains s = []" "domains s' k = Some d"
    and "starts_of k trace = xs @ [t, u] @ ys"
  shows "\<not> double_less u (double_plus t (lm_interval (dm_limits d)))"
proof -
  have "kept_apart k (rev (starts_of k trace)) s'"
    using history_kept_apart [OF assms(1) fresh_kept_apart [OF assms(2)]] by simp
  then have "apart (dm_limits d) (rev ys @ u # t # rev xs)" using assms(3,4) by (simp add: kept_apart_def)
  then show ?thesis by (rule apart_append)
qed

text \<open>
  C31: Whenever a request of a rate domain starts, fewer than the permitted number of earlier
  requests are in its rolling window. A start counts when both computed comparisons say so: the
  difference of the two readings is below the window and the new reading is before the earlier
  one plus the window.
\<close>

theorem requests_keep_the_window:
  assumes "coordination p s trace s'" "cd_domains s = []" "domains s' k = Some d"
    and "starts_of k trace = xs @ [t] @ ys"
  shows "int (length (filter (recent (dm_limits d) t) xs)) < lm_count (dm_limits d)"
proof -
  have "kept_apart k (rev (starts_of k trace)) s'"
    using history_kept_apart [OF assms(1) fresh_kept_apart [OF assms(2)]] by simp
  then have "sparse (dm_limits d) (rev ys @ t # rev xs)" using assms(3,4) by (simp add: kept_apart_def)
  then have "int (length (filter (recent (dm_limits d) t) (rev xs))) < lm_count (dm_limits d)"
    by (rule sparse_append)
  then show ?thesis by (metis length_rev rev_filter)
qed

text \<open>
  C32: While a request of a rate domain is with the transport, no other request of that domain
  starts, whatever the transport does with the coordinator, and its entry stays as the start left it.
\<close>

theorem one_request_at_a_time:
  assumes "prepare p q b s = (s1, Inr (Inr (c, es)))" "coordination p (occupy c s1) trace s2"
  shows "starts_of (rate_key b) trace = []
    \<and> domains s2 (rate_key b) = domains (occupy c s1) (rate_key b)"
proof -
  obtain l where "domains (occupy c s1) = (domains s)(rate_key b \<mapsto> (domain_of (rate_key b) l s)
      \<lparr>dm_occupied := True, dm_last_start := Some (pp_now c),
       dm_starts := active_starts (domain_of (rate_key b) l s) (pp_now c) @ [pp_now c]\<rparr>)"
    using prepare_start [OF assms(1)] .
  then obtain d where "domains (occupy c s1) (rate_key b) = Some d" "dm_occupied d" by simp
  then show ?thesis using occupied_domain_idle [OF assms(2)] by simp
qed

section \<open>A retry answer is honoured\<close>

lemma record_cooldown_returns:
  assumes "record_cooldown_of k l received t retry s = (s', Inr until)"
  shows "is_finite (double_max (dm_cooldown (domain_of k l s)) (double_plus received retry))
    \<and> domains s' = (domains s)(k \<mapsto> (domain_of k l s)
        \<lparr>dm_cooldown := double_max (dm_cooldown (domain_of k l s)) (double_plus received retry)\<rparr>)"
  using assms
  by (auto simp: record_cooldown_of_def Let_def prog_Inr change_domain_def domains_set
      split: if_splits double.splits sum.splits)

lemma domains_cooldown:
  assumes "record_cooldown_of k l received t retry s = (s', Inr until)" "is_double (dm_cooldown (domain_of k l s))"
  shows "\<exists>d. domains s' k = Some d \<and> cooled (double_plus received retry) d"
proof -
  note returns = record_cooldown_returns [OF assms(1)]
  have "is_double (double_max (dm_cooldown (domain_of k l s)) (double_plus received retry))"
    using max_is_double [OF assms(2)] returns by simp
  then show ?thesis using returns by (simp add: cooled_def double_max_def)
qed

lemma receive_retry:
  assumes "receive p k l t0 r s = (s', Inr y)" "tn_retry y = Some x" "is_double (dm_cooldown (domain_of k l s))"
  shows "\<exists>d now. domains s' k = Some d \<and> cd_last_clock s' = Some now \<and> cooled (double_plus now x) d"
proof -
  let ?body = "prog_bind (clock p) (\<lambda>(received, t). record_response k l r received t)"
  have "?body s = (s', Inr y)"
    using assms(1,2) by (auto simp: receive_def prog_simps(7,1) received_nothing_def split: prod.splits sum.splits)
  then obtain s1 received t where clock: "clock p s = (s1, Inr (received, t))"
    and rest: "record_response k l r received t s1 = (s', Inr y)"
    unfolding prog_Inr by auto
  have same: "shared s1 = shared s" using prog_relD [OF quiet_clock clock] .
  let ?s2 = "s1\<lparr>cd_last_clock := Some received\<rparr>"
  obtain until where cool: "record_cooldown_of k l received t x ?s2 = (s', Inr until)"
    using rest assms(2)
    by (auto simp: record_response_def record_clock_def prog_Inr received_nothing_def split: option.splits)
  have "domain_of k l ?s2 = domain_of k l s" using sharedD [OF same] by (simp add: domain_of_def)
  then have "\<exists>d. domains s' k = Some d \<and> cooled (double_plus received x) d"
    using domains_cooldown [OF cool] assms(3) by simp
  moreover have "cd_last_clock s' = Some received" using record_cooldown_effect [OF cool] by simp
  ultimately show ?thesis by blast
qed

lemma conclude_retry:
  assumes "conclude_attempt c es y s = (s', Inr r)" "at_status r = At_Failed" "at_retry_after r = Some x"
  shows "tn_retry y = Some x \<and> s' = s"
  using assms
  by (auto simp: conclude_attempt_def fail_attempt_def Let_def prog_Inr split: option.splits if_splits)

lemma conclude_failed:
  assumes "conclude_attempt c es y s = (s', Inr r)" "tn_response y = Some x" "\<not> ol_succeeded x"
  shows "at_status r = At_Failed \<and> at_retry_after r = tn_retry y"
  using assms by (auto simp: conclude_attempt_def fail_attempt_def Let_def prog_Inr)

lemma prepare_status: "prepare p q b s = (s1, Inr (Inl r)) \<Longrightarrow> at_status r \<in> {At_Blocked, At_Rejected}"
  unfolding prepare_def
  by (auto simp: prog_Inr decide_def rejected_def blocked_result_def split: if_splits)

lemma conclude_status: "conclude_attempt c es y s = (s', Inr r) \<Longrightarrow> at_status r \<in> {At_Succeeded, At_Failed}"
  by (auto simp: conclude_attempt_def fail_attempt_def Let_def prog_Inr split: option.splits if_splits)

text \<open>The status of the result tells whether the transport was called.\<close>

lemma attempt_cases:
  assumes run: "attempt p send q (Inr b) s = (s', Inr r)"
  obtains (refused) v where "prepare p q b s = (s', v)" "\<nexists>c es. v = Inr (Inr (c, es))"
      "at_status r \<in> {At_Blocked, At_Rejected}" "\<And>send. attempt p send q (Inr b) s = (s', Inr r)"
  | (started) s1 c es s2 z s3 y where "prepare p q b s = (s1, Inr (Inr (c, es)))"
      "checked_send send (cq_resource q) (occupy c s1) = (s2, Inr z)"
      "receive p (rate_key b) (pp_limits c) (pp_utc c) z s2 = (s3, Inr y)"
      "conclude_attempt c es y (released (rate_key b) (pp_limits c) s3) = (s', Inr r)"
      "s' = released (rate_key b) (pp_limits c) s3" "at_status r \<in> {At_Succeeded, At_Failed}"
proof -
  obtain s1 v where prep: "prepare p q b s = (s1, v)" by fastforce
  consider e where "v = Inl e" | z where "v = Inr (Inl z)" | c es where "v = Inr (Inr (c, es))"
    by (metis old.sum.exhaust surj_pair)
  then show thesis
  proof cases
    case 1
    note all = attempt_unsent(2) [OF prep [unfolded 1]]
    then have "s' = s1" "r = rejected ''invalid_attempt_input''" using run by simp_all
    then show thesis using refused [OF prep [folded \<open>s' = s1\<close>]] all 1 by (simp add: rejected_def)
  next
    case 2
    note all = attempt_unsent(3) [OF prep [unfolded 2]]
    then have "s' = s1" "r = z" using run by simp_all
    then show thesis using refused [OF prep [folded \<open>s' = s1\<close>]] all 2 prepare_status [OF prep [unfolded 2]] by simp
  next
    case 3
    then have prep: "prepare p q b s = (s1, Inr (Inr (c, es)))" using prep by simp
    obtain s2 z s3 y r' where sent: "checked_send send (cq_resource q) (occupy c s1) = (s2, Inr z)"
      "receive p (rate_key b) (pp_limits c) (pp_utc c) z s2 = (s3, Inr y)"
      and final: "conclude_attempt c es y (released (rate_key b) (pp_limits c) s3)
        = (released (rate_key b) (pp_limits c) s3, Inr r')"
      and result: "attempt p send q (Inr b) s = (released (rate_key b) (pp_limits c) s3, Inr r')"
      by (rule sent_attempt [OF prep])
    have "s' = released (rate_key b) (pp_limits c) s3" "r' = r" using result run by simp_all
    then show thesis using started [OF prep sent] final conclude_status [OF final] by simp
  qed
qed

lemma failed_attempt_cools:
  assumes kept: "kept_apart (rate_key b) ts s"
    and transport: "\<And>key s. \<exists>trace. coordination p s trace (fst (send key s))"
    and run: "attempt p send q (Inr b) s = (s', Inr r)" "at_status r = At_Failed" "at_retry_after r = Some x"
  shows "\<exists>d now. domains s' (rate_key b) = Some d \<and> cd_last_clock s' = Some now \<and> cooled (double_plus now x) d"
  using run(1)
proof (cases rule: attempt_cases)
  case refused
  then show ?thesis using run(2) by auto
next
  case (started s1 c es s2 z s3 y)
  let ?k = "rate_key b"
  obtain xs where inner: "coordination p (occupy c s1) xs s2"
    using transport sent_transport [OF started(2)] by blast
  have y: "tn_retry y = Some x" using conclude_retry [OF started(4) run(2,3)] by simp
  have "is_double (dm_cooldown (domain_of ?k (pp_limits c) s2))"
    using cooldown_is_double [OF history_kept_apart [OF inner start_kept_apart [OF started(1) kept]]] .
  then obtain e now where "domains s3 ?k = Some e" "cd_last_clock s3 = Some now" "cooled (double_plus now x) e"
    using receive_retry [OF started(3) y] by blast
  then show ?thesis by (simp add: started(5) released_effect domain_of_cases cooled_def)
qed

text \<open>
  C33: An answer that asks to wait is honoured: after an attempt that failed with a retry time, no
  request of its rate domain starts before the reading of the clock at the answer plus that time,
  over any later history of the coordinator.
\<close>

theorem retry_answer_is_honoured:
  assumes "coordination p s0 earlier s" "cd_domains s0 = []"
    and "\<And>key s. \<exists>trace. coordination p s trace (fst (send key s))"
    and "attempt p send q (Inr b) s = (s', Inr r)" "at_status r = At_Failed" "at_retry_after r = Some x"
    and "coordination p s' trace s''" "cd_last_clock s' = Some now" "u \<in> set (starts_of (rate_key b) trace)"
  shows "\<not> double_less u (double_plus now x)"
proof -
  have "kept_apart (rate_key b) (rev (starts_of (rate_key b) earlier) @ []) s"
    by (rule history_kept_apart [OF assms(1) fresh_kept_apart [OF assms(2)]])
  then have "\<exists>d. domains s' (rate_key b) = Some d \<and> cooled (double_plus now x) d"
    using failed_attempt_cools [OF _ assms(3-6)] assms(8) by fastforce
  then show ?thesis using cooldown_kept [OF assms(7)] assms(9) by blast
qed

text \<open>
  C34: An attempt that is refused, because its input is invalid or a restriction of the domain is
  in force, changes no domain and no clock of the coordinator, and its result is the same for every
  transport: the transport is not asked.
\<close>

theorem refused_attempt_changes_nothing:
  assumes "attempt p send q binding s = (s', Inr r)" "at_status r \<in> {At_Blocked, At_Rejected}"
  shows "shared s' = shared s \<and> (\<forall>other. attempt p other q binding s = (s', Inr r))"
proof (cases binding)
  case (Inl b)
  then show ?thesis using assms(1) by (simp add: attempt_unsent)
next
  case (Inr b)
  then have "attempt p send q (Inr b) s = (s', Inr r)" using assms(1) by simp
  then show ?thesis
  proof (cases rule: attempt_cases)
    case (refused v)
    then show ?thesis using prog_relD [OF quiet_prepare refused(1)] Inr by simp
  next
    case started
    then show ?thesis using assms(2) by auto
  qed
qed

section \<open>An example\<close>

text \<open>Two attempts on the sample source; the transport answers the first with a retry time of 5 seconds.\<close>

definition demo_reply :: offline_response where
  "demo_reply =
     \<lparr>ol_succeeded = False, ol_payload = None, ol_category = Cat_Rate_Limited, ol_retry_after = Some (Finite 5)\<rparr>"

definition demo_send :: "tape offline_transport" where
  "demo_send key s = (s, Inr demo_reply)"

definition first_state :: "tape coordinator" where
  "first_state = \<lparr>cd_domains = [], cd_last_clock = None,
     cd_world = (100, demo_ids @ ''a0'' # demo_ids @ ''a0'' # [])\<rparr>"

definition cooled_domain :: domain where
  "cooled_domain = \<lparr>dm_limits = demo_limits, dm_occupied = False, dm_last_start = Some (Finite 100),
     dm_starts = [Finite 100], dm_cooldown = Finite 115\<rparr>"

definition second_state :: "tape coordinator" where
  "second_state = \<lparr>cd_domains = [(''d'', cooled_domain)], cd_last_clock = Some (Finite 110),
     cd_world = (120, demo_ids @ [''a0''])\<rparr>"

definition second_domain :: domain where
  "second_domain = cooled_domain\<lparr>dm_last_start := Some (Finite 120), dm_starts := [Finite 100, Finite 120]\<rparr>"

definition third_state :: "tape coordinator" where
  "third_state = \<lparr>cd_domains = [(''d'', second_domain)], cd_last_clock = Some (Finite 130), cd_world = (140, [])\<rparr>"

lemmas double_simps = double_max_def double_minus_def double_plus_def double_uminus_def double_less_def
  is_finite_def is_nonzero_def

lemma demo_key_in: "rate_key (demo_binding_in k) = k"
  by (simp add: rate_key_def demo_binding_parts)

lemma demo_key: "rate_key demo_binding = ''d''"
  using demo_key_in [of "''d''"] by (simp add: demo_binding_in_d)

lemma demo_domain_names: "is_identifier ''d''" "is_text ''d''" "is_identifier ''o''" "is_text ''o''"
  by (simp_all add: demo_identifiers_ok is_text_def)

lemma demo_receive:
  assumes "cd_world s = (110, is)" "cd_last_clock s = Some (Finite 100)" "dm_cooldown (domain_of ''d'' l s) = Finite 0"
  shows "\<exists>y. receive demo_providers ''d'' l demo_time (Some demo_reply, ''rate_limited'') s
      = (set_domain ''d'' ((domain_of ''d'' l s)\<lparr>dm_cooldown := Finite 115\<rparr>)
           (s\<lparr>cd_world := (120, is), cd_last_clock := Some (Finite 110)\<rparr>), Inr y)
    \<and> tn_response y = Some demo_reply \<and> tn_retry y = Some (Finite 5)"
proof -
  have clock: "clock demo_providers s = (s\<lparr>cd_world := (120, is)\<rparr>, Inr (Finite 110, demo_time))"
    using demo_clock [of s 110 "is"] assms by (simp add: double_simps)
  have "timedelta_us 5 = 5000000" using timedelta_us_of_int [of 5] by simp
  then have "plus_us (wall demo_time) (timedelta_us 5) = Inr 63925632005500000"
    by (simp add: plus_us_def demo_time_def utc_def valid_instant_def max_instant_def)
  then show ?thesis
    using clock assms(3)
    by (simp add: receive_def prog_simps record_response_def record_clock_def demo_reply_def
        record_cooldown_of_def domain_of_def change_domain_def double_simps)
qed

lemma demo_received_nothing:
  assumes "cd_world s = (n, is)" "cd_last_clock s = Some (Finite m)" "0 \<le> n" "n < 2 ^ 53" "m \<le> of_int n"
  shows "\<exists>y. receive demo_providers k l demo_time (None, reason) s
      = (s\<lparr>cd_world := (n + 10, is), cd_last_clock := Some (Finite (of_int n))\<rparr>, Inr y)"
  using demo_clock [of s n "is"] assms
  by (simp add: receive_def prog_simps record_response_def record_clock_def double_simps)

lemma first_prepared:
  "\<exists>c es. prepare demo_providers demo_request demo_binding first_state
      = (first_state\<lparr>cd_world := (110, demo_ids @ [''a0''])\<rparr>, Inr (Inr (c, es)))
    \<and> pp_binding c = demo_binding \<and> pp_limits c = demo_limits \<and> pp_now c = Finite 100
    \<and> pp_utc c = demo_time \<and> pp_active c = []"
proof -
  have "\<not> blocked (fresh_domain demo_limits) (Finite 100)"
    by (simp add: blocked_def remaining_def fresh_domain_def interval_left_def window_left_def active_starts_def
        demo_limits_def double_simps Let_def)
  then show ?thesis
    using demo_prepare [OF demo_domain_names(1,2), of first_state 100 "demo_ids @ [''a0'']" "fresh_domain demo_limits"]
    by (simp add: first_state_def domain_of_def fresh_domain_def active_starts_def demo_binding_in_d)
qed

lemma second_prepared:
  "\<exists>c es. prepare demo_providers demo_request demo_binding second_state
      = (second_state\<lparr>cd_world := (130, [])\<rparr>, Inr (Inr (c, es)))
    \<and> pp_binding c = demo_binding \<and> pp_limits c = demo_limits \<and> pp_now c = Finite 120
    \<and> pp_utc c = demo_time \<and> pp_active c = [Finite 100]"
proof -
  have "\<not> blocked cooled_domain (Finite 120)"
    by (simp add: blocked_def remaining_def cooled_domain_def interval_left_def window_left_def active_starts_def
        demo_limits_def double_simps Let_def)
  then show ?thesis
    using demo_prepare [OF demo_domain_names(1,2), of second_state 120 "[]" cooled_domain]
    by (simp add: second_state_def domain_of_def cooled_domain_def active_starts_def demo_limits_def double_simps
        demo_binding_in_d)
qed

lemma first_sent:
  "coordination demo_providers first_state [(''d'', Finite 100)] second_state
   \<and> (\<exists>r. attempt demo_providers demo_send demo_request (Inr demo_binding) first_state
        = (second_state, Inr r) \<and> at_status r = At_Failed \<and> at_retry_after r = Some (Finite 5))"
proof -
  obtain c es where prep: "prepare demo_providers demo_request demo_binding first_state
      = (first_state\<lparr>cd_world := (110, demo_ids @ [''a0''])\<rparr>, Inr (Inr (c, es)))"
    and c: "pp_binding c = demo_binding" "pp_limits c = demo_limits" "pp_now c = Finite 100"
      "pp_utc c = demo_time" "pp_active c = []"
    using first_prepared by blast
  let ?busy = "occupy c (first_state\<lparr>cd_world := (110, demo_ids @ [''a0''])\<rparr>)"
  have busy: "cd_world ?busy = (110, demo_ids @ [''a0''])" "cd_last_clock ?busy = Some (Finite 100)"
    "dm_cooldown (domain_of ''d'' demo_limits ?busy) = Finite 0"
    by (simp_all add: occupy_def Let_def c demo_key set_domain_def first_state_def domain_of_def fresh_domain_def)
  obtain s3 y where y: "receive demo_providers ''d'' demo_limits demo_time
      (Some demo_reply, ''rate_limited'') ?busy = (s3, Inr y)"
    "s3 = set_domain ''d'' ((domain_of ''d'' demo_limits ?busy)\<lparr>dm_cooldown := Finite 115\<rparr>)
           (?busy\<lparr>cd_world := (120, demo_ids @ [''a0'']), cd_last_clock := Some (Finite 110)\<rparr>)"
    "tn_response y = Some demo_reply" "tn_retry y = Some (Finite 5)"
    using demo_receive [OF busy] by blast
  have last: "released ''d'' demo_limits s3 = second_state"
    by (simp add: y(2) released_def occupy_def Let_def c demo_key set_domain_def first_state_def domain_of_def
        fresh_domain_def second_state_def cooled_domain_def)
  have sent: "checked_send demo_send (cq_resource demo_request) ?busy
      = (?busy, Inr (Some demo_reply, ''rate_limited''))"
    by (simp add: checked_send_def prog_simps demo_send_def demo_reply_def response_is_valid_def double_simps)
  have "coordination demo_providers first_state [(rate_key demo_binding, pp_now c)]
      (released (rate_key demo_binding) (pp_limits c) s3)"
    by (rule coordination.sent [OF prep elsewhere]) (use y(1) c demo_key in simp_all)
  then have one: "coordination demo_providers first_state [(''d'', Finite 100)] second_state"
    using c last by (simp add: demo_key)
  obtain s2 z s4 v r where run: "checked_send demo_send (cq_resource demo_request) ?busy = (s2, Inr z)"
    "receive demo_providers (rate_key demo_binding) (pp_limits c) (pp_utc c) z s2 = (s4, Inr v)"
    "conclude_attempt c es v (released (rate_key demo_binding) (pp_limits c) s4)
      = (released (rate_key demo_binding) (pp_limits c) s4, Inr r)"
    "attempt demo_providers demo_send demo_request (Inr demo_binding) first_state
      = (released (rate_key demo_binding) (pp_limits c) s4, Inr r)"
    by (rule sent_attempt [OF prep, of demo_send])
  have z: "s2 = ?busy" "z = (Some demo_reply, ''rate_limited'')" using run(1) sent by simp_all
  have v: "s4 = s3" "v = y" using run(2) y(1) by (simp_all add: z c demo_key)
  have end_state: "released (rate_key demo_binding) (pp_limits c) s4 = second_state"
    using last by (simp add: v c demo_key)
  have "\<not> ol_succeeded demo_reply" by (simp add: demo_reply_def)
  then have "at_status r = At_Failed \<and> at_retry_after r = Some (Finite 5)"
    using conclude_failed [OF run(3)] y(3,4) v(2) by simp
  then show ?thesis using one run(4) end_state by auto
qed

lemma second_sent: "coordination demo_providers second_state [(''d'', Finite 120)] third_state"
proof -
  obtain c es where prep: "prepare demo_providers demo_request demo_binding second_state
      = (second_state\<lparr>cd_world := (130, [])\<rparr>, Inr (Inr (c, es)))"
    and c: "pp_binding c = demo_binding" "pp_limits c = demo_limits" "pp_now c = Finite 120"
      "pp_utc c = demo_time" "pp_active c = [Finite 100]"
    using second_prepared by blast
  let ?busy = "occupy c (second_state\<lparr>cd_world := (130, [])\<rparr>)"
  have busy: "cd_world ?busy = (130, [])" "cd_last_clock ?busy = Some (Finite 120)"
    by (simp_all add: occupy_def Let_def c demo_key set_domain_def second_state_def)
  obtain y where y: "receive demo_providers ''d'' demo_limits demo_time (None, ''transport_exception'') ?busy
      = (?busy\<lparr>cd_world := (140, []), cd_last_clock := Some (Finite 130)\<rparr>, Inr y)"
    using demo_received_nothing [OF busy, where k = "''d''"] by auto
  have last: "released ''d'' demo_limits (?busy\<lparr>cd_world := (140, []), cd_last_clock := Some (Finite 130)\<rparr>)
      = third_state"
    by (simp add: released_def occupy_def Let_def c demo_key set_domain_def second_state_def domain_of_def
        cooled_domain_def third_state_def second_domain_def)
  have "coordination demo_providers second_state [(rate_key demo_binding, pp_now c)]
      (released (rate_key demo_binding) (pp_limits c)
        (?busy\<lparr>cd_world := (140, []), cd_last_clock := Some (Finite 130)\<rparr>))"
    by (rule coordination.sent [OF prep elsewhere]) (use y c demo_key in simp_all)
  then show ?thesis using c last by (simp add: demo_key)
qed

lemma both_sent: "coordination demo_providers first_state [(''d'', Finite 100), (''d'', Finite 120)] third_state"
  using coordination.in_sequence [OF conjunct1 [OF first_sent] second_sent] by simp

lemma third_domain: "cd_domains first_state = []" "domains third_state ''d'' = Some second_domain"
  by (simp_all add: first_state_def third_state_def)

theorem requests_keep_the_interval_witness:
  "\<not> double_less (Finite 120) (double_plus (Finite 100) (lm_interval (dm_limits second_domain)))"
  using requests_keep_the_interval [OF both_sent third_domain, of "[]" "Finite 100" "Finite 120" "[]"] by simp

theorem requests_keep_the_window_witness:
  "int (length (filter (recent (dm_limits second_domain) (Finite 120)) [Finite 100])) < lm_count (dm_limits second_domain)"
  using requests_keep_the_window [OF both_sent third_domain, of "[Finite 100]" "Finite 120" "[]"] by simp

text \<open>
  A transport that uses the coordinator: while the first request is with it, a request of another
  domain is sent and ends, and then a second attempt of the first domain is blocked.
\<close>

definition nest_state :: "tape coordinator" where
  "nest_state = \<lparr>cd_domains = [], cd_last_clock = None,
     cd_world = (100, demo_ids @ ''a0'' # demo_ids @ ''a0'' # [''e0'', ''e1''])\<rparr>"

definition busy_domain :: domain where
  "busy_domain = (fresh_domain demo_limits)\<lparr>dm_occupied := True, dm_last_start := Some (Finite 100), dm_starts := [Finite 100]\<rparr>"

definition busy_state :: "tape coordinator" where
  "busy_state = \<lparr>cd_domains = [(''d'', busy_domain)], cd_last_clock = Some (Finite 100),
     cd_world = (110, demo_ids @ ''a0'' # [''e0'', ''e1''])\<rparr>"

lemma fresh_unblocked:
  "\<not> blocked (fresh_domain demo_limits) (Finite 100)" "\<not> blocked (fresh_domain demo_limits) (Finite 110)"
  by (simp_all add: blocked_def remaining_def fresh_domain_def interval_left_def window_left_def active_starts_def
      demo_limits_def double_simps Let_def)

lemma nest_prepared:
  "\<exists>c es s1. prepare demo_providers demo_request demo_binding nest_state = (s1, Inr (Inr (c, es)))
    \<and> occupy c s1 = busy_state"
  using demo_prepare [OF demo_domain_names(1,2), of nest_state 100 "demo_ids @ ''a0'' # [''e0'', ''e1'']" "fresh_domain demo_limits"]
    fresh_unblocked
  by (fastforce simp: nest_state_def domain_of_def fresh_domain_def active_starts_def demo_binding_in_d
      occupy_def Let_def demo_key set_domain_def busy_state_def busy_domain_def)

lemma other_sent:
  "\<exists>s2. coordination demo_providers busy_state [(''o'', Finite 110)] s2 \<and> domain_of ''d'' demo_limits s2 = busy_domain
    \<and> cd_world s2 = (130, [''e0'', ''e1'']) \<and> cd_last_clock s2 = Some (Finite 120)"
proof -
  let ?b = "demo_binding_in ''o''" and ?s1 = "busy_state\<lparr>cd_world := (120, [''e0'', ''e1''])\<rparr>"
  obtain c es where prep: "prepare demo_providers demo_request ?b busy_state = (?s1, Inr (Inr (c, es)))"
    and c: "pp_binding c = ?b" "pp_limits c = demo_limits" "pp_now c = Finite 110" "pp_utc c = demo_time"
    using demo_prepare [OF demo_domain_names(3,4), of busy_state 110 "[''e0'', ''e1'']" "fresh_domain demo_limits"]
      fresh_unblocked
    by (auto simp: busy_state_def domain_of_def fresh_domain_def double_simps)
  let ?s2 = "occupy c ?s1"
  have busy: "cd_world ?s2 = (120, [''e0'', ''e1''])" "cd_last_clock ?s2 = Some (Finite 110)"
    by (simp_all add: occupy_def Let_def c set_domain_def)
  obtain y where y: "receive demo_providers ''o'' demo_limits demo_time (None, ''transport_exception'') ?s2
      = (?s2\<lparr>cd_world := (130, [''e0'', ''e1'']), cd_last_clock := Some (Finite 120)\<rparr>, Inr y)"
    using demo_received_nothing [OF busy, where k = "''o''"] by auto
  let ?s3 = "?s2\<lparr>cd_world := (130, [''e0'', ''e1'']), cd_last_clock := Some (Finite 120)\<rparr>"
  have "coordination demo_providers busy_state [(rate_key ?b, pp_now c)] (released (rate_key ?b) (pp_limits c) ?s3)"
    by (rule coordination.sent [OF prep elsewhere]) (use y c in \<open>simp_all add: demo_key_in\<close>)
  then have "coordination demo_providers busy_state [(''o'', Finite 110)] (released ''o'' demo_limits ?s3)"
    by (simp add: demo_key_in c)
  moreover have "domain_of ''d'' demo_limits (released ''o'' demo_limits ?s3) = busy_domain"
    by (simp add: released_def occupy_def Let_def c demo_key_in set_domain_def busy_state_def domain_of_def)
  moreover have "cd_world (released ''o'' demo_limits ?s3) = (130, [''e0'', ''e1''])"
    "cd_last_clock (released ''o'' demo_limits ?s3) = Some (Finite 120)"
    by (simp_all add: released_def set_domain_def)
  ultimately show ?thesis by blast
qed

theorem one_request_at_a_time_witness:
  "\<exists>c es s1 s2 s3 r. prepare demo_providers demo_request demo_binding nest_state = (s1, Inr (Inr (c, es)))
    \<and> coordination demo_providers (occupy c s1) [(''o'', Finite 110)] s2
    \<and> attempt demo_providers demo_send demo_request (Inr demo_binding) s2 = (s3, Inr r) \<and> at_status r = At_Blocked
    \<and> starts_of ''d'' [(''o'', Finite 110)] = []
    \<and> domains s3 ''d'' = domains (occupy c s1) ''d''"
proof -
  obtain c es s1 where prep: "prepare demo_providers demo_request demo_binding nest_state = (s1, Inr (Inr (c, es)))"
    and busy: "occupy c s1 = busy_state"
    using nest_prepared by blast
  obtain s2 where other: "coordination demo_providers busy_state [(''o'', Finite 110)] s2"
    and s2: "domain_of ''d'' demo_limits s2 = busy_domain" "cd_world s2 = (130, [''e0'', ''e1''])"
      "cd_last_clock s2 = Some (Finite 120)"
    using other_sent by blast
  have "blocked busy_domain (Finite (of_int 130))" 
    by (simp add: blocked_def remaining_def busy_domain_def double_simps)
  moreover have "dm_limits busy_domain = demo_limits" by (simp add: busy_domain_def fresh_domain_def)
  ultimately obtain r where refused: "prepare demo_providers demo_request demo_binding s2
      = (s2\<lparr>cd_world := (140, [])\<rparr>, Inr (Inl r))" "at_status r = At_Blocked"
    using demo_blocked [OF demo_domain_names(1,2) s2(2), of busy_domain] s2(1,3)
    by (auto simp: demo_binding_in_d double_simps)
  let ?s3 = "s2\<lparr>cd_world := (140, [])\<rparr>"
  have "coordination demo_providers (occupy c s1) ([(''o'', Finite 110)] @ []) ?s3"
    unfolding busy by (rule coordination.in_sequence [OF other elsewhere]) (simp add: shared_def)
  from one_request_at_a_time [OF prep this]
  have "starts_of ''d'' [(''o'', Finite 110)] = [] \<and> domains ?s3 ''d'' = domains (occupy c s1) ''d''"
    by (simp add: demo_key)
  moreover have "attempt demo_providers demo_send demo_request (Inr demo_binding) s2 = (?s3, Inr r)"
    using refused(1) by (simp add: attempt_unsent)
  moreover have "coordination demo_providers (occupy c s1) [(''o'', Finite 110)] s2"
    using other busy by simp
  ultimately show ?thesis using prep refused(2) by blast
qed

theorem retry_answer_is_honoured_witness:
  "\<not> double_less (Finite 120) (double_plus (Finite 110) (Finite 5))"
proof -
  obtain r where run: "attempt demo_providers demo_send demo_request (Inr demo_binding) first_state
      = (second_state, Inr r)" "at_status r = At_Failed" "at_retry_after r = Some (Finite 5)"
    using first_sent by blast
  have quiet: "\<exists>trace. coordination demo_providers s trace (fst (demo_send key s))" for key s
    using elsewhere [of s s] by (auto simp: demo_send_def)
  show ?thesis
    by (rule retry_answer_is_honoured [OF elsewhere [OF refl] third_domain(1) quiet run second_sent])
      (simp_all add: second_state_def demo_key)
qed

text \<open>The sample attempt while its domain is busy.\<close>

definition blocked_state :: "tape coordinator" where
  "blocked_state = busy_state\<lparr>cd_world := (110, [''e0'', ''e1''])\<rparr>"

lemma blocked_attempt:
  "\<exists>s' r. attempt demo_providers demo_send demo_request (Inr demo_binding) blocked_state = (s', Inr r)
    \<and> at_status r = At_Blocked"
proof -
  have "blocked busy_domain (Finite (of_int 110))"
    by (simp add: blocked_def remaining_def busy_domain_def double_simps)
  then obtain r where "prepare demo_providers demo_request demo_binding blocked_state
      = (blocked_state\<lparr>cd_world := (120, [])\<rparr>, Inr (Inl r))" "at_status r = At_Blocked"
    using demo_blocked [OF demo_domain_names(1,2), of blocked_state 110 "[]" busy_domain]
    by (auto simp: demo_binding_in_d double_simps blocked_state_def busy_state_def domain_of_def busy_domain_def
        fresh_domain_def)
  then show ?thesis by (auto simp: attempt_unsent)
qed

theorem refused_attempt_changes_nothing_witness:
  "\<exists>s' r. attempt demo_providers demo_send demo_request (Inr demo_binding) blocked_state = (s', Inr r)
    \<and> at_status r = At_Blocked \<and> shared s' = shared blocked_state
    \<and> (\<forall>other. attempt demo_providers other demo_request (Inr demo_binding) blocked_state = (s', Inr r))"
proof -
  obtain s' r where run: "attempt demo_providers demo_send demo_request (Inr demo_binding) blocked_state = (s', Inr r)"
    "at_status r = At_Blocked"
    using blocked_attempt by blast
  show ?thesis using refused_attempt_changes_nothing [OF run(1)] run by auto
qed

end
