(* ===== verification/Inventory.thy ===== *)
theory Inventory
  imports Samples
begin

text \<open>
  What a validated configuration guarantees: the inventory check is the conjunction of its three
  rules, and a binding is made only of artifacts of the configuration that fit together.
\<close>

section \<open>The inventory check against its rules\<close>

definition backed_in :: "config_artifact list \<Rightarrow> config_artifact \<Rightarrow> bool" where
  "backed_in artifacts c =
     (case ca_model c of
        Profile p \<Rightarrow> list_ex (\<lambda>b. case ca_model b of
            Approval a \<Rightarrow> sa_artifact a = ar_id (sp_approval_reference p) \<and> consistent_source p a (ca_sha256 b)
          | _ \<Rightarrow> False) artifacts
      | _ \<Rightarrow> True)"

definition identity_of :: "config_artifact \<Rightarrow> string option" where
  "identity_of c = model_artifact_id (ca_model c)"

definition inventory_ok :: "config_artifact list \<Rightarrow> bool" where
  "inventory_ok artifacts \<longleftrightarrow>
     list_all (\<lambda>c. identity_of c \<noteq> None) artifacts \<and> distinct (map identity_of artifacts)
     \<and> list_all (backed_in artifacts) artifacts"

definition is_profile :: "config_artifact \<Rightarrow> bool" where
  "is_profile c = (case ca_model c of Profile _ \<Rightarrow> True | _ \<Rightarrow> False)"

definition approval_at :: "config_artifact list \<Rightarrow> string \<Rightarrow> config_artifact option" where
  "approval_at artifacts i = List.find (\<lambda>b. case ca_model b of Approval a \<Rightarrow> sa_artifact a = i | _ \<Rightarrow> False) artifacts"

lemma approval_at_simps [simp]:
  "approval_at [] i = None"
  "approval_at (c # cs) i = (case ca_model c of
     Approval a \<Rightarrow> if sa_artifact a = i then Some c else approval_at cs i | _ \<Rightarrow> approval_at cs i)"
  by (simp_all add: approval_at_def split: config_model.split)

lemma approval_at_identity: "approval_at cs i = Some b \<Longrightarrow> b \<in> set cs \<and> identity_of b = Some i"
  by (induction cs) (auto simp: identity_of_def model_artifact_id_def split: config_model.splits if_splits)

lemma add_artifact_step:
  "add_artifact c (ids, approvals, profiles) = (case identity_of c of
     None \<Rightarrow> Inl Identity_Missing
   | Some i \<Rightarrow> if i \<in> ids then Inl Duplicate_Identity
       else Inr (insert i ids, (case ca_model c of Approval _ \<Rightarrow> approvals(i \<mapsto> c) | _ \<Rightarrow> approvals),
         profiles @ (if is_profile c then [c] else [])))"
  by (simp add: add_artifact_def identity_of_def is_profile_def split: option.split config_model.split)

definition merged :: "config_artifact list \<Rightarrow> (string \<rightharpoonup> config_artifact) \<Rightarrow> string \<rightharpoonup> config_artifact" where
  "merged artifacts approvals i = (case approval_at artifacts i of None \<Rightarrow> approvals i | Some b \<Rightarrow> Some b)"

lemma merged_Cons:
  assumes "identity_of c = Some i" "Some i \<notin> identity_of ` set cs"
  shows "merged cs (case ca_model c of Approval _ \<Rightarrow> approvals(i \<mapsto> c) | _ \<Rightarrow> approvals) = merged (c # cs) approvals"
proof
  fix j
  have "approval_at cs i = None"
    using approval_at_identity [of cs i] assms(2) by (cases "approval_at cs i") (auto simp: image_iff)
  then show "merged cs (case ca_model c of Approval _ \<Rightarrow> approvals(i \<mapsto> c) | _ \<Rightarrow> approvals) j
      = merged (c # cs) approvals j"
    using assms(1)
    by (auto simp: merged_def identity_of_def model_artifact_id_def split: config_model.splits option.split)
qed

definition admissible :: "string set \<Rightarrow> config_artifact list \<Rightarrow> bool" where
  "admissible ids artifacts \<longleftrightarrow> None \<notin> identity_of ` set artifacts \<and> distinct (map identity_of artifacts)
     \<and> Some ` ids \<inter> identity_of ` set artifacts = {}"

lemma add_artifacts_accepts:
  "admissible ids artifacts \<Longrightarrow> \<exists>ids'. add_artifacts artifacts (ids, approvals, profiles)
     = Inr (ids', merged artifacts approvals, profiles @ filter is_profile artifacts)"
proof (induction artifacts arbitrary: ids approvals profiles)
  case Nil
  then show ?case by (simp add: merged_def)
next
  case (Cons c cs)
  obtain i where i: "identity_of c = Some i" "i \<notin> ids" "Some i \<notin> identity_of ` set cs"
    using Cons.prems by (cases "identity_of c") (auto simp: admissible_def)
  have "admissible (insert i ids) cs" using Cons.prems i by (auto simp: admissible_def)
  then obtain ids' where "add_artifacts cs
      (insert i ids, (case ca_model c of Approval _ \<Rightarrow> approvals(i \<mapsto> c) | _ \<Rightarrow> approvals),
       profiles @ (if is_profile c then [c] else []))
    = Inr (ids', merged (c # cs) approvals, (profiles @ (if is_profile c then [c] else [])) @ filter is_profile cs)"
    using Cons.IH [of "insert i ids"] merged_Cons [OF i(1,3)] by metis
  then show ?case using i(1,2) by (simp add: add_artifact_step)
qed

lemma add_artifacts_refuses:
  "add_artifacts artifacts (ids, approvals, profiles) = Inr seen \<Longrightarrow> admissible ids artifacts"
proof (induction artifacts arbitrary: ids approvals profiles)
  case (Cons c cs)
  then obtain i approvals' profiles' where i: "identity_of c = Some i" "i \<notin> ids"
    and "add_artifacts cs (insert i ids, approvals', profiles') = Inr seen"
    by (auto simp: add_artifact_step split: option.splits if_splits)
  then have "admissible (insert i ids) cs" using Cons.IH by blast
  then show ?case using i by (auto simp: admissible_def)
qed (simp add: admissible_def)

lemma first_failure_ok: "first_failure f xs = Inr () \<longleftrightarrow> (\<forall>x \<in> set xs. f x = Inr ())"
  by (induction xs) (auto split: sum.splits)

lemma not_profile_backed: "\<not> is_profile c \<Longrightarrow> backed_in artifacts c"
  by (cases "ca_model c") (simp_all add: is_profile_def backed_in_def)

lemma approval_at_None: "approval_at cs i = None \<longleftrightarrow> (\<forall>b \<in> set cs. \<forall>a. ca_model b = Approval a \<longrightarrow> sa_artifact a \<noteq> i)"
  by (induction cs) (auto split: config_model.split)

lemma approval_at_Some: "approval_at cs i = Some b \<Longrightarrow> b \<in> set cs \<and> (\<exists>a. ca_model b = Approval a \<and> sa_artifact a = i)"
  by (induction cs) (auto split: config_model.splits if_splits)

lemma approval_at_unique:
  assumes "distinct (map identity_of cs)" "approval_at cs i = Some b"
    and "d \<in> set cs" "ca_model d = Approval a" "sa_artifact a = i"
  shows "d = b"
proof -
  have "identity_of d = Some i" using assms(4,5) by (simp add: identity_of_def model_artifact_id_def)
  then show ?thesis
    using assms(1,3) approval_at_identity [OF assms(2)] by (auto simp: distinct_map inj_on_def)
qed

lemma reference_backed:
  assumes "distinct (map identity_of artifacts)"
  shows "validate_source_reference (merged artifacts Map.empty) c = Inr () \<longleftrightarrow> backed_in artifacts c"
proof (cases "ca_model c")
  case (Profile p)
  let ?i = "ar_id (sp_approval_reference p)"
  show ?thesis
  proof (cases "approval_at artifacts ?i")
    case None
    then show ?thesis
      using Profile approval_at_None [of artifacts ?i]
      by (auto simp: validate_source_reference_def merged_def backed_in_def list_ex_iff split: config_model.split)
  next
    case (Some b)
    then obtain a where b: "b \<in> set artifacts" "ca_model b = Approval a" "sa_artifact a = ?i"
      using approval_at_Some by blast
    have "backed_in artifacts c \<longleftrightarrow> (\<exists>d \<in> set artifacts. \<exists>a. ca_model d = Approval a
        \<and> sa_artifact a = ?i \<and> consistent_source p a (ca_sha256 d))"
      by (simp add: backed_in_def Profile list_ex_iff) (rule bex_cong; simp split: config_model.split)
    also have "\<dots> \<longleftrightarrow> consistent_source p a (ca_sha256 b)"
      using b approval_at_unique [OF assms Some] by (metis config_model.inject(1))
    finally have "backed_in artifacts c \<longleftrightarrow> consistent_source p a (ca_sha256 b)" .
    then show ?thesis using Profile Some b by (simp add: validate_source_reference_def merged_def)
  qed
qed (simp_all add: validate_source_reference_def backed_in_def)

text \<open>
  C35: The inventory check accepts a configuration exactly when every artifact has an identity, no
  two share one, and every source profile names an approval of the configuration whose type, schema,
  version and bytes it cites and with whose source, status and credential it agrees, an enabled
  profile with an approved one that allows online use.
\<close>

theorem inventory_accepts_exactly: "validate_inventory artifacts = Inr () \<longleftrightarrow> inventory_ok artifacts"
proof -
  have ok: "inventory_ok artifacts \<longleftrightarrow> admissible {} artifacts \<and> (\<forall>c \<in> set (filter is_profile artifacts). backed_in artifacts c)"
    by (force simp: inventory_ok_def admissible_def list_all_iff not_profile_backed)
  show ?thesis
  proof (cases "admissible {} artifacts")
    case True
    then obtain ids' where "add_artifacts artifacts ({}, Map.empty, []) = Inr (ids', merged artifacts Map.empty, filter is_profile artifacts)"
      using add_artifacts_accepts [of "{}" artifacts Map.empty "[]"] by auto
    moreover have "distinct (map identity_of artifacts)" using True by (simp add: admissible_def)
    ultimately show ?thesis
      using ok True reference_backed by (auto simp: validate_inventory_def first_failure_ok)
  next
    case False
    then show ?thesis
      using ok add_artifacts_refuses [of artifacts "{}" Map.empty "[]"]
      by (cases "add_artifacts artifacts ({}, Map.empty, [])") (auto simp: validate_inventory_def)
  qed
qed

section \<open>Bindings\<close>

lemma try_bind_returns:
  assumes "try_bind artifacts source pv pol today = Inr b"
  obtains c d l where "c \<in> set artifacts" "ca_model c = Profile (bd_profile b)" "sp_source (bd_profile b) = source"
    "d \<in> set artifacts" "ca_model d = Approval (bd_approval b)"
    "b = new_binding (bd_approval b) (ca_sha256 d) (bd_profile b) (ca_sha256 c) today" "binding_limits b = Inr l"
proof -
  obtain c where c: "filter (selects_profile source pv pol) artifacts = [c]"
    using assms by (auto simp: try_bind_def split: list.splits)
  obtain p where p: "ca_model c = Profile p" using assms c by (auto simp: try_bind_def split: config_model.splits)
  obtain d where d: "filter (approves (ar_id (sp_approval_reference p))) artifacts = [d]"
    using assms c p by (auto simp: try_bind_def split: list.splits if_splits)
  obtain a where a: "ca_model d = Approval a"
    using assms c p d by (auto simp: try_bind_def split: config_model.splits if_splits)
  obtain l where b: "b = new_binding a (ca_sha256 d) p (ca_sha256 c) today" "binding_limits b = Inr l"
    using assms c p d a by (auto simp: try_bind_def Let_def split: if_splits sum.splits)
  have "c \<in> set (filter (selects_profile source pv pol) artifacts)"
    "d \<in> set (filter (approves (ar_id (sp_approval_reference p))) artifacts)"
    unfolding c d by simp_all
  then have "c \<in> set artifacts \<and> selects_profile source pv pol c" "d \<in> set artifacts" by simp_all
  moreover have "bd_profile b = p" "bd_approval b = a" using b(1) by (simp_all add: new_binding_def)
  ultimately show thesis using that [of c d l] p a b by (simp add: selects_profile_def)
qed

lemma new_binding_parts:
  "bd_date (new_binding a asha p psha t) = t" "bd_approval_reference (new_binding a asha p psha t) = approval_ref a asha"
  by (simp_all add: new_binding_def)

lemma binding_limits_supported: "binding_limits b = Inr l \<Longrightarrow> supported b"
  by (simp add: binding_limits_def Let_def split: if_splits)

lemma bind_source_Inr: "bind_source artifacts source pv pol today = Inr (Inr b) \<longleftrightarrow> try_bind artifacts source pv pol today = Inr b"
  by (simp add: bind_source_def split: sum.split)

text \<open>
  C36: A binding is made only of artifacts of the configuration that fit: the profile of the asked
  source, and the approval it cites by its identity and by the hash of its bytes, approved for
  online use, in force on the day of the evaluation, and agreeing with the profile.
\<close>

theorem bindings_fit_the_configuration:
  assumes "bind_source artifacts source pv pol today = Inr (Inr b)"
  shows "\<exists>c \<in> set artifacts. \<exists>d \<in> set artifacts.
    ca_model c = Profile (bd_profile b) \<and> ca_model d = Approval (bd_approval b) \<and> sp_source (bd_profile b) = source
    \<and> consistent_source (bd_profile b) (bd_approval b) (ca_sha256 d)
    \<and> sa_artifact (bd_approval b) = ar_id (sp_approval_reference (bd_profile b))
    \<and> sa_status (bd_approval b) = Approved \<and> sa_online_use (bd_approval b) \<and> in_force (bd_approval b) today"
proof -
  obtain c d l where b: "c \<in> set artifacts" "ca_model c = Profile (bd_profile b)" "sp_source (bd_profile b) = source"
    "d \<in> set artifacts" "ca_model d = Approval (bd_approval b)"
    "b = new_binding (bd_approval b) (ca_sha256 d) (bd_profile b) (ca_sha256 c) today" "binding_limits b = Inr l"
    by (rule try_bind_returns [OF assms [unfolded bind_source_Inr]])
  have "bd_date b = today" "bd_approval_reference b = approval_ref (bd_approval b) (ca_sha256 d)"
    using arg_cong [OF b(6), of bd_date] arg_cong [OF b(6), of bd_approval_reference]
    unfolding new_binding_parts .
  then show ?thesis
    using b(1-5) binding_limits_supported [OF b(7)]
    by (intro bexI [of _ c] bexI [of _ d]) (auto simp: supported_def consistent_source_def approval_ref_def Let_def)
qed

lemma positive_setting_error: "positive_setting q u = Inl e \<Longrightarrow> e \<in> {ValueError, OverflowError}"
  by (auto simp: positive_setting_def split: if_splits option.splits number.splits)

lemma binding_limits_error: "binding_limits b = Inl e \<Longrightarrow> e \<in> {ValueError, OverflowError}"
  using positive_setting_error by (fastforce simp: binding_limits_def Let_def split: if_splits sum.splits)

text \<open>Only an overflow leaves \<open>bind_source\<close>, and an example below shows that it does.\<close>

lemma bind_source_raises_only_overflow:
  assumes "bind_source artifacts source pv pol today = Inl e"
  shows "e = OverflowError"
proof -
  have "try_bind artifacts source pv pol today = Inl e" "e \<notin> {ValueError, ValidationError}"
    using assms by (auto simp: bind_source_def split: sum.splits if_splits)
  then show ?thesis
    using binding_limits_error
    by (auto simp: try_bind_def Let_def split: list.splits config_model.splits if_splits sum.splits)
qed

section \<open>Examples\<close>

definition demo_artifacts :: "source_profile \<Rightarrow> config_artifact list" where
  "demo_artifacts p =
     [\<lparr>ca_path = [''source-approvals'', ''s'', ''v1.yaml''], ca_model = Approval demo_approval, ca_sha256 = demo_sha\<rparr>,
      \<lparr>ca_path = [''source-profiles'', ''s'', ''v1.yaml''], ca_model = Profile p, ca_sha256 = demo_sha\<rparr>]"

definition huge_profile :: source_profile where
  "huge_profile = demo_profile\<lparr>sp_rate_requests := setting_of (2 ^ 1024) ''request''\<rparr>"

lemma more_demo_identifiers:
  "is_identifier ''r''" "is_identifier ''s''" "is_identifier ''e''" "is_identifier ''a''" "is_identifier ''terms''"
  "is_identifier ''second''" "is_identifier ''request''" "is_identifier ''item''"
  by code_simp+

lemma demo_approval_valid: "valid_source_approval demo_approval"
  unfolding valid_source_approval_def
  by (auto simp: approval_fields_ok_def approval_rules_ok_def demo_approval_def more_demo_identifiers
      demo_identifiers_ok is_text_def is_date_def demo_dates unless_None_def valid_official_reference_def
      valid_source_condition_def demo_condition_def all_categories_def conditions_complete_def)

lemma demo_profiles_valid: "valid_source_profile demo_profile" "valid_source_profile huge_profile"
proof -
  have "valid_artifact_reference (approval_ref demo_approval demo_sha)"
    by (simp add: demo_reference_valid demo_approval_def demo_identifiers_ok)
  then show "valid_source_profile demo_profile" "valid_source_profile huge_profile"
    unfolding valid_source_profile_def
    by (simp_all add: profile_fields_ok_def profile_rules_ok_def huge_profile_def demo_profile_def
        more_demo_identifiers demo_identifiers_ok unless_None_def valid_setting_def setting_of_def no_setting_def
        number_less_def not_positive_def approval_ref_def)
qed

lemma demo_bound:
  assumes "sp_source p = ''s''" "sp_profile_version p = 1" "sp_policy_version p = 1" "valid_source_profile p"
    and "sp_approval_reference p = approval_ref demo_approval demo_sha" "is_identifier (sp_artifact p)"
  shows "try_bind (demo_artifacts p) ''s'' 1 1 demo_day =
    (let b = new_binding demo_approval demo_sha p demo_sha demo_day
     in case binding_limits b of Inl e \<Rightarrow> Inl e | Inr _ \<Rightarrow> Inr b)"
proof -
  have "ar_id (approval_ref demo_approval demo_sha) = sa_artifact demo_approval" by (simp add: approval_ref_def)
  moreover have "is_identifier (sa_artifact demo_approval)" by (simp add: demo_approval_def demo_identifiers_ok)
  ultimately show ?thesis
    using assms demo_approval_valid demo_reference_valid
    by (simp add: try_bind_def demo_artifacts_def selects_profile_def approves_def new_binding_def Let_def)
qed

lemma beyond_doubles: "2 ^ 53 * power2 971 \<le> x \<Longrightarrow> \<not> is_finite (to_double x)"
proof -
  let ?m = "2 ^ 53 * power2 971"
  assume "?m \<le> x"
  have "\<bar>?m\<bar> = ?m" using power2_pos [of 971] by (simp add: abs_mult)
  then have "binade ?m = 971"
    using binade_spec [of ?m] power2_mono [of "binade ?m" 971] by auto
  moreover have "?m / power2 971 = of_int (2 ^ 53)" by simp
  ultimately have "nearest ?m = of_int (round_half_even (of_int (2 ^ 53))) * power2 971"
    unfolding nearest_def by (simp only:)
  then have "nearest ?m = ?m" unfolding round_half_even_of_int by simp
  then have "?m \<le> nearest x" using nearest_mono [OF \<open>?m \<le> x\<close>] by simp
  then have "\<not> \<bar>nearest x\<bar> < ?m" by linarith
  then show ?thesis by (simp add: to_double_def is_finite_def)
qed

lemma huge_is_infinite: "\<not> is_finite (to_double (of_int (2 ^ 1024)))"
proof (rule beyond_doubles)
  have "(2 :: rat) ^ 53 * 2 ^ 971 = 2 ^ 1024" by (simp flip: power_add)
  then show "2 ^ 53 * power2 971 \<le> of_int (2 ^ 1024)" by (simp add: power2_def del: power_numeral)
qed

lemma demo_profile_parts:
  "sp_source demo_profile = ''s''" "sp_profile_version demo_profile = 1" "sp_policy_version demo_profile = 1"
  "sp_approval_reference demo_profile = approval_ref demo_approval demo_sha" "sp_artifact demo_profile = ''profile''"
  by (simp_all add: demo_profile_def)

theorem bindings_fit_the_configuration_witness:
  "\<exists>c \<in> set (demo_artifacts demo_profile). \<exists>d \<in> set (demo_artifacts demo_profile).
    ca_model c = Profile (bd_profile demo_binding) \<and> ca_model d = Approval (bd_approval demo_binding)
    \<and> sp_source (bd_profile demo_binding) = ''s''
    \<and> consistent_source (bd_profile demo_binding) (bd_approval demo_binding) (ca_sha256 d)
    \<and> sa_artifact (bd_approval demo_binding) = ar_id (sp_approval_reference (bd_profile demo_binding))
    \<and> sa_status (bd_approval demo_binding) = Approved \<and> sa_online_use (bd_approval demo_binding)
    \<and> in_force (bd_approval demo_binding) demo_day"
proof (rule bindings_fit_the_configuration)
  have "try_bind (demo_artifacts demo_profile) ''s'' 1 1 demo_day = Inr demo_binding"
    using demo_binding_limits
    by (simp add: demo_bound demo_profile_parts demo_profiles_valid demo_identifiers_ok demo_binding_def)
  then show "bind_source (demo_artifacts demo_profile) ''s'' 1 1 demo_day = Inr (Inr demo_binding)"
    by (simp add: bind_source_Inr)
qed

lemma huge_limits: "binding_limits (new_binding demo_approval demo_sha huge_profile demo_sha demo_day) = Inl OverflowError"
proof -
  have "supported (new_binding demo_approval demo_sha huge_profile demo_sha demo_day)"
    using demo_supported
    by (simp add: supported_def demo_binding_def new_binding_def huge_profile_def profile_ref_def)
  moreover have "positive_setting (sp_rate_requests huge_profile) ''request'' = Inl OverflowError"
    using huge_is_infinite by (simp add: huge_profile_def positive_setting_def setting_of_def del: of_int_power)
  moreover have "positive_setting (sp_min_interval huge_profile) ''second'' = Inr (Finite 5)"
    "positive_setting (sp_rate_window huge_profile) ''second'' = Inr (Finite 60)"
    by (simp_all add: huge_profile_def demo_profile_def positive_setting_def setting_of_def is_finite_def)
  ultimately show ?thesis by (simp add: binding_limits_def new_binding_def)
qed

lemma huge_profile_raises: "bind_source (demo_artifacts huge_profile) ''s'' 1 1 demo_day = Inl OverflowError"
proof -
  have "try_bind (demo_artifacts huge_profile) ''s'' 1 1 demo_day = Inl OverflowError"
    using demo_profile_parts demo_profiles_valid(2) demo_identifiers_ok huge_limits
    by (subst demo_bound) (simp_all add: huge_profile_def)
  then show ?thesis by (simp add: bind_source_def)
qed

end
