(* ===== verification/Lifecycle.thy ===== *)
theory Lifecycle
  imports Contracts
begin

text \<open>
  \<open>contracts/detailed_analysis/v1/runtime.py\<close> and \<open>agent_execution.py\<close>: the states of a task and
  the manifest that records them, and the runs of the agents with the check of their history. As
  elsewhere a field that a \<open>Literal\<close> fixes to one value is left out.
\<close>

section \<open>Aware timestamps\<close>

text \<open>\<open>_parse_rfc3339\<close>: two aware datetimes are compared as instants.\<close>

definition instant_of :: "string \<Rightarrow> int" where
  "instant_of s = (let v = fromisoformat s in wall v - (case utcoffset v of None \<Rightarrow> 0 | Some ofs \<Rightarrow> ofs))"

section \<open>Task states\<close>

datatype task_state =
    T_Running | T_Interrupting | T_Suspended | T_Awaiting | T_Completed | T_Failed | T_Cancelled

text \<open>\<open>from_state\<close> is \<open>"initial"\<close> or a state.\<close>

type_synonym source_state = "task_state option"

definition allowed_transitions :: "(source_state \<times> task_state) list" where
  "allowed_transitions =
     [(None, T_Running),
      (Some T_Running, T_Interrupting),
      (Some T_Interrupting, T_Suspended),
      (Some T_Suspended, T_Running),
      (Some T_Suspended, T_Failed),
      (Some T_Suspended, T_Cancelled),
      (Some T_Running, T_Awaiting),
      (Some T_Awaiting, T_Running),
      (Some T_Awaiting, T_Completed),
      (Some T_Awaiting, T_Failed),
      (Some T_Awaiting, T_Cancelled),
      (Some T_Running, T_Completed),
      (Some T_Running, T_Failed),
      (Some T_Running, T_Cancelled)]"

record task_transition =
  tt_id :: string
  tt_operation :: string
  tt_from :: source_state
  tt_to :: task_state
  tt_occurred_at :: string
  tt_reason_code :: string
  tt_reason :: string

definition valid_task_transition :: "task_transition \<Rightarrow> bool" where
  "valid_task_transition t \<longleftrightarrow>
     is_identifier (tt_id t) \<and> is_identifier (tt_operation t) \<and> is_timestamp (tt_occurred_at t)
     \<and> is_identifier (tt_reason_code t) \<and> is_text (tt_reason t)
     \<and> (tt_from t, tt_to t) \<in> set allowed_transitions"

section \<open>Checkpoints and artifacts\<close>

record resume_checkpoint =
  rc_id :: string
  rc_created_at :: string
  rc_input_sha256 :: string
  rc_evidence :: artifact_reference
  rc_evidence_version :: int
  rc_policies :: "artifact_reference list"
  rc_completed :: "string list"
  rc_incomplete :: "string list"
  rc_artifacts :: "artifact_reference list"
  rc_resume_validated :: bool
  rc_approvals_revalidated :: bool
  rc_profiles_revalidated :: bool
  rc_credentials_revalidated :: bool
  rc_coordinator_revalidated :: bool
  rc_freshness_revalidated :: bool
  rc_reusable :: bool

definition checkpoint_checks :: "resume_checkpoint \<Rightarrow> bool list" where
  "checkpoint_checks c =
     [rc_resume_validated c, rc_approvals_revalidated c, rc_profiles_revalidated c,
      rc_credentials_revalidated c, rc_coordinator_revalidated c, rc_freshness_revalidated c]"

definition valid_checkpoint :: "resume_checkpoint \<Rightarrow> bool" where
  "valid_checkpoint c \<longleftrightarrow>
     is_identifier (rc_id c) \<and> is_timestamp (rc_created_at c) \<and> is_sha256_hex (rc_input_sha256 c)
     \<and> valid_artifact_reference (rc_evidence c) \<and> 1 \<le> rc_evidence_version c
     \<and> rc_policies c \<noteq> [] \<and> list_all valid_artifact_reference (rc_policies c)
     \<and> list_all is_identifier (rc_completed c) \<and> list_all is_identifier (rc_incomplete c)
     \<and> list_all valid_artifact_reference (rc_artifacts c)
     \<and> rc_reusable c = list_all (\<lambda>b. b) (checkpoint_checks c)
     \<and> set (rc_completed c) \<inter> set (rc_incomplete c) = {}
     \<and> ar_schema (rc_evidence c) = ''detailed-analysis.evidence-set''"

datatype validation_status = Status_Valid | Status_Invalid | Status_Not_Validated

record manifest_artifact =
  ma_reference :: artifact_reference
  ma_producer :: string
  ma_created_at :: string
  ma_status :: validation_status
  ma_reused_from :: "string option"
  ma_revalidated :: bool

definition valid_manifest_artifact :: "manifest_artifact \<Rightarrow> bool" where
  "valid_manifest_artifact a \<longleftrightarrow>
     valid_artifact_reference (ma_reference a) \<and> is_identifier (ma_producer a) \<and> is_timestamp (ma_created_at a)
     \<and> unless_None is_identifier (ma_reused_from a) \<and> ma_revalidated a = (ma_reused_from a \<noteq> None)"

section \<open>The execution manifest\<close>

record execution_manifest =
  em_task :: string
  em_artifact :: string
  em_version :: int
  em_updated_at :: string
  em_task_reference :: artifact_reference
  em_state :: task_state
  em_transitions :: "task_transition list"
  em_checkpoint :: "resume_checkpoint option"
  em_evidence :: artifact_reference
  em_evidence_version :: int
  em_executions :: "artifact_reference list"
  em_instructions :: "artifact_reference list"
  em_events :: "artifact_reference list"
  em_requests :: "artifact_reference list"
  em_results :: "artifact_reference list"
  em_artifacts :: "manifest_artifact list"
  em_final :: "artifact_reference option"
  em_pending :: bool
  em_unresolved_finding :: bool
  em_unresolved_dispute :: bool
  em_review_passed :: bool
  em_human_decision :: bool

definition manifest_fields_ok :: "execution_manifest \<Rightarrow> bool" where
  "manifest_fields_ok m \<longleftrightarrow>
     is_identifier (em_task m) \<and> is_identifier (em_artifact m) \<and> 1 \<le> em_version m
     \<and> is_timestamp (em_updated_at m) \<and> valid_artifact_reference (em_task_reference m)
     \<and> em_transitions m \<noteq> [] \<and> list_all valid_task_transition (em_transitions m)
     \<and> unless_None valid_checkpoint (em_checkpoint m) \<and> valid_artifact_reference (em_evidence m)
     \<and> 1 \<le> em_evidence_version m
     \<and> list_all (list_all valid_artifact_reference)
         [em_executions m, em_instructions m, em_events m, em_requests m, em_results m]
     \<and> list_all valid_manifest_artifact (em_artifacts m)
     \<and> unless_None valid_artifact_reference (em_final m)"

definition references_ok :: "execution_manifest \<Rightarrow> bool" where
  "references_ok m \<longleftrightarrow>
     ar_schema (em_task_reference m) = ''detailed-analysis.detailed-analysis-task''
     \<and> ar_schema (em_evidence m) = ''detailed-analysis.evidence-set''
     \<and> list_all (\<lambda>(rs, schema). list_all (\<lambda>r. ar_schema r = schema) rs)
         [(em_executions m, ''detailed-analysis.agent-execution''),
          (em_instructions m, ''detailed-analysis.instruction-application''),
          (em_events m, ''detailed-analysis.external-request-event''),
          (em_requests m, ''detailed-analysis.operation-request''),
          (em_results m, ''detailed-analysis.operation-result'')]"

text \<open>
  The loop over the transitions with the state it carries: the ids seen, the source it expects and
  the time of the previous transition. It returns the last expected source, or nothing when it raises.
\<close>

fun follow_history :: "task_transition list \<Rightarrow> string list \<Rightarrow> source_state \<Rightarrow> int option \<Rightarrow> source_state option" where
  "follow_history [] seen expected before = Some expected"
| "follow_history (t # ts) seen expected before =
     (if tt_id t \<in> set seen then None
      else if tt_from t \<noteq> expected then None
      else if (case before of None \<Rightarrow> False | Some u \<Rightarrow> instant_of (tt_occurred_at t) < u) then None
      else follow_history ts (tt_id t # seen) (Some (tt_to t)) (Some (instant_of (tt_occurred_at t))))"

definition checkpoint_ok :: "execution_manifest \<Rightarrow> bool" where
  "checkpoint_ok m \<longleftrightarrow>
     (if em_state m = T_Suspended then em_checkpoint m \<noteq> None
      else \<not> (case em_checkpoint m of None \<Rightarrow> False | Some c \<Rightarrow> rc_reusable c))"

definition completion_ok :: "execution_manifest \<Rightarrow> bool" where
  "completion_ok m \<longleftrightarrow>
     (if em_state m = T_Completed
      then \<not> list_ex (\<lambda>b. b) [em_pending m, em_unresolved_finding m, em_unresolved_dispute m, em_human_decision m]
        \<and> em_review_passed m
        \<and> (case em_final m of None \<Rightarrow> False
           | Some r \<Rightarrow> ar_schema r = ''detailed-analysis.final-analysis-result'')
      else em_final m = None)"

definition valid_manifest :: "execution_manifest \<Rightarrow> bool" where
  "valid_manifest m \<longleftrightarrow>
     manifest_fields_ok m \<and> references_ok m
     \<and> follow_history (em_transitions m) [] None None = Some (Some (em_state m))
     \<and> checkpoint_ok m \<and> \<not> (em_state m = T_Awaiting \<and> \<not> em_human_decision m) \<and> completion_ok m"

end
