(* ===== verification/Agents.thy ===== *)
theory Agents
  imports Lifecycle
begin

text \<open>
  \<open>contracts/detailed_analysis/v1/agent_execution.py\<close>: one run of an agent, and the check of a
  history of runs over their logical and provider sessions.
\<close>

section \<open>One run\<close>

datatype process_state =
    R_Queued | R_Running | R_Cancelling | R_Succeeded | R_Failed | R_Cancelled | R_Unknown

datatype session_mode = New_Session | Resume_Session | Native_Fork | Reconstructed_Fork

datatype usage_origin = Provider_Reported | Derived | Not_Available

datatype usage_scope = Scope_Run | Scope_Session | Scope_Unknown

record session_settings =
  se_provider :: string
  se_model :: string
  se_effort :: string
  se_role :: agent_role
  se_instruction :: artifact_reference
  se_permission :: string
  se_workspace :: string
  se_web_policy :: artifact_reference
  se_transfer_policy :: artifact_reference
  se_output_schema :: string
  se_output_version :: int
  se_output_sha256 :: string
  se_sha256 :: string

definition valid_settings :: "session_settings \<Rightarrow> bool" where
  "valid_settings s \<longleftrightarrow>
     is_identifier (se_provider s) \<and> is_text (se_model s) \<and> is_text (se_effort s)
     \<and> valid_artifact_reference (se_instruction s) \<and> is_identifier (se_permission s)
     \<and> is_identifier (se_workspace s) \<and> valid_artifact_reference (se_web_policy s)
     \<and> valid_artifact_reference (se_transfer_policy s) \<and> is_text (se_output_schema s)
     \<and> 1 \<le> se_output_version s \<and> is_sha256_hex (se_output_sha256 s) \<and> is_sha256_hex (se_sha256 s)
     \<and> ar_schema (se_web_policy s) = ''detailed-analysis.web-research-policy''"

record agent_usage =
  au_metric :: string
  au_unit :: string
  au_availability :: usage_availability
  au_origin :: usage_origin
  au_scope :: usage_scope
  au_confirmed :: bool
  au_value :: "number option"

definition valid_agent_usage :: "agent_usage \<Rightarrow> bool" where
  "valid_agent_usage u \<longleftrightarrow>
     is_identifier (au_metric u) \<and> is_identifier (au_unit u)
     \<and> (if au_availability u = Usage_Retrieved then au_value u \<noteq> None \<and> au_origin u \<noteq> Not_Available
        else au_value u = None \<and> au_origin u = Not_Available)
     \<and> \<not> (\<not> au_confirmed u \<and> au_value u \<noteq> None)
     \<and> \<not> (case au_value u of None \<Rightarrow> False | Some v \<Rightarrow> number_less v 0)"

record execution_error =
  ee_class :: string
  ee_message :: string
  ee_exit_code :: "int option"
  ee_stdout :: "artifact_reference option"
  ee_stderr :: "artifact_reference option"
  ee_unresolved :: "string list"

definition valid_execution_error :: "execution_error \<Rightarrow> bool" where
  "valid_execution_error e \<longleftrightarrow>
     is_identifier (ee_class e) \<and> is_text (ee_message e)
     \<and> unless_None valid_artifact_reference (ee_stdout e) \<and> unless_None valid_artifact_reference (ee_stderr e)
     \<and> list_all is_text (ee_unresolved e)"

record agent_execution =
  ae_task :: string
  ae_artifact :: string
  ae_session :: string
  ae_provider_session :: "string option"
  ae_run :: string
  ae_parent_run :: "string option"
  ae_parent_session :: "string option"
  ae_role :: agent_role
  ae_logical_agent :: string
  ae_purpose :: string
  ae_mode :: session_mode
  ae_mode_code :: string
  ae_mode_reason :: string
  ae_settings :: session_settings
  ae_state :: process_state
  ae_queued_at :: string
  ae_started_at :: "string option"
  ae_ended_at :: "string option"
  ae_exit_code :: "int option"
  ae_inputs :: "artifact_reference list"
  ae_output :: "artifact_reference option"
  ae_raw_output :: "artifact_reference option"
  ae_validation_error :: "artifact_reference option"
  ae_error :: "execution_error option"
  ae_usage :: "agent_usage list"
  ae_cancel_requested :: bool
  ae_active :: bool

definition execution_fields_ok :: "agent_execution \<Rightarrow> bool" where
  "execution_fields_ok e \<longleftrightarrow>
     list_all is_identifier [ae_task e, ae_artifact e, ae_session e, ae_run e, ae_logical_agent e, ae_purpose e, ae_mode_code e]
     \<and> unless_None is_text (ae_provider_session e)
     \<and> unless_None is_identifier (ae_parent_run e) \<and> unless_None is_identifier (ae_parent_session e)
     \<and> is_text (ae_mode_reason e) \<and> valid_settings (ae_settings e)
     \<and> is_timestamp (ae_queued_at e) \<and> unless_None is_timestamp (ae_started_at e) \<and> unless_None is_timestamp (ae_ended_at e)
     \<and> ae_inputs e \<noteq> [] \<and> list_all valid_artifact_reference (ae_inputs e)
     \<and> list_all (unless_None valid_artifact_reference) [ae_output e, ae_raw_output e, ae_validation_error e]
     \<and> unless_None valid_execution_error (ae_error e) \<and> list_all valid_agent_usage (ae_usage e)"

definition lineage_ok :: "agent_execution \<Rightarrow> bool" where
  "lineage_ok e \<longleftrightarrow>
     (case ae_mode e of
        New_Session \<Rightarrow> ae_parent_run e = None \<and> ae_parent_session e = None
      | Resume_Session \<Rightarrow> ae_parent_run e \<noteq> None \<and> ae_parent_session e = None
      | _ \<Rightarrow> ae_parent_run e \<noteq> None \<and> ae_parent_session e \<noteq> None)"

definition execution_times_ok :: "agent_execution \<Rightarrow> bool" where
  "execution_times_ok e \<longleftrightarrow>
     (let queued = instant_of (ae_queued_at e); started = map_option instant_of (ae_started_at e)
      in \<not> (case started of None \<Rightarrow> False | Some s \<Rightarrow> s < queued)
        \<and> \<not> (case map_option instant_of (ae_ended_at e) of
              None \<Rightarrow> False
            | Some t \<Rightarrow> (case started of None \<Rightarrow> True | Some s \<Rightarrow> t < s)))"

definition is_terminal :: "process_state \<Rightarrow> bool" where
  "is_terminal s \<longleftrightarrow> s \<in> {R_Succeeded, R_Failed, R_Cancelled}"

definition process_ok :: "agent_execution \<Rightarrow> bool" where
  "process_ok e \<longleftrightarrow>
     ae_active e \<noteq> is_terminal (ae_state e)
     \<and> is_terminal (ae_state e) = (ae_ended_at e \<noteq> None)
     \<and> (if ae_state e = R_Succeeded then ae_output e \<noteq> None \<and> ae_error e = None else ae_output e = None)
     \<and> (ae_state e = R_Failed) = (ae_error e \<noteq> None)
     \<and> distinct (map au_metric (ae_usage e))"

definition valid_execution :: "agent_execution \<Rightarrow> bool" where
  "valid_execution e \<longleftrightarrow>
     execution_fields_ok e \<and> se_role (ae_settings e) = ae_role e \<and> lineage_ok e \<and> execution_times_ok e \<and> process_ok e"

section \<open>The history of runs\<close>

datatype run_error = Duplicate_Run | Settings_Changed | Second_Active_Run | Role_Changed | Orphan_Resume

record run_history =
  rh_active :: "string set"
  rh_settings :: "string \<rightharpoonup> string"
  rh_roles :: "string \<times> string \<rightharpoonup> agent_role"
  rh_runs :: "string set"

definition no_runs :: run_history where
  "no_runs = \<lparr>rh_active = {}, rh_settings = Map.empty, rh_roles = Map.empty, rh_runs = {}\<rparr>"

text \<open>\<open>dict.setdefault\<close>: the value and the new dict.\<close>

definition setdefault :: "('k \<rightharpoonup> 'v) \<Rightarrow> 'k \<Rightarrow> 'v \<Rightarrow> 'v \<times> ('k \<rightharpoonup> 'v)" where
  "setdefault m k v = (case m k of None \<Rightarrow> (v, m(k \<mapsto> v)) | Some w \<Rightarrow> (w, m))"

definition add_session :: "agent_execution \<Rightarrow> run_history \<Rightarrow> run_error + run_history" where
  "add_session e h =
     (let (hash, settings) = setdefault (rh_settings h) (ae_session e) (se_sha256 (ae_settings e))
      in if hash \<noteq> se_sha256 (ae_settings e) then Inl Settings_Changed
         else if ae_active e
         then (if ae_session e \<in> rh_active h then Inl Second_Active_Run
               else Inr (h\<lparr>rh_settings := settings, rh_active := insert (ae_session e) (rh_active h)\<rparr>))
         else Inr (h\<lparr>rh_settings := settings\<rparr>))"

definition add_provider_session :: "agent_execution \<Rightarrow> run_history \<Rightarrow> run_error + run_history" where
  "add_provider_session e h =
     (case ae_provider_session e of
        None \<Rightarrow> Inr h
      | Some i \<Rightarrow>
          (let (role, roles) = setdefault (rh_roles h) (se_provider (ae_settings e), i) (ae_role e)
           in if role \<noteq> ae_role e then Inl Role_Changed else Inr (h\<lparr>rh_roles := roles\<rparr>)))"

definition add_run :: "agent_execution \<Rightarrow> run_history \<Rightarrow> run_error + run_history" where
  "add_run e h =
     (if ae_run e \<in> rh_runs h then Inl Duplicate_Run
      else case add_session e (h\<lparr>rh_runs := insert (ae_run e) (rh_runs h)\<rparr>) of
          Inl x \<Rightarrow> Inl x
        | Inr h1 \<Rightarrow>
            (case add_provider_session e h1 of
               Inl x \<Rightarrow> Inl x
             | Inr h2 \<Rightarrow>
                 if ae_mode e = Resume_Session \<and> ae_parent_run e \<notin> Some ` rh_runs h2 then Inl Orphan_Resume
                 else Inr h2))"

primrec add_runs :: "agent_execution list \<Rightarrow> run_history \<Rightarrow> run_error + run_history" where
  "add_runs [] h = Inr h"
| "add_runs (e # es) h = (case add_run e h of Inl x \<Rightarrow> Inl x | Inr h' \<Rightarrow> add_runs es h')"

definition validate_agent_execution_history :: "agent_execution list \<Rightarrow> run_error + unit" where
  "validate_agent_execution_history es = (case add_runs es no_runs of Inl x \<Rightarrow> Inl x | Inr _ \<Rightarrow> Inr ())"

end
