(* ===== verification/Histories.thy ===== *)
theory Histories
  imports Agents
begin

text \<open>
  What the accepted histories are: the transitions of a valid manifest are a run of the task state
  machine that stops at a terminal state, and an accepted history of agent runs is one in which
  sessions keep their settings and roles and have at most one active run.
\<close>

section \<open>Task histories\<close>

text \<open>The abstract machine: a run from \<open>x\<close> through the states of the list.\<close>

inductive task_run :: "source_state \<Rightarrow> task_state list \<Rightarrow> bool" where
  stay: "task_run x []"
| move: "(x, y) \<in> set allowed_transitions \<Longrightarrow> task_run (Some y) ys \<Longrightarrow> task_run x (y # ys)"

inductive_cases task_run_Cons: "task_run x (y # ys)"

definition ends_task :: "task_state \<Rightarrow> bool" where
  "ends_task s \<longleftrightarrow> s \<in> {T_Completed, T_Failed, T_Cancelled}"

lemma terminal_stays: "(Some s, y) \<in> set allowed_transitions \<Longrightarrow> \<not> ends_task s"
  by (auto simp: allowed_transitions_def ends_task_def)

lemma task_run_stops:
  assumes "task_run x ss" "Suc i < length ss"
  shows "\<not> ends_task (ss ! i)"
  using assms
proof (induction arbitrary: i rule: task_run.induct)
  case (move x y ys)
  show ?case
  proof (cases i)
    case 0
    then obtain z zs where "ys = z # zs" using move.prems by (cases ys) auto
    then show ?thesis using 0 move.hyps(2) terminal_stays by (auto elim: task_run_Cons)
  next
    case (Suc j)
    then show ?thesis using move.IH [of j] move.prems by simp
  qed
qed simp

definition happened_at :: "task_transition \<Rightarrow> int" where
  "happened_at t = instant_of (tt_occurred_at t)"

lemma follow_history_accepts:
  assumes "follow_history ts seen x before = Some y" "list_all valid_task_transition ts"
  shows "task_run x (map tt_to ts) \<and> y = (if ts = [] then x else Some (tt_to (last ts)))
    \<and> distinct (map tt_id ts) \<and> set seen \<inter> tt_id ` set ts = {}
    \<and> sorted (map happened_at ts) \<and> (\<forall>u. before = Some u \<longrightarrow> (\<forall>t \<in> set ts. u \<le> happened_at t))"
  using assms
proof (induction ts seen x before rule: follow_history.induct)
  case (1 seen expected before)
  then show ?case by (simp add: task_run.stay)
next
  case (2 t ts seen expected before)
  from 2(2) have t: "tt_id t \<notin> set seen" "tt_from t = expected"
      "\<forall>u. before = Some u \<longrightarrow> u \<le> happened_at t"
    and rest: "follow_history ts (tt_id t # seen) (Some (tt_to t)) (Some (instant_of (tt_occurred_at t))) = Some y"
    by (auto simp: happened_at_def split: if_splits option.splits)
  have IH: "task_run (Some (tt_to t)) (map tt_to ts) \<and> y = (if ts = [] then Some (tt_to t) else Some (tt_to (last ts)))
      \<and> distinct (map tt_id ts) \<and> set (tt_id t # seen) \<inter> tt_id ` set ts = {}
      \<and> sorted (map happened_at ts) \<and> (\<forall>u \<in> set ts. happened_at t \<le> happened_at u)"
  proof -
    have "\<not> tt_id t \<in> set seen" "\<not> tt_from t \<noteq> expected"
      "\<not> (case before of None \<Rightarrow> False | Some u \<Rightarrow> instant_of (tt_occurred_at t) < u)"
      using t by (auto simp: happened_at_def split: option.split)
    from 2(1) [OF this rest] 2(3) show ?thesis by (simp flip: happened_at_def)
  qed
  have "(expected, tt_to t) \<in> set allowed_transitions" using 2(3) t(2) by (auto simp: valid_task_transition_def)
  then show ?case using IH t by (auto intro: task_run.move order_trans)
qed

section \<open>A completed task\<close>

definition demo_reference :: "string \<Rightarrow> artifact_reference" where
  "demo_reference schema =
     \<lparr>ar_type = ''artifact'', ar_id = ''a1'', ar_schema = schema, ar_version = 1, ar_sha256 = replicate 64 (CHR ''0'')\<rparr>"

definition demo_transition :: "string \<Rightarrow> source_state \<Rightarrow> task_state \<Rightarrow> string \<Rightarrow> task_transition" where
  "demo_transition i x y t =
     \<lparr>tt_id = i, tt_operation = ''operation'', tt_from = x, tt_to = y, tt_occurred_at = t,
      tt_reason_code = ''code'', tt_reason = ''reason''\<rparr>"

definition demo_manifest :: execution_manifest where
  "demo_manifest =
     \<lparr>em_task = ''task'', em_artifact = ''manifest'', em_version = 3, em_updated_at = ''2026-01-02T01:00:00+09:00'',
      em_task_reference = demo_reference ''detailed-analysis.detailed-analysis-task'', em_state = T_Completed,
      em_transitions =
        [demo_transition ''t1'' None T_Running ''2026-01-02T00:30:00+09:00'',
         demo_transition ''t2'' (Some T_Running) T_Completed ''2026-01-01T16:00:00Z''],
      em_checkpoint = None, em_evidence = demo_reference ''detailed-analysis.evidence-set'', em_evidence_version = 1,
      em_executions = [demo_reference ''detailed-analysis.agent-execution''], em_instructions = [], em_events = [],
      em_requests = [], em_results = [], em_artifacts = [],
      em_final = Some (demo_reference ''detailed-analysis.final-analysis-result''),
      em_pending = False, em_unresolved_finding = False, em_unresolved_dispute = False, em_review_passed = True,
      em_human_decision = False\<rparr>"

lemma demo_chronology: "\<not> instant_of ''2026-01-01T16:00:00Z'' < instant_of ''2026-01-02T00:30:00+09:00''"
  by (simp add: instant_of_def fromisoformat_def decimal_def split_fraction_def offset_us_def day_number_def
      month_starts_def days_in_month_def days_before_year_def is_leap_def fraction_us_def is_digit_def less_eq_char_def)

lemma demo_texts:
  "list_all is_identifier [''task'', ''manifest'', ''a1'', ''t1'', ''t2'', ''operation'', ''code'']"
  "is_timestamp ''2026-01-02T01:00:00+09:00''" "is_timestamp ''2026-01-02T00:30:00+09:00''"
  "is_timestamp ''2026-01-01T16:00:00Z''"
  by code_simp+

lemma demo_reference_ok: "valid_artifact_reference (demo_reference schema) \<longleftrightarrow> is_schema_id schema"
proof -
  have "is_sha256_hex (replicate 64 (CHR ''0''))" by code_simp
  then show ?thesis
    using demo_texts(1) by (simp add: valid_artifact_reference_def demo_reference_def is_text_def)
qed

lemma demo_schemas:
  "list_all is_schema_id [''detailed-analysis.detailed-analysis-task'', ''detailed-analysis.evidence-set'',
    ''detailed-analysis.agent-execution'', ''detailed-analysis.final-analysis-result'']"
  by code_simp

lemma demo_manifest_valid: "valid_manifest demo_manifest"
  using demo_texts demo_schemas demo_chronology
  by (simp add: valid_manifest_def manifest_fields_ok_def references_ok_def checkpoint_ok_def completion_ok_def
      demo_manifest_def demo_transition_def valid_task_transition_def allowed_transitions_def unless_None_def
      is_text_def demo_reference_ok) (simp add: demo_reference_def)

text \<open>
  C37: The transitions that a valid manifest records are a run of the approved task state machine
  from its initial state to the current one, with different ids and in chronological order. No
  transition leaves a completed, failed or cancelled task, and a completed one has passed its
  review, has no open finding, dispute or decision, and names its final result.
\<close>

theorem manifest_history_is_a_run:
  assumes "valid_manifest m"
  shows "task_run None (map tt_to (em_transitions m)) \<and> tt_to (last (em_transitions m)) = em_state m
    \<and> distinct (map tt_id (em_transitions m)) \<and> sorted (map happened_at (em_transitions m))
    \<and> (\<forall>i. Suc i < length (em_transitions m) \<longrightarrow> \<not> ends_task (tt_to (em_transitions m ! i)))
    \<and> (em_state m = T_Completed \<longrightarrow> em_review_passed m \<and> em_final m \<noteq> None \<and> \<not> em_pending m
        \<and> \<not> em_unresolved_finding m \<and> \<not> em_unresolved_dispute m \<and> \<not> em_human_decision m)"
proof -
  have fields: "em_transitions m \<noteq> []" "list_all valid_task_transition (em_transitions m)"
    and follow: "follow_history (em_transitions m) [] None None = Some (Some (em_state m))"
    and "completion_ok m"
    using assms by (auto simp: valid_manifest_def manifest_fields_ok_def)
  note run = follow_history_accepts [OF follow fields(2)]
  then have "\<not> ends_task (tt_to (em_transitions m ! i))" if "Suc i < length (em_transitions m)" for i
    using task_run_stops [of None "map tt_to (em_transitions m)" i] that by simp
  then show ?thesis
    using run fields(1) \<open>completion_ok m\<close> by (auto simp: completion_ok_def split: option.splits)
qed

theorem manifest_history_is_a_run_witness:
  "task_run None [T_Running, T_Completed] \<and> em_final demo_manifest \<noteq> None"
  using manifest_history_is_a_run [OF demo_manifest_valid] by (simp add: demo_manifest_def demo_transition_def)

section \<open>Histories of agent runs\<close>

definition settings_hash :: "agent_execution \<Rightarrow> string" where
  "settings_hash e = se_sha256 (ae_settings e)"

definition provider_key :: "agent_execution \<Rightarrow> (string \<times> string) option" where
  "provider_key e = map_option (\<lambda>i. (se_provider (ae_settings e), i)) (ae_provider_session e)"

definition same_settings :: "agent_execution \<Rightarrow> agent_execution \<Rightarrow> bool" where
  "same_settings e f \<longleftrightarrow> ae_session e = ae_session f \<longrightarrow> settings_hash e = settings_hash f"

definition same_role :: "agent_execution \<Rightarrow> agent_execution \<Rightarrow> bool" where
  "same_role e f \<longleftrightarrow> provider_key e \<noteq> None \<and> provider_key e = provider_key f \<longrightarrow> ae_role e = ae_role f"

definition follows_parent :: "agent_execution list \<Rightarrow> agent_execution \<Rightarrow> bool" where
  "follows_parent ps e \<longleftrightarrow> ae_mode e = Resume_Session \<longrightarrow> ae_parent_run e \<in> Some ` insert (ae_run e) (ae_run ` set ps)"

definition runs_ok :: "agent_execution list \<Rightarrow> bool" where
  "runs_ok es \<longleftrightarrow>
     distinct (map ae_run es) \<and> distinct (map ae_session (filter ae_active es))
     \<and> (\<forall>e \<in> set es. \<forall>f \<in> set es. same_settings e f \<and> same_role e f)
     \<and> (\<forall>i < length es. follows_parent (take i es) (es ! i))"

definition fits :: "agent_execution list \<Rightarrow> agent_execution \<Rightarrow> bool" where
  "fits ps e \<longleftrightarrow> ae_run e \<notin> ae_run ` set ps \<and> (\<forall>f \<in> set ps. same_settings f e \<and> same_role f e)
     \<and> (ae_active e \<longrightarrow> ae_session e \<notin> ae_session ` set (filter ae_active ps)) \<and> follows_parent ps e"

lemma same_comm: "same_settings e f \<longleftrightarrow> same_settings f e" "same_role e f \<longleftrightarrow> same_role f e"
  by (auto simp: same_settings_def same_role_def) metis+

lemma runs_ok_snoc: "runs_ok (ps @ [e]) \<longleftrightarrow> runs_ok ps \<and> fits ps e"
proof -
  have "(\<forall>i < length (ps @ [e]). follows_parent (take i (ps @ [e])) ((ps @ [e]) ! i))
    \<longleftrightarrow> (\<forall>i < length ps. follows_parent (take i ps) (ps ! i)) \<and> follows_parent ps e"
    by (auto simp: less_Suc_eq nth_append)
  moreover have "same_settings e e" "same_role e e" by (simp_all add: same_settings_def same_role_def)
  ultimately show ?thesis
    using same_comm by (auto simp: runs_ok_def fits_def)
qed

lemma runs_ok_prefix: "runs_ok (ps @ qs) \<Longrightarrow> runs_ok ps"
  by (induction qs rule: rev_induct) (simp_all add: runs_ok_snoc flip: append_assoc)

text \<open>What the loop has gathered after a prefix of the history.\<close>

definition first_with :: "(agent_execution \<Rightarrow> 'k option) \<Rightarrow> (agent_execution \<Rightarrow> 'v) \<Rightarrow> agent_execution list \<Rightarrow> 'k \<rightharpoonup> 'v" where
  "first_with key val ps k = map_option val (List.find (\<lambda>e. key e = Some k) ps)"

definition gathered :: "agent_execution list \<Rightarrow> run_history" where
  "gathered ps =
     \<lparr>rh_active = ae_session ` set (filter ae_active ps),
      rh_settings = first_with (\<lambda>e. Some (ae_session e)) settings_hash ps,
      rh_roles = first_with provider_key ae_role ps, rh_runs = ae_run ` set ps\<rparr>"

lemma find_snoc: "List.find P (xs @ [x]) = (case List.find P xs of None \<Rightarrow> if P x then Some x else None | Some y \<Rightarrow> Some y)"
  by (induction xs) simp_all

lemma first_with_skips: "key e = None \<Longrightarrow> first_with key val (ps @ [e]) = first_with key val ps"
  by (rule ext) (simp add: first_with_def find_snoc split: option.split)

lemma setdefault_first_with:
  assumes "key e = Some k"
  shows "snd (setdefault (first_with key val ps) k (val e)) = first_with key val (ps @ [e])"
proof (rule ext)
  fix j
  show "snd (setdefault (first_with key val ps) k (val e)) j = first_with key val (ps @ [e]) j"
    using assms by (cases "j = k") (simp_all add: setdefault_def first_with_def find_snoc split: option.split)
qed

lemma first_with_agrees:
  assumes same: "\<And>f g. f \<in> set ps \<Longrightarrow> g \<in> set ps \<Longrightarrow> key f = Some k \<Longrightarrow> key g = Some k \<Longrightarrow> val f = val g"
  shows "fst (setdefault (first_with key val ps) k v) = v \<longleftrightarrow> (\<forall>f \<in> set ps. key f = Some k \<longrightarrow> val f = v)"
proof (cases "List.find (\<lambda>e. key e = Some k) ps")
  case None
  then have "f \<in> set ps \<Longrightarrow> key f \<noteq> Some k" for f by (simp add: find_None_iff)
  then have "\<forall>f \<in> set ps. key f = Some k \<longrightarrow> val f = v" by blast
  then show ?thesis using None by (simp add: setdefault_def first_with_def)
next
  case (Some g)
  then have g: "g \<in> set ps" "key g = Some k" by (auto simp: find_Some_iff)
  have "val g = v \<longleftrightarrow> (\<forall>f \<in> set ps. key f = Some k \<longrightarrow> val f = v)"
    using g same [OF _ g(1) _ g(2)] by blast
  then show ?thesis using Some by (simp add: setdefault_def first_with_def)
qed

lemma setdefault_gathered:
  assumes "key e = Some k"
    and "\<And>f g. f \<in> set ps \<Longrightarrow> g \<in> set ps \<Longrightarrow> key f = Some k \<Longrightarrow> key g = Some k \<Longrightarrow> val f = val g"
  obtains w where "setdefault (first_with key val ps) k (val e) = (w, first_with key val (ps @ [e]))"
    and "w = val e \<longleftrightarrow> (\<forall>f \<in> set ps. key f = Some k \<longrightarrow> val f = val e)"
proof
  show "setdefault (first_with key val ps) k (val e)
      = (fst (setdefault (first_with key val ps) k (val e)), first_with key val (ps @ [e]))"
    using setdefault_first_with [of key e k val ps] assms(1) by (metis prod.collapse)
  show "fst (setdefault (first_with key val ps) k (val e)) = val e \<longleftrightarrow> (\<forall>f \<in> set ps. key f = Some k \<longrightarrow> val f = val e)"
    using assms(2) by (rule first_with_agrees)
qed

text \<open>What the two steps make of the gathered history.\<close>

definition with_session :: "agent_execution list \<Rightarrow> agent_execution \<Rightarrow> run_history" where
  "with_session ps e = (gathered (ps @ [e]))\<lparr>rh_roles := first_with provider_key ae_role ps\<rparr>"

lemma runs_ok_same: "runs_ok ps \<Longrightarrow> f \<in> set ps \<Longrightarrow> g \<in> set ps \<Longrightarrow> same_settings f g \<and> same_role f g"
  by (simp add: runs_ok_def)

lemma add_session_gathered:
  assumes "runs_ok ps"
  shows "add_session e ((gathered ps)\<lparr>rh_runs := insert (ae_run e) (ae_run ` set ps)\<rparr>)
    = (if \<not> (\<forall>f \<in> set ps. same_settings f e) then Inl Settings_Changed
       else if ae_active e \<and> ae_session e \<in> ae_session ` set (filter ae_active ps) then Inl Second_Active_Run
       else Inr (with_session ps e))"
proof -
  have "settings_hash f = settings_hash g"
    if "f \<in> set ps" "g \<in> set ps" "Some (ae_session f) = Some (ae_session e)" "Some (ae_session g) = Some (ae_session e)" for f g
    using runs_ok_same [OF assms that(1,2)] that(3,4) by (simp add: same_settings_def)
  then obtain w where w: "setdefault (first_with (\<lambda>e. Some (ae_session e)) settings_hash ps) (ae_session e) (settings_hash e)
      = (w, first_with (\<lambda>e. Some (ae_session e)) settings_hash (ps @ [e]))"
    and same: "w = settings_hash e \<longleftrightarrow> (\<forall>f \<in> set ps. Some (ae_session f) = Some (ae_session e) \<longrightarrow> settings_hash f = settings_hash e)"
    using setdefault_gathered [where key = "\<lambda>e. Some (ae_session e)" and e = e and k = "ae_session e" and val = settings_hash and ps = ps]
    by blast
  have "w = settings_hash e \<longleftrightarrow> (\<forall>f \<in> set ps. same_settings f e)" using same by (simp add: same_settings_def)
  then show ?thesis
    using w by (simp add: add_session_def gathered_def with_session_def flip: settings_hash_def)
qed

lemma add_provider_session_gathered:
  assumes "runs_ok ps"
  shows "add_provider_session e (with_session ps e)
    = (if \<forall>f \<in> set ps. same_role f e then Inr (gathered (ps @ [e])) else Inl Role_Changed)"
proof (cases "ae_provider_session e")
  case None
  then have key: "provider_key e = None" by (simp add: provider_key_def)
  then have "same_role f e" for f by (auto simp: same_role_def)
  then show ?thesis
    using None first_with_skips [where key = provider_key and e = e and val = ae_role and ps = ps, OF key]
    by (simp add: add_provider_session_def with_session_def gathered_def)
next
  case (Some i)
  then have key: "provider_key e = Some (se_provider (ae_settings e), i)" by (simp add: provider_key_def)
  have "ae_role f = ae_role g"
    if "f \<in> set ps" "g \<in> set ps" "provider_key f = Some (se_provider (ae_settings e), i)"
      "provider_key g = Some (se_provider (ae_settings e), i)" for f g
    using runs_ok_same [OF assms that(1,2)] that(3,4) by (simp add: same_role_def)
  then obtain w where w: "setdefault (first_with provider_key ae_role ps) (se_provider (ae_settings e), i) (ae_role e)
      = (w, first_with provider_key ae_role (ps @ [e]))"
    and same: "w = ae_role e \<longleftrightarrow> (\<forall>f \<in> set ps. provider_key f = Some (se_provider (ae_settings e), i) \<longrightarrow> ae_role f = ae_role e)"
    using setdefault_gathered [where key = provider_key and e = e and val = ae_role and ps = ps, OF key] by blast
  have "w = ae_role e \<longleftrightarrow> (\<forall>f \<in> set ps. same_role f e)" using same key by (auto simp: same_role_def)
  then show ?thesis
    using w Some by (simp add: add_provider_session_def with_session_def gathered_def)
qed

lemma follows_parent_gathered:
  "follows_parent ps e \<longleftrightarrow> \<not> (ae_mode e = Resume_Session \<and> ae_parent_run e \<notin> Some ` rh_runs (gathered (ps @ [e])))"
  by (simp add: follows_parent_def gathered_def)

lemma add_run_gathered:
  assumes "runs_ok ps"
  shows "add_run e (gathered ps)
    = (if ae_run e \<in> ae_run ` set ps then Inl Duplicate_Run
       else if \<not> (\<forall>f \<in> set ps. same_settings f e) then Inl Settings_Changed
       else if ae_active e \<and> ae_session e \<in> ae_session ` set (filter ae_active ps) then Inl Second_Active_Run
       else if \<not> (\<forall>f \<in> set ps. same_role f e) then Inl Role_Changed
       else if \<not> follows_parent ps e then Inl Orphan_Resume
       else Inr (gathered (ps @ [e])))"
proof -
  have runs: "rh_runs (gathered ps) = ae_run ` set ps" by (simp add: gathered_def)
  show ?thesis
    unfolding add_run_def runs add_session_gathered [OF assms] follows_parent_gathered
    by (simp only: add_provider_session_gathered [OF assms] sum.case not_not split: if_split) simp
qed

lemma add_run_fits:
  assumes "runs_ok ps"
  shows "fits ps e \<Longrightarrow> add_run e (gathered ps) = Inr (gathered (ps @ [e]))"
    and "\<not> fits ps e \<Longrightarrow> \<exists>x. add_run e (gathered ps) = Inl x"
  unfolding add_run_gathered [OF assms] fits_def by (simp_all only: if_True if_False not_False_eq_True simp_thms split: if_split) (simp_all, blast?)

lemma add_runs_ok:
  assumes "runs_ok ps"
  shows "(\<exists>h. add_runs es (gathered ps) = Inr h) \<longleftrightarrow> runs_ok (ps @ es)"
  using assms
proof (induction es arbitrary: ps)
  case (Cons e es)
  show ?case
  proof (cases "fits ps e")
    case True
    then show ?thesis
      using Cons.IH [of "ps @ [e]"] Cons.prems add_run_fits(1) [OF Cons.prems True] by (simp add: runs_ok_snoc)
  next
    case False
    have "\<not> runs_ok ((ps @ [e]) @ es)" using False runs_ok_prefix [of "ps @ [e]" es] by (auto simp: runs_ok_snoc)
    then show ?thesis using add_run_fits(2) [OF Cons.prems False] by auto
  qed
qed simp

text \<open>
  A history of agent runs is accepted exactly when no two runs share an id, no session has two
  active runs, the runs of a session have one hash of settings, those of a provider session one
  role, and every resumed run names an earlier run as its parent, or itself.
\<close>

theorem accepted_agent_histories: "validate_agent_execution_history es = Inr () \<longleftrightarrow> runs_ok es"
proof -
  have "gathered [] = no_runs" by (simp add: gathered_def no_runs_def first_with_def fun_eq_iff)
  moreover have "runs_ok []" by (simp add: runs_ok_def)
  ultimately show ?thesis
    using add_runs_ok [of "[]" es] by (auto simp: validate_agent_execution_history_def split: sum.splits)
qed

text \<open>The run itself is among the ids when its parent is looked up, so a run may resume itself.\<close>

lemma self_parent_accepted:
  "ae_mode e = Resume_Session \<Longrightarrow> ae_parent_run e = Some (ae_run e) \<Longrightarrow> validate_agent_execution_history [e] = Inr ()"
  by (simp add: validate_agent_execution_history_def add_run_def add_session_def add_provider_session_def no_runs_def
      setdefault_def split: option.split)

end
