(* ===== verification/Validation.thy ===== *)
theory Validation
  imports Json Contracts
begin

text \<open>
  \<open>contracts/errors.py\<close>, \<open>contracts/registry.py\<close> and \<open>contracts/validation\<close>: the validation error
  artifact, the dedicated validators, and the dispatch of a loaded document to its model. A text of
  a document is the list of its code points, as in \<open>Json\<close>.
\<close>

section \<open>Validation errors\<close>

datatype error_category =
    Cat_Schema | Cat_Semantic | Cat_Reference | Cat_State_Transition | Cat_Policy | Cat_Security

datatype error_code =
    Invalid_Json | Unsafe_Yaml | Duplicate_Yaml_Key | Non_Json_Yaml_Value | Unknown_Schema
  | Unsupported_Schema_Version | Required_Field_Missing | Type_Mismatch | Unknown_Field | Constraint_Violation
  | Artifact_Conflict | Markdown_Mismatch
  | Reference_Not_Found | Reference_Type_Mismatch | Reference_Version_Mismatch
  | Transition_Not_Allowed | Checkpoint_Invalid
  | Policy_Not_Found | Policy_Version_Mismatch | Policy_Violation
  | Secret_Material_Detected | External_Instruction_Detected | Permission_Scope_Violation

text \<open>\<open>ERROR_CODES_BY_CATEGORY\<close>.\<close>

fun codes_of :: "error_category \<Rightarrow> error_code list" where
  "codes_of Cat_Schema =
     [Invalid_Json, Unsafe_Yaml, Duplicate_Yaml_Key, Non_Json_Yaml_Value, Unknown_Schema,
      Unsupported_Schema_Version, Required_Field_Missing, Type_Mismatch, Unknown_Field, Constraint_Violation]"
| "codes_of Cat_Semantic = [Artifact_Conflict, Markdown_Mismatch]"
| "codes_of Cat_Reference = [Reference_Not_Found, Reference_Type_Mismatch, Reference_Version_Mismatch]"
| "codes_of Cat_State_Transition = [Transition_Not_Allowed, Checkpoint_Invalid]"
| "codes_of Cat_Policy = [Policy_Not_Found, Policy_Version_Mismatch, Policy_Violation]"
| "codes_of Cat_Security = [Secret_Material_Detected, External_Instruction_Detected, Permission_Scope_Violation]"

type_synonym utext = "nat list"

record validation_target =
  vt_type :: utext
  vt_artifact :: "utext option"
  vt_schema :: utext
  vt_version :: int

definition valid_target :: "validation_target \<Rightarrow> bool" where
  "valid_target t \<longleftrightarrow>
     vt_type t \<noteq> [] \<and> unless_None (\<lambda>s. s \<noteq> []) (vt_artifact t) \<and> vt_schema t \<noteq> [] \<and> 1 \<le> vt_version t"

record validation_error =
  ve_category :: error_category
  ve_code :: error_code
  ve_target :: validation_target
  ve_path :: utext
  ve_message :: string
  ve_context :: "(utext \<times> json) list"

definition valid_validation_error :: "validation_error \<Rightarrow> bool" where
  "valid_validation_error e \<longleftrightarrow>
     valid_target (ve_target e) \<and> is_text (ve_message e) \<and> ve_code e \<in> set (codes_of (ve_category e))"

section \<open>Issues of the dedicated validators\<close>

text \<open>\<open>ValidationIssue\<close>, which a \<open>RuleValidationError\<close> carries.\<close>

record issue =
  vi_category :: error_category
  vi_code :: error_code
  vi_message :: string
  vi_path :: utext
  vi_context :: "(utext \<times> json) list"

definition jtext :: "string \<Rightarrow> json" where
  "jtext s = JStr (code_points s)"

primrec ensure_references_exist :: "string list \<Rightarrow> string list \<Rightarrow> issue + unit" where
  "ensure_references_exist [] available = Inr ()"
| "ensure_references_exist (r # rs) available =
     (if r \<notin> set available
      then Inl \<lparr>vi_category = Cat_Reference, vi_code = Reference_Not_Found,
        vi_message = ''referenced artifact does not exist'', vi_path = [],
        vi_context = [(code_points ''reference_id'', jtext r)]\<rparr>
      else ensure_references_exist rs available)"

definition ensure_policy_version :: "int \<Rightarrow> int \<Rightarrow> issue + unit" where
  "ensure_policy_version expected actual =
     (if expected \<noteq> actual
      then Inl \<lparr>vi_category = Cat_Policy, vi_code = Policy_Version_Mismatch,
        vi_message = ''policy version does not match the referenced version'', vi_path = [],
        vi_context = [(code_points ''expected_version'', JInt expected), (code_points ''actual_version'', JInt actual)]\<rparr>
      else Inr ())"

definition ensure_sha256 :: "bytes \<Rightarrow> string \<Rightarrow> issue + unit" where
  "ensure_sha256 content digest =
     (if sha256_hex content \<noteq> digest
      then Inl \<lparr>vi_category = Cat_Semantic, vi_code = Artifact_Conflict,
        vi_message = ''artifact content does not match its recorded hash'', vi_path = [], vi_context = []\<rparr>
      else Inr ())"

definition ensure_transition_allowed :: "string \<Rightarrow> string \<Rightarrow> (string \<times> string) list \<Rightarrow> issue + unit" where
  "ensure_transition_allowed current target allowed =
     (if (current, target) \<notin> set allowed
      then Inl \<lparr>vi_category = Cat_State_Transition, vi_code = Transition_Not_Allowed,
        vi_message = ''state transition is not allowed'', vi_path = [],
        vi_context = [(code_points ''current_state'', jtext current), (code_points ''target_state'', jtext target)]\<rparr>
      else Inr ())"

text \<open>\<open>",".join\<close> of a sorted list of permissions.\<close>

fun joined :: "string list \<Rightarrow> string" where
  "joined [] = []"
| "joined [w] = w"
| "joined (w # ws) = w @ '','' @ joined ws"

definition ensure_permission_scope :: "string list \<Rightarrow> string list \<Rightarrow> issue + unit" where
  "ensure_permission_scope requested allowed =
     (let disallowed = sort (remdups (filter (\<lambda>p. p \<notin> set allowed) requested))
      in if disallowed \<noteq> []
         then Inl \<lparr>vi_category = Cat_Security, vi_code = Permission_Scope_Violation,
           vi_message = ''requested permission is outside the applied role scope'', vi_path = [],
           vi_context = [(code_points ''disallowed_permissions'', jtext (joined disallowed))]\<rparr>
         else Inr ())"

text \<open>\<open>==\<close> of two JSON values: numbers by value, booleans included, and dicts without their order.\<close>

fun json_equal :: "json \<Rightarrow> json \<Rightarrow> bool"
  and elements_equal :: "json list \<Rightarrow> json list \<Rightarrow> bool"
  and members_equal :: "(utext \<times> json) list \<Rightarrow> (utext \<times> json) list \<Rightarrow> bool" where
  "json_equal (JArr vs) y \<longleftrightarrow> (case y of JArr ws \<Rightarrow> elements_equal vs ws | _ \<Rightarrow> False)"
| "json_equal (JObj ms) y \<longleftrightarrow> (case y of JObj ns \<Rightarrow> length ms = length ns \<and> members_equal ms ns | _ \<Rightarrow> False)"
| "json_equal JNull y \<longleftrightarrow> y = JNull"
| "json_equal (JStr t) y \<longleftrightarrow> y = JStr t"
| "json_equal x y \<longleftrightarrow> numeric x \<noteq> None \<and> numeric x = numeric y"
| "elements_equal [] ws \<longleftrightarrow> ws = []"
| "elements_equal (v # vs) ws \<longleftrightarrow> (case ws of [] \<Rightarrow> False | w # ws' \<Rightarrow> json_equal v w \<and> elements_equal vs ws')"
| "members_equal [] ns \<longleftrightarrow> True"
| "members_equal ((k, v) # ms) ns \<longleftrightarrow>
     (case map_of ns k of None \<Rightarrow> False | Some w \<Rightarrow> json_equal v w) \<and> members_equal ms ns"

definition ensure_values_match :: "json \<Rightarrow> json \<Rightarrow> utext \<Rightarrow> issue + unit" where
  "ensure_values_match left right path =
     (if \<not> json_equal left right
      then Inl \<lparr>vi_category = Cat_Semantic, vi_code = Artifact_Conflict,
        vi_message = ''artifact values are inconsistent'', vi_path = path, vi_context = []\<rparr>
      else Inr ())"

section \<open>Field names\<close>

text \<open>
  What \<open>casefold\<close> and the removal of all but \<open>a-z0-9\<close> leave of a code point: the table lists the
  ones outside ASCII that fold to a text with ASCII letters, such as the Kelvin sign and the ligatures.
\<close>

definition folded_to_ascii :: "(nat \<times> string) list" where
  "folded_to_ascii =
     [(0xDF, ''ss''), (0x130, ''i''), (0x149, ''n''), (0x17F, ''s''), (0x1F0, ''j''), (0x1E96, ''h''), (0x1E97, ''t''),
      (0x1E98, ''w''), (0x1E99, ''y''), (0x1E9A, ''a''), (0x1E9E, ''ss''), (0x212A, ''k''), (0xFB00, ''ff''),
      (0xFB01, ''fi''), (0xFB02, ''fl''), (0xFB03, ''ffi''), (0xFB04, ''ffl''), (0xFB05, ''st''), (0xFB06, ''st'')]"

definition folded :: "nat \<Rightarrow> utext" where
  "folded c =
     (if 97 \<le> c \<and> c \<le> 122 \<or> 48 \<le> c \<and> c \<le> 57 then [c]
      else if 65 \<le> c \<and> c \<le> 90 then [c + 32]
      else case map_of folded_to_ascii c of Some w \<Rightarrow> code_points w | None \<Rightarrow> [])"

definition normalized_key :: "utext \<Rightarrow> utext" where
  "normalized_key key = concat (map folded key)"

definition secret_keys :: "utext list" where
  "secret_keys = map code_points [''apikey'', ''accesstoken'', ''password'', ''privatekey'', ''secret'']"

definition instruction_keys :: "utext list" where
  "instruction_keys =
     map code_points [''externalinstruction'', ''instructionsfromsource'', ''promptfromsource'', ''untrustedsystemprompt'']"

definition replace_code :: "nat \<Rightarrow> utext \<Rightarrow> utext \<Rightarrow> utext" where
  "replace_code c by t = concat (map (\<lambda>d. if d = c then by else [d]) t)"

definition escape_pointer_token :: "utext \<Rightarrow> utext" where
  "escape_pointer_token t = replace_code 47 [126, 49] (replace_code 126 [126, 48] t)"

text \<open>The scan of a document: the pointer and the name of the first field with a forbidden name.\<close>

fun find_field :: "utext list \<Rightarrow> json \<Rightarrow> utext \<Rightarrow> (utext \<times> utext) option"
  and find_member :: "utext list \<Rightarrow> (utext \<times> json) list \<Rightarrow> utext \<Rightarrow> (utext \<times> utext) option"
  and find_element :: "utext list \<Rightarrow> json list \<Rightarrow> nat \<Rightarrow> utext \<Rightarrow> (utext \<times> utext) option" where
  "find_field bad (JObj ms) path = find_member bad ms path"
| "find_field bad (JArr vs) path = find_element bad vs 0 path"
| "find_field bad _ path = None"
| "find_member bad [] path = None"
| "find_member bad ((key, v) # ms) path =
     (let child = path @ 47 # escape_pointer_token key
      in if normalized_key key \<in> set bad then Some (child, key)
         else case find_field bad v child of Some r \<Rightarrow> Some r | None \<Rightarrow> find_member bad ms path)"
| "find_element bad [] i path = None"
| "find_element bad (v # vs) i path =
     (case find_field bad v (path @ 47 # print_nat i) of Some r \<Rightarrow> Some r | None \<Rightarrow> find_element bad vs (Suc i) path)"

definition ensure_no_secret_fields :: "json \<Rightarrow> utext \<Rightarrow> issue + unit" where
  "ensure_no_secret_fields v path =
     (case find_field secret_keys v path of
        None \<Rightarrow> Inr ()
      | Some (p, key) \<Rightarrow>
          Inl \<lparr>vi_category = Cat_Security, vi_code = Secret_Material_Detected,
            vi_message = ''secret-bearing field is not allowed in this artifact'', vi_path = p,
            vi_context = [(code_points ''field_name'', JStr key)]\<rparr>)"

definition ensure_external_content_is_data :: "json \<Rightarrow> utext \<Rightarrow> issue + unit" where
  "ensure_external_content_is_data v path =
     (case find_field instruction_keys v path of
        None \<Rightarrow> Inr ()
      | Some (p, key) \<Rightarrow>
          Inl \<lparr>vi_category = Cat_Security, vi_code = External_Instruction_Detected,
            vi_message = ''external content must remain untrusted data, not Agent instructions'', vi_path = p,
            vi_context = [(code_points ''field_name'', JStr key)]\<rparr>)"

end
