(* ===== verification/Pointers.thy ===== *)
theory Pointers
  imports Validation
begin

text \<open>
  The JSON pointers of the security scan: RFC 6901 as a reader follows it, and the proof that the
  scan reports exactly the documents with a forbidden field, with a pointer that leads to one.
\<close>

section \<open>Following a pointer\<close>

fun unescape_token :: "utext \<Rightarrow> utext" where
  "unescape_token (c # d # t) =
     (if c = 126 \<and> d = 48 then 126 # unescape_token t
      else if c = 126 \<and> d = 49 then 47 # unescape_token t
      else c # unescape_token (d # t))"
| "unescape_token t = t"

fun split_slash :: "utext \<Rightarrow> utext list" where
  "split_slash [] = [[]]"
| "split_slash (c # t) =
     (if c = 47 then [] # split_slash t
      else (case split_slash t of [] \<Rightarrow> [[c]] | w # ws \<Rightarrow> (c # w) # ws))"

text \<open>The reference tokens of a pointer: the texts after its slashes.\<close>

definition tokens :: "utext \<Rightarrow> utext list" where
  "tokens p = map unescape_token (tl (split_slash p))"

fun follow :: "json \<Rightarrow> utext list \<Rightarrow> json option" where
  "follow v [] = Some v"
| "follow (JObj ms) (t # ts) = (case map_of ms t of None \<Rightarrow> None | Some v \<Rightarrow> follow v ts)"
| "follow (JArr vs) (t # ts) =
     (if t \<noteq> [] \<and> list_all is_digit_code t \<and> digits_value t < length vs then follow (vs ! digits_value t) ts else None)"
| "follow _ (t # ts) = None"

text \<open>A document has a field when a pointer leads to an object with that key.\<close>

definition has_field :: "json \<Rightarrow> utext list \<Rightarrow> utext \<Rightarrow> bool" where
  "has_field v ts key \<longleftrightarrow> (\<exists>ms. follow v ts = Some (JObj ms) \<and> key \<in> fst ` set ms)"

text \<open>A dict has no key twice.\<close>

fun dicts_ok :: "json \<Rightarrow> bool" where
  "dicts_ok (JObj ms) \<longleftrightarrow> distinct (map fst ms) \<and> (\<forall>m \<in> set ms. dicts_ok (snd m))"
| "dicts_ok (JArr vs) \<longleftrightarrow> (\<forall>v \<in> set vs. dicts_ok v)"
| "dicts_ok _ \<longleftrightarrow> True"

section \<open>Escapes\<close>

lemma escape_Nil: "escape_pointer_token [] = []"
  by (simp add: escape_pointer_token_def replace_code_def)

lemma escape_Cons:
  "escape_pointer_token (c # t) =
    (if c = 126 then [126, 48] else if c = 47 then [126, 49] else [c]) @ escape_pointer_token t"
  by (simp add: escape_pointer_token_def replace_code_def)

lemma escape_no_slash: "47 \<notin> set (escape_pointer_token t)"
  by (induction t) (auto simp: escape_Nil escape_Cons)

lemma unescape_plain: "c \<noteq> 126 \<Longrightarrow> unescape_token (c # t) = c # unescape_token t"
  by (cases t) simp_all

lemma unescape_escape: "unescape_token (escape_pointer_token t) = t"
  by (induction t) (simp_all add: escape_Nil escape_Cons unescape_plain)

lemma split_slash_not_Nil: "split_slash t \<noteq> []"
  by (induction t) (auto split: list.splits)

lemma split_tokens_word: "47 \<notin> set w \<Longrightarrow> split_slash w = [w]"
  by (induction w) simp_all

lemma split_tokens_append: "47 \<notin> set w \<Longrightarrow> split_slash (w @ 47 # t) = w # split_slash t"
  by (induction w) auto

definition pointer :: "utext list \<Rightarrow> utext" where
  "pointer ts = concat (map (\<lambda>t. 47 # escape_pointer_token t) ts)"

lemma split_pointer:
  assumes "47 \<notin> set w"
  shows "split_slash (w @ pointer ts) = w # map escape_pointer_token ts"
  using assms
proof (induction ts arbitrary: w)
  case (Cons t ts)
  then show ?case using split_tokens_append [of w "escape_pointer_token t @ pointer ts"] escape_no_slash
    by (simp add: pointer_def)
qed (simp add: pointer_def split_tokens_word)

lemma tokens_pointer: "tokens (pointer ts) = ts"
  using split_pointer [of "[]" ts] by (simp add: tokens_def comp_def unescape_escape)

lemma pointer_simps: "pointer [] = []" "pointer (t # ts) = 47 # escape_pointer_token t @ pointer ts"
  by (simp_all add: pointer_def)

lemma escape_digits: "list_all is_digit_code t \<Longrightarrow> escape_pointer_token t = t"
  by (induction t) (auto simp: escape_Nil escape_Cons is_digit_code_def)

section \<open>The scan\<close>

abbreviation bad_field :: "utext list \<Rightarrow> json \<Rightarrow> utext list \<Rightarrow> utext \<Rightarrow> bool" where
  "bad_field bad v ts key \<equiv> has_field v ts key \<and> normalized_key key \<in> set bad"

lemma index_token:
  "print_nat i \<noteq> []" "list_all is_digit_code (print_nat i)" "digits_value (print_nat i) = i"
  "escape_pointer_token (print_nat i) = print_nat i"
  using print_nat_digits digits_value_print_nat escape_digits by simp_all

text \<open>The steps from a value into a member or an element.\<close>

lemma has_field_member:
  "distinct (map fst ms) \<Longrightarrow> (k, v) \<in> set ms \<Longrightarrow> has_field (JObj ms) (k # ts) key \<longleftrightarrow> has_field v ts key"
  by (simp add: has_field_def)

lemma has_field_element: "i < length vs \<Longrightarrow> has_field (JArr vs) (print_nat i # ts) key \<longleftrightarrow> has_field (vs ! i) ts key"
  by (simp add: has_field_def index_token)

lemma has_field_root: "has_field (JObj ms) [] key \<longleftrightarrow> key \<in> fst ` set ms"
  by (simp add: has_field_def)

text \<open>What the scan of a list of members or elements finds.\<close>

definition in_members :: "utext list \<Rightarrow> (utext \<times> json) list \<Rightarrow> utext list \<Rightarrow> utext \<Rightarrow> bool" where
  "in_members bad ms ts key \<longleftrightarrow>
     ts = [] \<and> key \<in> fst ` set ms \<and> normalized_key key \<in> set bad
     \<or> (\<exists>k v us. (k, v) \<in> set ms \<and> ts = k # us \<and> bad_field bad v us key)"

definition in_elements :: "utext list \<Rightarrow> json list \<Rightarrow> nat \<Rightarrow> utext list \<Rightarrow> utext \<Rightarrow> bool" where
  "in_elements bad vs i ts key \<longleftrightarrow>
     (\<exists>j us. j < length vs \<and> ts = print_nat (i + j) # us \<and> bad_field bad (vs ! j) us key)"

lemma in_members_object:
  assumes "distinct (map fst ms)"
  shows "in_members bad ms ts key \<longleftrightarrow> bad_field bad (JObj ms) ts key"
proof (cases ts)
  case Nil
  then show ?thesis by (auto simp: in_members_def has_field_root)
next
  case (Cons k us)
  have "bad_field bad (JObj ms) (k # us) key \<longleftrightarrow> (\<exists>v. (k, v) \<in> set ms \<and> bad_field bad v us key)"
  proof (cases "map_of ms k")
    case None
    then have "(k, v) \<notin> set ms" for v by (force simp: map_of_eq_None_iff)
    then show ?thesis using None by (simp add: has_field_def)
  next
    case (Some w)
    then have "(k, v) \<in> set ms \<longleftrightarrow> v = w" for v using map_of_eq_Some_iff [OF assms, of k v] by auto
    then show ?thesis using Some by (simp add: has_field_def)
  qed
  then show ?thesis using Cons by (auto simp: in_members_def)
qed

lemma in_elements_array: "in_elements bad vs 0 ts key \<Longrightarrow> bad_field bad (JArr vs) ts key"
  by (auto simp: in_elements_def has_field_element)

lemma in_members_Cons:
  "in_members bad ((k, v) # ms) ts key \<longleftrightarrow>
    (ts = [] \<and> key = k \<and> normalized_key k \<in> set bad) \<or> (\<exists>us. ts = k # us \<and> bad_field bad v us key)
    \<or> in_members bad ms ts key"
  by (auto simp: in_members_def)

lemma in_elements_Cons:
  "in_elements bad (v # vs) i ts key \<longleftrightarrow>
    (\<exists>us. ts = print_nat i # us \<and> bad_field bad v us key) \<or> in_elements bad vs (Suc i) ts key"
proof
  assume "in_elements bad (v # vs) i ts key"
  then obtain j us where j: "j < Suc (length vs)" "ts = print_nat (i + j) # us" "bad_field bad ((v # vs) ! j) us key"
    by (auto simp: in_elements_def)
  show "(\<exists>us. ts = print_nat i # us \<and> bad_field bad v us key) \<or> in_elements bad vs (Suc i) ts key"
  proof (cases j)
    case (Suc m)
    then have "in_elements bad vs (Suc i) ts key" using j by (auto simp: in_elements_def)
    then show ?thesis ..
  qed (use j in simp)
next
  assume "(\<exists>us. ts = print_nat i # us \<and> bad_field bad v us key) \<or> in_elements bad vs (Suc i) ts key"
  then show "in_elements bad (v # vs) i ts key"
  proof
    assume "\<exists>us. ts = print_nat i # us \<and> bad_field bad v us key"
    then show ?thesis by (force simp: in_elements_def)
  next
    assume "in_elements bad vs (Suc i) ts key"
    then obtain j us where "j < length vs" "ts = print_nat (Suc i + j) # us" "bad_field bad (vs ! j) us key"
      by (auto simp: in_elements_def)
    then show ?thesis unfolding in_elements_def by (intro exI [of _ "Suc j"]) simp
  qed
qed

lemma find_sound:
  "find_field bad v path = Some (p, key) \<Longrightarrow> dicts_ok v
    \<Longrightarrow> \<exists>ts. p = path @ pointer (ts @ [key]) \<and> bad_field bad v ts key"
  "find_member bad ms path = Some (p, key) \<Longrightarrow> \<forall>m \<in> set ms. dicts_ok (snd m)
    \<Longrightarrow> \<exists>ts. p = path @ pointer (ts @ [key]) \<and> in_members bad ms ts key"
  "find_element bad vs i path = Some (p, key) \<Longrightarrow> \<forall>v \<in> set vs. dicts_ok v
    \<Longrightarrow> \<exists>ts. p = path @ pointer (ts @ [key]) \<and> in_elements bad vs i ts key"
proof (induction bad v path and bad ms path and bad vs i path
    arbitrary: p key and p key and p key rule: find_field_find_member_find_element.induct)
  case (1 bad ms path)
  then show ?case using in_members_object [of ms] by simp
next
  case (2 bad vs path)
  then show ?case using in_elements_array by fastforce
next
  case (5 bad key' v ms path)
  show ?case
  proof (cases "normalized_key key' \<in> set bad")
    case True
    then have "p = path @ pointer ([] @ [key])" "in_members bad ((key', v) # ms) [] key"
      using 5(3) by (auto simp: pointer_simps in_members_Cons Let_def)
    then show ?thesis by blast
  next
    case False
    show ?thesis
    proof (cases "find_field bad v (path @ 47 # escape_pointer_token key')")
      case None
      then obtain ts where "p = path @ pointer (ts @ [key])" "in_members bad ms ts key"
        using 5(2) [OF refl False None] 5(3,4) False by (auto simp: Let_def)
      then show ?thesis unfolding in_members_Cons by blast
    next
      case (Some r)
      then obtain ts where "p = (path @ 47 # escape_pointer_token key') @ pointer (ts @ [key])" "bad_field bad v ts key"
        using 5(1) [OF refl False] 5(3,4) False by (auto simp: Let_def)
      then have "p = path @ pointer ((key' # ts) @ [key])" "in_members bad ((key', v) # ms) (key' # ts) key"
        by (simp_all add: pointer_simps in_members_Cons)
      then show ?thesis by blast
    qed
  qed
next
  case (7 bad v vs i path)
  show ?case
  proof (cases "find_field bad v (path @ 47 # print_nat i)")
    case None
    then obtain ts where "p = path @ pointer (ts @ [key])" "in_elements bad vs (Suc i) ts key"
      using 7(2) [OF None] 7(3,4) by auto
    then show ?thesis unfolding in_elements_Cons by blast
  next
    case (Some r)
    then obtain ts where "p = (path @ 47 # print_nat i) @ pointer (ts @ [key])" "bad_field bad v ts key"
      using 7(1) 7(3,4) by auto
    then have "p = path @ pointer ((print_nat i # ts) @ [key])" "in_elements bad (v # vs) i (print_nat i # ts) key"
      by (simp_all add: pointer_simps index_token in_elements_Cons)
    then show ?thesis by blast
  qed
qed simp_all

lemma find_complete:
  "find_field bad v path = None \<Longrightarrow> dicts_ok v \<Longrightarrow> \<not> bad_field bad v ts key"
  "find_member bad ms path = None \<Longrightarrow> \<forall>m \<in> set ms. dicts_ok (snd m) \<Longrightarrow> \<not> in_members bad ms ts key"
  "find_element bad vs i path = None \<Longrightarrow> \<forall>v \<in> set vs. dicts_ok v \<Longrightarrow> \<forall>v \<in> set vs. \<forall>ts. \<not> bad_field bad v ts key"
proof (induction bad v path and bad ms path and bad vs i path
    arbitrary: ts and ts rule: find_field_find_member_find_element.induct)
  case (1 bad ms path)
  then show ?case using in_members_object [of ms] by simp
next
  case (2 bad vs path)
  then have "\<forall>v \<in> set vs. \<forall>us. \<not> bad_field bad v us key" by simp
  then have "i < length vs \<Longrightarrow> \<not> bad_field bad (vs ! i) us key" for i us using nth_mem [of i vs] by blast
  then show ?case by (cases ts) (auto simp: has_field_def split: if_splits)
next
  case (5 bad key' v ms path)
  have "normalized_key key' \<notin> set bad" "find_field bad v (path @ 47 # escape_pointer_token key') = None"
    "find_member bad ms path = None"
    using 5(3) by (auto simp: Let_def split: if_splits option.splits)
  then show ?case using 5(1) [OF refl] 5(2) [OF refl] 5(4) unfolding in_members_Cons by auto
next
  case (7 bad v vs i path)
  then show ?case by (auto split: option.splits)
qed (simp_all add: has_field_def in_members_def, (case_tac ts, simp_all)+)

text \<open>
  C39: The scan for secrets accepts exactly the documents without a field whose name, folded and
  stripped, is a forbidden one. When it rejects a document, the issue carries a pointer whose
  reference tokens, read as RFC 6901 says, lead to an object with the field the issue names, and
  that name is forbidden.
\<close>

theorem secret_pointers_lead_to_secrets:
  assumes "dicts_ok v"
  shows "(ensure_no_secret_fields v [] = Inr () \<longleftrightarrow> (\<forall>ts key. has_field v ts key \<longrightarrow> normalized_key key \<notin> set secret_keys))
    \<and> (\<forall>e. ensure_no_secret_fields v [] = Inl e \<longrightarrow>
        (\<exists>key. vi_context e = [(code_points ''field_name'', JStr key)] \<and> tokens (vi_path e) \<noteq> []
          \<and> last (tokens (vi_path e)) = key \<and> has_field v (butlast (tokens (vi_path e))) key
          \<and> normalized_key key \<in> set secret_keys))"
proof (cases "find_field secret_keys v []")
  case None
  then show ?thesis using find_complete(1) [OF None assms] by (auto simp: ensure_no_secret_fields_def)
next
  case (Some r)
  obtain p key where r: "r = (p, key)" by (cases r)
  then obtain ts where "p = pointer (ts @ [key])" "bad_field secret_keys v ts key"
    using find_sound(1) [OF Some [unfolded r] assms] by auto
  then show ?thesis using Some r by (auto simp: ensure_no_secret_fields_def tokens_pointer)
qed

definition demo_document :: json where
  "demo_document =
     JObj [(code_points ''a/b'', JArr [JNull, JObj [(code_points ''Api-~Key'', JStr [])]])]"

theorem secret_pointers_lead_to_secrets_witness:
  "\<exists>e. ensure_no_secret_fields demo_document [] = Inl e \<and> vi_path e = code_points ''/a~1b/1/Api-~0Key''
    \<and> has_field demo_document (butlast (tokens (vi_path e))) (code_points ''Api-~Key'')"
proof -
  have path: "find_field secret_keys demo_document [] = Some (code_points ''/a~1b/1/Api-~0Key'', code_points ''Api-~Key'')"
    by (simp add: demo_document_def Let_def escape_Cons escape_Nil normalized_key_def folded_def folded_to_ascii_def
        secret_keys_def code_points_def print_nat.simps)
  have "dicts_ok demo_document" by (simp add: demo_document_def)
  from secret_pointers_lead_to_secrets [OF this] path show ?thesis
    by (auto simp: ensure_no_secret_fields_def)
qed

end
