(* ===== verification/Dispatch.thy ===== *)
theory Dispatch
  imports Validation
begin

text \<open>
  \<open>contracts/registry.py\<close> and \<open>contracts/validation/wrapper.py\<close>. What \<open>json.loads\<close> or the YAML
  loader makes of a text is a parameter, and so are the models of the registry, their
  \<open>model_validate\<close> and the dedicated validators.
\<close>

section \<open>The registry\<close>

type_synonym contract_key = "utext \<times> int"

datatype registry_error = Empty_Schema_Id | Version_Not_Positive | Duplicate_Contract

definition register :: "utext \<Rightarrow> int \<Rightarrow> 'm \<Rightarrow> (contract_key \<times> 'm) list \<Rightarrow> registry_error + (contract_key \<times> 'm) list" where
  "register schema version model models =
     (if schema = [] then Inl Empty_Schema_Id
      else if version < 1 then Inl Version_Not_Positive
      else if (schema, version) \<in> fst ` set models then Inl Duplicate_Contract
      else Inr (models @ [((schema, version), model)]))"

definition get_model :: "utext \<Rightarrow> int \<Rightarrow> (contract_key \<times> 'm) list \<Rightarrow> 'm option" where
  "get_model schema version models = map_of models (schema, version)"

primrec register_all :: "(utext \<times> int \<times> 'm) list \<Rightarrow> (contract_key \<times> 'm) list \<Rightarrow> registry_error + (contract_key \<times> 'm) list" where
  "register_all [] models = Inr models"
| "register_all (c # cs) models =
     (case register (fst c) (fst (snd c)) (snd (snd c)) models of
        Inl e \<Rightarrow> Inl e
      | Inr models' \<Rightarrow> register_all cs models')"

text \<open>The names of the contracts of \<open>default_registry\<close>, each at version 1.\<close>

definition default_contracts :: "string list" where
  "default_contracts =
     [''agent-execution'', ''worker-analysis'', ''synthesis-result'', ''primary-review'', ''review-response'',
      ''dispute'', ''audit-request'', ''audit-result'', ''human-decision'', ''execution-manifest'',
      ''operation-request'', ''operation-result'', ''detailed-analysis-task'', ''evidence-set'',
      ''external-request-event'', ''final-analysis-result'', ''instruction-application'',
      ''detailed-analysis-policy'', ''review-audit-policy'', ''session-continuation-policy'',
      ''web-research-policy'', ''market-profile'', ''source-approval'', ''source-profile'',
      ''research-context'', ''search-record'', ''common-evidence-update'', ''validation-error'']"

definition default_registry :: "registry_error + (contract_key \<times> string) list" where
  "default_registry =
     register_all (map (\<lambda>n. (code_points (''detailed-analysis.'' @ n), 1, n)) default_contracts) []"

section \<open>Loaded values\<close>

text \<open>
  What the two loaders build: the values of JSON, and from YAML also dates, floats that are not
  finite and dicts with other keys than texts. A date is told from others by a number.
\<close>

datatype loaded =
    L_None
  | L_Bool bool
  | L_Int int
  | L_Float double
  | L_Text utext
  | L_Date nat
  | L_List "loaded list"
  | L_Dict "(loaded \<times> loaded) list"

datatype value_error = Too_Deep | Not_Finite | Key_Not_Text | Not_Json_Compatible

definition max_value_depth :: nat where
  "max_value_depth = 64"

text \<open>\<open>_ensure_json_value\<close>, with the value it lets pass as a JSON value.\<close>

fun ensure_json_value :: "loaded \<Rightarrow> nat \<Rightarrow> value_error + json"
  and ensure_elements :: "loaded list \<Rightarrow> nat \<Rightarrow> value_error + json list"
  and ensure_members :: "(loaded \<times> loaded) list \<Rightarrow> nat \<Rightarrow> value_error + (utext \<times> json) list" where
  "ensure_json_value v depth =
     (if depth > max_value_depth then Inl Too_Deep
      else
        (case v of
           L_None \<Rightarrow> Inr JNull
         | L_Text t \<Rightarrow> Inr (JStr t)
         | L_Bool b \<Rightarrow> Inr (JBool b)
         | L_Int i \<Rightarrow> Inr (JInt i)
         | L_Float d \<Rightarrow> if is_finite d then Inr (JFloat d) else Inl Not_Finite
         | L_List vs \<Rightarrow> map_sum id JArr (ensure_elements vs (Suc depth))
         | L_Dict ms \<Rightarrow> map_sum id JObj (ensure_members ms (Suc depth))
         | L_Date _ \<Rightarrow> Inl Not_Json_Compatible))"
| "ensure_elements [] depth = Inr []"
| "ensure_elements (v # vs) depth =
     (case ensure_json_value v depth of
        Inl e \<Rightarrow> Inl e
      | Inr j \<Rightarrow> map_sum id (Cons j) (ensure_elements vs depth))"
| "ensure_members [] depth = Inr []"
| "ensure_members ((k, v) # ms) depth =
     (case k of
        L_Text t \<Rightarrow>
          (case ensure_json_value v depth of
             Inl e \<Rightarrow> Inl e
           | Inr j \<Rightarrow> map_sum id (Cons (t, j)) (ensure_members ms depth))
      | _ \<Rightarrow> Inl Key_Not_Text)"

section \<open>Mappings without repeated keys\<close>

text \<open>\<open>_unique_json_object\<close>.\<close>

primrec unique_object :: "(utext \<times> 'v) list \<Rightarrow> (utext \<times> 'v) list \<Rightarrow> (utext \<times> 'v) list option" where
  "unique_object [] seen = Some (rev seen)"
| "unique_object (m # ms) seen = (if fst m \<in> fst ` set seen then None else unique_object ms (m # seen))"

text \<open>
  \<open>construct_mapping\<close> of \<open>_UniqueKeySafeLoader\<close>. A list or dict as a key has no hash, so that
  \<open>key in mapping\<close> raises; booleans, integers and floats of the same value are one key.
\<close>

datatype mapping_error = Duplicate_Key | Unhashable

definition hashable :: "loaded \<Rightarrow> bool" where
  "hashable v = (case v of L_List _ \<Rightarrow> False | L_Dict _ \<Rightarrow> False | _ \<Rightarrow> True)"

definition numeric_key :: "loaded \<Rightarrow> rat option" where
  "numeric_key v =
     (case v of
        L_Bool b \<Rightarrow> Some (if b then 1 else 0)
      | L_Int i \<Rightarrow> Some (of_int i)
      | L_Float (Finite x) \<Rightarrow> Some x
      | _ \<Rightarrow> None)"

definition same_key :: "loaded \<Rightarrow> loaded \<Rightarrow> bool" where
  "same_key k l \<longleftrightarrow>
     (case numeric_key k of
        Some x \<Rightarrow> numeric_key l = Some x
      | None \<Rightarrow> k = l \<and> k \<noteq> L_Float Not_A_Number)"

primrec construct_mapping :: "(loaded \<times> loaded) list \<Rightarrow> (loaded \<times> loaded) list \<Rightarrow> mapping_error + (loaded \<times> loaded) list" where
  "construct_mapping [] seen = Inr (rev seen)"
| "construct_mapping (m # ms) seen =
     (if \<not> hashable (fst m) then Inl Unhashable
      else if list_ex (\<lambda>n. same_key (fst m) (fst n)) seen then Inl Duplicate_Key
      else construct_mapping ms (m # seen))"

section \<open>Failures\<close>

text \<open>
  What leaves \<open>validate_text\<close>: the error artifact, or an exception of a library: constructing the
  artifact validates it too.
\<close>

datatype 'r outcome = Validated 'r | Contract_Failure validation_error | Library_Exception

definition failure :: "error_category \<Rightarrow> error_code \<Rightarrow> string \<Rightarrow> validation_target \<Rightarrow> utext \<Rightarrow> (utext \<times> json) list \<Rightarrow> 'r outcome" where
  "failure category code message target path context =
     (let e = \<lparr>ve_category = category, ve_code = code, ve_target = target, ve_path = path, ve_message = message,
        ve_context = context\<rparr>
      in if valid_validation_error e then Contract_Failure e else Library_Exception)"

definition schema_failure :: "error_code \<Rightarrow> string \<Rightarrow> validation_target \<Rightarrow> utext \<Rightarrow> 'r outcome" where
  "schema_failure code message target path = failure Cat_Schema code message target path []"

definition unknown_target :: validation_target where
  "unknown_target =
     \<lparr>vt_type = code_points ''unknown'', vt_artifact = None, vt_schema = code_points ''unknown'', vt_version = 1\<rparr>"

text \<open>The first error of a pydantic \<open>ValidationError\<close>: its type and its location.\<close>

record model_error =
  me_type :: string
  me_location :: "utext list"

definition ends_with :: "string \<Rightarrow> string \<Rightarrow> bool" where
  "ends_with w s \<longleftrightarrow> length w \<le> length s \<and> drop (length s - length w) s = w"

definition from_pydantic :: "model_error \<Rightarrow> validation_target \<Rightarrow> 'r outcome" where
  "from_pydantic e target =
     (let code =
        (if me_type e = ''missing'' then Required_Field_Missing
         else if me_type e = ''extra_forbidden'' then Unknown_Field
         else if ends_with ''_type'' (me_type e) \<or> ends_with ''_parsing'' (me_type e) then Type_Mismatch
         else Constraint_Violation)
      in failure Cat_Schema code ''contract validation failed'' target
           (concat (map (\<lambda>part. 47 # escape_pointer_token part) (me_location e)))
           [(code_points ''pydantic_error_type'', jtext (me_type e))])"

section \<open>Dispatch\<close>

text \<open>What parsing raises, as \<open>validate_text\<close> tells it apart; the last one is not caught there.\<close>

datatype parse_error =
    Repeated_Yaml_Key
  | Invalid_Json_Value string
  | Invalid_Json_Text
  | Bad_Yaml
  | Other_Value_Error string
  | Uncaught_Exception

definition value_error_text :: "value_error \<Rightarrow> string" where
  "value_error_text e =
     (case e of
        Too_Deep \<Rightarrow> ''input exceeds the safe parsing depth''
      | Not_Finite \<Rightarrow> ''non-finite number is not allowed''
      | Key_Not_Text \<Rightarrow> ''object keys must be strings''
      | Not_Json_Compatible \<Rightarrow> ''YAML value is not JSON-compatible'')"

text \<open>\<open>_parse_text\<close>: the size is that of the text in UTF-8, the loader's answer a parameter.\<close>

definition max_input_bytes :: nat where
  "max_input_bytes = 1000000"

definition parse_document :: "nat \<Rightarrow> parse_error + loaded \<Rightarrow> parse_error + json" where
  "parse_document octets answer =
     (if octets > max_input_bytes then Inl (Other_Value_Error ''input exceeds the safe parsing size'')
      else
        (case answer of
           Inl e \<Rightarrow> Inl e
         | Inr v \<Rightarrow>
             (case ensure_json_value v 0 of
                Inl e \<Rightarrow> Inl (Other_Value_Error (value_error_text e))
              | Inr j \<Rightarrow> Inr j)))"

definition parse_failure :: "parse_error \<Rightarrow> 'r outcome" where
  "parse_failure e =
     (case e of
        Repeated_Yaml_Key \<Rightarrow> schema_failure Duplicate_Yaml_Key ''duplicate YAML mapping key'' unknown_target []
      | Invalid_Json_Value m \<Rightarrow> schema_failure Invalid_Json m unknown_target []
      | Invalid_Json_Text \<Rightarrow> schema_failure Invalid_Json ''input is not valid JSON'' unknown_target []
      | Bad_Yaml \<Rightarrow> schema_failure Unsafe_Yaml ''input is not safe YAML'' unknown_target []
      | Other_Value_Error m \<Rightarrow> schema_failure Non_Json_Yaml_Value m unknown_target []
      | Uncaught_Exception \<Rightarrow> Library_Exception)"

text \<open>The key of the contract: \<open>schema_id\<close> and \<open>schema_version\<close>, or the failure.\<close>

definition schema_id_of :: "(utext \<times> json) list \<Rightarrow> (error_code \<times> string) + utext" where
  "schema_id_of ms =
     (case map_of ms (code_points ''schema_id'') of
        None \<Rightarrow> Inl (Required_Field_Missing, ''schema_id is required'')
      | Some JNull \<Rightarrow> Inl (Required_Field_Missing, ''schema_id is required'')
      | Some (JStr s) \<Rightarrow> if s = [] then Inl (Constraint_Violation, ''schema_id must be non-empty'') else Inr s
      | Some _ \<Rightarrow> Inl (Type_Mismatch, ''schema_id must be a string''))"

definition schema_version_of :: "(utext \<times> json) list \<Rightarrow> (error_code \<times> string) + int" where
  "schema_version_of ms =
     (case map_of ms (code_points ''schema_version'') of
        None \<Rightarrow> Inl (Required_Field_Missing, ''schema_version is required'')
      | Some JNull \<Rightarrow> Inl (Required_Field_Missing, ''schema_version is required'')
      | Some (JInt i) \<Rightarrow> Inr i
      | Some _ \<Rightarrow> Inl (Type_Mismatch, ''schema_version must be an integer''))"

definition without_prefix :: "utext \<Rightarrow> utext" where
  "without_prefix s = (if take 18 s = code_points ''detailed-analysis.'' then drop 18 s else s)"

definition target_of :: "utext \<Rightarrow> int \<Rightarrow> validation_target" where
  "target_of schema version =
     \<lparr>vt_type = without_prefix schema, vt_artifact = None, vt_schema = schema, vt_version = max version 1\<rparr>"

primrec run_validators :: "('a \<Rightarrow> issue + unit) list \<Rightarrow> validation_target \<Rightarrow> 'a \<Rightarrow> 'a outcome" where
  "run_validators [] target artifact = Validated artifact"
| "run_validators (f # fs) target artifact =
     (case f artifact of
        Inl i \<Rightarrow> failure (vi_category i) (vi_code i) (vi_message i) target (vi_path i) (vi_context i)
      | Inr _ \<Rightarrow> run_validators fs target artifact)"

definition validate_as ::
    "(contract_key \<times> 'm) list \<Rightarrow> ('m \<Rightarrow> json \<Rightarrow> model_error + 'a) \<Rightarrow> ('a \<Rightarrow> issue + unit) list
      \<Rightarrow> utext \<Rightarrow> int \<Rightarrow> json \<Rightarrow> 'a outcome" where
  "validate_as registry model_validate validators schema version v =
     (let target = target_of schema version
      in if version < 1
         then schema_failure Constraint_Violation ''schema_version must be at least 1'' target (code_points ''/schema_version'')
         else
           (case get_model schema version registry of
              None \<Rightarrow>
                schema_failure
                  (if \<not> list_ex (\<lambda>m. fst (fst m) = schema) registry then Unknown_Schema else Unsupported_Schema_Version)
                  ''contract schema or version is unsupported'' target []
            | Some model \<Rightarrow>
                (case model_validate model v of
                   Inl e \<Rightarrow> from_pydantic e target
                 | Inr artifact \<Rightarrow> run_validators validators target artifact)))"

definition validate_text ::
    "(contract_key \<times> 'm) list \<Rightarrow> ('m \<Rightarrow> json \<Rightarrow> model_error + 'a) \<Rightarrow> ('a \<Rightarrow> issue + unit) list
      \<Rightarrow> nat \<Rightarrow> parse_error + loaded \<Rightarrow> 'a outcome" where
  "validate_text registry model_validate validators octets answer =
     (case parse_document octets answer of
        Inl e \<Rightarrow> parse_failure e
      | Inr (JObj ms) \<Rightarrow>
          (case schema_id_of ms of
             Inl (code, message) \<Rightarrow> schema_failure code message unknown_target (code_points ''/schema_id'')
           | Inr schema \<Rightarrow>
               (case schema_version_of ms of
                  Inl (code, message) \<Rightarrow> schema_failure code message unknown_target (code_points ''/schema_version'')
                | Inr version \<Rightarrow> validate_as registry model_validate validators schema version (JObj ms)))
      | Inr _ \<Rightarrow> schema_failure Type_Mismatch ''top-level contract value must be an object'' unknown_target [])"

section \<open>Which failures are artifacts\<close>

lemma failure_is_artifact:
  "failure category code message target path context = Library_Exception \<longleftrightarrow>
    \<not> (valid_target target \<and> message \<noteq> [] \<and> code \<in> set (codes_of category))"
  by (auto simp: failure_def Let_def valid_validation_error_def is_text_def Suc_le_eq)

lemma code_points_Nil: "code_points s = [] \<longleftrightarrow> s = []"
  by (simp add: code_points_def)

lemma unknown_target_valid: "valid_target unknown_target"
  by (simp add: valid_target_def unknown_target_def unless_None_def code_points_def)

lemma target_of_valid: "schema \<noteq> [] \<Longrightarrow> valid_target (target_of schema version) \<longleftrightarrow> schema \<noteq> code_points ''detailed-analysis.''"
proof -
  have prefix: "length (code_points ''detailed-analysis.'') = 18" by (simp add: code_points_def)
  assume "schema \<noteq> []"
  then have "without_prefix schema = [] \<longleftrightarrow> schema = code_points ''detailed-analysis.''"
    using prefix by (auto simp: without_prefix_def take_all_iff)
  then show ?thesis using \<open>schema \<noteq> []\<close> by (auto simp: valid_target_def target_of_def unless_None_def)
qed

lemma schema_failure_is_artifact:
  "code \<in> set (codes_of Cat_Schema) \<Longrightarrow> schema_failure code message target path = Library_Exception
    \<longleftrightarrow> \<not> (valid_target target \<and> message \<noteq> [])"
  by (simp add: schema_failure_def failure_is_artifact)

lemma schema_id_of_error: "schema_id_of ms = Inl (code, message) \<Longrightarrow> code \<in> set (codes_of Cat_Schema) \<and> message \<noteq> []"
  by (auto simp: schema_id_of_def split: option.splits json.splits if_splits)

lemma schema_version_of_error: "schema_version_of ms = Inl (code, message) \<Longrightarrow> code \<in> set (codes_of Cat_Schema) \<and> message \<noteq> []"
  by (auto simp: schema_version_of_def split: option.splits json.splits if_splits)

lemma schema_id_of_Inr: "schema_id_of ms = Inr s \<Longrightarrow> s \<noteq> []"
  by (auto simp: schema_id_of_def split: option.splits json.splits if_splits)

lemma from_pydantic_is_artifact: "valid_target target \<Longrightarrow> from_pydantic e target \<noteq> Library_Exception"
  by (simp add: from_pydantic_def Let_def failure_is_artifact)

lemma run_validators_raises:
  assumes "run_validators validators target a = Library_Exception" "valid_target target"
  shows "\<exists>f \<in> set validators. \<exists>i. f a = Inl i \<and> \<not> (vi_message i \<noteq> [] \<and> vi_code i \<in> set (codes_of (vi_category i)))"
  using assms by (induction validators) (auto simp: failure_is_artifact split: sum.splits)

lemma validate_as_raises:
  assumes "validate_as registry model_validate validators schema version v = Library_Exception" "valid_target (target_of schema version)"
  shows "\<exists>f \<in> set validators. \<exists>a i. f a = Inl i \<and> \<not> (vi_message i \<noteq> [] \<and> vi_code i \<in> set (codes_of (vi_category i)))"
  using assms run_validators_raises from_pydantic_is_artifact
  by (fastforce simp: validate_as_def Let_def schema_failure_is_artifact split: if_splits option.splits sum.splits)

lemma parse_failure_raises:
  "parse_failure e = Library_Exception \<longleftrightarrow>
    e = Uncaught_Exception \<or> e = Invalid_Json_Value [] \<or> e = Other_Value_Error []"
  by (auto simp: parse_failure_def schema_failure_is_artifact unknown_target_valid split: parse_error.splits)

text \<open>
  With a loader that raises nothing foreign and validators that raise issues of the catalog, every
  failure is an error artifact, except for a document whose \<open>schema_id\<close> is the bare prefix
  \<open>detailed-analysis.\<close>: its target has an empty type, which the artifact refuses.
\<close>

lemma only_the_bare_prefix_escapes:
  assumes raised: "validate_text registry model_validate validators octets answer = Library_Exception"
    and loader: "answer \<notin> Inl ` {Uncaught_Exception, Invalid_Json_Value [], Other_Value_Error []}"
    and issues: "\<forall>f \<in> set validators. \<forall>a i. f a = Inl i \<longrightarrow> vi_message i \<noteq> [] \<and> vi_code i \<in> set (codes_of (vi_category i))"
  shows "\<exists>ms. parse_document octets answer = Inr (JObj ms) \<and> schema_id_of ms = Inr (code_points ''detailed-analysis.'')"
proof (cases "parse_document octets answer")
  case (Inl e)
  have "e \<notin> {Uncaught_Exception, Invalid_Json_Value [], Other_Value_Error []}"
    using Inl loader by (auto simp: parse_document_def value_error_text_def split: if_splits sum.splits value_error.splits)
  then show ?thesis using raised Inl by (simp add: validate_text_def parse_failure_raises)
next
  case (Inr j)
  show ?thesis
  proof (cases "\<exists>ms. j = JObj ms")
    case False
    then show ?thesis
      using raised Inr by (auto simp: validate_text_def schema_failure_is_artifact unknown_target_valid split: json.splits)
  next
    case True
    then obtain ms where ms: "j = JObj ms" ..
    then obtain schema where schema: "schema_id_of ms = Inr schema"
      using raised Inr schema_id_of_error [of ms]
      by (auto simp: validate_text_def schema_failure_is_artifact unknown_target_valid split: sum.splits prod.splits)
    then obtain version where "schema_version_of ms = Inr version"
      using raised Inr ms schema_version_of_error [of ms]
      by (auto simp: validate_text_def schema_failure_is_artifact unknown_target_valid split: sum.splits prod.splits)
    then have "validate_as registry model_validate validators schema version (JObj ms) = Library_Exception"
      using raised Inr ms schema by (simp add: validate_text_def)
    then have "\<not> valid_target (target_of schema version)" using validate_as_raises issues by blast
    then show ?thesis using target_of_valid [OF schema_id_of_Inr [OF schema]] Inr ms schema by auto
  qed
qed

lemma bare_prefix_escapes:
  "validate_text registry model_validate validators 99
    (Inr (L_Dict [(L_Text (code_points ''schema_id''), L_Text (code_points ''detailed-analysis.'')),
      (L_Text (code_points ''schema_version''), L_Int 0)])) = Library_Exception"
proof -
  have "code_points ''schema_id'' \<noteq> code_points ''schema_version''" by (simp add: code_points_def)
  moreover have "code_points ''detailed-analysis.'' \<noteq> []" by (simp add: code_points_def)
  ultimately show ?thesis
    using target_of_valid [of "code_points ''detailed-analysis.''" 0]
    by (simp add: validate_text_def parse_document_def max_input_bytes_def max_value_depth_def schema_id_of_def
        schema_version_of_def validate_as_def schema_failure_is_artifact)
qed

text \<open>A key of a YAML mapping that is a list, as \<^verbatim>\<open>? [a]\<close> writes it, raises what the parser's callers do not catch.\<close>

lemma list_keys_are_unhashable: "construct_mapping ((L_List vs, v) # ms) [] = Inl Unhashable"
  by (simp add: hashable_def)

lemma construct_mapping_distinct:
  "construct_mapping ms seen = Inr out \<Longrightarrow>
    sorted_wrt (\<lambda>m n. \<not> same_key (fst n) (fst m)) (rev seen)
    \<Longrightarrow> sorted_wrt (\<lambda>m n. \<not> same_key (fst n) (fst m)) out \<and> out = rev seen @ ms"
proof (induction ms arbitrary: seen)
  case (Cons m ms)
  then have "\<forall>n \<in> set seen. \<not> same_key (fst m) (fst n)" and rest: "construct_mapping ms (m # seen) = Inr out"
    by (auto simp: list_ex_iff split: if_splits)
  then have "sorted_wrt (\<lambda>m n. \<not> same_key (fst n) (fst m)) (rev (m # seen))"
    using Cons.prems(2) by (simp add: sorted_wrt_append)
  note out = Cons.IH [OF rest this]
  moreover have "out = rev seen @ m # ms" using out by simp
  ultimately show ?case by blast
qed simp

lemma unique_object_distinct:
  "unique_object ms seen = Some out \<Longrightarrow> distinct (map fst seen) \<Longrightarrow> distinct (map fst out) \<and> out = rev seen @ ms"
proof (induction ms arbitrary: seen)
  case (Cons m ms)
  then have rest: "unique_object ms (m # seen) = Some out" "distinct (map fst (m # seen))"
    by (auto split: if_splits)
  note out = Cons.IH [OF rest]
  moreover have "out = rev seen @ m # ms" using out by simp
  ultimately show ?case by blast
qed (auto simp flip: rev_map)

lemma register_all_succeeds:
  assumes "list_all (\<lambda>(schema, version, _). schema \<noteq> [] \<and> 1 \<le> version) cs"
    and "distinct (map (\<lambda>c. (fst c, fst (snd c))) cs)" "(\<lambda>c. (fst c, fst (snd c))) ` set cs \<inter> fst ` set models = {}"
  shows "register_all cs models = Inr (models @ map (\<lambda>(schema, version, m). ((schema, version), m)) cs)"
  using assms
proof (induction cs arbitrary: models)
  case (Cons c cs)
  obtain schema version m where c: "c = (schema, version, m)" by (cases c) auto
  then have "register schema version m models = Inr (models @ [((schema, version), m)])"
    using Cons.prems by (auto simp: register_def)
  moreover have "register_all cs (models @ [((schema, version), m)])
      = Inr ((models @ [((schema, version), m)]) @ map (\<lambda>(schema, version, m). ((schema, version), m)) cs)"
    by (rule Cons.IH) (use Cons.prems c in auto)
  ultimately show ?case using c by simp
qed simp

lemma default_registry_succeeds: "\<exists>models. default_registry = Inr models \<and> length models = 28"
proof -
  have "distinct default_contracts" by code_simp
  then have "distinct (map (\<lambda>n. (code_points (''detailed-analysis.'' @ n), 1 :: int)) default_contracts)"
    by (simp add: distinct_map inj_on_def code_points_inject)
  moreover have "length default_contracts = 28" by (simp add: default_contracts_def)
  ultimately show ?thesis
    unfolding default_registry_def
    by (subst register_all_succeeds) (simp_all add: comp_def list_all_iff code_points_Nil)
qed

end
