(* ===== verification/Amendments.thy ===== *)
theory Amendments
  imports Policies "HOL-Library.List_Lexorder"
begin

text \<open>
  \<open>preparation/financial_candidates.py\<close> over the documents of \<open>sources/edinet/document_list.py\<close>: the
  walk up the parents of an amended filing, and why it ends.
\<close>

section \<open>Filings\<close>

datatype filing_type =
    Annual | Amended_Annual | Quarterly | Amended_Quarterly | Semiannual | Amended_Semiannual

record edinet_document =
  ed_sequence :: int
  ed_id :: string
  ed_edinet_code :: "string option"
  ed_security_code :: "string option"
  ed_filer :: string
  ed_type :: filing_type
  ed_period_start :: "string option"
  ed_period_end :: "string option"
  ed_submitted_at :: string
  ed_description :: string
  ed_parent :: "string option"
  ed_withdrawn :: bool
  ed_xbrl :: bool

definition is_amendment :: "edinet_document \<Rightarrow> bool" where
  "is_amendment d \<longleftrightarrow> ed_type d \<in> {Amended_Annual, Amended_Quarterly, Amended_Semiannual}"

section \<open>The walk\<close>

text \<open>
  The loop of \<open>correction_reasons\<close>: the current parent, the ids seen and the reasons found. Two
  documents have one \<open>model_dump_json\<close> exactly when all their fields agree.
\<close>

partial_function (option) walk_parents ::
    "edinet_document \<Rightarrow> edinet_document list \<Rightarrow> string option \<Rightarrow> string list \<Rightarrow> string list \<Rightarrow> string list option" where
  "walk_parents d docs parent seen reasons =
     (case parent of
        None \<Rightarrow> Some reasons
      | Some p \<Rightarrow>
          if p \<in> set seen then Some (''amendment_cycle'' # reasons)
          else
            (case filter (\<lambda>i. ed_id i = p) docs of
               [] \<Rightarrow> Some (''amendment_parent_missing'' # reasons)
             | m # ms \<Rightarrow>
                 if list_ex (\<lambda>i. ed_edinet_code i \<noteq> ed_edinet_code d) (m # ms)
                 then Some (''amendment_parent_issuer_mismatch'' # reasons)
                 else if list_ex (\<lambda>i. i \<noteq> m) ms then Some (''amendment_parent_snapshots_conflict'' # reasons)
                 else walk_parents d docs (ed_parent m) (p # seen) reasons))"

declare walk_parents.simps [code]

definition first_reasons :: "edinet_document \<Rightarrow> string list" where
  "first_reasons d =
     (if is_amendment d
      then ''amendment_selection_unresolved'' # (if ed_parent d = None then [''amendment_parent_missing''] else [])
      else [])"

definition has_competitor :: "edinet_document \<Rightarrow> edinet_document list \<Rightarrow> bool" where
  "has_competitor d docs \<longleftrightarrow>
     (case ed_parent d of
        None \<Rightarrow> False
      | Some p \<Rightarrow> p \<noteq> [] \<and> 1 < length (remdups (map ed_id (filter (\<lambda>i. ed_parent i = Some p) docs))))"

definition correction_reasons :: "edinet_document \<Rightarrow> edinet_document list \<Rightarrow> string list option" where
  "correction_reasons d docs =
     map_option (\<lambda>rs. sort (remdups (rs @ (if has_competitor d docs then [''competing_amendments''] else []))))
       (walk_parents d docs (ed_parent d) [ed_id d] (first_reasons d))"

section \<open>The parents that are climbed\<close>

text \<open>
  The lineage the walk follows: from the filing to its parents, each with one snapshot and the
  same issuer. The list holds the ids on the way, the filing's own last.
\<close>

inductive climbs :: "edinet_document \<Rightarrow> edinet_document list \<Rightarrow> string option \<Rightarrow> string list \<Rightarrow> bool" for d docs where
  start: "climbs d docs (ed_parent d) [ed_id d]"
| up: "climbs d docs (Some p) seen \<Longrightarrow> p \<notin> set seen \<Longrightarrow> {i \<in> set docs. ed_id i = p} = {m}
    \<Longrightarrow> ed_edinet_code m = ed_edinet_code d \<Longrightarrow> climbs d docs (ed_parent m) (p # seen)"

lemma filter_same:
  assumes "{i \<in> set docs. ed_id i = p} = {m}"
  obtains ms where "filter (\<lambda>i. ed_id i = p) docs = m # ms" "set ms \<subseteq> {m}"
proof -
  have same: "set (filter (\<lambda>i. ed_id i = p) docs) = {m}" using assms by simp
  then obtain k ms where ks: "filter (\<lambda>i. ed_id i = p) docs = k # ms"
    by (cases "filter (\<lambda>i. ed_id i = p) docs") simp_all
  then have "insert k (set ms) = {m}" using same by simp
  then have "k = m" "set ms \<subseteq> {m}" by blast+
  then show thesis using ks that by blast
qed

lemma walk_climbs:
  assumes "climbs d docs parent seen"
  shows "walk_parents d docs (ed_parent d) [ed_id d] rs = walk_parents d docs parent seen rs"
  using assms
proof induction
  case (up p seen m)
  obtain ms where ms: "filter (\<lambda>i. ed_id i = p) docs = m # ms" "set ms \<subseteq> {m}"
    using filter_same [OF up.hyps(3)] .
  then have "\<not> list_ex (\<lambda>i. ed_edinet_code i \<noteq> ed_edinet_code d) (m # ms)" "\<not> list_ex (\<lambda>i. i \<noteq> m) ms"
    using up.hyps(4) unfolding list_ex_iff by auto
  then have "walk_parents d docs (Some p) seen rs = walk_parents d docs (ed_parent m) (p # seen) rs"
    using up.hyps(2) ms(1) by (subst walk_parents.simps) (simp only: option.case list.case if_False)
  then show ?case using up.IH by simp
qed simp

lemma climbs_seen:
  "climbs d docs parent seen \<Longrightarrow> distinct seen \<and> set seen \<subseteq> insert (ed_id d) (ed_id ` set docs)"
proof (induction rule: climbs.induct)
  case (up p seen m)
  have "m \<in> set docs \<and> ed_id m = p" using up.hyps(3) by blast
  then show ?case using up.IH up.hyps(2) by auto
qed simp

text \<open>What the walk answers, and where it stands then.\<close>

definition answers :: "edinet_document \<Rightarrow> edinet_document list \<Rightarrow> string list \<Rightarrow> string list \<Rightarrow> bool" where
  "answers d docs rs out \<longleftrightarrow>
     out = rs \<and> (\<exists>seen. climbs d docs None seen)
     \<or> out = ''amendment_cycle'' # rs \<and> (\<exists>p seen. climbs d docs (Some p) seen \<and> p \<in> set seen)
     \<or> (\<exists>r \<in> {''amendment_parent_missing'', ''amendment_parent_issuer_mismatch'', ''amendment_parent_snapshots_conflict''}.
          out = r # rs)"

lemma walk_answers:
  assumes "climbs d docs parent seen"
  shows "\<exists>out. walk_parents d docs parent seen rs = Some out \<and> answers d docs rs out"
  using assms
proof (induction "Suc (length docs) - length seen" arbitrary: parent seen rule: less_induct)
  case less
  show ?case
  proof (cases parent)
    case None
    then show ?thesis using less.prems by (subst walk_parents.simps) (auto simp: answers_def)
  next
    case (Some p)
    consider "p \<in> set seen" | "p \<notin> set seen" "filter (\<lambda>i. ed_id i = p) docs = []"
      | m ms where "p \<notin> set seen" "filter (\<lambda>i. ed_id i = p) docs = m # ms"
      by (cases "filter (\<lambda>i. ed_id i = p) docs") auto
    then show ?thesis
    proof cases
      case 3
      show ?thesis
      proof (cases "list_ex (\<lambda>i. ed_edinet_code i \<noteq> ed_edinet_code d) (m # ms) \<or> list_ex (\<lambda>i. i \<noteq> m) ms")
        case True
        then show ?thesis using Some 3 by (subst walk_parents.simps) (auto simp: answers_def)
      next
        case False
        have "set (filter (\<lambda>i. ed_id i = p) docs) = insert m (set ms)" using 3(2) by simp
        moreover have "set ms \<subseteq> {m}" "ed_edinet_code m = ed_edinet_code d" using False by (auto simp: list_ex_iff)
        ultimately have "{i \<in> set docs. ed_id i = p} = {m}" by auto
        from climbs.up [OF less.prems [unfolded Some] 3(1) this \<open>ed_edinet_code m = ed_edinet_code d\<close>]
        have next': "climbs d docs (ed_parent m) (p # seen)" .
        have "length (p # seen) \<le> Suc (length docs)"
        proof -
          have "card (set (p # seen)) \<le> card (insert (ed_id d) (ed_id ` set docs))"
            using climbs_seen [OF next'] by (intro card_mono) auto
          also have "\<dots> \<le> Suc (card (set docs))"
            using card_image_le [of "set docs" ed_id] card_insert_le_m1 by (simp add: card_insert_if le_SucI)
          also have "\<dots> \<le> Suc (length docs)" by (simp add: card_length)
          finally show ?thesis using climbs_seen [OF next'] distinct_card by fastforce
        qed
        then have "Suc (length docs) - length (p # seen) < Suc (length docs) - length seen" by simp
        from less.hyps [OF this next'] show ?thesis
          using Some 3 False by (subst walk_parents.simps) simp
      qed
    qed (use less.prems Some in \<open>subst walk_parents.simps, auto simp: answers_def\<close>)+
  qed
qed

text \<open>
  C40: The walk up the parents of a filing ends for every list of documents, cyclic ones included.
  It reports a cycle exactly when the lineage of the filing comes back to one of its own ids, and
  when it reports nothing the lineage is complete: every parent has one snapshot and the issuer of
  the filing, up to a document without a parent.
\<close>

theorem correction_reasons_answers:
  "\<exists>out. correction_reasons d docs = Some out
    \<and> (''amendment_cycle'' \<in> set out \<longleftrightarrow> (\<exists>p seen. climbs d docs (Some p) seen \<and> p \<in> set seen))
    \<and> (out = [] \<longrightarrow> (\<exists>seen. climbs d docs None seen))"
proof -
  obtain rs where walk: "walk_parents d docs (ed_parent d) [ed_id d] (first_reasons d) = Some rs"
    and answers: "answers d docs (first_reasons d) rs"
    using walk_answers [OF climbs.start] by blast
  have first: "''amendment_cycle'' \<notin> set (first_reasons d)" by (simp add: first_reasons_def)
  have "''amendment_cycle'' \<in> set rs" if "climbs d docs (Some p) seen" "p \<in> set seen" for p seen
  proof -
    have "walk_parents d docs (Some p) seen (first_reasons d) = Some (''amendment_cycle'' # first_reasons d)"
      using that(2) by (subst walk_parents.simps) simp
    then show ?thesis using walk walk_climbs [OF that(1), of "first_reasons d"] by auto
  qed
  moreover have "\<exists>p seen. climbs d docs (Some p) seen \<and> p \<in> set seen" if "''amendment_cycle'' \<in> set rs"
    using that answers first by (auto simp: answers_def)
  moreover have "\<exists>seen. climbs d docs None seen" if "rs = []" using that answers by (auto simp: answers_def)
  moreover obtain out where out: "correction_reasons d docs = Some out" "set out \<subseteq> {''competing_amendments''} \<union> set rs" "set rs \<subseteq> set out"
    using walk by (auto simp: correction_reasons_def)
  moreover have "''amendment_cycle'' \<in> set out \<longleftrightarrow> ''amendment_cycle'' \<in> set rs" "out = [] \<Longrightarrow> rs = []"
    using out(2,3) by auto
  ultimately show ?thesis by blast
qed

definition demo_filing :: "string \<Rightarrow> string option \<Rightarrow> filing_type \<Rightarrow> edinet_document" where
  "demo_filing i parent type =
     \<lparr>ed_sequence = 1, ed_id = i, ed_edinet_code = Some ''E00001'', ed_security_code = None, ed_filer = ''filer'',
      ed_type = type, ed_period_start = None, ed_period_end = None, ed_submitted_at = ''2026-06-20 15:00'',
      ed_description = ''report'', ed_parent = parent, ed_withdrawn = False, ed_xbrl = True\<rparr>"

lemma demo_filings:
  "correction_reasons (demo_filing ''A'' (Some ''B'') Annual) [demo_filing ''A'' (Some ''B'') Annual, demo_filing ''B'' None Annual]
    = Some []"
  "correction_reasons (demo_filing ''A'' (Some ''B'') Amended_Annual)
      [demo_filing ''A'' (Some ''B'') Amended_Annual, demo_filing ''B'' (Some ''A'') Amended_Annual]
    = Some [''amendment_cycle'', ''amendment_selection_unresolved'']"
  by code_simp+

theorem correction_reasons_answers_witness:
  "\<exists>seen. climbs (demo_filing ''A'' (Some ''B'') Annual)
     [demo_filing ''A'' (Some ''B'') Annual, demo_filing ''B'' None Annual] None seen"
  using correction_reasons_answers [of "demo_filing ''A'' (Some ''B'') Annual"
      "[demo_filing ''A'' (Some ''B'') Annual, demo_filing ''B'' None Annual]"] demo_filings(1)
  by simp

end
