(* ===== verification/Reviews.thy ===== *)
theory Reviews
  imports Lifecycle
begin

text \<open>
  \<open>contracts/detailed_analysis/v1/review.py\<close>: the findings of the primary review, its completion
  gate, the rechecks and the responses.
\<close>

section \<open>Values\<close>

datatype finding_class =
    F_Factual_Error | F_Insufficient_Evidence | F_Schema_Or_Format | F_Policy_Application
  | F_Logical_Gap | F_Future_Hypothesis | F_Risk_Materiality | F_Style

datatype severity = Low | Medium | High | Critical

datatype finding_state =
    F_Open | F_Response_Submitted | F_Re_Review_Required | F_Resolved | F_Disputed | F_Human_Decision

datatype review_status = Approve | Approve_With_Changes | Rework | Object

datatype disposition = D_Accepted | D_Research_Required | D_Rejected | D_Disputed

datatype recheck_decision =
    K_Accepted | K_Partially_Accepted | K_Rejected | K_Evidence_Required | K_Withdrawn

datatype impact_type =
    I_Horizon | I_Evaluability | I_Thesis | I_Risk | I_Entry_Exit | I_Other

datatype horizon = Medium_Term | Long_Term | Cross_Horizon | Not_Applicable | Whole_Artifact

datatype classifier = By_Reviewer | By_Orchestrator | By_Human

definition is_major :: "severity \<Rightarrow> bool" where
  "is_major s \<longleftrightarrow> s \<in> {High, Critical}"

section \<open>Materiality\<close>

record materiality_impact =
  mi_id :: string
  mi_type :: impact_type
  mi_target :: string
  mi_horizon :: horizon
  mi_effect_1 :: string
  mi_effect_2 :: string
  mi_reason :: string
  mi_valid :: bool

definition valid_impact :: "materiality_impact \<Rightarrow> bool" where
  "valid_impact i \<longleftrightarrow>
     is_identifier (mi_id i) \<and> is_identifier (mi_target i) \<and> mi_horizon i \<noteq> Whole_Artifact
     \<and> is_text (mi_effect_1 i) \<and> is_text (mi_effect_2 i) \<and> is_text (mi_reason i)"

record materiality =
  mt_impacts :: "materiality_impact list"
  mt_material :: bool

definition valid_materiality :: "materiality \<Rightarrow> bool" where
  "valid_materiality m \<longleftrightarrow>
     list_all valid_impact (mt_impacts m)
     \<and> mt_material m = list_ex (\<lambda>i. mi_valid i \<and> mi_type i \<noteq> I_Other) (mt_impacts m)
     \<and> distinct (map mi_id (mt_impacts m))"

section \<open>Findings\<close>

record pending_class =
  pc_reason :: string
  pc_candidates :: "(finding_class \<times> string) list"
  pc_next :: classifier

definition valid_pending :: "pending_class \<Rightarrow> bool" where
  "valid_pending p \<longleftrightarrow>
     is_text (pc_reason p) \<and> pc_candidates p \<noteq> [] \<and> list_all (\<lambda>c. is_text (snd c)) (pc_candidates p)
     \<and> distinct (map fst (pc_candidates p))"

text \<open>\<^verbatim>\<open>^(?:/(?:[^~/]|~0|~1)*)*$\<close>: a pointer is empty or starts with a slash, and a tilde escapes.\<close>

fun is_pointer_token :: "string \<Rightarrow> bool" where
  "is_pointer_token [] \<longleftrightarrow> True"
| "is_pointer_token [c] \<longleftrightarrow> c \<noteq> CHR ''~''"
| "is_pointer_token (c # d # s) \<longleftrightarrow>
     (if c = CHR ''~'' then d \<in> {CHR ''0'', CHR ''1''} \<and> is_pointer_token s else is_pointer_token (d # s))"

definition is_json_pointer :: "string \<Rightarrow> bool" where
  "is_json_pointer s \<longleftrightarrow> (s = [] \<or> hd s = CHR ''/'') \<and> list_all is_pointer_token (split_at (CHR ''/'') s)"

record review_finding =
  rf_id :: string
  rf_target :: artifact_reference
  rf_claims :: "string list"
  rf_pointer :: string
  rf_horizon :: horizon
  rf_summary :: string
  rf_detail :: string
  rf_class :: "finding_class option"
  rf_secondary :: "finding_class list"
  rf_class_reason :: "string option"
  rf_pending :: "pending_class option"
  rf_severity :: severity
  rf_severity_reason :: string
  rf_evidence :: "string list"
  rf_policies :: "artifact_reference list"
  rf_schemas :: "string list"
  rf_materiality :: materiality
  rf_expected :: string
  rf_lifecycle :: finding_state
  rf_retention_reason :: "string option"

definition finding_fields_ok :: "review_finding \<Rightarrow> bool" where
  "finding_fields_ok f \<longleftrightarrow>
     is_identifier (rf_id f) \<and> valid_artifact_reference (rf_target f) \<and> list_all is_identifier (rf_claims f)
     \<and> is_json_pointer (rf_pointer f) \<and> rf_horizon f \<noteq> Not_Applicable
     \<and> is_text (rf_summary f) \<and> is_text (rf_detail f) \<and> unless_None is_text (rf_class_reason f)
     \<and> unless_None valid_pending (rf_pending f) \<and> is_text (rf_severity_reason f)
     \<and> list_all is_identifier (rf_evidence f) \<and> list_all valid_artifact_reference (rf_policies f)
     \<and> list_all is_text (rf_schemas f) \<and> valid_materiality (rf_materiality f) \<and> is_text (rf_expected f)
     \<and> unless_None is_text (rf_retention_reason f)"

definition classification_ok :: "review_finding \<Rightarrow> bool" where
  "classification_ok f \<longleftrightarrow>
     (rf_pending f \<noteq> None) \<noteq> (rf_class f \<noteq> None)
     \<and> (if rf_pending f \<noteq> None
        then rf_secondary f = [] \<and> rf_class_reason f = None
          \<and> rf_lifecycle f \<notin> {F_Resolved, F_Disputed, F_Human_Decision}
        else rf_class_reason f \<noteq> None)
     \<and> distinct (rf_secondary f) \<and> rf_class f \<notin> Some ` set (rf_secondary f)
     \<and> distinct (rf_claims f) \<and> distinct (rf_evidence f)"

definition retention_ok :: "review_finding \<Rightarrow> bool" where
  "retention_ok f \<longleftrightarrow>
     (let unresolved = rf_lifecycle f \<noteq> F_Resolved
      in \<not> (unresolved \<and> rf_severity f \<in> {Low, Medium} \<and> rf_retention_reason f = None)
        \<and> \<not> (\<not> unresolved \<and> rf_retention_reason f \<noteq> None))"

definition valid_finding :: "review_finding \<Rightarrow> bool" where
  "valid_finding f \<longleftrightarrow> finding_fields_ok f \<and> classification_ok f \<and> retention_ok f"

section \<open>Rechecks and responses\<close>

record recheck =
  rk_id :: string
  rk_finding :: string
  rk_response :: artifact_reference
  rk_reviewer_run :: string
  rk_created_at :: string
  rk_decision :: recheck_decision
  rk_rationale :: string
  rk_severity :: "severity option"
  rk_lifecycle :: finding_state

definition valid_recheck :: "recheck \<Rightarrow> bool" where
  "valid_recheck k \<longleftrightarrow>
     is_identifier (rk_id k) \<and> is_identifier (rk_finding k) \<and> valid_artifact_reference (rk_response k)
     \<and> is_identifier (rk_reviewer_run k) \<and> is_timestamp (rk_created_at k) \<and> is_text (rk_rationale k)
     \<and> ar_schema (rk_response k) = ''detailed-analysis.review-response''"

record review_response =
  rp_task :: string
  rp_artifact :: string
  rp_id :: string
  rp_finding :: string
  rp_severity :: severity
  rp_responder_run :: string
  rp_role :: agent_role
  rp_created_at :: string
  rp_disposition :: disposition
  rp_rationale :: string
  rp_evidence :: "string list"
  rp_policies :: "artifact_reference list"
  rp_claims :: "string list"
  rp_assessments :: "horizon list"
  rp_objection :: "materiality option"
  rp_lifecycle :: finding_state

definition valid_response :: "review_response \<Rightarrow> bool" where
  "valid_response r \<longleftrightarrow>
     is_identifier (rp_task r) \<and> is_identifier (rp_artifact r) \<and> is_identifier (rp_id r)
     \<and> is_identifier (rp_finding r) \<and> is_identifier (rp_responder_run r)
     \<and> rp_role r \<in> {Codex_Worker, Claude_Worker, Orchestrator} \<and> is_timestamp (rp_created_at r)
     \<and> is_text (rp_rationale r) \<and> list_all is_identifier (rp_evidence r)
     \<and> list_all valid_artifact_reference (rp_policies r) \<and> list_all is_identifier (rp_claims r)
     \<and> list_all (\<lambda>h. h \<in> {Medium_Term, Long_Term}) (rp_assessments r)
     \<and> unless_None valid_materiality (rp_objection r)
     \<and> \<not> (rp_disposition r = D_Rejected \<and> is_major (rp_severity r) \<and> rp_lifecycle r \<notin> {F_Disputed, F_Human_Decision})
     \<and> \<not> (rp_lifecycle r = F_Resolved \<and> is_major (rp_severity r))"

section \<open>The primary review\<close>

record completion_gate =
  cg_output_valid :: bool
  cg_references_valid :: bool
  cg_findings_processed :: bool
  cg_deviations_recorded :: bool

record primary_review =
  pr_task :: string
  pr_artifact :: string
  pr_reviewer_run :: string
  pr_synthesis :: artifact_reference
  pr_previous :: "artifact_reference option"
  pr_responses :: "artifact_reference list"
  pr_evidence_version :: int
  pr_round :: int
  pr_created_at :: string
  pr_status :: review_status
  pr_findings :: "review_finding list"
  pr_rechecks :: "recheck list"
  pr_gate :: completion_gate
  pr_passed :: bool

definition review_fields_ok :: "primary_review \<Rightarrow> bool" where
  "review_fields_ok r \<longleftrightarrow>
     is_identifier (pr_task r) \<and> is_identifier (pr_artifact r) \<and> is_identifier (pr_reviewer_run r)
     \<and> valid_artifact_reference (pr_synthesis r) \<and> unless_None valid_artifact_reference (pr_previous r)
     \<and> list_all valid_artifact_reference (pr_responses r) \<and> 1 \<le> pr_evidence_version r \<and> 1 \<le> pr_round r
     \<and> is_timestamp (pr_created_at r) \<and> list_all valid_finding (pr_findings r)
     \<and> list_all valid_recheck (pr_rechecks r)"

definition review_references_ok :: "primary_review \<Rightarrow> bool" where
  "review_references_ok r \<longleftrightarrow>
     ar_schema (pr_synthesis r) = ''detailed-analysis.synthesis-result''
     \<and> (case pr_previous r of
          Some p \<Rightarrow> ar_schema p = ''detailed-analysis.primary-review'' \<and> pr_round r \<noteq> 1
        | None \<Rightarrow> pr_round r = 1)
     \<and> list_all (\<lambda>p. ar_schema p = ''detailed-analysis.review-response'') (pr_responses r)"

definition rechecks_ok :: "primary_review \<Rightarrow> bool" where
  "rechecks_ok r \<longleftrightarrow>
     distinct (map rf_id (pr_findings r)) \<and> distinct (map rk_finding (pr_rechecks r))
     \<and> list_all (\<lambda>k. ar_id (rk_response k) \<in> ar_id ` set (pr_responses r)) (pr_rechecks r)
     \<and> rf_id ` set (filter (\<lambda>f. rf_lifecycle f = F_Resolved \<and> is_major (rf_severity f)) (pr_findings r))
        \<subseteq> rk_finding ` set (filter (\<lambda>k. rk_lifecycle k = F_Resolved \<and> rk_decision k \<in> {K_Accepted, K_Withdrawn}) (pr_rechecks r))"

definition blocks_review :: "review_finding \<Rightarrow> bool" where
  "blocks_review f \<longleftrightarrow>
     rf_pending f \<noteq> None
     \<or> rf_lifecycle f \<noteq> F_Resolved \<and> (is_major (rf_severity f) \<or> mt_material (rf_materiality f))"

definition gates_pass :: "completion_gate \<Rightarrow> bool" where
  "gates_pass g \<longleftrightarrow>
     list_all (\<lambda>b. b) [cg_output_valid g, cg_references_valid g, cg_findings_processed g, cg_deviations_recorded g]"

definition valid_review :: "primary_review \<Rightarrow> bool" where
  "valid_review r \<longleftrightarrow>
     review_fields_ok r \<and> review_references_ok r \<and> rechecks_ok r
     \<and> pr_passed r = (gates_pass (pr_gate r) \<and> pr_status r \<in> {Approve, Approve_With_Changes}
          \<and> \<not> list_ex blocks_review (pr_findings r))"

section \<open>What a passed review says\<close>

lemma passed_review_is_settled:
  assumes "valid_review r" "pr_passed r" "f \<in> set (pr_findings r)"
  shows "rf_class f \<noteq> None"
    and "rf_lifecycle f \<noteq> F_Resolved \<Longrightarrow> rf_severity f \<in> {Low, Medium} \<and> rf_retention_reason f \<noteq> None
      \<and> list_all (\<lambda>i. mi_valid i \<longrightarrow> mi_type i = I_Other) (mt_impacts (rf_materiality f))"
    and "rf_lifecycle f = F_Resolved \<Longrightarrow> is_major (rf_severity f)
      \<Longrightarrow> \<exists>k \<in> set (pr_rechecks r). rk_finding k = rf_id f \<and> rk_decision k \<in> {K_Accepted, K_Withdrawn}
        \<and> ar_id (rk_response k) \<in> ar_id ` set (pr_responses r)"
proof -
  have open': "\<not> blocks_review f" and f: "finding_fields_ok f" "classification_ok f" "retention_ok f"
    and rechecks: "rechecks_ok r"
    using assms by (auto simp: valid_review_def list_ex_iff review_fields_ok_def list_all_iff valid_finding_def)
  show "rf_class f \<noteq> None" using open' f by (auto simp: blocks_review_def classification_ok_def)
  show "rf_severity f \<in> {Low, Medium} \<and> rf_retention_reason f \<noteq> None
      \<and> list_all (\<lambda>i. mi_valid i \<longrightarrow> mi_type i = I_Other) (mt_impacts (rf_materiality f))"
    if "rf_lifecycle f \<noteq> F_Resolved"
  proof -
    have low: "\<not> is_major (rf_severity f)" and small: "\<not> mt_material (rf_materiality f)"
      using open' that by (simp_all add: blocks_review_def)
    have "rf_severity f \<in> {Low, Medium}" using low by (cases "rf_severity f") (simp_all add: is_major_def)
    moreover from this have "rf_retention_reason f \<noteq> None" using f(3) that by (simp add: retention_ok_def)
    moreover have "\<not> list_ex (\<lambda>i. mi_valid i \<and> mi_type i \<noteq> I_Other) (mt_impacts (rf_materiality f))"
      using f(1) small by (simp add: finding_fields_ok_def valid_materiality_def)
    ultimately show ?thesis unfolding list_ex_iff list_all_iff by blast
  qed
  show "\<exists>k \<in> set (pr_rechecks r). rk_finding k = rf_id f \<and> rk_decision k \<in> {K_Accepted, K_Withdrawn}
        \<and> ar_id (rk_response k) \<in> ar_id ` set (pr_responses r)"
    if "rf_lifecycle f = F_Resolved" "is_major (rf_severity f)"
  proof -
    have "rf_id f \<in> rf_id ` set (filter (\<lambda>f. rf_lifecycle f = F_Resolved \<and> is_major (rf_severity f)) (pr_findings r))"
      using that assms(3) by simp
    moreover have "\<dots> \<subseteq> rk_finding ` set (filter (\<lambda>k. rk_lifecycle k = F_Resolved \<and> rk_decision k \<in> {K_Accepted, K_Withdrawn}) (pr_rechecks r))"
      using rechecks unfolding rechecks_ok_def by (elim conjE)
    ultimately have "rf_id f \<in> rk_finding ` set (filter (\<lambda>k. rk_lifecycle k = F_Resolved \<and> rk_decision k \<in> {K_Accepted, K_Withdrawn}) (pr_rechecks r))"
      by (rule rev_subsetD)
    then obtain k where eq: "rf_id f = rk_finding k"
      and "k \<in> set (filter (\<lambda>k. rk_lifecycle k = F_Resolved \<and> rk_decision k \<in> {K_Accepted, K_Withdrawn}) (pr_rechecks r))"
      by (rule imageE)
    then have k: "k \<in> set (pr_rechecks r)" "rk_finding k = rf_id f" "rk_decision k \<in> {K_Accepted, K_Withdrawn}"
      by (simp_all add: eq)
    have "list_all (\<lambda>k. ar_id (rk_response k) \<in> ar_id ` set (pr_responses r)) (pr_rechecks r)"
      using rechecks unfolding rechecks_ok_def by (elim conjE)
    then have "ar_id (rk_response k) \<in> ar_id ` set (pr_responses r)" using k(1) unfolding list_all_iff by (rule bspec)
    then show ?thesis using k by (intro bexI [of _ k] conjI)
  qed
qed

end
