(* ===== verification/Audits.thy ===== *)
theory Audits
  imports Reviews Agents
begin

text \<open>
  \<open>contracts/detailed_analysis/v1/dispute_audit.py\<close> and \<open>contracts/validation/review_audit.py\<close>:
  disputes, the gate of an audit, its neutral packet, results and human decisions, and the history
  of the audits. Fields that a \<open>Literal\<close> fixes to one value are left out.
\<close>

section \<open>Values\<close>

datatype gate_decision = Start_Audit | Do_Not_Audit | Decide_By_Human

datatype opinion =
    O_Support_1 | O_Support_2 | O_Support_Neither | O_More_Evidence | O_No_More_Evidence | O_Human_Judgment

datatype audit_execution = X_Succeeded | X_Invalid_Output | X_Failed | X_Cancelled

datatype next_state = To_Review | To_Research | To_Human | To_Failed

datatype level = L_Low | L_Medium | L_High

section \<open>Disputes\<close>

record position =
  ps_statement :: string
  ps_rationale :: "string list"
  ps_evidence :: "string list"
  ps_absence_reason :: "string option"
  ps_uncertainties :: "string list"
  ps_falsification :: "string list"

definition valid_position :: "position \<Rightarrow> bool" where
  "valid_position p \<longleftrightarrow>
     is_text (ps_statement p) \<and> ps_rationale p \<noteq> [] \<and> list_all is_text (ps_rationale p)
     \<and> list_all is_identifier (ps_evidence p) \<and> unless_None is_text (ps_absence_reason p)
     \<and> list_all is_text (ps_uncertainties p) \<and> ps_falsification p \<noteq> [] \<and> list_all is_text (ps_falsification p)
     \<and> (ps_evidence p = []) = (ps_absence_reason p \<noteq> None) \<and> distinct (ps_evidence p)"

text \<open>An agreed fact: its statement and its evidence.\<close>

type_synonym agreed_fact = "string \<times> string list"

definition valid_fact :: "agreed_fact \<Rightarrow> bool" where
  "valid_fact f \<longleftrightarrow> is_text (fst f) \<and> snd f \<noteq> [] \<and> list_all is_identifier (snd f)"

record dispute =
  di_task :: string
  di_artifact :: string
  di_id :: string
  di_created_at :: string
  di_findings :: "string list"
  di_claims :: "string list"
  di_horizon :: horizon
  di_class :: finding_class
  di_policies :: "artifact_reference list"
  di_question :: string
  di_interpretation_1 :: position
  di_interpretation_2 :: position
  di_facts :: "agreed_fact list"
  di_materiality :: materiality
  di_parents :: "string list"

definition dispute_fields_ok :: "dispute \<Rightarrow> bool" where
  "dispute_fields_ok d \<longleftrightarrow>
     is_identifier (di_task d) \<and> is_identifier (di_artifact d) \<and> is_identifier (di_id d) \<and> is_timestamp (di_created_at d)
     \<and> di_findings d \<noteq> [] \<and> list_all is_identifier (di_findings d)
     \<and> di_claims d \<noteq> [] \<and> list_all is_identifier (di_claims d)
     \<and> di_horizon d \<in> {Medium_Term, Long_Term, Cross_Horizon}
     \<and> di_policies d \<noteq> [] \<and> list_all valid_artifact_reference (di_policies d) \<and> is_text (di_question d)
     \<and> valid_position (di_interpretation_1 d) \<and> valid_position (di_interpretation_2 d)
     \<and> list_all valid_fact (di_facts d) \<and> valid_materiality (di_materiality d) \<and> list_all is_identifier (di_parents d)"

definition valid_dispute :: "dispute \<Rightarrow> bool" where
  "valid_dispute d \<longleftrightarrow>
     dispute_fields_ok d
     \<and> di_class d \<in> {F_Policy_Application, F_Logical_Gap, F_Future_Hypothesis, F_Risk_Materiality}
     \<and> mt_material (di_materiality d)
     \<and> distinct (di_findings d) \<and> distinct (di_claims d) \<and> distinct (di_parents d)
     \<and> di_id d \<notin> set (di_parents d)"

section \<open>The gate\<close>

record audit_gate =
  ag_review_complete :: bool
  ag_two_positions :: bool
  ag_mechanically_resolvable :: bool
  ag_material :: bool
  ag_packet_valid :: bool
  ag_already_audited :: bool
  ag_pending :: bool
  ag_decision :: gate_decision

definition calculated_decision :: "audit_gate \<Rightarrow> gate_decision" where
  "calculated_decision g =
     (let core_ready = ag_review_complete g \<and> ag_two_positions g \<and> \<not> ag_mechanically_resolvable g
        \<and> ag_material g \<and> \<not> ag_pending g
      in if core_ready \<and> ag_packet_valid g \<and> \<not> ag_already_audited g then Start_Audit
         else if core_ready \<and> (\<not> ag_packet_valid g \<or> ag_already_audited g) then Decide_By_Human
         else Do_Not_Audit)"

definition valid_gate :: "audit_gate \<Rightarrow> bool" where
  "valid_gate g \<longleftrightarrow> ag_decision g = calculated_decision g"

section \<open>Requests\<close>

text \<open>An item of the evidence bundle: its id, its content and its source metadata.\<close>

type_synonym bundle_item = "string \<times> artifact_reference \<times> artifact_reference"

definition valid_bundle_item :: "bundle_item \<Rightarrow> bool" where
  "valid_bundle_item i \<longleftrightarrow>
     is_identifier (fst i) \<and> valid_artifact_reference (fst (snd i)) \<and> valid_artifact_reference (snd (snd i))"

record audit_packet =
  pk_task :: string
  pk_dispute :: string
  pk_question :: string
  pk_horizon :: horizon
  pk_claims :: "string list"
  pk_policies :: "artifact_reference list"
  pk_facts :: "agreed_fact list"
  pk_issues :: "string list"
  pk_interpretation_1 :: position
  pk_interpretation_2 :: position
  pk_evidence :: "bundle_item list"

definition valid_packet :: "audit_packet \<Rightarrow> bool" where
  "valid_packet p \<longleftrightarrow>
     is_identifier (pk_task p) \<and> is_identifier (pk_dispute p) \<and> is_text (pk_question p)
     \<and> pk_horizon p \<in> {Medium_Term, Long_Term, Cross_Horizon}
     \<and> pk_claims p \<noteq> [] \<and> list_all is_identifier (pk_claims p)
     \<and> pk_policies p \<noteq> [] \<and> list_all valid_artifact_reference (pk_policies p)
     \<and> list_all valid_fact (pk_facts p) \<and> pk_issues p \<noteq> [] \<and> list_all is_text (pk_issues p)
     \<and> valid_position (pk_interpretation_1 p) \<and> valid_position (pk_interpretation_2 p)
     \<and> pk_evidence p \<noteq> [] \<and> list_all valid_bundle_item (pk_evidence p)"

record audit_request =
  aq_task :: string
  aq_artifact :: string
  aq_audit :: string
  aq_dispute :: string
  aq_dispute_reference :: artifact_reference
  aq_created_at :: string
  aq_gate :: audit_gate
  aq_packet :: audit_packet

definition valid_audit_request :: "audit_request \<Rightarrow> bool" where
  "valid_audit_request q \<longleftrightarrow>
     is_identifier (aq_task q) \<and> is_identifier (aq_artifact q) \<and> is_identifier (aq_audit q)
     \<and> is_identifier (aq_dispute q) \<and> valid_artifact_reference (aq_dispute_reference q) \<and> is_timestamp (aq_created_at q)
     \<and> valid_gate (aq_gate q) \<and> valid_packet (aq_packet q)
     \<and> ar_schema (aq_dispute_reference q) = ''detailed-analysis.dispute''
     \<and> ag_decision (aq_gate q) = Start_Audit
     \<and> pk_task (aq_packet q) = aq_task q \<and> pk_dispute (aq_packet q) = aq_dispute q"

section \<open>Results\<close>

text \<open>The supported and the unsupported parts of an interpretation.\<close>

type_synonym position_assessment = "string list \<times> string list"

definition valid_assessment :: "position_assessment \<Rightarrow> bool" where
  "valid_assessment a \<longleftrightarrow> list_all is_text (fst a) \<and> list_all is_text (snd a)"

text \<open>The assessment of an item of evidence: its id, relevance and interpretation.\<close>

type_synonym evidence_assessment = "string \<times> level \<times> string"

definition valid_evidence_assessment :: "evidence_assessment \<Rightarrow> bool" where
  "valid_evidence_assessment a \<longleftrightarrow> is_identifier (fst a) \<and> is_text (snd (snd a))"

record audit_result =
  at_task :: string
  at_artifact :: string
  at_audit :: string
  at_dispute :: string
  at_created_at :: string
  at_execution :: audit_execution
  at_opinion :: "opinion option"
  at_confidence :: "level option"
  at_summary :: string
  at_evidence :: "evidence_assessment list"
  at_assessment_1 :: "position_assessment option"
  at_assessment_2 :: "position_assessment option"
  at_facts :: "string list"
  at_inferences :: "string list"
  at_hypotheses :: "string list"
  at_assumptions :: "string list"
  at_counterarguments :: "string list"
  at_needed :: "string list"
  at_schema_valid :: bool
  at_references_valid :: bool
  at_scope_valid :: bool
  at_counted :: bool
  at_next :: next_state
  at_rationale :: string

definition result_fields_ok :: "audit_result \<Rightarrow> bool" where
  "result_fields_ok r \<longleftrightarrow>
     list_all is_identifier [at_task r, at_artifact r, at_audit r, at_dispute r] \<and> is_timestamp (at_created_at r)
     \<and> is_text (at_summary r) \<and> list_all valid_evidence_assessment (at_evidence r)
     \<and> unless_None valid_assessment (at_assessment_1 r) \<and> unless_None valid_assessment (at_assessment_2 r)
     \<and> list_all (list_all is_text)
         [at_facts r, at_inferences r, at_hypotheses r, at_assumptions r, at_counterarguments r, at_needed r]
     \<and> is_text (at_rationale r)"

fun next_of_opinion :: "opinion \<Rightarrow> next_state" where
  "next_of_opinion O_Support_1 = To_Review"
| "next_of_opinion O_Support_2 = To_Review"
| "next_of_opinion O_Support_Neither = To_Review"
| "next_of_opinion O_More_Evidence = To_Research"
| "next_of_opinion O_No_More_Evidence = To_Human"
| "next_of_opinion O_Human_Judgment = To_Human"

definition output_valid :: "audit_result \<Rightarrow> bool" where
  "output_valid r \<longleftrightarrow>
     at_execution r = X_Succeeded \<and> at_schema_valid r \<and> at_references_valid r \<and> at_scope_valid r"

definition valid_audit_result :: "audit_result \<Rightarrow> bool" where
  "valid_audit_result r \<longleftrightarrow>
     result_fields_ok r \<and> at_counted r = output_valid r
     \<and> (if output_valid r
        then at_confidence r \<noteq> None \<and> at_assessment_1 r \<noteq> None \<and> at_assessment_2 r \<noteq> None
          \<and> (case at_opinion r of None \<Rightarrow> False | Some x \<Rightarrow> at_next r = next_of_opinion x)
        else at_opinion r = None \<and> at_confidence r = None \<and> at_assessment_1 r = None \<and> at_assessment_2 r = None
          \<and> at_next r = To_Failed)"

section \<open>Human decisions\<close>

record human_decision =
  hd_task :: string
  hd_artifact :: string
  hd_id :: string
  hd_dispute :: "string option"
  hd_finding :: "string option"
  hd_options :: "string list"
  hd_selected :: string
  hd_decider :: string
  hd_reason :: string
  hd_decided_at :: string
  hd_replaces :: "string option"

definition valid_human_decision :: "human_decision \<Rightarrow> bool" where
  "valid_human_decision h \<longleftrightarrow>
     is_identifier (hd_task h) \<and> is_identifier (hd_artifact h) \<and> is_identifier (hd_id h)
     \<and> unless_None is_identifier (hd_dispute h) \<and> unless_None is_identifier (hd_finding h)
     \<and> 2 \<le> length (hd_options h) \<and> list_all is_text (hd_options h) \<and> is_text (hd_selected h) \<and> is_text (hd_decider h)
     \<and> is_text (hd_reason h) \<and> is_timestamp (hd_decided_at h) \<and> unless_None is_identifier (hd_replaces h)
     \<and> (hd_dispute h = None) \<noteq> (hd_finding h = None) \<and> distinct (hd_options h)
     \<and> hd_selected h \<in> set (hd_options h) \<and> hd_replaces h \<noteq> Some (hd_id h)"

section \<open>The policies of reviews and sessions\<close>

definition all_finding_classes :: "finding_class list" where
  "all_finding_classes =
     [F_Factual_Error, F_Insufficient_Evidence, F_Schema_Or_Format, F_Policy_Application, F_Logical_Gap,
      F_Future_Hypothesis, F_Risk_Materiality, F_Style]"

record review_audit_policy =
  ra_artifact :: string
  ra_version :: int
  ra_effective_at :: string
  ra_classes :: "finding_class list"
  ra_impacts :: "impact_type list"
  ra_conditions :: "string list"

definition valid_review_audit_policy :: "review_audit_policy \<Rightarrow> bool" where
  "valid_review_audit_policy p \<longleftrightarrow>
     is_identifier (ra_artifact p) \<and> 1 \<le> ra_version p \<and> is_timestamp (ra_effective_at p)
     \<and> ra_classes p = all_finding_classes
     \<and> ra_impacts p = [I_Horizon, I_Evaluability, I_Thesis, I_Risk, I_Entry_Exit]
     \<and> ra_conditions p =
         [''primary_review_response_and_research_complete'', ''two_substantiated_positions_unresolved'',
          ''not_mechanically_resolvable'', ''material'', ''neutral_packet_valid'', ''not_already_validly_audited'']"

record session_policy =
  sn_artifact :: string
  sn_version :: int
  sn_effective_at :: string
  sn_modes :: "session_mode list"
  sn_same :: "string list"
  sn_new_when :: "string list"

definition valid_session_policy :: "session_policy \<Rightarrow> bool" where
  "valid_session_policy p \<longleftrightarrow>
     is_identifier (sn_artifact p) \<and> 1 \<le> sn_version p \<and> is_timestamp (sn_effective_at p)
     \<and> sn_modes p = [New_Session, Resume_Session, Native_Fork, Reconstructed_Fork]
     \<and> sn_same p = [''task'', ''role'', ''logical_agent'', ''purpose'', ''logical_session_settings'']
     \<and> sn_new_when p =
         [''task'', ''security_or_market'', ''purpose'', ''role'', ''logical_agent'', ''model_family'', ''safety'', ''permissions'']"

section \<open>The history of audits\<close>

datatype audit_error = Audit_Of_Two_Disputes | Audited_Twice

text \<open>The loop of \<open>validate_logical_audit_history\<close> with the targets and the counted disputes so far.\<close>

fun follow_audits :: "audit_result list \<Rightarrow> (string \<rightharpoonup> string) \<Rightarrow> string list \<Rightarrow> audit_error option" where
  "follow_audits [] targets counted = None"
| "follow_audits (r # rs) targets counted =
     (let (target, targets') = setdefault targets (at_audit r) (at_dispute r)
      in if target \<noteq> at_dispute r then Some Audit_Of_Two_Disputes
         else if \<not> at_counted r then follow_audits rs targets' counted
         else if at_dispute r \<in> set counted then Some Audited_Twice
         else follow_audits rs targets' (at_dispute r # counted))"

definition validate_logical_audit_history :: "audit_result list \<Rightarrow> audit_error option" where
  "validate_logical_audit_history rs = follow_audits rs Map.empty []"

text \<open>An accepted history: one dispute for every audit id, one counted audit for every dispute.\<close>

definition agrees :: "(string \<rightharpoonup> string) \<Rightarrow> audit_result \<Rightarrow> bool" where
  "agrees targets r \<longleftrightarrow> targets (at_audit r) \<in> {None, Some (at_dispute r)}"

definition one_dispute :: "audit_result \<Rightarrow> audit_result \<Rightarrow> bool" where
  "one_dispute q r \<longleftrightarrow> at_audit q = at_audit r \<longrightarrow> at_dispute q = at_dispute r"

definition audits_ok :: "audit_result list \<Rightarrow> (string \<rightharpoonup> string) \<Rightarrow> bool" where
  "audits_ok rs targets \<longleftrightarrow> (\<forall>r \<in> set rs. agrees targets r) \<and> (\<forall>r \<in> set rs. \<forall>q \<in> set rs. one_dispute q r)"

lemma one_dispute_refl: "one_dispute r r" and one_dispute_sym: "one_dispute q r \<longleftrightarrow> one_dispute r q"
  by (auto simp: one_dispute_def)

lemma audits_ok_step:
  "audits_ok (r # rs) targets \<longleftrightarrow> agrees targets r \<and> (\<forall>q \<in> set rs. agrees targets q \<and> one_dispute q r)
    \<and> (\<forall>p \<in> set rs. \<forall>q \<in> set rs. one_dispute q p)"
  unfolding audits_ok_def using one_dispute_refl one_dispute_sym by (simp only: list.set ball_simps) blast

lemma audits_ok_Cons:
  assumes "setdefault targets (at_audit r) (at_dispute r) = (target, targets')"
  shows "audits_ok (r # rs) targets \<longleftrightarrow> target = at_dispute r \<and> audits_ok rs targets'"
proof -
  have first: "agrees targets r \<longleftrightarrow> target = at_dispute r"
    using assms by (auto simp: setdefault_def agrees_def split: option.splits)
  have "agrees targets' q \<longleftrightarrow> agrees targets q \<and> one_dispute q r" if "target = at_dispute r" for q
    using assms that
    by (cases "at_audit q = at_audit r") (auto simp: setdefault_def agrees_def one_dispute_def split: option.splits)
  then have "audits_ok rs targets' \<longleftrightarrow> (\<forall>q \<in> set rs. agrees targets q \<and> one_dispute q r)
      \<and> (\<forall>p \<in> set rs. \<forall>q \<in> set rs. one_dispute q p)" if "target = at_dispute r"
    unfolding audits_ok_def using that by blast
  then show ?thesis unfolding audits_ok_step first by blast
qed

lemma follow_audits_accepts:
  "follow_audits rs targets counted = None \<longleftrightarrow>
    audits_ok rs targets \<and> distinct (map at_dispute (filter at_counted rs))
    \<and> at_dispute ` set (filter at_counted rs) \<inter> set counted = {}"
proof (induction rs arbitrary: targets counted)
  case Nil
  then show ?case by (simp add: audits_ok_def)
next
  case (Cons r rs)
  obtain target targets' where s: "setdefault targets (at_audit r) (at_dispute r) = (target, targets')"
    by (cases "setdefault targets (at_audit r) (at_dispute r)")
  show ?case
    unfolding audits_ok_Cons [OF s] by (simp add: s Cons.IH) blast
qed

lemma accepted_audit_histories:
  "validate_logical_audit_history rs = None \<longleftrightarrow>
    (\<forall>r \<in> set rs. \<forall>q \<in> set rs. one_dispute q r) \<and> distinct (map at_dispute (filter at_counted rs))"
  by (simp add: validate_logical_audit_history_def follow_audits_accepts audits_ok_def agrees_def)

text \<open>An audit that starts has passed all six conditions.\<close>

lemma started_audit_conditions:
  assumes "valid_audit_request q"
  shows "ag_review_complete (aq_gate q) \<and> ag_two_positions (aq_gate q) \<and> \<not> ag_mechanically_resolvable (aq_gate q)
    \<and> ag_material (aq_gate q) \<and> ag_packet_valid (aq_gate q) \<and> \<not> ag_already_audited (aq_gate q) \<and> \<not> ag_pending (aq_gate q)"
  using assms
  by (auto simp: valid_audit_request_def valid_gate_def calculated_decision_def Let_def split: if_splits)

end
