(* ===== verification/Evidence.thy ===== *)
theory Evidence
  imports Lifecycle Policies Json
begin

text \<open>
  \<open>contracts/detailed_analysis/v1/evidence.py\<close>: the layers of evidence, the assessments and
  invalidations, and the frozen evidence set with its references and its lifecycle.
\<close>

section \<open>Records\<close>

record applicable_period =
  ap_start :: string
  ap_end :: string

definition valid_period :: "applicable_period \<Rightarrow> bool" where
  "valid_period p \<longleftrightarrow>
     (case (parse_date (ap_start p), parse_date (ap_end p)) of
        (Some s, Some e) \<Rightarrow> \<not> e < s
      | _ \<Rightarrow> False)"

record source_metadata =
  sm_id :: string
  sm_source :: string
  sm_approval :: artifact_reference
  sm_provider :: string
  sm_service :: string
  sm_dataset :: string
  sm_published_at :: "string option"
  sm_available_at :: "string option"
  sm_updated_at :: "string option"
  sm_retrieved_at :: string
  sm_period :: applicable_period
  sm_timezone :: string
  sm_reference :: string
  sm_sha256 :: string
  sm_data_version :: string

definition valid_source_metadata :: "source_metadata \<Rightarrow> bool" where
  "valid_source_metadata m \<longleftrightarrow>
     is_identifier (sm_id m) \<and> is_identifier (sm_source m) \<and> valid_artifact_reference (sm_approval m)
     \<and> is_text (sm_provider m) \<and> is_text (sm_service m) \<and> is_text (sm_dataset m)
     \<and> list_all (unless_None is_timestamp) [sm_published_at m, sm_available_at m, sm_updated_at m]
     \<and> is_timestamp (sm_retrieved_at m) \<and> valid_period (sm_period m) \<and> is_text (sm_timezone m)
     \<and> is_text (sm_reference m) \<and> is_sha256_hex (sm_sha256 m) \<and> is_text (sm_data_version m)
     \<and> list_all (unless_None (\<lambda>t. \<not> instant_of t > instant_of (sm_retrieved_at m)))
         [sm_published_at m, sm_available_at m, sm_updated_at m]"

record raw_evidence =
  re_id :: string
  re_metadata :: string
  re_payload :: artifact_reference
  re_sha256 :: string
  re_data_version :: string

definition valid_raw_evidence :: "raw_evidence \<Rightarrow> bool" where
  "valid_raw_evidence r \<longleftrightarrow>
     is_identifier (re_id r) \<and> is_identifier (re_metadata r) \<and> valid_artifact_reference (re_payload r)
     \<and> is_sha256_hex (re_sha256 r) \<and> is_text (re_data_version r) \<and> re_sha256 r = ar_sha256 (re_payload r)"

text \<open>\<open>value: JsonValue\<close>, where \<open>None\<close> is \<open>JNull\<close>.\<close>

record derived_evidence =
  de_id :: string
  de_inputs :: "string list"
  de_value :: json
  de_missing_reason :: "string option"
  de_unit :: string
  de_sha256 :: string
  de_data_version :: string

definition valid_derived_evidence :: "derived_evidence \<Rightarrow> bool" where
  "valid_derived_evidence d \<longleftrightarrow>
     is_identifier (de_id d) \<and> de_inputs d \<noteq> [] \<and> list_all is_identifier (de_inputs d)
     \<and> unless_None is_text (de_missing_reason d) \<and> is_text (de_unit d) \<and> is_sha256_hex (de_sha256 d)
     \<and> is_text (de_data_version d) \<and> distinct (de_inputs d)
     \<and> \<not> (de_value d = JNull \<and> de_missing_reason d = None)
     \<and> \<not> (de_value d \<noteq> JNull \<and> de_missing_reason d \<noteq> None)"

text \<open>A record with its layer: the normalized and the calculated ones with their logic version.\<close>

datatype evidence_record =
    Source_Metadata source_metadata
  | Raw raw_evidence
  | Normalized derived_evidence int
  | Calculated derived_evidence int string

fun evidence_id :: "evidence_record \<Rightarrow> string" where
  "evidence_id (Source_Metadata m) = sm_id m"
| "evidence_id (Raw r) = re_id r"
| "evidence_id (Normalized d _) = de_id d"
| "evidence_id (Calculated d _ _) = de_id d"

fun valid_evidence_record :: "evidence_record \<Rightarrow> bool" where
  "valid_evidence_record (Source_Metadata m) \<longleftrightarrow> valid_source_metadata m"
| "valid_evidence_record (Raw r) \<longleftrightarrow> valid_raw_evidence r"
| "valid_evidence_record (Normalized d version) \<longleftrightarrow> valid_derived_evidence d \<and> 1 \<le> version"
| "valid_evidence_record (Calculated d version rounding) \<longleftrightarrow>
     valid_derived_evidence d \<and> 1 \<le> version \<and> is_text rounding"

section \<open>Assessments and invalidations\<close>

datatype freshness = Fresh_Current | Fresh_Stale | Fresh_Missing | Fresh_Conflicting

record freshness_assessment =
  fa_category :: string
  fa_status :: freshness
  fa_evidence :: "string list"
  fa_requirement :: string
  fa_detail :: string

definition valid_freshness :: "freshness_assessment \<Rightarrow> bool" where
  "valid_freshness a \<longleftrightarrow>
     is_identifier (fa_category a) \<and> list_all is_identifier (fa_evidence a) \<and> is_text (fa_requirement a)
     \<and> is_text (fa_detail a) \<and> distinct (fa_evidence a)"

record evidence_invalidation =
  iv_id :: string
  iv_created_at :: string
  iv_triggers :: "string list"
  iv_affected :: "string list"
  iv_reason :: string

definition valid_invalidation :: "evidence_invalidation \<Rightarrow> bool" where
  "valid_invalidation i \<longleftrightarrow>
     is_identifier (iv_id i) \<and> is_timestamp (iv_created_at i)
     \<and> iv_triggers i \<noteq> [] \<and> list_all is_identifier (iv_triggers i)
     \<and> iv_affected i \<noteq> [] \<and> list_all is_identifier (iv_affected i) \<and> is_text (iv_reason i)
     \<and> distinct (iv_triggers i) \<and> distinct (iv_affected i)"

section \<open>The evidence set\<close>

datatype evidence_state = Set_Frozen | Set_Analysis_Completed | Set_Invalidated

record evidence_set =
  es_task :: string
  es_artifact :: string
  es_version :: int
  es_state :: evidence_state
  es_previous :: "(int \<times> artifact_reference) option"
  es_frozen_at :: string
  es_freshness_at :: string
  es_completed_at :: "string option"
  es_records :: "evidence_record list"
  es_assessments :: "freshness_assessment list"
  es_invalidations :: "evidence_invalidation list"

definition evidence_fields_ok :: "evidence_set \<Rightarrow> bool" where
  "evidence_fields_ok e \<longleftrightarrow>
     is_identifier (es_task e) \<and> is_identifier (es_artifact e) \<and> 1 \<le> es_version e
     \<and> unless_None (\<lambda>(v, r). 1 \<le> v \<and> valid_artifact_reference r) (es_previous e)
     \<and> is_timestamp (es_frozen_at e) \<and> is_timestamp (es_freshness_at e) \<and> unless_None is_timestamp (es_completed_at e)
     \<and> es_records e \<noteq> [] \<and> list_all valid_evidence_record (es_records e)
     \<and> es_assessments e \<noteq> [] \<and> list_all valid_freshness (es_assessments e)
     \<and> list_all valid_invalidation (es_invalidations e)"

text \<open>\<open>records_by_id\<close>: the last record with an id.\<close>

definition records_by_id :: "evidence_set \<Rightarrow> string \<rightharpoonup> evidence_record" where
  "records_by_id e = map_of (rev (map (\<lambda>r. (evidence_id r, r)) (es_records e)))"

definition known_ids :: "evidence_set \<Rightarrow> string list" where
  "known_ids e = map evidence_id (es_records e)"

definition derived_ok :: "evidence_set \<Rightarrow> derived_evidence \<Rightarrow> bool" where
  "derived_ok e d \<longleftrightarrow> set (de_inputs d) \<subseteq> set (known_ids e) \<and> de_id d \<notin> set (de_inputs d)"

fun provenance_ok :: "evidence_set \<Rightarrow> evidence_record \<Rightarrow> bool" where
  "provenance_ok e (Source_Metadata m) \<longleftrightarrow> True"
| "provenance_ok e (Raw r) \<longleftrightarrow> (case records_by_id e (re_metadata r) of Some (Source_Metadata _) \<Rightarrow> True | _ \<Rightarrow> False)"
| "provenance_ok e (Normalized d _) \<longleftrightarrow> derived_ok e d"
| "provenance_ok e (Calculated d _ _) \<longleftrightarrow> derived_ok e d"

definition version_ok :: "evidence_set \<Rightarrow> bool" where
  "version_ok e \<longleftrightarrow>
     (if es_version e = 1 then es_previous e = None
      else (case es_previous e of None \<Rightarrow> False | Some p \<Rightarrow> fst p = es_version e - 1))"

definition evidence_times_ok :: "evidence_set \<Rightarrow> bool" where
  "evidence_times_ok e \<longleftrightarrow>
     \<not> instant_of (es_freshness_at e) < instant_of (es_frozen_at e)
     \<and> unless_None (\<lambda>t. \<not> instant_of t < instant_of (es_freshness_at e)) (es_completed_at e)"

definition evidence_state_ok :: "evidence_set \<Rightarrow> bool" where
  "evidence_state_ok e \<longleftrightarrow>
     \<not> (es_state e = Set_Frozen \<and> es_completed_at e \<noteq> None)
     \<and> \<not> (es_state e = Set_Analysis_Completed \<and> es_completed_at e = None)
     \<and> \<not> (es_state e = Set_Invalidated \<and> es_invalidations e = [])"

definition evidence_references_ok :: "evidence_set \<Rightarrow> bool" where
  "evidence_references_ok e \<longleftrightarrow>
     list_all (\<lambda>a. set (fa_evidence a) \<subseteq> set (known_ids e)) (es_assessments e)
     \<and> list_all (\<lambda>i. set (iv_triggers i) \<subseteq> set (known_ids e)
          \<and> \<not> instant_of (iv_created_at i) < instant_of (es_frozen_at e)) (es_invalidations e)"

definition valid_evidence_set :: "evidence_set \<Rightarrow> bool" where
  "valid_evidence_set e \<longleftrightarrow>
     evidence_fields_ok e \<and> distinct (known_ids e) \<and> list_all (provenance_ok e) (es_records e)
     \<and> version_ok e \<and> evidence_times_ok e \<and> evidence_state_ok e \<and> evidence_references_ok e"

section \<open>Provenance\<close>

text \<open>The ids a record was made from, and the ids reached that way.\<close>

fun made_from :: "evidence_record \<Rightarrow> string list" where
  "made_from (Source_Metadata _) = []"
| "made_from (Raw r) = [re_metadata r]"
| "made_from (Normalized d _) = de_inputs d"
| "made_from (Calculated d _ _) = de_inputs d"

inductive derives :: "evidence_set \<Rightarrow> string \<Rightarrow> string \<Rightarrow> bool" for e where
  itself: "r \<in> set (es_records e) \<Longrightarrow> derives e (evidence_id r) (evidence_id r)"
| through: "r \<in> set (es_records e) \<Longrightarrow> i \<in> set (made_from r) \<Longrightarrow> derives e i j \<Longrightarrow> derives e (evidence_id r) j"

lemma record_by_id:
  assumes "distinct (known_ids e)"
  shows "records_by_id e i = Some r \<longleftrightarrow> r \<in> set (es_records e) \<and> evidence_id r = i"
proof -
  have keys: "distinct (map fst (rev (map (\<lambda>r. (evidence_id r, r)) (es_records e))))"
    using assms by (simp add: known_ids_def comp_def rev_map [symmetric])
  show ?thesis unfolding records_by_id_def map_of_eq_Some_iff [OF keys] by auto
qed

text \<open>Every record a valid set refers to, directly or through others, is in the set.\<close>

lemma inputs_known:
  assumes "valid_evidence_set e" "r \<in> set (es_records e)"
  shows "set (made_from r) \<subseteq> set (known_ids e) - {evidence_id r}"
proof -
  have keys: "distinct (known_ids e)" and ok: "provenance_ok e r"
    using assms by (auto simp: valid_evidence_set_def list_all_iff)
  show ?thesis
  proof (cases r)
    case (Raw w)
    then obtain m where "records_by_id e (re_metadata w) = Some (Source_Metadata m)"
      using ok by (auto split: option.splits evidence_record.splits)
    then have m: "Source_Metadata m \<in> set (es_records e)" "sm_id m = re_metadata w"
      unfolding record_by_id [OF keys] by simp_all
    have "re_metadata w \<noteq> re_id w"
    proof
      assume "re_metadata w = re_id w"
      then have "evidence_id (Source_Metadata m) = evidence_id r" using m(2) Raw by simp
      moreover have "inj_on evidence_id (set (es_records e))" using keys by (simp add: known_ids_def distinct_map)
      ultimately have "Source_Metadata m = r" using m(1) assms(2) by (meson inj_onD)
      then show False using Raw by simp
    qed
    then show ?thesis using m Raw by (force simp: known_ids_def)
  qed (use ok in \<open>auto simp: derived_ok_def\<close>)
qed

lemma derives_known: "derives e i j \<Longrightarrow> i \<in> set (known_ids e) \<and> j \<in> set (known_ids e)"
  by (induction rule: derives.induct) (auto simp: known_ids_def)

lemma derives_inputs:
  assumes "valid_evidence_set e" "r \<in> set (es_records e)" "i \<in> set (made_from r)"
  shows "derives e (evidence_id r) i"
proof -
  have "i \<in> set (known_ids e)" using inputs_known [OF assms(1,2)] assms(3) by blast
  then obtain q where "q \<in> set (es_records e)" "i = evidence_id q" by (auto simp: known_ids_def)
  then show ?thesis using derives.itself derives.through [OF assms(2,3)] by metis
qed

end
