(* ===== verification/Credentials.thy ===== *)
theory Credentials
  imports Transport Json
begin

text \<open>
  The boundary of the EDINET key: \<open>credentials/edinet.py\<close>, \<open>credentials/preflight.py\<close>,
  \<open>credentials/models.py\<close> and \<open>sources/edinet/transport.py\<close>, with the intents of
  \<open>sources/protocol.py\<close>. The operating system and the wire client are parameters: functions of a
  world they may change. A text of the file is the list of its code points.
\<close>

section \<open>Intents\<close>

record source_parameter =
  sp_name :: string
  sp_value :: string

definition lower_ascii :: "char \<Rightarrow> char" where
  "lower_ascii c = (if CHR ''A'' \<le> c \<and> c \<le> CHR ''Z'' then char_of (of_char c + (32 :: nat)) else c)"

definition underscored :: "string \<Rightarrow> string" where
  "underscored s = map (\<lambda>c. if lower_ascii c \<in> {CHR ''-'', CHR ''.''} then CHR ''_'' else lower_ascii c) s"

definition has_infix :: "string \<Rightarrow> string \<Rightarrow> bool" where
  "has_infix w s \<longleftrightarrow> list_ex (\<lambda>i. take (length w) (drop i s) = w) [0..<Suc (length s)]"

definition forbidden_terms :: "string list" where
  "forbidden_terms =
     [''api_key'', ''apikey'', ''authorization'', ''cookie'', ''credential'', ''password'', ''secret'', ''token'']"

definition valid_parameter :: "source_parameter \<Rightarrow> bool" where
  "valid_parameter p \<longleftrightarrow>
     is_identifier (sp_name p) \<and> 1 \<le> length (sp_value p) \<and> length (sp_value p) \<le> 512
     \<and> \<not> list_ex (\<lambda>w. has_infix w (underscored (sp_name p))) forbidden_terms"

record source_intent =
  si_source :: string
  si_operation :: string
  si_origin :: string
  si_resource :: string
  si_parameters :: "source_parameter list"

definition valid_intent :: "source_intent \<Rightarrow> bool" where
  "valid_intent i \<longleftrightarrow>
     list_all is_identifier [si_source i, si_operation i, si_origin i, si_resource i]
     \<and> list_all valid_parameter (si_parameters i)
     \<and> sorted (map sp_name (si_parameters i)) \<and> distinct (map sp_name (si_parameters i))"

definition to_transport_request :: "source_intent \<Rightarrow> string \<Rightarrow> string \<Rightarrow> transport_request" where
  "to_transport_request i logical attempt =
     \<lparr>tq_logical = logical, tq_attempt = attempt, tq_origin = si_origin i, tq_operation = si_operation i,
      tq_resource = si_resource i\<rparr>"

section \<open>Responses for the parsers\<close>

record bounded_response =
  br_attempt :: string
  br_body :: bytes
  br_sha256 :: string
  br_media_type :: string
  br_encoding :: string

definition valid_bounded_response :: "bounded_response \<Rightarrow> bool" where
  "valid_bounded_response r \<longleftrightarrow>
     is_identifier (br_attempt r) \<and> is_sha256_hex (br_sha256 r)
     \<and> 1 \<le> length (br_media_type r) \<and> length (br_media_type r) \<le> 128
     \<and> 1 \<le> length (br_encoding r) \<and> length (br_encoding r) \<le> 64
     \<and> sha256_hex (br_body r) = br_sha256 r"

definition from_candidate :: "raw_candidate \<Rightarrow> exn + bounded_response" where
  "from_candidate c =
     (let r = \<lparr>br_attempt = rc_attempt c, br_body = rc_body c, br_sha256 = rc_sha256 c,
        br_media_type = rc_media_type c, br_encoding = rc_encoding c\<rparr>
      in if valid_bounded_response r then Inr r else Inl ValidationError)"

text \<open>A candidate reaches a parser exactly with the bytes its receipt names.\<close>

lemma from_candidate_exact: "from_candidate c = Inr r \<Longrightarrow> br_body r = rc_body c \<and> sha256_hex (br_body r) = rc_sha256 c"
  by (auto simp: from_candidate_def Let_def valid_bounded_response_def split: if_splits)

section \<open>Targets\<close>

record http_target =
  ht_origin :: string
  ht_path :: string
  ht_query :: "source_parameter list"

definition path_code :: "char \<Rightarrow> bool" where
  "path_code c \<longleftrightarrow> is_alnum c \<or> c \<in> {CHR ''.'', CHR ''/'', CHR ''_'', CHR ''-''}"

definition valid_http_target :: "http_target \<Rightarrow> bool" where
  "valid_http_target t \<longleftrightarrow>
     is_identifier (ht_origin t) \<and> 2 \<le> length (ht_path t) \<and> hd (ht_path t) = CHR ''/'' \<and> list_all path_code (ht_path t)
     \<and> length (ht_path t) \<le> 1024 \<and> list_all valid_parameter (ht_query t)"

datatype boundary_error =
    Credential_Access string
  | Edinet_Transport string
  | Invalid_Model
  | Os_Failure
  | Path_Value_Error
  | Base_Exception

definition edinet_origin :: string where
  "edinet_origin = ''api.edinet-fsa.go.jp''"

definition parameter_values :: "source_intent \<Rightarrow> string \<rightharpoonup> string" where
  "parameter_values i = map_of (rev (map (\<lambda>p. (sp_name p, sp_value p)) (si_parameters i)))"

definition checked_target :: "http_target \<Rightarrow> boundary_error + http_target" where
  "checked_target t = (if valid_http_target t then Inr t else Inl Invalid_Model)"

definition render_edinet_http_target :: "source_intent \<Rightarrow> boundary_error + http_target" where
  "render_edinet_http_target i =
     (let names = map sp_name (si_parameters i)
      in if si_source i \<noteq> ''edinet'' \<or> si_origin i \<noteq> edinet_origin
         then Inl (Edinet_Transport ''edinet_intent_not_approved'')
         else if si_operation i = ''document-list'' \<and> si_resource i = ''api-v2-documents''
           \<and> names = [''date'', ''type''] \<and> parameter_values i ''type'' = Some ''2''
         then checked_target \<lparr>ht_origin = si_origin i, ht_path = ''/api/v2/documents.json'', ht_query = si_parameters i\<rparr>
         else if si_operation i = ''document-retrieval'' \<and> Some (si_resource i) = parameter_values i ''document_id''
           \<and> names = [''document_id'', ''type''] \<and> parameter_values i ''type'' = Some ''1''
         then checked_target \<lparr>ht_origin = si_origin i, ht_path = ''/api/v2/documents/'' @ si_resource i,
           ht_query = [\<lparr>sp_name = ''type'', sp_value = ''1''\<rparr>]\<rparr>
         else Inl (Edinet_Transport ''edinet_intent_not_approved''))"

section \<open>The file\<close>

datatype inode_kind = Regular_File | Symbolic_Link | Other_Inode

record inode =
  in_dev :: nat
  in_ino :: nat
  in_kind :: inode_kind
  in_mode :: "12 word"
  in_uid :: nat
  in_size :: int

datatype os_error = Not_Found | Os_Error | Value_Error

text \<open>
  The calls of the operating system. \<open>lstat\<close> and \<open>open\<close> raise a \<open>ValueError\<close> for a path with a NUL;
  the check of readability may raise anything.
\<close>

record 'w kernel =
  k_lstat :: "'w \<Rightarrow> 'w \<times> (os_error + inode)"
  k_readable :: "'w \<Rightarrow> 'w \<times> (unit + bool)"
  k_open :: "'w \<Rightarrow> 'w \<times> (os_error + nat)"
  k_fstat :: "nat \<Rightarrow> 'w \<Rightarrow> 'w \<times> (unit + inode)"
  k_read :: "nat \<Rightarrow> nat \<Rightarrow> 'w \<Rightarrow> 'w \<times> (unit + bytes)"
  k_close :: "nat \<Rightarrow> 'w \<Rightarrow> 'w \<times> (unit + unit)"
  k_euid :: nat

text \<open>
  The world with what the code holds of the key: the open descriptors, the buffer of the caller and
  the buffers that \<open>_read_bounded\<close> drops when it raises. The events record, in order, which calls
  on a descriptor answered and with what, and the keys given to the wire client.
\<close>

datatype key_event =
    Opened_Fd nat
  | Inspected_Fd nat inode
  | Read_Fd nat bytes
  | Key_Given http_target "nat list"
  | Closed_Fd nat

record 'w key_state =
  ky_world :: 'w
  ky_open :: "nat list"
  ky_payload :: bytes
  ky_dropped :: "bytes list"
  ky_events :: "key_event list"

text \<open>A call of the operating system: an answer is recorded, an error is not.\<close>

definition system_call :: "('w \<Rightarrow> 'w \<times> ('e + 'a)) \<Rightarrow> ('a \<Rightarrow> key_event) \<Rightarrow> 'w key_state \<Rightarrow> 'w key_state \<times> ('e + 'a)" where
  "system_call f event s =
     (case f (ky_world s) of
        (w, Inl e) \<Rightarrow> (s\<lparr>ky_world := w\<rparr>, Inl e)
      | (w, Inr a) \<Rightarrow> (s\<lparr>ky_world := w, ky_events := ky_events s @ [event a]\<rparr>, Inr a))"

section \<open>Preflight\<close>

record file_policy =
  fp_forbidden :: "12 word"
  fp_required :: "12 word option"

definition valid_file_policy :: "file_policy \<Rightarrow> bool" where
  "valid_file_policy p \<longleftrightarrow>
     fp_forbidden p \<le> 0x1FF \<and> (case fp_required p of None \<Rightarrow> True | Some m \<Rightarrow> m \<le> 0x1FF)"

definition owner_only :: file_policy where
  "owner_only = \<lparr>fp_forbidden = 0, fp_required = Some 0x180\<rparr>"

text \<open>The reason code of a rejection, or nothing when the file is ready.\<close>

definition inode_rejection :: "file_policy \<Rightarrow> inode \<Rightarrow> string option" where
  "inode_rejection p m =
     (if in_kind m = Symbolic_Link then Some ''symlink_not_allowed''
      else if in_kind m \<noteq> Regular_File then Some ''not_regular_file''
      else if in_size m \<le> 0 then Some ''empty_file''
      else if and (in_mode m) (fp_forbidden p) \<noteq> 0
        \<or> (case fp_required p of None \<Rightarrow> False | Some mode \<Rightarrow> in_mode m \<noteq> mode) then Some ''invalid_permissions''
      else None)"

definition preflight_credential_file :: "'w kernel \<Rightarrow> file_policy \<Rightarrow> 'w \<Rightarrow> 'w \<times> (boundary_error + string option)" where
  "preflight_credential_file k p w =
     (case k_lstat k w of
        (w1, Inl Not_Found) \<Rightarrow> (w1, Inr (Some ''missing''))
      | (w1, Inl Os_Error) \<Rightarrow> (w1, Inr (Some ''inspection_failed''))
      | (w1, Inl Value_Error) \<Rightarrow> (w1, Inl Path_Value_Error)
      | (w1, Inr m) \<Rightarrow>
          (case inode_rejection p m of
             Some reason \<Rightarrow> (w1, Inr (Some reason))
           | None \<Rightarrow>
               (case k_readable k w1 of
                  (w2, Inl _) \<Rightarrow> (w2, Inr (Some ''inspection_failed''))
                | (w2, Inr readable) \<Rightarrow> (w2, Inr (if readable then None else Some ''unreadable'')))))"

section \<open>Reading the key\<close>

definition max_credential_bytes :: nat where
  "max_credential_bytes = 512"

definition metadata_error :: "nat \<Rightarrow> inode \<Rightarrow> string option" where
  "metadata_error euid m =
     (if in_kind m \<noteq> Regular_File then Some ''credential_not_regular_file''
      else if in_mode m \<noteq> 0x180 \<or> in_uid m \<noteq> euid then Some ''credential_permissions_invalid''
      else if \<not> (0 < in_size m \<and> in_size m \<le> int max_credential_bytes) then Some ''credential_size_invalid''
      else None)"

function read_bounded :: "'w kernel \<Rightarrow> nat \<Rightarrow> bytes \<Rightarrow> 'w key_state \<Rightarrow> 'w key_state \<times> (boundary_error + bytes)" where
  "read_bounded k fd payload s =
     (case system_call (k_read k fd (max_credential_bytes + 1 - length payload)) (Read_Fd fd) s of
        (s1, Inl _) \<Rightarrow> (s1\<lparr>ky_dropped := payload # ky_dropped s1\<rparr>, Inl Os_Failure)
      | (s1, Inr chunk) \<Rightarrow>
          if chunk = [] then (s1, Inr payload)
          else if length (payload @ chunk) > max_credential_bytes
          then (s1\<lparr>ky_dropped := (payload @ chunk) # ky_dropped s1\<rparr>,
                Inl (Credential_Access ''credential_size_invalid''))
          else read_bounded k fd (payload @ chunk) s1)"
  by pat_completeness auto

termination
proof (relation "measure (\<lambda>(k, fd, payload, s). Suc max_credential_bytes - length payload)", goal_cases)
  case (2 k fd payload s x y chunk)
  then have "length payload + length chunk \<le> max_credential_bytes" by simp
  then show ?case using 2 by (cases chunk) simp_all
qed simp

declare read_bounded.simps [simp del]

text \<open>\<open>payload.decode("utf-8")\<close> refuses surrogates.\<close>

definition decode_strict :: "bytes \<Rightarrow> nat list option" where
  "decode_strict payload =
     (case decode_utf8 (map unat payload) of
        Some t \<Rightarrow> if list_ex (\<lambda>c. 55296 \<le> c \<and> c \<le> 57343) t then None else Some t
      | None \<Rightarrow> None)"

definition without_newline :: "nat list \<Rightarrow> nat list" where
  "without_newline t = (if t \<noteq> [] \<and> last t = 10 then butlast t else t)"

definition is_key :: "nat list \<Rightarrow> bool" where
  "is_key t \<longleftrightarrow> t \<noteq> [] \<and> 10 \<notin> set t \<and> 13 \<notin> set t \<and> 0 \<notin> set t"

definition decode_key :: "bytes \<Rightarrow> string + nat list" where
  "decode_key payload =
     (case decode_strict payload of
        None \<Rightarrow> Inl ''credential_format_invalid''
      | Some t \<Rightarrow>
          let key = without_newline t in if is_key key then Inr key else Inl ''credential_format_invalid'')"

definition changed :: "inode \<Rightarrow> inode \<Rightarrow> bytes \<Rightarrow> bool" where
  "changed before after payload \<longleftrightarrow>
     (in_dev before, in_ino before, in_kind before, in_mode before, in_uid before)
       \<noteq> (in_dev after, in_ino after, in_kind after, in_mode after, in_uid after)
     \<or> in_size after \<noteq> int (length payload)"

section \<open>Using the key\<close>

text \<open>The wire client: it may raise an exception, or one that is no \<open>Exception\<close>.\<close>

datatype send_failure = Send_Exception | Send_Base_Exception

type_synonym ('w, 'r) wire_send = "http_target \<Rightarrow> nat list \<Rightarrow> 'w \<Rightarrow> 'w \<times> (send_failure + 'r)"

definition send_key :: "('w, 'r) wire_send \<Rightarrow> http_target \<Rightarrow> nat list \<Rightarrow> 'w key_state \<Rightarrow> 'w key_state \<times> (boundary_error + 'r)" where
  "send_key wire target key s =
     (case wire target key (ky_world s) of
        (w, out) \<Rightarrow>
          (s\<lparr>ky_world := w, ky_events := ky_events s @ [Key_Given target key]\<rparr>,
           (case out of
              Inl Send_Exception \<Rightarrow> Inl (Credential_Access ''credential_use_failed'')
            | Inl Send_Base_Exception \<Rightarrow> Inl Base_Exception
            | Inr r \<Rightarrow> Inr r)))"

text \<open>The handlers around the block: an \<open>OSError\<close> becomes a credential error.\<close>

definition sanitized :: "boundary_error \<Rightarrow> boundary_error" where
  "sanitized e = (if e = Os_Failure then Credential_Access ''credential_access_failed'' else e)"

definition with_payload ::
    "'w kernel \<Rightarrow> ('w, 'r) wire_send \<Rightarrow> http_target \<Rightarrow> nat \<Rightarrow> inode \<Rightarrow> 'w key_state \<Rightarrow> 'w key_state \<times> (boundary_error + 'r)" where
  "with_payload k wire target fd before s =
     (case system_call (k_fstat k fd) (Inspected_Fd fd) s of
        (s1, Inl _) \<Rightarrow> (s1, Inl (Credential_Access ''credential_access_failed''))
      | (s1, Inr after) \<Rightarrow>
          if changed before after (ky_payload s1)
          then (s1, Inl (Credential_Access ''credential_changed_during_read''))
          else
            (case decode_key (ky_payload s1) of
               Inl code \<Rightarrow> (s1, Inl (Credential_Access code))
             | Inr key \<Rightarrow> send_key wire target key s1))"

definition with_descriptor ::
    "'w kernel \<Rightarrow> ('w, 'r) wire_send \<Rightarrow> http_target \<Rightarrow> nat \<Rightarrow> 'w key_state \<Rightarrow> 'w key_state \<times> (boundary_error + 'r)" where
  "with_descriptor k wire target fd s =
     (case system_call (k_fstat k fd) (Inspected_Fd fd) s of
        (s1, Inl _) \<Rightarrow> (s1, Inl (Credential_Access ''credential_access_failed''))
      | (s1, Inr before) \<Rightarrow>
          (case metadata_error (k_euid k) before of
             Some code \<Rightarrow> (s1, Inl (Credential_Access code))
           | None \<Rightarrow>
               (case read_bounded k fd [] s1 of
                  (s2, Inl e) \<Rightarrow> (s2, Inl (sanitized e))
                | (s2, Inr payload) \<Rightarrow> with_payload k wire target fd before (s2\<lparr>ky_payload := payload\<rparr>))))"

text \<open>The \<open>finally\<close> clause: an \<open>OSError\<close> of \<open>os.close\<close> replaces the outcome.\<close>

definition wipe_and_close :: "'w kernel \<Rightarrow> nat \<Rightarrow> 'w key_state \<Rightarrow> boundary_error + 'r \<Rightarrow> 'w key_state \<times> (boundary_error + 'r)" where
  "wipe_and_close k fd s out =
     (let s1 = s\<lparr>ky_payload := replicate (length (ky_payload s)) 0\<rparr>
      in case k_close k fd (ky_world s1) of
           (w, answer) \<Rightarrow>
             (s1\<lparr>ky_world := w, ky_open := remove1 fd (ky_open s1), ky_events := ky_events s1 @ [Closed_Fd fd]\<rparr>,
              (case answer of Inl _ \<Rightarrow> Inl Os_Failure | Inr _ \<Rightarrow> out)))"

definition use_edinet_api_key_for_send ::
    "'w kernel \<Rightarrow> ('w, 'r) wire_send \<Rightarrow> http_target \<Rightarrow> 'w key_state \<Rightarrow> 'w key_state \<times> (boundary_error + 'r)" where
  "use_edinet_api_key_for_send k wire target s =
     (case system_call (k_open k) Opened_Fd s of
        (s1, Inl _) \<Rightarrow> (s1, Inl (Credential_Access ''credential_access_failed''))
      | (s1, Inr fd) \<Rightarrow>
          (case with_descriptor k wire target fd (s1\<lparr>ky_open := fd # ky_open s1, ky_payload := []\<rparr>) of
             (s2, out) \<Rightarrow> wipe_and_close k fd s2 out))"

section \<open>The transport\<close>

definition edinet_transport ::
    "'w kernel \<Rightarrow> ('w, 'r) wire_send \<Rightarrow> source_intent \<Rightarrow> transport_request \<Rightarrow> 'w key_state \<Rightarrow> 'w key_state \<times> (boundary_error + 'r)" where
  "edinet_transport k wire i q s =
     (if q \<noteq> to_transport_request i (tq_logical q) (tq_attempt q)
      then (s, Inl (Edinet_Transport ''edinet_transport_request_mismatch''))
      else
        (case render_edinet_http_target i of
           Inl e \<Rightarrow> (s, Inl e)
         | Inr target \<Rightarrow>
             (case preflight_credential_file k owner_only (ky_world s) of
                (w, Inl e) \<Rightarrow> (s\<lparr>ky_world := w\<rparr>, Inl e)
              | (w, Inr (Some reason)) \<Rightarrow> (s\<lparr>ky_world := w\<rparr>, Inl (Edinet_Transport (''edinet_credential_'' @ reason)))
              | (w, Inr None) \<Rightarrow>
                  (case use_edinet_api_key_for_send k wire target (s\<lparr>ky_world := w\<rparr>) of
                     (s1, Inl (Credential_Access _)) \<Rightarrow> (s1, Inl (Edinet_Transport ''edinet_physical_send_failed''))
                   | (s1, Inl e) \<Rightarrow> (s1, Inl e)
                   | (s1, Inr r) \<Rightarrow> (s1, Inr r)))))"

section \<open>What leaves the boundary\<close>

text \<open>The keys given away in a trace, and the bytes read in it.\<close>

primrec keys_given :: "key_event list \<Rightarrow> (http_target \<times> nat list) list" where
  "keys_given [] = []"
| "keys_given (x # xs) = (case x of Key_Given target key \<Rightarrow> (target, key) # keys_given xs | _ \<Rightarrow> keys_given xs)"

primrec bytes_read :: "key_event list \<Rightarrow> bytes" where
  "bytes_read [] = []"
| "bytes_read (x # xs) = (case x of Read_Fd _ bs \<Rightarrow> bs @ bytes_read xs | _ \<Rightarrow> bytes_read xs)"

primrec within_fd :: "nat \<Rightarrow> key_event \<Rightarrow> bool" where
  "within_fd fd (Opened_Fd g) = False"
| "within_fd fd (Inspected_Fd g m) = (g = fd)"
| "within_fd fd (Read_Fd g bs) = (g = fd)"
| "within_fd fd (Key_Given target key) = True"
| "within_fd fd (Closed_Fd g) = False"

lemma keys_given_append [simp]: "keys_given (xs @ ys) = keys_given xs @ keys_given ys"
  by (induction xs) (auto split: key_event.splits)

lemma bytes_read_append [simp]: "bytes_read (xs @ ys) = bytes_read xs @ bytes_read ys"
  by (induction xs) (auto split: key_event.splits)

lemma reads [simp]:
  "keys_given (map (Read_Fd fd) bss) = []"
  "bytes_read (map (Read_Fd fd) bss) = concat bss"
  "list_all (within_fd fd) (map (Read_Fd fd) bss)"
  by (induction bss) auto

text \<open>
  The trace around a key that leaves: one descriptor is opened, is a regular file of the user with
  mode 0600 and at most 512 bytes, is read to its end, is the same file with the size of what was
  read, the key on its one line is given to the target, and the descriptor is closed.
\<close>

definition private_inode :: "nat \<Rightarrow> inode \<Rightarrow> bool" where
  "private_inode euid m \<longleftrightarrow>
     in_kind m = Regular_File \<and> in_mode m = 0x180 \<and> in_uid m = euid \<and> 0 < in_size m \<and> in_size m \<le> 512"

definition same_file :: "inode \<Rightarrow> inode \<Rightarrow> bool" where
  "same_file m n \<longleftrightarrow> in_dev m = in_dev n \<and> in_ino m = in_ino n \<and> in_kind m = in_kind n
     \<and> in_mode m = in_mode n \<and> in_uid m = in_uid n"

definition one_line_text :: "bytes \<Rightarrow> nat list \<Rightarrow> bool" where
  "one_line_text payload key \<longleftrightarrow>
     is_key key \<and> (decode_strict payload = Some key \<or> decode_strict payload = Some (key @ [10]))"

definition key_session :: "nat \<Rightarrow> http_target \<Rightarrow> nat list \<Rightarrow> key_event list \<Rightarrow> bool" where
  "key_session euid target key tr \<longleftrightarrow>
     (\<exists>fd before bss after.
        tr = [Opened_Fd fd, Inspected_Fd fd before] @ map (Read_Fd fd) (bss @ [[]])
          @ [Inspected_Fd fd after, Key_Given target key, Closed_Fd fd]
        \<and> private_inode euid before \<and> same_file before after \<and> in_size after = int (length (concat bss))
        \<and> one_line_text (concat bss) key)"

text \<open>Every trace: nothing, or one descriptor that is opened, used and closed.\<close>

definition one_descriptor :: "key_event list \<Rightarrow> bool" where
  "one_descriptor tr \<longleftrightarrow>
     tr = [] \<or> (\<exists>fd mid. tr = Opened_Fd fd # mid @ [Closed_Fd fd] \<and> list_all (within_fd fd) mid)"

lemma metadata_private: "metadata_error euid m = None \<Longrightarrow> private_inode euid m"
  by (auto simp: metadata_error_def private_inode_def max_credential_bytes_def split: if_splits)

lemma unchanged_same_file:
  "\<not> changed m n payload \<Longrightarrow> same_file m n \<and> in_size n = int (length payload)"
  by (auto simp: changed_def same_file_def)

lemma decode_key_text: "decode_key payload = Inr key \<Longrightarrow> one_line_text payload key"
  by (auto simp: decode_key_def one_line_text_def without_newline_def Let_def split: option.splits if_splits)
    (metis append_butlast_last_id)

lemma system_call_cases:
  assumes "system_call f event s = (s', r)"
  shows "(\<exists>w e. r = Inl e \<and> s' = s\<lparr>ky_world := w\<rparr>)
    \<or> (\<exists>w a. r = Inr a \<and> s' = s\<lparr>ky_world := w, ky_events := ky_events s @ [event a]\<rparr>)"
  using assms by (auto simp: system_call_def split: prod.splits sum.splits)

lemma system_callE:
  assumes "system_call f event s = (s', r)"
  obtains (failed) w e where "r = Inl e" "s' = s\<lparr>ky_world := w\<rparr>"
  | (answered) w a where "r = Inr a" "s' = s\<lparr>ky_world := w, ky_events := ky_events s @ [event a]\<rparr>"
  using system_call_cases [OF assms] by blast

text \<open>Reading: the bss come from the one descriptor, and a buffer is dropped only by raising.\<close>

lemma read_bounded_effect:
  "read_bounded k fd payload s = (s', out) \<Longrightarrow> length payload \<le> max_credential_bytes
    \<Longrightarrow> ky_open s' = ky_open s \<and> ky_payload s' = ky_payload s
      \<and> (case out of
           Inr bs \<Rightarrow> ky_dropped s' = ky_dropped s \<and> (\<exists>bss. bs = payload @ concat bss
             \<and> ky_events s' = ky_events s @ map (Read_Fd fd) (bss @ [[]]))
         | Inl e \<Rightarrow> \<exists>bss. ky_dropped s' = (payload @ concat bss) # ky_dropped s
             \<and> ky_events s' = ky_events s @ map (Read_Fd fd) bss)"
proof (induction k fd payload s rule: read_bounded.induct)
  case (1 k fd payload s)
  obtain s1 got where got: "system_call (k_read k fd (max_credential_bytes + 1 - length payload)) (Read_Fd fd) s = (s1, got)"
    by fastforce
  then show ?case
  proof (cases rule: system_callE)
    case (failed w e)
    then show ?thesis using 1(2) got by (subst (asm) read_bounded.simps) (auto intro: exI [of _ "[]"])
  next
    case (answered w chunk)
    consider "chunk = []" | "chunk \<noteq> []" "length (payload @ chunk) > max_credential_bytes"
      | "chunk \<noteq> []" "\<not> length (payload @ chunk) > max_credential_bytes" by blast
    then show ?thesis
    proof cases
      case 1
      then show ?thesis
        using \<open>read_bounded k fd payload s = (s', out)\<close> got answered
        by (subst (asm) read_bounded.simps) (auto intro: exI [of _ "[]"])
    next
      case 2
      then show ?thesis
        using \<open>read_bounded k fd payload s = (s', out)\<close> got answered
        by (subst (asm) read_bounded.simps) (auto intro!: exI [of _ "[chunk]"])
    next
      case 3
      have "read_bounded k fd (payload @ chunk) s1 = (s', out)"
        using 1(2) got answered(1) 3 by (subst (asm) read_bounded.simps) simp
      note more = 1(1) [OF got [symmetric] answered(1) 3 this]
      show ?thesis
      proof (cases out)
        case (Inl e)
        then obtain bss where "ky_dropped s' = (payload @ concat (chunk # bss)) # ky_dropped s"
          "ky_events s' = ky_events s @ map (Read_Fd fd) (chunk # bss)"
          using more 3(2) answered(2) by auto
        then show ?thesis using more 3(2) answered(2) Inl by (auto intro!: exI [of _ "chunk # bss"])
      next
        case (Inr bs)
        then obtain bss where "bs = payload @ concat (chunk # bss)"
          "ky_events s' = ky_events s @ map (Read_Fd fd) ((chunk # bss) @ [[]])"
          using more 3(2) answered(2) by auto
        then show ?thesis using more 3(2) answered(2) Inr by (auto intro!: exI [of _ "chunk # bss"])
      qed
    qed
  qed
qed

lemma with_payload_effect:
  assumes "with_payload k wire target fd before s = (s', out)"
  shows "ky_open s' = ky_open s \<and> ky_payload s' = ky_payload s \<and> ky_dropped s' = ky_dropped s
    \<and> ((\<exists>e. out = Inl e) \<and> (ky_events s' = ky_events s \<or> (\<exists>m. ky_events s' = ky_events s @ [Inspected_Fd fd m]))
      \<or> (\<exists>after key. ky_events s' = ky_events s @ [Inspected_Fd fd after, Key_Given target key]
          \<and> \<not> changed before after (ky_payload s) \<and> decode_key (ky_payload s) = Inr key))"
proof -
  obtain s1 got where got: "system_call (k_fstat k fd) (Inspected_Fd fd) s = (s1, got)" by fastforce
  then show ?thesis
  proof (cases rule: system_callE)
    case (failed w e)
    then show ?thesis using assms got by (auto simp: with_payload_def)
  next
    case (answered w after)
    show ?thesis
    proof (cases "changed before after (ky_payload s)")
      case True
      then show ?thesis using assms got answered by (auto simp: with_payload_def)
    next
      case False
      then show ?thesis
        using assms got answered
        by (auto simp: with_payload_def send_key_def split: sum.splits prod.splits)
    qed
  qed
qed

text \<open>What the block under the descriptor does: it fails, or it gives the key away.\<close>

definition key_left :: "nat \<Rightarrow> nat \<Rightarrow> http_target \<Rightarrow> key_event list \<Rightarrow> bool" where
  "key_left euid fd target mid \<longleftrightarrow>
     (\<exists>before bss after key. mid = Inspected_Fd fd before # map (Read_Fd fd) (bss @ [[]])
         @ [Inspected_Fd fd after, Key_Given target key]
       \<and> private_inode euid before \<and> same_file before after \<and> in_size after = int (length (concat bss))
       \<and> one_line_text (concat bss) key)"

definition no_key_left :: "bytes list \<Rightarrow> bytes list \<Rightarrow> key_event list \<Rightarrow> boundary_error + 'r \<Rightarrow> bool" where
  "no_key_left old new mid out \<longleftrightarrow> (\<exists>e. out = Inl e) \<and> keys_given mid = [] \<and> new \<in> {old, bytes_read mid # old}"

lemma with_descriptor_effect:
  assumes "with_descriptor k wire target fd s = (s', out)"
  shows "ky_open s' = ky_open s \<and> (\<exists>mid. ky_events s' = ky_events s @ mid \<and> list_all (within_fd fd) mid
    \<and> (no_key_left (ky_dropped s) (ky_dropped s') mid out
      \<or> key_left (k_euid k) fd target mid \<and> ky_payload s' = bytes_read mid \<and> ky_dropped s' = ky_dropped s))"
proof -
  obtain s1 got where got: "system_call (k_fstat k fd) (Inspected_Fd fd) s = (s1, got)" by fastforce
  then show ?thesis
  proof (cases rule: system_callE)
    case (failed w e)
    then show ?thesis using assms got by (auto simp: with_descriptor_def no_key_left_def)
  next
    case (answered w before)
    show ?thesis
    proof (cases "metadata_error (k_euid k) before")
      case (Some code)
      then show ?thesis
        using assms got answered by (auto simp: with_descriptor_def no_key_left_def)
    next
      case None
      obtain s2 rd where rd: "read_bounded k fd [] s1 = (s2, rd)" by fastforce
      note read = read_bounded_effect [OF rd]
      show ?thesis
      proof (cases rd)
        case (Inl e)
        obtain bss where "ky_dropped s2 = concat bss # ky_dropped s1"
          "ky_events s2 = ky_events s1 @ map (Read_Fd fd) bss"
          using read Inl by auto
        then show ?thesis
          using assms got answered None rd Inl read
          by (auto simp: with_descriptor_def no_key_left_def intro!: exI [of _ "Inspected_Fd fd before # map (Read_Fd fd) bss"])
      next
        case (Inr bs)
        obtain bss where bs: "bs = concat bss" "ky_events s2 = ky_events s1 @ map (Read_Fd fd) (bss @ [[]])"
          using read Inr by auto
        have "with_payload k wire target fd before (s2\<lparr>ky_payload := bs\<rparr>) = (s', out)"
          using assms got answered(1) None rd Inr by (simp add: with_descriptor_def)
        note after = with_payload_effect [OF this]
        let ?mid = "Inspected_Fd fd before # map (Read_Fd fd) (bss @ [[]])"
        have kept: "ky_open s' = ky_open s" "ky_dropped s' = ky_dropped s" "ky_payload s' = concat bss"
          using after read Inr answered(2) bs(1) by auto
        have start: "ky_events s2 = ky_events s @ ?mid" using bs answered(2) by simp
        from after consider (unsent) e evs where "out = Inl e" "ky_events s' = ky_events s @ ?mid @ evs"
            "evs = [] \<or> (\<exists>m. evs = [Inspected_Fd fd m])"
          | (given) after key where "ky_events s' = ky_events s @ ?mid @ [Inspected_Fd fd after, Key_Given target key]"
            "\<not> changed before after (concat bss)" "decode_key (concat bss) = Inr key"
          using start bs(1) by fastforce
        then show ?thesis
        proof cases
          case unsent
          then show ?thesis
            using kept by (intro conjI exI [of _ "?mid @ evs"]) (auto simp: no_key_left_def)
        next
          case (given m key)
          have "key_left (k_euid k) fd target (?mid @ [Inspected_Fd fd m, Key_Given target key])"
            using metadata_private [OF None] unchanged_same_file [OF given(2)] decode_key_text [OF given(3)]
            unfolding key_left_def by auto
          then show ?thesis
            using kept given(1) by (intro conjI exI [of _ "?mid @ [Inspected_Fd fd m, Key_Given target key]"]) auto
        qed
      qed
    qed
  qed
qed

text \<open>The whole use of a key, with its clean-up.\<close>

definition used_well ::
    "nat \<Rightarrow> http_target \<Rightarrow> 'w key_state \<Rightarrow> 'w key_state \<Rightarrow> key_event list \<Rightarrow> boundary_error + 'r \<Rightarrow> bool" where
  "used_well euid target s s' tr out \<longleftrightarrow>
     ky_events s' = ky_events s @ tr \<and> one_descriptor tr \<and> ky_open s' = ky_open s
     \<and> (no_key_left (ky_dropped s) (ky_dropped s') tr out \<and> set (ky_payload s') \<subseteq> set (ky_payload s) \<union> {0}
       \<or> (\<exists>key. key_session euid target key tr) \<and> ky_payload s' = replicate (length (bytes_read tr)) 0
         \<and> ky_dropped s' = ky_dropped s)"

lemma use_key_effect:
  assumes "use_edinet_api_key_for_send k wire target s = (s', out)"
  shows "\<exists>tr. used_well (k_euid k) target s s' tr out"
proof -
  obtain s1 got where got: "system_call (k_open k) Opened_Fd s = (s1, got)" by fastforce
  then show ?thesis
  proof (cases rule: system_callE)
    case (failed w e)
    then show ?thesis
      using assms got
      by (auto simp: use_edinet_api_key_for_send_def used_well_def one_descriptor_def no_key_left_def)
  next
    case (answered w fd)
    let ?s = "s1\<lparr>ky_open := fd # ky_open s1, ky_payload := []\<rparr>"
    obtain s2 out2 where body: "with_descriptor k wire target fd ?s = (s2, out2)" by fastforce
    have "wipe_and_close k fd s2 out2 = (s', out)"
      using assms got answered(1) body by (simp add: use_edinet_api_key_for_send_def)
    then have closed_up: "ky_open s' = remove1 fd (ky_open s2)" "ky_dropped s' = ky_dropped s2"
      "ky_payload s' = replicate (length (ky_payload s2)) 0" "ky_events s' = ky_events s2 @ [Closed_Fd fd]"
      "out = out2 \<or> out = Inl Os_Failure"
      by (auto simp: wipe_and_close_def Let_def split: prod.splits sum.splits)
    obtain mid where mid: "ky_open s2 = fd # ky_open s" "ky_events s2 = ky_events s @ Opened_Fd fd # mid"
      "list_all (within_fd fd) mid"
      "no_key_left (ky_dropped s) (ky_dropped s2) mid out2
        \<or> key_left (k_euid k) fd target mid \<and> ky_payload s2 = bytes_read mid \<and> ky_dropped s2 = ky_dropped s"
      using with_descriptor_effect [OF body] answered(2) by auto
    let ?tr = "Opened_Fd fd # mid @ [Closed_Fd fd]"
    have shape: "ky_events s' = ky_events s @ ?tr" "one_descriptor ?tr" "ky_open s' = ky_open s"
      using mid(1-3) closed_up(1,4) by (auto simp: one_descriptor_def)
    from mid(4) have "used_well (k_euid k) target s s' ?tr out"
    proof (elim disjE conjE)
      assume "no_key_left (ky_dropped s) (ky_dropped s2) mid out2"
      then show ?thesis
        using shape closed_up by (auto simp: used_well_def no_key_left_def)
    next
      assume left: "key_left (k_euid k) fd target mid" "ky_payload s2 = bytes_read mid" "ky_dropped s2 = ky_dropped s"
      have "\<exists>key. key_session (k_euid k) target key ?tr"
        using left(1) unfolding key_left_def key_session_def by fastforce
      then show ?thesis
        unfolding used_well_def using shape left(2,3) closed_up(2,3) by (intro conjI disjI2) simp_all
    qed
    then show ?thesis by blast
  qed
qed

lemma render_origin: "render_edinet_http_target i = Inr target \<Longrightarrow> ht_origin target = edinet_origin"
  by (auto simp: render_edinet_http_target_def checked_target_def Let_def split: if_splits)

lemma render_error: "render_edinet_http_target i = Inl e \<Longrightarrow> e \<in> {Edinet_Transport ''edinet_intent_not_approved'', Invalid_Model}"
  by (auto simp: render_edinet_http_target_def checked_target_def Let_def split: if_splits)

lemma preflight_error: "preflight_credential_file k p w = (w', Inl e) \<Longrightarrow> e = Path_Value_Error"
  by (auto simp: preflight_credential_file_def split: prod.splits sum.splits os_error.splits option.splits)

definition hidden :: "boundary_error \<Rightarrow> bool" where
  "hidden e \<longleftrightarrow> (\<forall>code. e \<noteq> Credential_Access code)"

lemma transport_cases:
  assumes "edinet_transport k wire i q s = (s', out)"
  obtains (refused) w e where "s' = s \<or> s' = s\<lparr>ky_world := w\<rparr>" "out = Inl e" "hidden e"
  | (used) target w out1 where "render_edinet_http_target i = Inr target"
      "use_edinet_api_key_for_send k wire target (s\<lparr>ky_world := w\<rparr>) = (s', out1)"
      "out = out1 \<or> (\<exists>e. out1 = Inl e) \<and> (\<exists>e. out = Inl e)" "\<forall>e. out = Inl e \<longrightarrow> hidden e"
proof (cases "render_edinet_http_target i")
  case (Inl e)
  then show thesis
    using assms refused [of undefined] render_error [OF Inl]
    by (auto simp: edinet_transport_def hidden_def split: if_splits)
next
  case (Inr target)
  obtain w found where found: "preflight_credential_file k owner_only (ky_world s) = (w, found)"
    by (cases "preflight_credential_file k owner_only (ky_world s)")
  show thesis
  proof (cases "q = to_transport_request i (tq_logical q) (tq_attempt q) \<and> found = Inr None")
    case True
    obtain s1 out1 where key: "use_edinet_api_key_for_send k wire target (s\<lparr>ky_world := w\<rparr>) = (s1, out1)"
      by (cases "use_edinet_api_key_for_send k wire target (s\<lparr>ky_world := w\<rparr>)")
    have answer: "(s', out) = (case (s1, out1) of
          (s1, Inl (Credential_Access _)) \<Rightarrow> (s1, Inl (Edinet_Transport ''edinet_physical_send_failed''))
        | (s1, Inl e) \<Rightarrow> (s1, Inl e) | (s1, Inr r) \<Rightarrow> (s1, Inr r))"
      using assms True Inr found key by (simp add: edinet_transport_def)
    have "s' = s1" "out = out1 \<or> (\<exists>e. out1 = Inl e) \<and> (\<exists>e. out = Inl e)" "\<forall>e. out = Inl e \<longrightarrow> hidden e"
      using answer by (auto simp: hidden_def split: sum.splits boundary_error.splits)
    then show thesis using used [OF Inr, of w out1] key by simp
  next
    case False
    then show thesis
      using assms Inr found refused [of w] preflight_error [of k owner_only "ky_world s" w]
      by (auto simp: edinet_transport_def hidden_def split: if_splits sum.splits option.splits)
  qed
qed

text \<open>
  C38: An EDINET send gives the key away only in one way, whatever the answers of the operating
  system and of the wire client. Either no key leaves the call and it raises; or the calls on
  descriptors in it are exactly: open one descriptor, find it a regular file of the user with mode
  0600 and 1 to 512 bytes, read that same descriptor to its end, find it the same file with as many
  bytes as were read, give the text of exactly those bytes, of one line and without its newline, to
  the wire client once and for the target rendered from the intent at the official origin, and
  close the descriptor. Then the buffer of the read is zeros. In every case the descriptors open
  before are open after, the caller's buffer holds zeros only, and a buffer is left behind unwiped
  only when reading raised, and then no key was given. No credential error leaves the transport.
\<close>

theorem edinet_key_stays_inside:
  assumes "edinet_transport k wire i q s = (s', out)" "set (ky_payload s) \<subseteq> {0}"
  shows "\<exists>tr. ky_events s' = ky_events s @ tr \<and> one_descriptor tr \<and> ky_open s' = ky_open s
    \<and> set (ky_payload s') \<subseteq> {0}
    \<and> (if keys_given tr = []
       then (\<exists>e. out = Inl e) \<and> ky_dropped s' \<in> {ky_dropped s, bytes_read tr # ky_dropped s}
       else \<exists>target key. render_edinet_http_target i = Inr target \<and> ht_origin target = edinet_origin
         \<and> key_session (k_euid k) target key tr \<and> ky_dropped s' = ky_dropped s
         \<and> ky_payload s' = replicate (length (bytes_read tr)) 0)
    \<and> (\<forall>e. out = Inl e \<longrightarrow> hidden e)"
  using assms(1)
proof (cases rule: transport_cases)
  case (refused w e)
  then show ?thesis using assms(2) by (intro exI [of _ "[]"]) (auto simp: one_descriptor_def)
next
  case (used target w out1)
  from use_key_effect [OF used(2)] obtain tr
    where tr: "used_well (k_euid k) target (s\<lparr>ky_world := w\<rparr>) s' tr out1" by blast
  note shape = tr [unfolded used_well_def]
  show ?thesis
  proof (cases "\<exists>key. key_session (k_euid k) target key tr")
    case True
    then obtain key where key: "key_session (k_euid k) target key tr" by blast
    then have "keys_given tr = [(target, key)]" by (auto simp: key_session_def)
    then show ?thesis
      using shape key used(1,4) render_origin [OF used(1)]
      by (intro exI [of _ tr]) (auto simp: no_key_left_def)
  next
    case False
    then show ?thesis
      using shape used(3,4) assms(2) by (intro exI [of _ tr]) (auto simp: no_key_left_def)
  qed
qed

section \<open>Examples\<close>

text \<open>A file with the two bytes of \<open>K\<close> and a newline; the world says whether it was read.\<close>

definition key_inode :: inode where
  "key_inode = \<lparr>in_dev = 1, in_ino = 2, in_kind = Regular_File, in_mode = 0x180, in_uid = 1000, in_size = 2\<rparr>"

definition key_kernel :: "bytes \<Rightarrow> bool kernel" where
  "key_kernel content =
     \<lparr>k_lstat = (\<lambda>w. (w, Inr key_inode)), k_readable = (\<lambda>w. (w, Inr True)), k_open = (\<lambda>w. (w, Inr 3)),
      k_fstat = (\<lambda>_ w. (w, Inr key_inode)), k_read = (\<lambda>_ _ w. (True, Inr (if w then [] else content))),
      k_close = (\<lambda>_ w. (w, Inr ())), k_euid = 1000\<rparr>"

definition list_intent :: source_intent where
  "list_intent =
     \<lparr>si_source = ''edinet'', si_operation = ''document-list'', si_origin = edinet_origin,
      si_resource = ''api-v2-documents'',
      si_parameters = [\<lparr>sp_name = ''date'', sp_value = ''2026-01-05''\<rparr>, \<lparr>sp_name = ''type'', sp_value = ''2''\<rparr>]\<rparr>"

definition idle_state :: "bool key_state" where
  "idle_state = \<lparr>ky_world = False, ky_open = [], ky_payload = [], ky_dropped = [], ky_events = []\<rparr>"

definition list_target :: http_target where
  "list_target = \<lparr>ht_origin = edinet_origin, ht_path = ''/api/v2/documents.json'', ht_query = si_parameters list_intent\<rparr>"

lemma list_target_valid: "valid_http_target list_target"
  by code_simp

lemma list_intent_rendered: "render_edinet_http_target list_intent = Inr list_target"
  using list_target_valid
  by (simp add: render_edinet_http_target_def checked_target_def list_target_def list_intent_def parameter_values_def)

definition key_trace :: "key_event list" where
  "key_trace = [Opened_Fd 3, Inspected_Fd 3 key_inode, Read_Fd 3 [75, 10], Read_Fd 3 [],
     Inspected_Fd 3 key_inode, Key_Given list_target [75], Closed_Fd 3]"

lemma key_sent:
  "edinet_transport (key_kernel [75, 10]) (\<lambda>t key w. (w, Inr (length key))) list_intent
      (to_transport_request list_intent ''l'' ''a'') idle_state
    = (\<lparr>ky_world = True, ky_open = [], ky_payload = [0, 0], ky_dropped = [], ky_events = key_trace\<rparr>, Inr 1)"
  by (simp add: edinet_transport_def list_intent_rendered to_transport_request_def preflight_credential_file_def
      key_kernel_def key_inode_def inode_rejection_def owner_only_def use_edinet_api_key_for_send_def
      with_descriptor_def metadata_error_def max_credential_bytes_def read_bounded.simps idle_state_def
      with_payload_def changed_def decode_key_def decode_strict_def without_newline_def is_key_def Let_def
      send_key_def wipe_and_close_def system_call_def key_trace_def)

theorem edinet_key_stays_inside_witness:
  "\<exists>key. key_session 1000 list_target key key_trace \<and> keys_given key_trace = [(list_target, [75])]"
  using edinet_key_stays_inside [OF key_sent] list_intent_rendered
  by (auto simp: idle_state_def key_trace_def key_kernel_def)

text \<open>
  Three things the boundary lets through: the bytes of a file that grew while it was read, which
  \<open>_read_bounded\<close> drops without clearing them; a document id with a colon, whose path the target's
  model refuses; and a parameter named with a colon.
\<close>

lemma grown_file_is_not_wiped:
  assumes "max_credential_bytes < length content"
  shows "use_edinet_api_key_for_send (key_kernel content) wire target idle_state
    = (\<lparr>ky_world = True, ky_open = [], ky_payload = [], ky_dropped = [content],
         ky_events = [Opened_Fd 3, Inspected_Fd 3 key_inode, Read_Fd 3 content, Closed_Fd 3]\<rparr>,
       Inl (Credential_Access ''credential_size_invalid''))"
proof -
  have "content \<noteq> []" using assms by auto
  then have "read_bounded (key_kernel content) 3 [] (idle_state\<lparr>ky_open := [3], ky_events := es\<rparr>)
    = (\<lparr>ky_world = True, ky_open = [3], ky_payload = [], ky_dropped = [content], ky_events = es @ [Read_Fd 3 content]\<rparr>,
       Inl (Credential_Access ''credential_size_invalid''))" for es
    using assms by (subst read_bounded.simps) (simp add: key_kernel_def idle_state_def system_call_def)
  then show ?thesis
    by (simp add: use_edinet_api_key_for_send_def with_descriptor_def metadata_error_def max_credential_bytes_def
        key_kernel_def key_inode_def idle_state_def sanitized_def wipe_and_close_def Let_def system_call_def)
qed

definition retrieval_intent :: "string \<Rightarrow> source_intent" where
  "retrieval_intent document =
     \<lparr>si_source = ''edinet'', si_operation = ''document-retrieval'', si_origin = edinet_origin, si_resource = document,
      si_parameters = [\<lparr>sp_name = ''document_id'', sp_value = document\<rparr>, \<lparr>sp_name = ''type'', sp_value = ''1''\<rparr>]\<rparr>"

lemma colon_in_document_id:
  "valid_intent (retrieval_intent ''S100:1'') \<and> render_edinet_http_target (retrieval_intent ''S100:1'') = Inl Invalid_Model"
  by code_simp

lemma colon_in_parameter_name: "valid_parameter \<lparr>sp_name = ''api:key'', sp_value = ''x''\<rparr>"
  by code_simp

end
