(* ===== verification/Spec2Isabelle.thy ===== *)
theory Spec2Isabelle
  imports Exchange Upgrade Completing Spacing Inventory Histories Pointers Dispatch Amendments Audits Evidence Credentials
begin

text \<open>
  A verification of \<open>stock_research_llm_orchestrator\<close> (\<open>src/src/stock_research_llm_orchestrator/\<close>;
  paths below are relative to that package): of its request runtime, its offline coordinator, its
  configuration, and the contracts, validators and credential boundary of the research pipeline.

  \<^bold>\<open>The program.\<close> Every external request of the research pipeline goes through one runtime
  (\<open>requests/\<close>). A SQLite database (\<open>storage.py\<close>) holds logical requests, their physical attempts, a fair queue,
  eight rate gates per attempt, single flights that let equal requests share one result, raw
  publications and one process lease. Each repository method is one transaction: it validates its
  arguments (\<open>production.py\<close>), checks the schema, compares the caller's lease with the lease row
  (the fence), and then reads and writes rows or raises, which rolls everything back.
  \<open>transport.py\<close> runs an exchange: take the gates, mark the attempt started, issue a one-shot
  permit, call the injected transport, validate the response, give the gates back.
  \<open>raw_artifacts.py\<close> stages the received bytes with their metadata, exposes them by one rename and
  commits a reference. A process that finds an expired lease takes over and settles what its
  predecessor left. \<open>coordinator.py\<close> is the older, in-memory coordinator: it binds a source to an
  approved profile of the configuration (\<open>configuration.py\<close>, \<open>models.py\<close>) and spaces the requests of
  a rate domain in float seconds. The documents of the pipeline are pydantic models
  (\<open>contracts/\<close>) with cross-field validators, checked by \<open>contracts/validation/\<close> before they are
  used; \<open>credentials/\<close> and \<open>sources/edinet/transport.py\<close> give the one secret of the system to the
  wire client, and \<open>preparation/financial_candidates.py\<close> judges the lineage of amended filings.

  \<^bold>\<open>The theories.\<close>
  \<^item> \<open>Prelude\<close>: exceptions, transactions (a state function that keeps the old state on an
    exception), their weakest preconditions, frame rules and preorders, SQL-like row operations.
  \<^item> \<open>Clock\<close>, \<open>Timestamps\<close>: \<open>datetime\<close> in microseconds, \<open>isoformat\<close> and \<open>fromisoformat\<close>.
  \<^item> \<open>Production\<close>: the contracts of \<open>production.py\<close> with their validators.
  \<^item> \<open>Store\<close>: tables, statements, constraints and the fence of \<open>storage.py\<close>.
  \<^item> \<open>History\<close>: the preorder of legal table histories, kept by every statement and operation.
  \<^item> \<open>Queue\<close>, \<open>Gates\<close>, \<open>Attempts\<close>, \<open>Flights\<close>, \<open>Leases\<close>, \<open>Publications\<close>: the repository's
    operations, one definition each, named as the methods.
  \<^item> \<open>Frames\<close>, \<open>Runtime\<close>: which operation leaves which tables alone; the datatype of all
    operations, runs, reachability, and the locale of invariants interpreted for each of them.
  \<^item> \<open>Examples\<close>: concrete runs that the witnesses use.
  \<^item> \<open>Fencing\<close>, \<open>Occupancy\<close>, \<open>GateSafety\<close>, \<open>RateLimits\<close>: safety of leases and of the gates.
  \<^item> \<open>Migration\<close>, \<open>Upgrade\<close>: \<open>initialize_runtime_storage\<close> and the seven schema migrations, with the
    commits that \<open>sqlite3\<close> makes, and what a crash leaves.
  \<^item> \<open>Effects\<close>, \<open>Transport\<close>, \<open>Exchange\<close>: programs whose state survives an exception; permits and
    exchanges of \<open>transport.py\<close>; what an exchange leaves behind, also when its lease ends on the
    way, and how the envelope-aware exchange relates to the plain one.
  \<^item> \<open>Sha256\<close>, \<open>Json\<close>: \<open>hashlib.sha256\<close> and the part of \<open>json\<close> that the publisher uses.
  \<^item> \<open>Publisher\<close>, \<open>Files\<close>: \<open>publish\<close> and \<open>reconcile\<close> of \<open>raw_artifacts.py\<close> over a file system with a
    schedule of faults, and the rules to reason about it.
  \<^item> \<open>Publishing\<close>, \<open>Settling\<close>, \<open>Completing\<close>: the phases a publication can be left in by a fault,
    what a reconciliation makes of each, and the publication that nothing disturbs.
  \<^item> \<open>Doubles\<close>: IEEE 754 binary64 numbers with round-half-even, as far as the coordinator and the
    \<open>timedelta\<close> arithmetic use them.
  \<^item> \<open>Contracts\<close>, \<open>Policies\<close>, \<open>Configuration\<close>, \<open>Sources\<close>: the shared contract primitives, request
    audit events, approvals, profiles and policies, the loaded configuration, and the binding of a
    source. \<open>Inventory\<close>: which configurations are accepted and which bindings they give.
  \<^item> \<open>Coordinator\<close>, \<open>Coordination\<close>, \<open>Samples\<close>, \<open>Spacing\<close>: \<open>Coordinator.attempt\<close>, that it always
    answers, example bindings, and the distance of the requests of a rate domain for every history
    of attempts, nested calls of the transport included.
  \<^item> \<open>Lifecycle\<close>, \<open>Agents\<close>, \<open>Histories\<close>: task states and the execution manifest, agent runs, and what
    their accepted histories are.
  \<^item> \<open>Reviews\<close>, \<open>Audits\<close>, \<open>Evidence\<close>: findings, reviews and responses, disputes and audits, and the
    evidence set. Each ends with what an accepted document guarantees.
  \<^item> \<open>Validation\<close>, \<open>Pointers\<close>, \<open>Dispatch\<close>: the error artifact and the dedicated validators, the
    pointers that the security scan reports, and the dispatch of a loaded document to its model.
  \<^item> \<open>Credentials\<close>: intents, preflight, reading and using the EDINET key, with a trace of the calls on
    the descriptor that the theorem about the key speaks of; the code does not read this trace.
  \<^item> \<open>Amendments\<close>: the walk up the parents of a filing, and why it ends.

  \<^bold>\<open>State and operations.\<close> A table is a list of records in the order of insertion; a timestamp
  column holds the instant in microseconds, because comparing the texts agrees with comparing the
  instants (\<open>isoformat_order\<close>). A repository method maps a database to a database and either an
  exception or a value. An exchange and a publication are programs over a record that has the
  database as one field. A pydantic model is a record with a \<open>valid_*\<close> predicate; a field that a
  \<open>Literal\<close> fixes to one value is left out. Callbacks, transports, wire clients, validators of
  source-native bytes, id factories, clocks, the operating system under the credential boundary,
  the YAML loader and the discovery of configuration files are parameters. Of them the development
  assumes that clocks and factories do not call back into the coordinator, that a monotonic reading
  is a float, and that a \<open>datetime\<close> has a fixed offset.

  \<^bold>\<open>Bounds and fuel.\<close> Recursions are structural or have a measure; the JSON parser takes the length
  of the document as fuel, and every call uses up a character. The bounded read of a key has the
  bytes left as its measure. The walk over the parents of a filing is a partial function, and
  \<open>correction_reasons_answers\<close> proves that it always answers. The run of the gates is bounded by
  the policy, which is what the \<open>RateLimits\<close> theorems state.

  \<^bold>\<open>What modelling showed.\<close> Several lemmas and theorems state behaviour the code does not mean to
  have: \<open>interrupted_first_migration_is_stuck\<close>, \<open>unnameable_bundle_blocks_reconciliation\<close>,
  \<open>huge_profile_raises\<close>, \<open>bare_prefix_escapes\<close>, \<open>list_keys_are_unhashable\<close>, \<open>self_parent_accepted\<close>,
  \<open>grown_file_is_not_wiped\<close>, \<open>colon_in_document_id\<close> and \<open>colon_in_parameter_name\<close>.

  \<^bold>\<open>Not modelled.\<close> Concurrent SQLite connections (each transaction is serialised by
  \<open>BEGIN IMMEDIATE\<close>) and the PRAGMAs a connection sets, objects given to the offline coordinator as a
  response whose \<open>model_dump\<close> or re-validation raises, operating system errors inside a repository method other than a failure of
  the whole method, SQLite's 64-bit limit on integers, text in characters above code point 255
  outside \<open>Json\<close>, \<open>Validation\<close> and \<open>Credentials\<close>, JSON documents in UTF-16 or UTF-32, the texts of
  pydantic's own errors, the remaining document models (analysis, research, instructions,
  operations, task, final output), source adapters over third-party clients and parsers, the
  preparation of price, FX and disclosure evidence, and the command lines: decimal arithmetic over
  third-party tables, XML, ZIP, spreadsheet and PDF parsing, and argument handling.
\<close>

end
